(* ===== verification/Prelude.thy ===== *)
theory Prelude
  imports Main
begin

text \<open>
  Shared vocabulary of the development: the collection of simplification rules that the
  theories of API objects fill, and the generic facts about lists that several of them need.

  Conventions.  A Go function returning \<open>(T, error)\<close> has type \<open>goerror + T\<close> (\<open>Inl\<close>
  for a non-nil error), one returning \<open>error\<close> alone has type \<open>goerror option\<close>
  (\<open>None\<close> is nil), and one that also acts on the cluster takes the world as its last
  argument and returns it paired with the result.  A Go string is a byte string, here a
  \<open>char list\<close>.
\<close>

named_theorems key_simps \<open>keys, kinds and metadata of API objects\<close>

section \<open>Lists cut at a character\<close>

lemma takeWhile_stop:
  "x \<notin> set a \<Longrightarrow> takeWhile (\<lambda>c. c \<noteq> x) (a @ x # b) = a"
  by (induction a) auto

lemma dropWhile_stop:
  "x \<notin> set a \<Longrightarrow> dropWhile (\<lambda>c. c \<noteq> x) (a @ x # b) = x # b"
  by (induction a) auto

lemma takeWhile_none:
  "x \<notin> set a \<Longrightarrow> takeWhile (\<lambda>c. c \<noteq> x) a = a"
  by (induction a) auto

lemma dropWhile_none:
  "x \<notin> set a \<Longrightarrow> dropWhile (\<lambda>c. c \<noteq> x) a = []"
  by (induction a) auto

lemma cut_unique:
  assumes "x \<notin> set a" and "x \<notin> set c" and "a @ x # b = c @ x # d"
  shows "a = c \<and> b = d"
proof -
  have "a = takeWhile (\<lambda>y. y \<noteq> x) (a @ x # b)" using assms(1) by (simp add: takeWhile_stop)
  also have "\<dots> = c" using assms(2,3) by (simp add: takeWhile_stop)
  finally show ?thesis using assms(3) by simp
qed

lemma length_dropWhile_less: "length (dropWhile P xs) < Suc (length xs)"
  by (simp add: length_dropWhile_le less_Suc_eq_le)

end
