(* ===== verification/GoStd.thy ===== *)
theory GoStd
  imports Prelude "HOL-Library.Char_ord"
begin

text \<open>
  The part of Go's standard library the operator uses: error values with wrapping
  (\<open>errors\<close>, \<open>fmt.Errorf\<close>), the functions of \<open>strings\<close>, \<open>regexp.QuoteMeta\<close>,
  \<open>strconv.Atoi\<close>, the decimal verb of \<open>fmt\<close>, and the UTF-8 decoding that a
  \<open>range\<close> loop over a string performs.
\<close>

section \<open>Error values\<close>

text \<open>
  \<open>ApiError\<close> is a Kubernetes status error with its reason, \<open>Sentinel\<close> a package-level
  \<open>errors.New\<close> value (the texts of the program's sentinels are distinct, so the text
  stands for the pointer identity \<open>errors.Is\<close> compares), \<open>Plain\<close> an error built without
  \<open>%w\<close>, and \<open>Wrapf\<close> an \<open>fmt.Errorf\<close> whose \<open>%w\<close> argument is the inner error.
\<close>

datatype api_reason = NotFound | AlreadyExists | Conflict | Forbidden | Unavailable

datatype goerror =
    ApiError api_reason string
  | Sentinel string
  | Plain string
  | Wrapf string goerror string

fun error_text :: "goerror \<Rightarrow> string" where
  "error_text (ApiError r m) = m"
| "error_text (Sentinel m) = m"
| "error_text (Plain m) = m"
| "error_text (Wrapf pre e post) = pre @ error_text e @ post"

text \<open>\<open>apierrors.IsNotFound\<close> looks through wrapping, as \<open>errors.As\<close> does.\<close>

fun is_not_found :: "goerror \<Rightarrow> bool" where
  "is_not_found (ApiError r m) = (r = NotFound)"
| "is_not_found (Sentinel m) = False"
| "is_not_found (Plain m) = False"
| "is_not_found (Wrapf pre e post) = is_not_found e"

fun errors_is :: "goerror \<Rightarrow> goerror \<Rightarrow> bool" where
  "errors_is (Wrapf pre e post) t = (Wrapf pre e post = t \<or> errors_is e t)"
| "errors_is e t = (e = t)"

section \<open>strings\<close>

definition has_prefix :: "string \<Rightarrow> string \<Rightarrow> bool" where
  "has_prefix s p = (take (length p) s = p)"

lemma has_prefix_append [simp]: "has_prefix (p @ s) p"
  by (simp add: has_prefix_def)

lemma has_prefixE: "has_prefix s p \<Longrightarrow> \<exists>t. s = p @ t"
  unfolding has_prefix_def by (metis append_take_drop_id)

text \<open>\<open>strings.Split\<close> and \<open>strings.SplitN(s, sep, 2)\<close> for a one-byte separator.\<close>

fun strings_split :: "char \<Rightarrow> string \<Rightarrow> string list" where
  "strings_split c [] = [[]]"
| "strings_split c (x # xs) =
     (if x = c then [] # strings_split c xs
      else (case strings_split c xs of [] \<Rightarrow> [[x]] | y # ys \<Rightarrow> (x # y) # ys))"

definition strings_splitN2 :: "char \<Rightarrow> string \<Rightarrow> string list" where
  "strings_splitN2 c s =
     (if c \<in> set s then [takeWhile (\<lambda>x. x \<noteq> c) s, tl (dropWhile (\<lambda>x. x \<noteq> c) s)] else [s])"

fun strings_join :: "string \<Rightarrow> string list \<Rightarrow> string" where
  "strings_join sep [] = []"
| "strings_join sep [x] = x"
| "strings_join sep (x # y # ys) = x @ sep @ strings_join sep (y # ys)"

text \<open>\<open>strings.ReplaceAll\<close> for a one-byte old string.\<close>

definition replace_all :: "char \<Rightarrow> string \<Rightarrow> string \<Rightarrow> string" where
  "replace_all c t s = concat (map (\<lambda>x. if x = c then t else [x]) s)"

definition contains_any :: "string \<Rightarrow> char list \<Rightarrow> bool" where
  "contains_any s cs = list_ex (\<lambda>x. x \<in> set cs) s"

lemma strings_split_not_empty [simp]: "strings_split c s \<noteq> []"
  by (induction s) (auto split: list.splits)

lemma strings_split_single: "c \<notin> set s \<Longrightarrow> strings_split c s = [s]"
  by (induction s) auto

lemma strings_split_append:
  "c \<notin> set a \<Longrightarrow> strings_split c (a @ c # b) = a # strings_split c b"
  by (induction a) auto

lemma strings_split_join:
  "xs \<noteq> [] \<Longrightarrow> \<forall>x \<in> set xs. c \<notin> set x \<Longrightarrow> strings_split c (strings_join [c] xs) = xs"
proof (induction "[c]" xs rule: strings_join.induct)
  case (3 x y ys)
  then show ?case by (simp add: strings_split_append)
qed (simp_all add: strings_split_single)

lemma strings_splitN2_found:
  "c \<notin> set a \<Longrightarrow> strings_splitN2 c (a @ c # b) = [a, b]"
  by (simp add: strings_splitN2_def takeWhile_stop dropWhile_stop)

section \<open>regexp.QuoteMeta\<close>

text \<open>The bytes \<open>\\.+*?()|[]{}^$\<close>, each escaped with a backslash.\<close>

definition backslash :: char where "backslash = CHR 0x5C"

definition regex_special :: "char \<Rightarrow> bool" where
  "regex_special c = (c \<in> set (CHR 0x5C # ''.+*?()|[]{}^$''))"

definition quote_meta :: "string \<Rightarrow> string" where
  "quote_meta s = concat (map (\<lambda>c. if regex_special c then [backslash, c] else [c]) s)"

lemma quote_meta_append: "quote_meta (a @ b) = quote_meta a @ quote_meta b"
  by (simp add: quote_meta_def)

lemma quote_meta_Nil [simp]: "quote_meta [] = []"
  by (simp add: quote_meta_def)

section \<open>Decimal numbers\<close>

datatype num_error = NumSyntax | NumRange

definition digit_value :: "char \<Rightarrow> nat" where
  "digit_value c = of_char c - 48"

definition is_digit :: "char \<Rightarrow> bool" where
  "is_digit c = (48 \<le> (of_char c :: nat) \<and> (of_char c :: nat) \<le> 57)"

definition nat_of_digits :: "string \<Rightarrow> nat" where
  "nat_of_digits s = foldl (\<lambda>n c. 10 * n + digit_value c) 0 s"

text \<open>\<open>strconv.Atoi\<close> on a 64-bit platform: an optional sign, then decimal digits.\<close>

definition go_atoi :: "string \<Rightarrow> num_error + int" where
  "go_atoi s =
     (let neg = (s \<noteq> [] \<and> hd s = CHR ''-'');
          body = (if s \<noteq> [] \<and> (hd s = CHR ''-'' \<or> hd s = CHR ''+'') then tl s else s)
      in if body = [] \<or> \<not> list_all is_digit body then Inl NumSyntax
         else (let n = int (nat_of_digits body); v = (if neg then - n else n)
               in if v < - (2 ^ 63) \<or> 2 ^ 63 \<le> v then Inl NumRange else Inr v))"

text \<open>The \<open>%d\<close> verb.\<close>

definition digit_char :: "nat \<Rightarrow> char" where
  "digit_char d = char_of (48 + d)"

fun nat_to_dec :: "nat \<Rightarrow> string" where
  "nat_to_dec n = (if n < 10 then [digit_char n] else nat_to_dec (n div 10) @ [digit_char (n mod 10)])"

declare nat_to_dec.simps [simp del]

definition int_to_dec :: "int \<Rightarrow> string" where
  "int_to_dec i = (if i < 0 then CHR ''-'' # nat_to_dec (nat (- i)) else nat_to_dec (nat i))"

lemma digit_value_char: "d < 10 \<Longrightarrow> digit_value (digit_char d) = d"
  by (simp add: digit_value_def digit_char_def)

lemma is_digit_char: "d < 10 \<Longrightarrow> is_digit (digit_char d)"
  by (simp add: is_digit_def digit_char_def)

lemma nat_to_dec_nonempty [simp]: "nat_to_dec n \<noteq> []"
  by (subst nat_to_dec.simps) simp

lemma nat_to_dec_digits: "list_all is_digit (nat_to_dec n)"
proof (induction n rule: nat_to_dec.induct)
  case (1 n)
  then show ?case by (subst nat_to_dec.simps) (simp add: is_digit_char)
qed

lemma nat_of_digits_snoc: "nat_of_digits (s @ [c]) = 10 * nat_of_digits s + digit_value c"
  by (simp add: nat_of_digits_def)

lemma nat_of_digits_dec: "nat_of_digits (nat_to_dec n) = n"
proof (induction n rule: nat_to_dec.induct)
  case (1 n)
  show ?case
  proof (cases "n < 10")
    case True
    then show ?thesis
      by (subst nat_to_dec.simps) (simp add: nat_of_digits_def digit_value_char)
  next
    case False
    with 1 show ?thesis
      by (subst nat_to_dec.simps) (simp add: nat_of_digits_snoc digit_value_char)
  qed
qed

lemma hd_nat_to_dec: "is_digit (hd (nat_to_dec n))"
  using nat_to_dec_digits [of n] by (cases "nat_to_dec n") auto

lemma sign_not_digit [simp]: "\<not> is_digit CHR ''-''" "\<not> is_digit CHR ''+''" "\<not> is_digit CHR '':''"
  by (simp_all add: is_digit_def)

lemma go_atoi_digits:
  assumes "s \<noteq> []" and "list_all is_digit s"
  shows "go_atoi s = (if int (nat_of_digits s) < 2 ^ 63 then Inr (int (nat_of_digits s)) else Inl NumRange)"
proof -
  from assms have "hd s \<noteq> CHR ''-''" "hd s \<noteq> CHR ''+''" by (cases s; auto)+
  with assms show ?thesis by (simp add: go_atoi_def Let_def)
qed

lemma go_atoi_dec: "n < 2 ^ 63 \<Longrightarrow> go_atoi (nat_to_dec n) = Inr (int n)"
  by (simp add: go_atoi_digits nat_to_dec_digits nat_of_digits_dec)

end
