(* ===== verification/KubeObjects.thy ===== *)
theory KubeObjects
  imports GoStd "HOL-Library.Word"
begin

text \<open>
  The API objects the controllers read and write, with the fields the operator uses: its own
  custom resources (\<open>ToolGateway\<close>, \<open>ToolGatewayClass\<close>, \<open>ToolRoute\<close>, \<open>ToolServer\<close>,
  \<open>Guard\<close>, \<open>GuardrailProvider\<close>), the Gateway API and core objects it creates, and the
  agentgateway resources it handles as unstructured JSON.  A nil pointer is \<open>None\<close>; a Go map
  that may be nil is an optional map.
\<close>

section \<open>JSON values and metadata\<close>

datatype json =
    JNull
  | JBool bool
  | JInt int
  | JStr string
  | JList "json list"
  | JMap "string \<rightharpoonup> json"

type_synonym jobject = "string \<rightharpoonup> json"

text \<open>The value at a path of field names.\<close>

fun json_get :: "jobject \<Rightarrow> string list \<Rightarrow> json option" where
  "json_get m [] = Some (JMap m)"
| "json_get m (k # ks) =
     (case m k of
        None \<Rightarrow> None
      | Some v \<Rightarrow> (if ks = [] then Some v else (case v of JMap m' \<Rightarrow> json_get m' ks | _ \<Rightarrow> None)))"

datatype kind =
    KToolGateway | KToolGatewayClass | KToolRoute | KToolServer | KGuard | KGuardrailProvider
  | KGateway | KHTTPRoute | KConfigMap | KDeployment | KService
  | KUnstructured string string

record owner_ref =
  or_Kind :: kind
  or_Name :: string
  or_Uid :: string
  or_Controller :: bool

record object_meta =
  m_Name :: string
  m_Namespace :: string
  m_Uid :: string
  m_Generation :: int
  m_Annotations :: "string \<rightharpoonup> string"
  m_Owners :: "owner_ref list"

definition new_meta :: "string \<Rightarrow> string \<Rightarrow> object_meta" where
  "new_meta name ns =
     \<lparr>m_Name = name, m_Namespace = ns, m_Uid = [], m_Generation = 0, m_Annotations = Map.empty, m_Owners = []\<rparr>"

text \<open>\<open>types.NamespacedName\<close>, namespace first, and the key of an object in the cluster.\<close>

type_synonym nsname = "string \<times> string"
type_synonym okey = "kind \<times> nsname"

text \<open>\<open>metav1.Condition\<close>; the transition time is set by the library.\<close>

record condition =
  cd_Type :: string
  cd_Status :: string
  cd_Reason :: string
  cd_Message :: string
  cd_ObservedGeneration :: int
  cd_TransitionTime :: nat

definition ConditionTrue :: string where "ConditionTrue = ''True''"
definition ConditionFalse :: string where "ConditionFalse = ''False''"

text \<open>Equal but for the transition time.\<close>

definition same_condition :: "condition \<Rightarrow> condition \<Rightarrow> bool" where
  "same_condition c d = (c\<lparr>cd_TransitionTime := 0\<rparr> = d\<lparr>cd_TransitionTime := 0\<rparr>)"

section \<open>Custom resources\<close>

text \<open>\<open>corev1.ObjectReference\<close>.\<close>

record object_ref =
  ref_Name :: string
  ref_Namespace :: string

record env_var =
  ev_Name :: string
  ev_Value :: string
  ev_ValueFrom :: "json option"

record env_from = ef_Source :: json

record tool_gateway =
  tg_Meta :: object_meta
  tg_ClassName :: string
  tg_Env :: "env_var list"
  tg_EnvFrom :: "env_from list"
  tg_Guardrails :: "object_ref list"
  tg_Url :: string
  tg_Conditions :: "condition list"

record tool_gateway_class =
  tgc_Meta :: object_meta
  tgc_Controller :: string

record tool_filter =
  tf_Allow :: "string list"
  tf_Deny :: "string list"

record tool_route =
  tr_Meta :: object_meta
  tr_ToolGatewayRef :: "object_ref option"
  tr_ToolServerRef :: "object_ref option"
  tr_External :: "string option"
  tr_ToolFilter :: "tool_filter option"
  tr_Url :: string
  tr_Conditions :: "condition list"

record tool_server =
  ts_Meta :: object_meta
  ts_Port :: "32 word"
  ts_Path :: string

record presidio_guard_config =
  pg_Language :: string
  pg_ScoreThresholds :: "string \<rightharpoonup> string"
  pg_EntityActions :: "string \<rightharpoonup> string"

record guard =
  g_Meta :: object_meta
  g_Mode :: "string list"
  g_ProviderRef :: object_ref
  g_Presidio :: "presidio_guard_config option"
  g_Conditions :: "condition list"

text \<open>\<open>gp_Presidio\<close> is the provider's Presidio section, of which \<open>baseUrl\<close> is read.\<close>

record guardrail_provider =
  gp_Meta :: object_meta
  gp_Type :: string
  gp_Presidio :: "string option"

section \<open>Generated objects\<close>

record listener =
  ln_Name :: string
  ln_Protocol :: string
  ln_Port :: "32 word"
  ln_AllowedFrom :: "string option"

record local_ref =
  lr_Group :: string
  lr_Kind :: string
  lr_Name :: string

record gateway_spec =
  gs_ClassName :: string
  gs_Listeners :: "listener list"
  gs_ParametersRef :: "local_ref option"

record gateway =
  gw_Meta :: object_meta
  gw_Spec :: gateway_spec

record parent_ref =
  pa_Name :: string
  pa_Namespace :: "string option"

record backend_ref =
  br_Group :: "string option"
  br_Kind :: "string option"
  br_Name :: string
  br_Namespace :: "string option"

record path_match =
  pm_Type :: string
  pm_Value :: string

record http_rule =
  hl_BackendRefs :: "backend_ref list"
  hl_Matches :: "path_match list"

record http_route_spec =
  hs_ParentRefs :: "parent_ref list"
  hs_Rules :: "http_rule list"

record http_route =
  hr_Meta :: object_meta
  hr_Spec :: http_route_spec

record config_map =
  cm_Meta :: object_meta
  cm_Data :: "(string \<rightharpoonup> string) option"

record container_port =
  cp_Name :: string
  cp_Port :: "32 word"

record volume_mount =
  vm_Name :: string
  vm_MountPath :: string
  vm_ReadOnly :: bool

record probe =
  pb_Path :: string
  pb_Port :: "32 word"
  pb_InitialDelay :: "32 word"
  pb_Period :: "32 word"

record container =
  ct_Name :: string
  ct_Image :: string
  ct_PullPolicy :: string
  ct_Args :: "string list"
  ct_Ports :: "container_port list"
  ct_Env :: "env_var list"
  ct_VolumeMounts :: "volume_mount list"
  ct_ReadinessProbe :: "probe option"
  ct_LivenessProbe :: "probe option"

text \<open>A volume backed by a ConfigMap: its name and the ConfigMap's.\<close>

record volume =
  vo_Name :: string
  vo_ConfigMap :: string

record pod_spec =
  ps_AutomountToken :: "bool option"
  ps_Containers :: "container list"
  ps_Volumes :: "volume list"

record deployment =
  dp_Meta :: object_meta
  dp_Replicas :: "32 word option"
  dp_Selector :: "(string \<rightharpoonup> string) option"
  dp_TemplateLabels :: "(string \<rightharpoonup> string) option"
  dp_TemplateAnnotations :: "(string \<rightharpoonup> string) option"
  dp_PodSpec :: pod_spec

record service_port =
  sp_Name :: string
  sp_Port :: "32 word"
  sp_TargetPort :: "32 word"
  sp_Protocol :: string
  sp_AppProtocol :: "string option"

record service =
  sv_Meta :: object_meta
  sv_Selector :: "(string \<rightharpoonup> string) option"
  sv_Ports :: "service_port list"

text \<open>\<open>unstructured.Unstructured\<close>: the metadata, and the other top-level fields as JSON.\<close>

record unstructured =
  us_ApiVersion :: string
  us_Kind :: string
  us_Meta :: object_meta
  us_Object :: jobject

section \<open>Objects of any kind\<close>

datatype kobj =
    OToolGateway tool_gateway
  | OToolGatewayClass tool_gateway_class
  | OToolRoute tool_route
  | OToolServer tool_server
  | OGuard guard
  | OGuardrailProvider guardrail_provider
  | OGateway gateway
  | OHTTPRoute http_route
  | OConfigMap config_map
  | ODeployment deployment
  | OService service
  | OUnstructured unstructured

fun kind_of :: "kobj \<Rightarrow> kind" where
  "kind_of (OToolGateway g) = KToolGateway"
| "kind_of (OToolGatewayClass c) = KToolGatewayClass"
| "kind_of (OToolRoute r) = KToolRoute"
| "kind_of (OToolServer s) = KToolServer"
| "kind_of (OGuard g) = KGuard"
| "kind_of (OGuardrailProvider p) = KGuardrailProvider"
| "kind_of (OGateway g) = KGateway"
| "kind_of (OHTTPRoute r) = KHTTPRoute"
| "kind_of (OConfigMap c) = KConfigMap"
| "kind_of (ODeployment d) = KDeployment"
| "kind_of (OService s) = KService"
| "kind_of (OUnstructured u) = KUnstructured (us_ApiVersion u) (us_Kind u)"

fun meta_of :: "kobj \<Rightarrow> object_meta" where
  "meta_of (OToolGateway g) = tg_Meta g"
| "meta_of (OToolGatewayClass c) = tgc_Meta c"
| "meta_of (OToolRoute r) = tr_Meta r"
| "meta_of (OToolServer s) = ts_Meta s"
| "meta_of (OGuard g) = g_Meta g"
| "meta_of (OGuardrailProvider p) = gp_Meta p"
| "meta_of (OGateway g) = gw_Meta g"
| "meta_of (OHTTPRoute r) = hr_Meta r"
| "meta_of (OConfigMap c) = cm_Meta c"
| "meta_of (ODeployment d) = dp_Meta d"
| "meta_of (OService s) = sv_Meta s"
| "meta_of (OUnstructured u) = us_Meta u"

definition meta_key :: "object_meta \<Rightarrow> nsname" where
  "meta_key m = (m_Namespace m, m_Name m)"

definition key_of :: "kobj \<Rightarrow> okey" where
  "key_of ob = (kind_of ob, meta_key (meta_of ob))"

lemmas [key_simps] = meta_key_def key_of_def

text \<open>
  The controller of an object, if it has one, by kind and name (an owner lives in the
  namespace of what it owns).
\<close>

definition controller_of :: "object_meta \<Rightarrow> (kind \<times> string) option" where
  "controller_of m = map_option (\<lambda>r. (or_Kind r, or_Name r)) (find or_Controller (m_Owners m))"

text \<open>The status conditions of an object; only the operator's own resources have them here.\<close>

fun conditions_of :: "kobj \<Rightarrow> condition list" where
  "conditions_of (OToolGateway g) = tg_Conditions g"
| "conditions_of (OToolRoute r) = tr_Conditions r"
| "conditions_of (OGuard g) = g_Conditions g"
| "conditions_of _ = []"

text \<open>The status as a whole: the URL and the conditions.\<close>

fun status_of :: "kobj \<Rightarrow> string \<times> condition list" where
  "status_of (OToolGateway tg) = (tg_Url tg, tg_Conditions tg)"
| "status_of (OToolRoute rt) = (tr_Url rt, tr_Conditions rt)"
| "status_of (OGuard g) = ([], g_Conditions g)"
| "status_of _ = ([], [])"

lemma meta_key_new [simp]: "meta_key (new_meta n ns) = (ns, n)"
  by (simp add: meta_key_def new_meta_def)

lemma meta_key_owners [simp]: "meta_key (m\<lparr>m_Owners := os\<rparr>) = meta_key m"
  by (simp add: meta_key_def)

lemma same_condition_refl [simp]: "same_condition c c"
  by (simp add: same_condition_def)

lemma same_condition_fields:
  "same_condition c d \<Longrightarrow> cd_Type c = cd_Type d \<and> cd_Status c = cd_Status d \<and> cd_Reason c = cd_Reason d
     \<and> cd_Message c = cd_Message d \<and> cd_ObservedGeneration c = cd_ObservedGeneration d"
  by (cases c; cases d) (simp add: same_condition_def)

lemma same_condition_sym: "same_condition c d \<Longrightarrow> same_condition d c"
  by (simp add: same_condition_def)

lemma same_condition_trans: "same_condition c d \<Longrightarrow> same_condition d e \<Longrightarrow> same_condition c e"
  by (simp add: same_condition_def)

end
