(* ===== verification/KubeClient.thy ===== *)
theory KubeClient
  imports KubeObjects
begin

text \<open>
  What the controllers rely on and the repository does not contain: the Kubernetes client
  (controller-runtime) and the helper packages of apimachinery.  Both are records of
  functions, passed to every definition that uses them; the world \<open>'w\<close> is abstract.  The
  locales state the documented behaviour of these functions, and the facts the controllers'
  proofs share are proved from it.  \<open>KubeMemory\<close> gives implementations that satisfy the laws.
\<close>

section \<open>The client\<close>

datatype op_result = OpNone | OpCreated | OpUpdated | OpUpdatedStatus | OpUpdatedStatusOnly

record kevent =
  en_Regarding :: okey
  en_Reason :: string
  en_Action :: string
  en_Note :: string

text \<open>
  \<open>c_create_or_patch ob f\<close> is \<open>controllerutil.CreateOrPatch\<close> with the mutate function \<open>f\<close>
  (run on the stored object, or on \<open>ob\<close> when there is none); \<open>c_patch_status base new\<close> is
  \<open>Status().Patch\<close> with the merge patch from \<open>base\<close> to \<open>new\<close>.
\<close>

record 'w client =
  c_get :: "okey \<Rightarrow> 'w \<Rightarrow> goerror + kobj"
  c_list :: "kind \<Rightarrow> string option \<Rightarrow> 'w \<Rightarrow> goerror + kobj list"
  c_create_or_patch :: "kobj \<Rightarrow> (kobj \<Rightarrow> goerror + kobj) \<Rightarrow> 'w \<Rightarrow> (goerror + op_result) \<times> 'w"
  c_delete :: "okey \<Rightarrow> 'w \<Rightarrow> goerror option \<times> 'w"
  c_patch_status :: "kobj \<Rightarrow> kobj \<Rightarrow> 'w \<Rightarrow> goerror option \<times> 'w"
  c_event :: "kevent \<Rightarrow> 'w \<Rightarrow> 'w"

text \<open>Reading into a Go struct of one kind; another kind does not decode.\<close>

definition decode_error :: goerror where
  "decode_error = Plain ''unexpected object kind''"

fun as_tool_gateway :: "kobj \<Rightarrow> goerror + tool_gateway" where
  "as_tool_gateway (OToolGateway g) = Inr g" | "as_tool_gateway _ = Inl decode_error"
fun as_tool_route :: "kobj \<Rightarrow> goerror + tool_route" where
  "as_tool_route (OToolRoute r) = Inr r" | "as_tool_route _ = Inl decode_error"
fun as_tool_server :: "kobj \<Rightarrow> goerror + tool_server" where
  "as_tool_server (OToolServer s) = Inr s" | "as_tool_server _ = Inl decode_error"
fun as_guard :: "kobj \<Rightarrow> goerror + guard" where
  "as_guard (OGuard g) = Inr g" | "as_guard _ = Inl decode_error"
fun as_provider :: "kobj \<Rightarrow> goerror + guardrail_provider" where
  "as_provider (OGuardrailProvider p) = Inr p" | "as_provider _ = Inl decode_error"

definition get_as :: "(kobj \<Rightarrow> goerror + 'a) \<Rightarrow> 'w client \<Rightarrow> okey \<Rightarrow> 'w \<Rightarrow> goerror + 'a" where
  "get_as dec cl k w = (case c_get cl k w of Inl e \<Rightarrow> Inl e | Inr ob \<Rightarrow> dec ob)"

definition list_as :: "(kobj \<Rightarrow> goerror + 'a) \<Rightarrow> 'w client \<Rightarrow> kind \<Rightarrow> string option \<Rightarrow> 'w \<Rightarrow> goerror + 'a list" where
  "list_as dec cl kd ns w =
     (case c_list cl kd ns w of
        Inl e \<Rightarrow> Inl e
      | Inr obs \<Rightarrow> Inr (List.map_filter (\<lambda>ob. case dec ob of Inl _ \<Rightarrow> None | Inr a \<Rightarrow> Some a) obs))"

fun as_class :: "kobj \<Rightarrow> goerror + tool_gateway_class" where
  "as_class (OToolGatewayClass c) = Inr c" | "as_class _ = Inl decode_error"

text \<open>A mutate function on one kind, lifted to objects.\<close>

definition on_gateway :: "(gateway \<Rightarrow> goerror + gateway) \<Rightarrow> kobj \<Rightarrow> goerror + kobj" where
  "on_gateway f ob = (case ob of OGateway g \<Rightarrow> map_sum id OGateway (f g) | _ \<Rightarrow> Inl decode_error)"
definition on_http_route :: "(http_route \<Rightarrow> goerror + http_route) \<Rightarrow> kobj \<Rightarrow> goerror + kobj" where
  "on_http_route f ob = (case ob of OHTTPRoute r \<Rightarrow> map_sum id OHTTPRoute (f r) | _ \<Rightarrow> Inl decode_error)"
definition on_config_map :: "(config_map \<Rightarrow> goerror + config_map) \<Rightarrow> kobj \<Rightarrow> goerror + kobj" where
  "on_config_map f ob = (case ob of OConfigMap c \<Rightarrow> map_sum id OConfigMap (f c) | _ \<Rightarrow> Inl decode_error)"
definition on_deployment :: "(deployment \<Rightarrow> goerror + deployment) \<Rightarrow> kobj \<Rightarrow> goerror + kobj" where
  "on_deployment f ob = (case ob of ODeployment d \<Rightarrow> map_sum id ODeployment (f d) | _ \<Rightarrow> Inl decode_error)"
definition on_service :: "(service \<Rightarrow> goerror + service) \<Rightarrow> kobj \<Rightarrow> goerror + kobj" where
  "on_service f ob = (case ob of OService s \<Rightarrow> map_sum id OService (f s) | _ \<Rightarrow> Inl decode_error)"
definition on_unstructured :: "(unstructured \<Rightarrow> goerror + unstructured) \<Rightarrow> kobj \<Rightarrow> goerror + kobj" where
  "on_unstructured f ob = (case ob of OUnstructured u \<Rightarrow> map_sum id OUnstructured (f u) | _ \<Rightarrow> Inl decode_error)"

section \<open>Helper packages\<close>

text \<open>
  \<open>meta.SetStatusCondition\<close> and its kin, \<open>controllerutil.SetControllerReference\<close> (owner kind
  and metadata, then the controlled object's metadata), the \<open>unstructured\<close> setters, the
  converter to unstructured JSON, the YAML printer, \<open>strconv.Quote\<close>, and the IPv6 check of
  \<open>net/url\<close>.
\<close>

record klib =
  l_set_condition :: "condition list \<Rightarrow> condition \<Rightarrow> condition list"
  l_remove_condition :: "condition list \<Rightarrow> string \<Rightarrow> condition list"
  l_find_condition :: "condition list \<Rightarrow> string \<Rightarrow> condition option"
  l_set_controller :: "kind \<Rightarrow> object_meta \<Rightarrow> object_meta \<Rightarrow> goerror + object_meta"
  l_set_nested :: "jobject \<Rightarrow> string list \<Rightarrow> json \<Rightarrow> goerror + jobject"
  l_remove_nested :: "jobject \<Rightarrow> string list \<Rightarrow> jobject"
  l_env_json :: "env_var \<Rightarrow> goerror + json"
  l_env_from_json :: "env_from \<Rightarrow> goerror + json"
  l_json_to_yaml :: "json \<Rightarrow> string + string"
  l_quote :: "string \<Rightarrow> string"
  l_ip6 :: "string \<Rightarrow> string option"

text \<open>The fields of the reconciler structs (the scheme is part of the library).\<close>

record 'w reconciler =
  r_Client :: "'w client"
  r_Lib :: klib
  r_Recorder :: bool

text \<open>What a controller is registered for: its own kind, the kinds it owns, and the kinds it
  watches with the function that maps an object to requests.\<close>

record 'w controller_setup =
  su_Name :: string
  su_For :: kind
  su_Owns :: "kind list"
  su_Watches :: "(kind \<times> (kobj \<Rightarrow> 'w \<Rightarrow> nsname list)) list"

section \<open>Laws of the helper packages\<close>

text \<open>Errors of foreign code are not this program's sentinels.\<close>

definition foreign_error :: "goerror \<Rightarrow> bool" where
  "foreign_error e = (\<forall>s. \<not> errors_is e (Sentinel s))"

lemma foreign_wrap [simp]: "foreign_error (Wrapf pre e post) = foreign_error e"
  by (simp add: foreign_error_def)

lemma foreign_base [simp]: "foreign_error (ApiError x m)" "foreign_error (Plain m)" "\<not> foreign_error (Sentinel m)"
  by (simp_all add: foreign_error_def)


locale condition_lib =
  fixes lib :: klib
  assumes find_set: "\<exists>d. l_find_condition lib (l_set_condition lib cs c) (cd_Type c) = Some d \<and> same_condition d c"
    and find_set_other: "t \<noteq> cd_Type c \<Longrightarrow>
      l_find_condition lib (l_set_condition lib cs c) t = l_find_condition lib cs t"
    and set_same: "l_find_condition lib cs (cd_Type c) = Some d \<Longrightarrow> same_condition d c \<Longrightarrow>
      l_set_condition lib cs c = cs"
    and find_remove: "l_find_condition lib (l_remove_condition lib cs t) t = None"
    and find_remove_other: "u \<noteq> t \<Longrightarrow>
      l_find_condition lib (l_remove_condition lib cs t) u = l_find_condition lib cs u"
    and remove_none: "l_find_condition lib cs t = None \<Longrightarrow> l_remove_condition lib cs t = cs"
    and find_nil: "l_find_condition lib [] t = None"
begin

text \<open>Setting the same condition twice is setting it once.\<close>

lemma set_set: "l_set_condition lib (l_set_condition lib cs c) c = l_set_condition lib cs c"
  using find_set [of cs c] set_same [of "l_set_condition lib cs c" c] by auto

lemma set_changes:
  "l_find_condition lib cs (cd_Type c) = Some d \<Longrightarrow> \<not> same_condition d c \<Longrightarrow> l_set_condition lib cs c \<noteq> cs"
  using find_set [of cs c] by auto

lemma set_changes_none:
  "l_find_condition lib cs (cd_Type c) = None \<Longrightarrow> l_set_condition lib cs c \<noteq> cs"
  using find_set [of cs c] by auto

end

text \<open>
  An object has at most one controller.  Setting the reference again is harmless; an object
  controlled by another owner is refused.
\<close>

definition is_controller_ref :: "kind \<Rightarrow> object_meta \<Rightarrow> owner_ref \<Rightarrow> bool" where
  "is_controller_ref k om r =
     (or_Kind r = k \<and> or_Name r = m_Name om \<and> or_Uid r = m_Uid om \<and> or_Controller r)"

text \<open>The fields the API server sets, cleared.\<close>

definition clear_server :: "object_meta \<Rightarrow> object_meta" where
  "clear_server m = m\<lparr>m_Uid := [], m_Generation := 0\<rparr>"

locale owner_lib =
  fixes lib :: klib
  assumes set_controller_ok: "l_set_controller lib k om m = Inr m' \<Longrightarrow>
      (\<exists>os. m' = m\<lparr>m_Owners := os\<rparr>) \<and> controller_of m' = Some (k, m_Name om)
      \<and> (\<exists>r \<in> set (m_Owners m'). is_controller_ref k om r)"
    and set_controller_refused: "controller_of m = Some c \<Longrightarrow> c \<noteq> (k, m_Name om) \<Longrightarrow>
      \<exists>e. l_set_controller lib k om m = Inl e \<and> \<not> is_not_found e"
    and set_controller_foreign: "l_set_controller lib k om m = Inl e \<Longrightarrow> foreign_error e"
    and set_controller_free: "controller_of m \<in> {None, Some (k, m_Name om)} \<Longrightarrow>
      m_Namespace m = m_Namespace om \<Longrightarrow> \<exists>m'. l_set_controller lib k om m = Inr m'"
    and set_controller_stable: "l_set_controller lib k om m = Inr m' \<Longrightarrow> clear_server m2 = clear_server m' \<Longrightarrow>
      l_set_controller lib k om m2 = Inr m2"
begin

lemma set_controller_key: "l_set_controller lib k om m = Inr m' \<Longrightarrow> meta_key m' = meta_key m"
  using set_controller_ok by fastforce

lemma set_controller_of: "l_set_controller lib k om m = Inr m' \<Longrightarrow> controller_of m' = Some (k, m_Name om)"
  using set_controller_ok by blast

end

locale nested_lib =
  fixes lib :: klib
  assumes get_set: "l_set_nested lib o1 p v = Inr o2 \<Longrightarrow> p \<noteq> [] \<Longrightarrow> json_get o2 p = Some v"
    and set_foreign: "l_set_nested lib o1 p v = Inl e \<Longrightarrow> foreign_error e"
    and set_same_value: "json_get o1 p = Some v \<Longrightarrow> p \<noteq> [] \<Longrightarrow> l_set_nested lib o1 p v = Inr o1"
    and get_set_other: "l_set_nested lib o1 p v = Inr o2 \<Longrightarrow> p \<noteq> [] \<Longrightarrow> q \<noteq> [] \<Longrightarrow>
      take (length q) p \<noteq> q \<Longrightarrow> take (length p) q \<noteq> p \<Longrightarrow> json_get o2 q = json_get o1 q"
    and set_free: "p \<noteq> [] \<Longrightarrow> (\<And>q. q \<noteq> [] \<Longrightarrow> q \<noteq> p \<Longrightarrow> take (length q) p = q \<Longrightarrow>
      (case json_get o1 q of None \<Rightarrow> True | Some v \<Rightarrow> \<exists>m. v = JMap m)) \<Longrightarrow> \<exists>o2. l_set_nested lib o1 p v = Inr o2"
    and get_remove: "p \<noteq> [] \<Longrightarrow> json_get (l_remove_nested lib o1 p) p = None"
    and remove_absent: "json_get o1 p = None \<Longrightarrow> p \<noteq> [] \<Longrightarrow> l_remove_nested lib o1 p = o1"
    and get_remove_other: "p \<noteq> [] \<Longrightarrow> q \<noteq> [] \<Longrightarrow>
      take (length q) p \<noteq> q \<Longrightarrow> take (length p) q \<noteq> p \<Longrightarrow> json_get (l_remove_nested lib o1 p) q = json_get o1 q"

section \<open>Laws of the client\<close>

text \<open>Equal but for the fields the API server sets.\<close>

fun map_meta :: "(object_meta \<Rightarrow> object_meta) \<Rightarrow> kobj \<Rightarrow> kobj" where
  "map_meta f (OToolGateway g) = OToolGateway (g\<lparr>tg_Meta := f (tg_Meta g)\<rparr>)"
| "map_meta f (OToolGatewayClass c) = OToolGatewayClass (c\<lparr>tgc_Meta := f (tgc_Meta c)\<rparr>)"
| "map_meta f (OToolRoute r) = OToolRoute (r\<lparr>tr_Meta := f (tr_Meta r)\<rparr>)"
| "map_meta f (OToolServer s) = OToolServer (s\<lparr>ts_Meta := f (ts_Meta s)\<rparr>)"
| "map_meta f (OGuard g) = OGuard (g\<lparr>g_Meta := f (g_Meta g)\<rparr>)"
| "map_meta f (OGuardrailProvider p) = OGuardrailProvider (p\<lparr>gp_Meta := f (gp_Meta p)\<rparr>)"
| "map_meta f (OGateway g) = OGateway (g\<lparr>gw_Meta := f (gw_Meta g)\<rparr>)"
| "map_meta f (OHTTPRoute r) = OHTTPRoute (r\<lparr>hr_Meta := f (hr_Meta r)\<rparr>)"
| "map_meta f (OConfigMap c) = OConfigMap (c\<lparr>cm_Meta := f (cm_Meta c)\<rparr>)"
| "map_meta f (ODeployment d) = ODeployment (d\<lparr>dp_Meta := f (dp_Meta d)\<rparr>)"
| "map_meta f (OService s) = OService (s\<lparr>sv_Meta := f (sv_Meta s)\<rparr>)"
| "map_meta f (OUnstructured u) = OUnstructured (u\<lparr>us_Meta := f (us_Meta u)\<rparr>)"

definition same_content :: "kobj \<Rightarrow> kobj \<Rightarrow> bool" where
  "same_content a b = (map_meta clear_server a = map_meta clear_server b)"

text \<open>
  A JSON merge patch of the status: a field that differs between base and new is replaced as
  a whole (the conditions are one list), an equal one is left as stored.
\<close>

definition patch_field :: "'a \<Rightarrow> 'a \<Rightarrow> 'a \<Rightarrow> 'a" where
  "patch_field base new stored = (if base = new then stored else new)"

definition merge_status :: "kobj \<Rightarrow> kobj \<Rightarrow> kobj \<Rightarrow> kobj" where
  "merge_status base new stored =
     (case (base, new, stored) of
        (OToolGateway b, OToolGateway n, OToolGateway s) \<Rightarrow>
          OToolGateway (s\<lparr>tg_Url := patch_field (tg_Url b) (tg_Url n) (tg_Url s),
                          tg_Conditions := patch_field (tg_Conditions b) (tg_Conditions n) (tg_Conditions s)\<rparr>)
      | (OToolRoute b, OToolRoute n, OToolRoute s) \<Rightarrow>
          OToolRoute (s\<lparr>tr_Url := patch_field (tr_Url b) (tr_Url n) (tr_Url s),
                        tr_Conditions := patch_field (tr_Conditions b) (tr_Conditions n) (tr_Conditions s)\<rparr>)
      | (OGuard b, OGuard n, OGuard s) \<Rightarrow>
          OGuard (s\<lparr>g_Conditions := patch_field (g_Conditions b) (g_Conditions n) (g_Conditions s)\<rparr>)
      | _ \<Rightarrow> stored)"

text \<open>
  \<open>at w k\<close> is the object stored under \<open>k\<close>, \<open>events w\<close> the events recorded.  A call that
  fails may or may not have been applied; no call touches another key than its own.
\<close>

locale kube_client =
  fixes cl :: "'w client"
    and at :: "'w \<Rightarrow> okey \<Rightarrow> kobj option"
    and events :: "'w \<Rightarrow> kevent list"
  assumes at_key: "at w k = Some ob \<Longrightarrow> key_of ob = k"
    and get_some: "c_get cl k w = Inr ob \<Longrightarrow> at w k = Some ob"
    and get_missing: "c_get cl k w = Inl e \<Longrightarrow> is_not_found e \<Longrightarrow> at w k = None"
    and list_set: "c_list cl kd ns w = Inr obs \<Longrightarrow>
      set obs = {ob. at w (key_of ob) = Some ob \<and> kind_of ob = kd
                     \<and> (ns = None \<or> ns = Some (m_Namespace (meta_of ob)))}"
    and cop_ok: "c_create_or_patch cl ob f w = (Inr r, w') \<Longrightarrow>
      \<exists>ob' st. f (case at w (key_of ob) of None \<Rightarrow> ob | Some o0 \<Rightarrow> o0) = Inr ob'
        \<and> at w' (key_of ob) = Some st \<and> same_content st ob'
        \<and> (r = OpCreated) = (at w (key_of ob) = None)
        \<and> (r = OpNone) = (at w (key_of ob) = Some ob')
        \<and> (r = OpNone \<longrightarrow> st = ob')"
    and cop_error: "c_create_or_patch cl ob f w = (Inl e, w') \<Longrightarrow>
      at w' (key_of ob) = at w (key_of ob)
      \<or> (\<exists>ob' st. f (case at w (key_of ob) of None \<Rightarrow> ob | Some o0 \<Rightarrow> o0) = Inr ob'
            \<and> at w' (key_of ob) = Some st \<and> same_content st ob')"
    and cop_frame: "k \<noteq> key_of ob \<Longrightarrow> at (snd (c_create_or_patch cl ob f w)) k = at w k"
    and delete_gone: "c_delete cl k w = (dr, w') \<Longrightarrow>
      (case dr of None \<Rightarrow> True | Some e \<Rightarrow> is_not_found e) \<Longrightarrow> at w' k = None"
    and delete_error: "c_delete cl k w = (Some e, w') \<Longrightarrow> at w' k = None \<or> at w' k = at w k"
    and delete_frame: "k' \<noteq> k \<Longrightarrow> at (snd (c_delete cl k w)) k' = at w k'"
    and patch_ok: "c_patch_status cl b n w = (None, w') \<Longrightarrow>
      \<exists>s. at w (key_of n) = Some s \<and> at w' (key_of n) = Some (merge_status b n s)"
    and patch_error: "c_patch_status cl b n w = (Some e, w') \<Longrightarrow>
      at w' (key_of n) = at w (key_of n)
      \<or> (\<exists>s. at w (key_of n) = Some s \<and> at w' (key_of n) = Some (merge_status b n s))"
    and patch_frame: "k \<noteq> key_of n \<Longrightarrow> at (snd (c_patch_status cl b n w)) k = at w k"
    and get_foreign: "c_get cl k w = Inl e \<Longrightarrow> foreign_error e"
    and list_foreign: "c_list cl kd ns w = Inl e \<Longrightarrow> foreign_error e"
    and cop_foreign: "c_create_or_patch cl ob f w = (Inl e, w') \<Longrightarrow>
      (\<And>x e'. f x = Inl e' \<Longrightarrow> foreign_error e') \<Longrightarrow> foreign_error e"
    and delete_foreign: "c_delete cl k w = (Some e, w') \<Longrightarrow> foreign_error e"
    and event_at: "at (c_event cl ev w) k = at w k"
    and event_log: "events (c_event cl ev w) = events w @ [ev]"
    and cop_log: "events (snd (c_create_or_patch cl ob f w)) = events w"
    and delete_log: "events (snd (c_delete cl k w)) = events w"
    and patch_log: "events (snd (c_patch_status cl b n w)) = events w"
    and delete_found: "c_delete cl k w = (None, w') \<Longrightarrow> at w k \<noteq> None"
begin

lemma get_none: "at w k = None \<Longrightarrow> \<exists>e. c_get cl k w = Inl e"
  using get_some by (cases "c_get cl k w") fastforce+

text \<open>A mutate function that fails leaves the cluster alone.\<close>

lemma cop_mutate_fails:
  assumes "\<And>e. f (case at w (key_of ob) of None \<Rightarrow> ob | Some o0 \<Rightarrow> o0) \<noteq> Inr e"
  shows "\<exists>e. fst (c_create_or_patch cl ob f w) = Inl e"
    and "at (snd (c_create_or_patch cl ob f w)) k = at w k"
proof -
  obtain r w' where c: "c_create_or_patch cl ob f w = (r, w')" by fastforce
  with assms cop_ok obtain e where r: "r = Inl e" by (cases r) blast+
  with c show "\<exists>e. fst (c_create_or_patch cl ob f w) = Inl e" by simp
  show "at (snd (c_create_or_patch cl ob f w)) k = at w k"
    using cop_error [OF c [unfolded r]] cop_frame [of k ob f w] assms c
    by (cases "k = key_of ob") auto
qed

end

lemma same_content_refl [simp]: "same_content a a"
  by (simp add: same_content_def)

lemma meta_map_meta [simp]: "meta_of (map_meta f ob) = f (meta_of ob)"
  by (cases ob) simp_all

lemma kind_map_meta [simp]: "kind_of (map_meta f ob) = kind_of ob"
  by (cases ob) simp_all

lemma same_content_meta: "same_content a b \<Longrightarrow> clear_server (meta_of a) = clear_server (meta_of b)"
  unfolding same_content_def by (metis meta_map_meta)

lemma same_content_owners: "same_content a b \<Longrightarrow> m_Owners (meta_of a) = m_Owners (meta_of b)"
  by (drule same_content_meta, cases "meta_of a", cases "meta_of b") (simp add: clear_server_def)

lemma same_content_key: "same_content a b \<Longrightarrow> key_of a = key_of b"
proof -
  assume c: "same_content a b"
  then have "kind_of a = kind_of b" unfolding same_content_def by (metis kind_map_meta)
  moreover have "meta_key (meta_of a) = meta_key (meta_of b)"
    using same_content_meta [OF c]
    by (cases "meta_of a"; cases "meta_of b") (simp add: clear_server_def meta_key_def)
  ultimately show ?thesis by (simp add: key_of_def)
qed

lemma same_content_controller: "same_content a b \<Longrightarrow> controller_of (meta_of a) = controller_of (meta_of b)"
  by (simp add: controller_of_def same_content_owners)

text \<open>The contents of a stored object of a known kind.\<close>

lemma same_content_gateway:
  "same_content st (OGateway g) \<Longrightarrow> \<exists>g'. st = OGateway g' \<and> gw_Spec g' = gw_Spec g"
  by (cases st) (auto simp: same_content_def dest!: arg_cong [where f = gw_Spec])

lemma same_content_http_route:
  "same_content st (OHTTPRoute h) \<Longrightarrow> \<exists>h'. st = OHTTPRoute h' \<and> hr_Spec h' = hr_Spec h"
  by (cases st) (auto simp: same_content_def dest!: arg_cong [where f = hr_Spec])

lemma same_content_config_map:
  "same_content st (OConfigMap c) \<Longrightarrow> \<exists>c'. st = OConfigMap c' \<and> cm_Data c' = cm_Data c"
  by (cases st) (auto simp: same_content_def dest!: arg_cong [where f = cm_Data])

lemma same_content_service:
  "same_content st (OService s) \<Longrightarrow>
   \<exists>s'. st = OService s' \<and> sv_Selector s' = sv_Selector s \<and> sv_Ports s' = sv_Ports s"
  by (cases st) (auto simp: same_content_def dest!: arg_cong [where f = "\<lambda>s. (sv_Selector s, sv_Ports s)"])

lemma same_content_deployment:
  "same_content st (ODeployment d) \<Longrightarrow>
   \<exists>d'. st = ODeployment d' \<and> dp_TemplateAnnotations d' = dp_TemplateAnnotations d
      \<and> dp_TemplateLabels d' = dp_TemplateLabels d \<and> dp_Selector d' = dp_Selector d
      \<and> dp_Replicas d' = dp_Replicas d \<and> dp_PodSpec d' = dp_PodSpec d"
  by (cases st)
    (auto simp: same_content_def
      dest!: arg_cong [where f = "\<lambda>d. (dp_TemplateAnnotations d, dp_TemplateLabels d, dp_Selector d,
                                     dp_Replicas d, dp_PodSpec d)"])

lemma same_content_unstructured:
  "same_content st (OUnstructured u) \<Longrightarrow>
   \<exists>u'. st = OUnstructured u' \<and> us_Object u' = us_Object u \<and> us_Kind u' = us_Kind u
      \<and> us_ApiVersion u' = us_ApiVersion u"
  by (cases st)
    (auto simp: same_content_def dest!: arg_cong [where f = "\<lambda>u. (us_Object u, us_Kind u, us_ApiVersion u)"])

lemmas same_contents =
  same_content_gateway same_content_http_route same_content_config_map same_content_service
  same_content_deployment same_content_unstructured

section \<open>Lists of one kind\<close>

lemma as_class_iff: "as_class ob = Inr c \<longleftrightarrow> ob = OToolGatewayClass c"
  by (cases ob) auto
lemma as_tool_gateway_iff: "as_tool_gateway ob = Inr g \<longleftrightarrow> ob = OToolGateway g"
  by (cases ob) auto
lemma as_tool_route_iff: "as_tool_route ob = Inr g \<longleftrightarrow> ob = OToolRoute g"
  by (cases ob) auto
lemma as_tool_server_iff: "as_tool_server ob = Inr g \<longleftrightarrow> ob = OToolServer g"
  by (cases ob) auto
lemma as_guard_iff: "as_guard ob = Inr g \<longleftrightarrow> ob = OGuard g"
  by (cases ob) auto
lemma as_provider_iff: "as_provider ob = Inr g \<longleftrightarrow> ob = OGuardrailProvider g"
  by (cases ob) auto

lemmas as_iffs = as_class_iff as_tool_gateway_iff as_tool_route_iff as_tool_server_iff as_guard_iff as_provider_iff

lemma set_decoded:
  assumes "\<And>ob a. dec ob = Inr a \<longleftrightarrow> ob = C a"
  shows "set (List.map_filter (\<lambda>ob. case dec ob of Inl _ \<Rightarrow> None | Inr a \<Rightarrow> Some a) obs) = {a. C a \<in> set obs}"
proof -
  have [simp]: "dec (C a) = Inr a" for a by (simp add: assms)
  have [simp]: "C a = C b \<longleftrightarrow> a = b" for a b by (metis assms sum.inject(2))
  show ?thesis
    by (induction obs) (auto simp: List.map_filter_simps assms split: sum.splits option.splits)
qed

context kube_client
begin

text \<open>A successful list is the set of stored objects of the kind.\<close>

lemma list_as_set:
  assumes l: "list_as dec cl kd ns w = Inr xs"
    and d: "\<And>ob a. dec ob = Inr a \<longleftrightarrow> ob = C a" and k: "\<And>a. kind_of (C a) = kd"
  shows "set xs = {a. at w (key_of (C a)) = Some (C a)
                      \<and> (ns = None \<or> ns = Some (m_Namespace (meta_of (C a))))}"
proof -
  obtain obs where o: "c_list cl kd ns w = Inr obs"
    and xs: "xs = List.map_filter (\<lambda>ob. case dec ob of Inl _ \<Rightarrow> None | Inr a \<Rightarrow> Some a) obs"
    using l by (auto simp: list_as_def split: sum.splits)
  show ?thesis unfolding xs set_decoded [OF d] list_set [OF o] using k by auto
qed

lemma list_as_error: "list_as dec cl kd ns w = Inl e \<longleftrightarrow> c_list cl kd ns w = Inl e"
  by (auto simp: list_as_def split: sum.splits)

lemma get_as_some:
  assumes "get_as dec cl k w = Inr a" and "\<And>ob a. dec ob = Inr a \<longleftrightarrow> ob = C a"
  shows "at w k = Some (C a)" "key_of (C a) = k"
  using assms get_some [of k w] at_key [of w k] by (auto simp: get_as_def split: sum.splits)

lemma get_as_missing:
  assumes "get_as dec cl k w = Inl e" "is_not_found e" "\<And>ob e. dec ob = Inl e \<Longrightarrow> e = decode_error"
  shows "at w k = None"
proof (cases "c_get cl k w")
  case (Inr ob)
  then have "e = decode_error" using assms by (auto simp: get_as_def)
  with assms(2) show ?thesis by (simp add: decode_error_def)
qed (use assms get_missing in \<open>auto simp: get_as_def\<close>)

end

section \<open>Mutate functions\<close>

text \<open>
  The contract of a mutate function: an object with the content it produced is a fixpoint, so
  a second \<open>CreateOrPatch\<close> with it has nothing to do.
\<close>

locale mutator =
  fixes f :: "kobj \<Rightarrow> goerror + kobj"
  assumes stable: "f x = Inr y \<Longrightarrow> same_content z y \<Longrightarrow> f z = Inr z"
begin

lemma fixpoint: "f x = Inr y \<Longrightarrow> f y = Inr y"
  using stable by simp

end

text \<open>No object outside \<open>K\<close> differs.\<close>

definition unchanged_outside ::
  "okey set \<Rightarrow> ('w \<Rightarrow> okey \<Rightarrow> kobj option) \<Rightarrow> 'w \<Rightarrow> 'w \<Rightarrow> bool" where
  "unchanged_outside K at w w' = (\<forall>k. k \<notin> K \<longrightarrow> at w' k = at w k)"

lemma unchanged_refl [simp, intro]: "unchanged_outside K at w w"
  by (simp add: unchanged_outside_def)

lemma unchanged_trans [trans]:
  "unchanged_outside K at w w' \<Longrightarrow> unchanged_outside K at w' w'' \<Longrightarrow> unchanged_outside K at w w''"
  by (simp add: unchanged_outside_def)

lemma unchanged_mono: "unchanged_outside J at w w' \<Longrightarrow> J \<subseteq> K \<Longrightarrow> unchanged_outside K at w w'"
  by (auto simp: unchanged_outside_def)

lemma unchangedD: "unchanged_outside K at w w' \<Longrightarrow> k \<notin> K \<Longrightarrow> at w' k = at w k"
  unfolding unchanged_outside_def by blast

context kube_client
begin

lemma cop_converges:
  assumes "mutator f" and "c_create_or_patch cl ob f w = (Inr op, w')"
  shows "\<exists>st. at w' (key_of ob) = Some st \<and> f st = Inr st"
  using cop_ok [OF assms(2)] mutator.stable [OF assms(1)] by blast

text \<open>A write, complete or not, keeps an object that is a fixpoint of its mutate function.\<close>

lemma cop_keeps:
  assumes "mutator f" and c: "c_create_or_patch cl ob f w = (x, w')" and st: "at w (key_of ob) = Some st" "f st = Inr st"
  shows "\<exists>st'. at w' (key_of ob) = Some st' \<and> f st' = Inr st'"
proof (cases x)
  case (Inl e)
  with cop_error [OF c [unfolded Inl]] st mutator.stable [OF assms(1) st(2)] show ?thesis by auto
qed (use cop_converges [OF assms(1)] c in blast)

lemma cop_fixpoint:
  assumes "at w (key_of ob) = Some st" and "f st = Inr st" and "c_create_or_patch cl ob f w = (Inr op, w')"
  shows "op = OpNone" "at w' k = at w k"
proof -
  show op: "op = OpNone" using cop_ok [OF assms(3)] assms(1,2) by auto
  show "at w' k = at w k"
    using cop_ok [OF assms(3)] assms op cop_frame [of k ob f w] by (cases "k = key_of ob") auto
qed

lemma cop_refuses:
  assumes "c_create_or_patch cl ob f w = (r, w')" and "at w (key_of ob) = Some o0" and "\<And>y. f o0 \<noteq> Inr y"
  shows "at w' (key_of ob) = Some o0" "\<exists>e. r = Inl e"
  using assms cop_mutate_fails [where f = f and w = w and ob = ob] by auto

lemma cop_unchanged: "c_create_or_patch cl ob f w = (r, w') \<Longrightarrow> key_of ob \<in> K \<Longrightarrow> unchanged_outside K at w w'"
  using cop_frame [of _ ob f w] unfolding unchanged_outside_def by (metis snd_conv)

lemma delete_unchanged: "c_delete cl k w = (r, w') \<Longrightarrow> k \<in> K \<Longrightarrow> unchanged_outside K at w w'"
  using delete_frame [of _ k w] unfolding unchanged_outside_def by (metis snd_conv)

lemma delete_absent:
  assumes "c_delete cl k w = (x, w')" "at w k = None"
  shows "x \<noteq> None" "at w' = at w" "events w' = events w"
proof -
  show "x \<noteq> None" using delete_found [of k w w'] assms by auto
  have "at w' k = None"
    using delete_error [of k w] delete_gone [of k w x w'] assms by (cases x) auto
  then show "at w' = at w"
    using unchangedD [OF delete_unchanged [OF assms(1), of "{k}"]] assms(2) by (intro ext) (metis singletonD singletonI)
  show "events w' = events w" using delete_log [of k w] assms(1) by simp
qed

lemma patch_unchanged: "c_patch_status cl b n w = (r, w') \<Longrightarrow> key_of n \<in> K \<Longrightarrow> unchanged_outside K at w w'"
  using patch_frame [of _ n b w] unfolding unchanged_outside_def by (metis snd_conv)

lemma event_unchanged [simp]: "unchanged_outside K at w (c_event cl ev w')  = unchanged_outside K at w w'"
  by (simp add: unchanged_outside_def event_at)

end

text \<open>Mutate functions on one kind of object are mutators when their kind's content is stable.\<close>

lemma mutator_gateway:
  assumes "\<And>x y z. f x = Inr y \<Longrightarrow> z\<lparr>gw_Meta := clear_server (gw_Meta z)\<rparr> = y\<lparr>gw_Meta := clear_server (gw_Meta y)\<rparr> \<Longrightarrow> f z = Inr z"
  shows "mutator (on_gateway f)"
proof
  fix x y z :: kobj
  assume "on_gateway f x = Inr y" "same_content z y"
  then show "on_gateway f z = Inr z"
    by (cases z) (auto simp: on_gateway_def same_content_def map_sum_def assms split: kobj.splits sum.splits)
qed

lemma mutator_http_route:
  assumes "\<And>x y z. f x = Inr y \<Longrightarrow> z\<lparr>hr_Meta := clear_server (hr_Meta z)\<rparr> = y\<lparr>hr_Meta := clear_server (hr_Meta y)\<rparr> \<Longrightarrow> f z = Inr z"
  shows "mutator (on_http_route f)"
proof
  fix x y z :: kobj
  assume "on_http_route f x = Inr y" "same_content z y"
  then show "on_http_route f z = Inr z"
    by (cases z) (auto simp: on_http_route_def same_content_def map_sum_def assms split: kobj.splits sum.splits)
qed

lemma mutator_config_map:
  assumes "\<And>x y z. f x = Inr y \<Longrightarrow> z\<lparr>cm_Meta := clear_server (cm_Meta z)\<rparr> = y\<lparr>cm_Meta := clear_server (cm_Meta y)\<rparr> \<Longrightarrow> f z = Inr z"
  shows "mutator (on_config_map f)"
proof
  fix x y z :: kobj
  assume "on_config_map f x = Inr y" "same_content z y"
  then show "on_config_map f z = Inr z"
    by (cases z) (auto simp: on_config_map_def same_content_def map_sum_def assms split: kobj.splits sum.splits)
qed

lemma mutator_deployment:
  assumes "\<And>x y z. f x = Inr y \<Longrightarrow> z\<lparr>dp_Meta := clear_server (dp_Meta z)\<rparr> = y\<lparr>dp_Meta := clear_server (dp_Meta y)\<rparr> \<Longrightarrow> f z = Inr z"
  shows "mutator (on_deployment f)"
proof
  fix x y z :: kobj
  assume "on_deployment f x = Inr y" "same_content z y"
  then show "on_deployment f z = Inr z"
    by (cases z) (auto simp: on_deployment_def same_content_def map_sum_def assms split: kobj.splits sum.splits)
qed

lemma mutator_service:
  assumes "\<And>x y z. f x = Inr y \<Longrightarrow> z\<lparr>sv_Meta := clear_server (sv_Meta z)\<rparr> = y\<lparr>sv_Meta := clear_server (sv_Meta y)\<rparr> \<Longrightarrow> f z = Inr z"
  shows "mutator (on_service f)"
proof
  fix x y z :: kobj
  assume "on_service f x = Inr y" "same_content z y"
  then show "on_service f z = Inr z"
    by (cases z) (auto simp: on_service_def same_content_def map_sum_def assms split: kobj.splits sum.splits)
qed

lemma mutator_unstructured:
  assumes "\<And>x y z. f x = Inr y \<Longrightarrow> z\<lparr>us_Meta := clear_server (us_Meta z)\<rparr> = y\<lparr>us_Meta := clear_server (us_Meta y)\<rparr> \<Longrightarrow> f z = Inr z"
  shows "mutator (on_unstructured f)"
proof
  fix x y z :: kobj
  assume "on_unstructured f x = Inr y" "same_content z y"
  then show "on_unstructured f z = Inr z"
    by (cases z) (auto simp: on_unstructured_def same_content_def map_sum_def assms split: kobj.splits sum.splits)
qed

lemma map_sum_Inr: "map_sum id f x = Inr y \<longleftrightarrow> (\<exists>z. x = Inr z \<and> y = f z)"
  by (cases x) auto

lemma on_gateway_fix: "on_gateway f st = Inr st \<Longrightarrow> \<exists>g. st = OGateway g \<and> f g = Inr g"
  by (cases st) (auto simp: on_gateway_def map_sum_Inr)
lemma on_http_route_fix: "on_http_route f st = Inr st \<Longrightarrow> \<exists>g. st = OHTTPRoute g \<and> f g = Inr g"
  by (cases st) (auto simp: on_http_route_def map_sum_Inr)
lemma on_config_map_fix: "on_config_map f st = Inr st \<Longrightarrow> \<exists>g. st = OConfigMap g \<and> f g = Inr g"
  by (cases st) (auto simp: on_config_map_def map_sum_Inr)
lemma on_deployment_fix: "on_deployment f st = Inr st \<Longrightarrow> \<exists>g. st = ODeployment g \<and> f g = Inr g"
  by (cases st) (auto simp: on_deployment_def map_sum_Inr)
lemma on_service_fix: "on_service f st = Inr st \<Longrightarrow> \<exists>g. st = OService g \<and> f g = Inr g"
  by (cases st) (auto simp: on_service_def map_sum_Inr)
lemma on_unstructured_fix: "on_unstructured f st = Inr st \<Longrightarrow> \<exists>g. st = OUnstructured g \<and> f g = Inr g"
  by (cases st) (auto simp: on_unstructured_def map_sum_Inr)

lemmas on_fixes = on_gateway_fix on_http_route_fix on_config_map_fix on_deployment_fix on_service_fix on_unstructured_fix

text \<open>
  The world of one reconciler: its client and its helper packages satisfy the laws.
\<close>

locale operator =
  kube_client "r_Client r" at events + condition_lib "r_Lib r" + owner_lib "r_Lib r" + nested_lib "r_Lib r"
  for r :: "('w, 'm) reconciler_scheme" and at :: "'w \<Rightarrow> okey \<Rightarrow> kobj option" and events :: "'w \<Rightarrow> kevent list"

end
