(* ===== verification/Sha256.thy ===== *)
theory Sha256
  imports Prelude "HOL-Library.Word"
begin

text \<open>
  The two packages of the Go standard library behind the config hash: \<open>crypto/sha256\<close>
  (\<open>sum256\<close>, FIPS 180-4 on 32-bit words) and \<open>encoding/hex\<close> (\<open>hex_encode\<close>).  A byte is a
  \<open>char\<close>.  The lemmas give the shape of a digest and injectivity of the hex encoding.
\<close>

unbundle bit_operations_syntax

section \<open>Hex\<close>

definition hex_digits :: string where "hex_digits = ''0123456789abcdef''"

definition hex_byte :: "char \<Rightarrow> string" where
  "hex_byte c = [hex_digits ! (of_char c div 16), hex_digits ! (of_char c mod 16)]"

definition hex_encode :: "string \<Rightarrow> string" where
  "hex_encode bs = concat (map hex_byte bs)"

section \<open>SHA-256\<close>

text \<open>The first 32 bits of the fractional parts of the cube roots of the first 64 primes.\<close>

definition sha_k :: "32 word list" where
  "sha_k =
    [1116352408, 1899447441, 3049323471, 3921009573, 961987163, 1508970993, 2453635748, 2870763221,
     3624381080, 310598401, 607225278, 1426881987, 1925078388, 2162078206, 2614888103, 3248222580,
     3835390401, 4022224774, 264347078, 604807628, 770255983, 1249150122, 1555081692, 1996064986,
     2554220882, 2821834349, 2952996808, 3210313671, 3336571891, 3584528711, 113926993, 338241895,
     666307205, 773529912, 1294757372, 1396182291, 1695183700, 1986661051, 2177026350, 2456956037,
     2730485921, 2820302411, 3259730800, 3345764771, 3516065817, 3600352804, 4094571909, 275423344,
     430227734, 506948616, 659060556, 883997877, 958139571, 1322822218, 1537002063, 1747873779,
     1955562222, 2024104815, 2227730452, 2361852424, 2428436474, 2756734187, 3204031479, 3329325298]"

type_synonym sha_state = "32 word \<times> 32 word \<times> 32 word \<times> 32 word \<times> 32 word \<times> 32 word \<times> 32 word \<times> 32 word"

definition sha_init :: sha_state where
  "sha_init = (1779033703, 3144134277, 1013904242, 2773480762, 1359893119, 2600822924, 528734635, 1541459225)"

text \<open>The message is followed by a one bit, zeros, and its length in bits, to whole 64-byte blocks.\<close>

definition be_bytes :: "nat \<Rightarrow> int \<Rightarrow> string" where
  "be_bytes n x = map (\<lambda>i. char_of (x div 256 ^ (n - 1 - i))) [0..<n]"

definition sha_pad :: "string \<Rightarrow> string" where
  "sha_pad bs =
     bs @ [CHR 0x80] @ replicate ((119 - length bs mod 64) mod 64) (CHR 0x00) @ be_bytes 8 (8 * int (length bs))"

definition be_word :: "string \<Rightarrow> 32 word" where
  "be_word bs = foldl (\<lambda>a c. push_bit 8 a + of_int (of_char c)) 0 bs"

fun chunks_of :: "nat \<Rightarrow> nat \<Rightarrow> 'a list \<Rightarrow> 'a list list" where
  "chunks_of 0 k xs = []"
| "chunks_of (Suc n) k xs = take k xs # chunks_of n k (drop k xs)"

fun sha_schedule :: "nat \<Rightarrow> 32 word list \<Rightarrow> 32 word list" where
  "sha_schedule 0 ws = ws"
| "sha_schedule (Suc n) ws =
     (let t = length ws; x = ws ! (t - 2); y = ws ! (t - 15);
          s1 = (word_rotr 17 x XOR word_rotr 19 x) XOR drop_bit 10 x;
          s0 = (word_rotr 7 y XOR word_rotr 18 y) XOR drop_bit 3 y
      in sha_schedule n (ws @ [s1 + ws ! (t - 7) + s0 + ws ! (t - 16)]))"

fun sha_round :: "32 word \<times> 32 word \<Rightarrow> sha_state \<Rightarrow> sha_state" where
  "sha_round (k, w) (a, b, c, d, e, f, g, h) =
     (let t1 = h + ((word_rotr 6 e XOR word_rotr 11 e) XOR word_rotr 25 e)
                 + ((e AND f) XOR (NOT e AND g)) + k + w;
          t2 = ((word_rotr 2 a XOR word_rotr 13 a) XOR word_rotr 22 a)
                 + (((a AND b) XOR (a AND c)) XOR (b AND c))
      in (t1 + t2, a, b, c, d + t1, e, f, g))"

fun sha_add :: "sha_state \<Rightarrow> sha_state \<Rightarrow> sha_state" where
  "sha_add (a, b, c, d, e, f, g, h) (a', b', c', d', e', f', g', h') =
     (a + a', b + b', c + c', d + d', e + e', f + f', g + g', h + h')"

definition sha_block :: "string \<Rightarrow> sha_state \<Rightarrow> sha_state" where
  "sha_block blk st =
     sha_add st (fold sha_round (zip sha_k (sha_schedule 48 (map be_word (chunks_of 16 4 blk)))) st)"

fun sha_words :: "sha_state \<Rightarrow> 32 word list" where
  "sha_words (a, b, c, d, e, f, g, h) = [a, b, c, d, e, f, g, h]"

definition sum256 :: "string \<Rightarrow> string" where
  "sum256 bs =
     (let p = sha_pad bs; st = fold sha_block (chunks_of (length p div 64) 64 p) sha_init
      in concat (map (\<lambda>w. be_bytes 4 (uint w)) (sha_words st)))"

section \<open>Shape\<close>

lemma length_be_bytes [simp]: "length (be_bytes n x) = n"
  by (simp add: be_bytes_def)

text \<open>The padded message is a whole number of blocks.\<close>

lemma sha_pad_blocks: "length (sha_pad bs) mod 64 = 0"
proof -
  define r where "r = length bs mod 64"
  have r: "r < 64" by (simp add: r_def)
  have "length (sha_pad bs) = length bs + 9 + (119 - r) mod 64"
    by (simp add: sha_pad_def r_def)
  also have "\<dots> mod 64 = (r + 9 + (119 - r) mod 64) mod 64"
    unfolding r_def by (metis add.assoc mod_add_left_eq)
  also have "\<dots> = (r + 9 + (119 - r)) mod 64"
    by (metis mod_add_right_eq)
  also have "r + 9 + (119 - r) = 128" using r by simp
  finally show ?thesis by simp
qed

lemma length_sum256 [simp]: "length (sum256 bs) = 32"
proof -
  have "length (sha_words st) = 8" for st by (cases st rule: sha_words.cases) simp
  then show ?thesis
    by (simp add: sum256_def Let_def length_concat o_def)
      (simp add: map_replicate_const sum_list_replicate)
qed

lemma length_hex_encode [simp]: "length (hex_encode bs) = 2 * length bs"
  by (induction bs) (simp_all add: hex_encode_def hex_byte_def)

lemma hex_digit_inj: "i < 16 \<Longrightarrow> j < 16 \<Longrightarrow> hex_digits ! i = hex_digits ! j \<Longrightarrow> i = j"
proof -
  have "distinct hex_digits" "length hex_digits = 16" by (simp_all add: hex_digits_def)
  then show "i < 16 \<Longrightarrow> j < 16 \<Longrightarrow> hex_digits ! i = hex_digits ! j \<Longrightarrow> i = j"
    using nth_eq_iff_index_eq by metis
qed

lemma byte_lt [simp]: "(of_char c :: nat) < 256"
  by (cases c) (simp add: of_char_def horner_sum_simps)

lemma hex_byte_inj: "hex_byte c = hex_byte d \<Longrightarrow> c = d"
proof -
  assume h: "hex_byte c = hex_byte d"
  have "(of_char c :: nat) div 16 = of_char d div 16" "(of_char c :: nat) mod 16 = of_char d mod 16"
    using h by (auto simp: hex_byte_def less_mult_imp_div_less intro: hex_digit_inj)
  then have "(of_char c :: nat) = of_char d" by (metis div_mult_mod_eq)
  then show "c = d" by simp
qed

lemma hex_encode_inj: "hex_encode a = hex_encode b \<Longrightarrow> a = b"
proof (induction a arbitrary: b)
  case Nil
  then show ?case by (cases b) (simp_all add: hex_encode_def hex_byte_def)
next
  case (Cons x xs)
  obtain y ys where b: "b = y # ys"
    using Cons.prems length_hex_encode [of "x # xs"] length_hex_encode [of b] by (cases b) auto
  have "hex_byte x @ hex_encode xs = hex_byte y @ hex_encode ys"
    using Cons.prems by (simp add: b hex_encode_def)
  then have "hex_byte x = hex_byte y" "hex_encode xs = hex_encode ys"
    by (simp_all add: hex_byte_def)
  then show ?case using Cons.IH hex_byte_inj b by blast
qed

lemma hex_encode_digits: "set (hex_encode bs) \<subseteq> set hex_digits"
proof -
  have "hex_digits ! i \<in> set hex_digits" if "i < 16" for i
    using that by (intro nth_mem) (simp add: hex_digits_def)
  then have "set (hex_byte c) \<subseteq> set hex_digits" for c
    by (simp add: hex_byte_def less_mult_imp_div_less)
  then show ?thesis by (auto simp: hex_encode_def)
qed

lemma length_hex_sum256: "length (hex_encode (sum256 bs)) = 64"
  by simp

end
