(* ===== verification/GuardConfig.thy ===== *)
theory GuardConfig
  imports KubeClient Sha256
begin

text \<open>
  \<open>guard_static_config.go\<close>: the configuration file of the guardrail adapter, rendered from a
  \<open>Guard\<close> and its \<open>GuardrailProvider\<close>, and its hash.  The YAML printer is the parameter
  \<open>l_json_to_yaml\<close>: \<open>sigs.k8s.io/yaml\<close> goes through the JSON of the struct, which the model
  builds from the struct's tags; its failure is an error text.
\<close>

definition providerTypePresidio :: string where "providerTypePresidio = ''presidio-api''"
definition staticConfigKey :: string where "staticConfigKey = ''config.yaml''"

definition GuardModePreCall :: string where "GuardModePreCall = ''pre_call''"
definition GuardModePostCall :: string where "GuardModePostCall = ''post_call''"

definition errUnsupportedProvider :: goerror where
  "errUnsupportedProvider = Sentinel ''unsupported provider type''"
definition errInvalidConfig :: goerror where
  "errInvalidConfig = Sentinel ''invalid guard config''"

record static_presidio =
  sp_Endpoint :: string
  sp_Language :: string
  sp_ScoreThresholds :: "string \<rightharpoonup> string"
  sp_EntityActions :: "string \<rightharpoonup> string"

record static_config =
  sc_Provider :: string
  sc_Modes :: "string list"
  sc_Presidio :: "static_presidio option"

text \<open>The JSON encoding by the tags; \<open>omitempty\<close> drops an empty string or map.\<close>

definition json_string_map :: "(string \<rightharpoonup> string) \<Rightarrow> json" where
  "json_string_map m = JMap (\<lambda>k. map_option JStr (m k))"

definition static_presidio_json :: "static_presidio \<Rightarrow> json" where
  "static_presidio_json p =
     JMap (Map.empty(
       ''endpoint'' \<mapsto> JStr (sp_Endpoint p),
       ''language'' := (if sp_Language p = [] then None else Some (JStr (sp_Language p))),
       ''score_thresholds'' := (if sp_ScoreThresholds p = Map.empty then None
                                else Some (json_string_map (sp_ScoreThresholds p))),
       ''entity_actions'' := (if sp_EntityActions p = Map.empty then None
                              else Some (json_string_map (sp_EntityActions p)))))"

definition static_config_json :: "static_config \<Rightarrow> json" where
  "static_config_json c =
     JMap (Map.empty(
       ''provider'' \<mapsto> JStr (sc_Provider c),
       ''modes'' \<mapsto> JList (map JStr (sc_Modes c)),
       ''presidio'' := map_option static_presidio_json (sc_Presidio c)))"

text \<open>The loop over the modes: the error of the first one the adapter does not support.\<close>

fun check_modes :: "klib \<Rightarrow> string list \<Rightarrow> goerror option" where
  "check_modes lib [] = None"
| "check_modes lib (m # ms) =
     (if m = GuardModePreCall \<or> m = GuardModePostCall then check_modes lib ms
      else Some (Wrapf [] errInvalidConfig
             ('': mode '' @ l_quote lib m @ '' not supported by adapter (allowed: pre_call, post_call)'')))"

definition static_presidio_of :: "string \<Rightarrow> presidio_guard_config option \<Rightarrow> static_presidio" where
  "static_presidio_of base pg =
     (case pg of
        None \<Rightarrow> \<lparr>sp_Endpoint = base, sp_Language = [], sp_ScoreThresholds = Map.empty, sp_EntityActions = Map.empty\<rparr>
      | Some g \<Rightarrow> \<lparr>sp_Endpoint = base, sp_Language = pg_Language g, sp_ScoreThresholds = pg_ScoreThresholds g,
                   sp_EntityActions = pg_EntityActions g\<rparr>)"

definition renderStaticConfig :: "klib \<Rightarrow> guard \<Rightarrow> guardrail_provider \<Rightarrow> goerror + string \<times> string" where
  "renderStaticConfig lib g p =
     (if gp_Type p \<noteq> providerTypePresidio
      then Inl (Wrapf [] errUnsupportedProvider ('': '' @ l_quote lib (gp_Type p)))
      else if g_Mode g = [] then Inl (Wrapf [] errInvalidConfig '': modes is required'')
      else case check_modes lib (g_Mode g) of
        Some e \<Rightarrow> Inl e
      | None \<Rightarrow>
          (case gp_Presidio p of
             None \<Rightarrow> Inl (Wrapf [] errInvalidConfig '': presidio.baseUrl is required'')
           | Some base \<Rightarrow>
               if base = [] then Inl (Wrapf [] errInvalidConfig '': presidio.baseUrl is required'')
               else
                 (let cfg = \<lparr>sc_Provider = providerTypePresidio, sc_Modes = g_Mode g,
                             sc_Presidio = Some (static_presidio_of base (g_Presidio g))\<rparr>
                  in case l_json_to_yaml lib (static_config_json cfg) of
                       Inl e \<Rightarrow> Inl (Wrapf ''marshal static config: '' (Plain e) [])
                     | Inr data \<Rightarrow> Inr (data, hex_encode (sum256 data)))))"

section \<open>What is rendered\<close>

text \<open>The guards and providers the adapter can be configured for.\<close>

definition valid_guard :: "guard \<Rightarrow> guardrail_provider \<Rightarrow> bool" where
  "valid_guard g p =
     (gp_Type p = providerTypePresidio
      \<and> g_Mode g \<noteq> [] \<and> set (g_Mode g) \<subseteq> {GuardModePreCall, GuardModePostCall}
      \<and> gp_Presidio p \<noteq> None \<and> gp_Presidio p \<noteq> Some [])"

definition guard_static_config :: "guard \<Rightarrow> guardrail_provider \<Rightarrow> json" where
  "guard_static_config g p =
     static_config_json
       \<lparr>sc_Provider = providerTypePresidio, sc_Modes = g_Mode g,
        sc_Presidio = Some (static_presidio_of (the (gp_Presidio p)) (g_Presidio g))\<rparr>"

lemma check_modes_none: "check_modes lib ms = None \<longleftrightarrow> set ms \<subseteq> {GuardModePreCall, GuardModePostCall}"
  by (induction ms) auto

lemmas check_modes_ok = check_modes_none [THEN iffD2]

lemma valid_guard_modes:
  "valid_guard g p \<longleftrightarrow> gp_Type p = providerTypePresidio \<and> g_Mode g \<noteq> [] \<and> check_modes lib (g_Mode g) = None
     \<and> gp_Presidio p \<noteq> None \<and> gp_Presidio p \<noteq> Some []"
  by (simp add: valid_guard_def check_modes_none)

lemma check_modes_invalid: "check_modes lib ms = Some e \<Longrightarrow> errors_is e errInvalidConfig"
  by (induction ms) (auto simp: errInvalidConfig_def split: if_splits)

lemma render_valid:
  "valid_guard g p \<Longrightarrow>
   renderStaticConfig lib g p =
     (case l_json_to_yaml lib (guard_static_config g p) of
        Inl e \<Rightarrow> Inl (Wrapf ''marshal static config: '' (Plain e) [])
      | Inr data \<Rightarrow> Inr (data, hex_encode (sum256 data)))"
  by (auto simp: renderStaticConfig_def valid_guard_def guard_static_config_def check_modes_ok Let_def)

lemma render_ok:
  assumes "renderStaticConfig lib g p = Inr (data, h)"
  shows "valid_guard g p" "l_json_to_yaml lib (guard_static_config g p) = Inr data"
    "h = hex_encode (sum256 data)"
  using assms
  by (auto simp: renderStaticConfig_def valid_guard_def guard_static_config_def check_modes_none Let_def
      split: if_splits option.splits sum.splits)

lemma render_error:
  assumes "renderStaticConfig lib g p = Inl e"
  shows "errors_is e errUnsupportedProvider \<longleftrightarrow> gp_Type p \<noteq> providerTypePresidio"
    and "errors_is e errInvalidConfig \<longleftrightarrow> gp_Type p = providerTypePresidio \<and> \<not> valid_guard g p"
proof -
  have nu: "check_modes lib ms = Some e \<Longrightarrow> \<not> errors_is e errUnsupportedProvider" for ms e
    by (induction ms) (auto simp: errInvalidConfig_def errUnsupportedProvider_def split: if_splits)
  show "errors_is e errUnsupportedProvider \<longleftrightarrow> gp_Type p \<noteq> providerTypePresidio"
    using assms nu
    by (auto simp: renderStaticConfig_def Let_def errInvalidConfig_def errUnsupportedProvider_def
        split: if_splits option.splits sum.splits)
  show "errors_is e errInvalidConfig \<longleftrightarrow> gp_Type p = providerTypePresidio \<and> \<not> valid_guard g p"
    using assms check_modes_invalid
    by (auto simp: renderStaticConfig_def valid_guard_modes [where lib = lib] Let_def
        errInvalidConfig_def errUnsupportedProvider_def split: if_splits option.splits sum.splits)
qed

end
