(* ===== verification/KubeMemory.thy ===== *)
theory KubeMemory
  imports KubeClient
begin

text \<open>
  A cluster held in memory and plain implementations of the helper packages.  They satisfy
  the laws of \<open>KubeClient\<close> (the interpretations below), and are what the witnesses of the
  development run the controllers on.  Any set of calls can be made to fail through the list
  of faults.
\<close>

section \<open>The cluster\<close>

datatype kcall =
    CallGet okey
  | CallList kind "string option"
  | CallCreateOrPatch okey
  | CallDelete okey
  | CallPatchStatus okey

record cluster =
  k_Objects :: "kobj list"
  k_Faults :: "(kcall \<times> api_reason \<times> string) list"
  k_Events :: "kevent list"

text \<open>An injected fault is never a NotFound: absence is decided by the store alone.\<close>

definition fault :: "kcall \<Rightarrow> cluster \<Rightarrow> goerror option" where
  "fault c w =
     (case map_of (k_Faults w) c of
        Some (r, m) \<Rightarrow> if r = NotFound then None else Some (ApiError r m)
      | None \<Rightarrow> None)"

definition mem_at :: "cluster \<Rightarrow> okey \<Rightarrow> kobj option" where
  "mem_at w k = find (\<lambda>ob. key_of ob = k) (k_Objects w)"

definition put_obj :: "kobj \<Rightarrow> cluster \<Rightarrow> cluster" where
  "put_obj ob w = w\<lparr>k_Objects := filter (\<lambda>x. key_of x \<noteq> key_of ob) (k_Objects w) @ [ob]\<rparr>"

definition del_obj :: "okey \<Rightarrow> cluster \<Rightarrow> cluster" where
  "del_obj k w = w\<lparr>k_Objects := filter (\<lambda>x. key_of x \<noteq> k) (k_Objects w)\<rparr>"

fun first_of_key :: "kobj list \<Rightarrow> kobj list" where
  "first_of_key [] = []"
| "first_of_key (x # xs) = x # filter (\<lambda>y. key_of y \<noteq> key_of x) (first_of_key xs)"

definition not_found :: "okey \<Rightarrow> goerror" where
  "not_found k = ApiError NotFound (snd (snd k) @ '' not found'')"

definition mem_get :: "okey \<Rightarrow> cluster \<Rightarrow> goerror + kobj" where
  "mem_get k w =
     (case fault (CallGet k) w of
        Some e \<Rightarrow> Inl e
      | None \<Rightarrow> (case mem_at w k of None \<Rightarrow> Inl (not_found k) | Some ob \<Rightarrow> Inr ob))"

definition mem_list :: "kind \<Rightarrow> string option \<Rightarrow> cluster \<Rightarrow> goerror + kobj list" where
  "mem_list kd ns w =
     (case fault (CallList kd ns) w of
        Some e \<Rightarrow> Inl e
      | None \<Rightarrow>
          Inr (filter (\<lambda>ob. kind_of ob = kd \<and> (ns = None \<or> ns = Some (m_Namespace (meta_of ob))))
                 (first_of_key (k_Objects w))))"

text \<open>The server gives a created object its uid and first generation.\<close>

definition admit :: "kobj \<Rightarrow> kobj" where
  "admit ob = map_meta (\<lambda>m. m\<lparr>m_Uid := ''uid-'' @ m_Name m, m_Generation := 1\<rparr>) ob"

definition mem_create_or_patch ::
  "kobj \<Rightarrow> (kobj \<Rightarrow> goerror + kobj) \<Rightarrow> cluster \<Rightarrow> (goerror + op_result) \<times> cluster" where
  "mem_create_or_patch ob f w =
     (case fault (CallCreateOrPatch (key_of ob)) w of
        Some e \<Rightarrow> (Inl e, w)
      | None \<Rightarrow>
          (case f (case mem_at w (key_of ob) of None \<Rightarrow> ob | Some o0 \<Rightarrow> o0) of
             Inl e \<Rightarrow> (Inl e, w)
           | Inr ob' \<Rightarrow>
               if key_of ob' \<noteq> key_of ob
               then (Inl (Plain ''MutateFn cannot mutate object name and/or object namespace''), w)
               else (case mem_at w (key_of ob) of
                       None \<Rightarrow> (Inr OpCreated, put_obj (admit ob') w)
                     | Some o0 \<Rightarrow> if ob' = o0 then (Inr OpNone, w) else (Inr OpUpdated, put_obj ob' w))))"

definition mem_delete :: "okey \<Rightarrow> cluster \<Rightarrow> goerror option \<times> cluster" where
  "mem_delete k w =
     (case fault (CallDelete k) w of
        Some e \<Rightarrow> (Some e, w)
      | None \<Rightarrow>
          (case mem_at w k of None \<Rightarrow> (Some (not_found k), w) | Some _ \<Rightarrow> (None, del_obj k w)))"

definition mem_patch_status :: "kobj \<Rightarrow> kobj \<Rightarrow> cluster \<Rightarrow> goerror option \<times> cluster" where
  "mem_patch_status base new w =
     (case fault (CallPatchStatus (key_of new)) w of
        Some e \<Rightarrow> (Some e, w)
      | None \<Rightarrow>
          (case mem_at w (key_of new) of
             None \<Rightarrow> (Some (not_found (key_of new)), w)
           | Some s \<Rightarrow> (None, put_obj (merge_status base new s) w)))"

definition mem_event :: "kevent \<Rightarrow> cluster \<Rightarrow> cluster" where
  "mem_event e w = w\<lparr>k_Events := k_Events w @ [e]\<rparr>"

definition mem_client :: "cluster client" where
  "mem_client =
     \<lparr>c_get = mem_get, c_list = mem_list, c_create_or_patch = mem_create_or_patch,
      c_delete = mem_delete, c_patch_status = mem_patch_status, c_event = mem_event\<rparr>"

section \<open>It satisfies the laws\<close>

lemma mem_client_simps [simp]:
  "c_get mem_client = mem_get" "c_list mem_client = mem_list"
  "c_create_or_patch mem_client = mem_create_or_patch" "c_delete mem_client = mem_delete"
  "c_patch_status mem_client = mem_patch_status" "c_event mem_client = mem_event"
  by (simp_all add: mem_client_def)

lemma find_filter_other: "k \<noteq> k' \<Longrightarrow> find (\<lambda>x. key_of x = k) (filter (\<lambda>x. key_of x \<noteq> k') xs) = find (\<lambda>x. key_of x = k) xs"
  by (induction xs) auto

lemma find_filter_same: "find (\<lambda>x. key_of x = k) (filter (\<lambda>x. key_of x \<noteq> k) xs) = None"
  by (induction xs) auto

lemma find_append: "find P (xs @ ys) = (case find P xs of None \<Rightarrow> find P ys | Some x \<Rightarrow> Some x)"
  by (induction xs) auto

lemma mem_at_put: "mem_at (put_obj ob w) k = (if k = key_of ob then Some ob else mem_at w k)"
  by (simp add: mem_at_def put_obj_def find_append find_filter_other find_filter_same split: option.split)

lemma mem_at_del: "mem_at (del_obj k' w) k = (if k = k' then None else mem_at w k)"
  by (simp add: mem_at_def del_obj_def find_filter_other find_filter_same)

lemma mem_at_key: "mem_at w k = Some ob \<Longrightarrow> key_of ob = k"
  by (auto simp: mem_at_def find_Some_iff)

lemma fault_not_missing: "fault c w = Some e \<Longrightarrow> \<not> is_not_found e"
  by (auto simp: fault_def split: option.splits if_splits)

lemma set_first_of_key: "set (first_of_key xs) = {ob. find (\<lambda>x. key_of x = key_of ob) xs = Some ob}"
  by (induction xs) auto

lemma key_admit [simp]: "key_of (admit ob) = key_of ob"
  by (simp add: key_of_def admit_def meta_key_def)

lemma same_content_admit [simp]: "same_content (admit ob) ob"
  by (cases ob) (simp_all add: same_content_def admit_def clear_server_def)

lemma key_merge_status [simp]: "key_of (merge_status b n s) = key_of s"
  by (auto simp: merge_status_def key_of_def split: kobj.split prod.split)

lemma mem_log_simps [simp]:
  "k_Events (put_obj ob w) = k_Events w" "k_Events (del_obj k w) = k_Events w"
  "k_Events (mem_event e w) = k_Events w @ [e]" "mem_at (mem_event e w) = mem_at w"
  by (simp_all add: put_obj_def del_obj_def mem_event_def mem_at_def fun_eq_iff)

lemma mem_get_some: "mem_get k w = Inr ob \<Longrightarrow> mem_at w k = Some ob"
  by (simp add: mem_get_def split: option.splits)

lemma mem_get_missing: "mem_get k w = Inl e \<Longrightarrow> is_not_found e \<Longrightarrow> mem_at w k = None"
  by (auto simp: mem_get_def fault_not_missing split: option.splits)

lemma mem_list_set:
  "mem_list kd ns w = Inr obs \<Longrightarrow>
   set obs = {ob. mem_at w (key_of ob) = Some ob \<and> kind_of ob = kd
                \<and> (ns = None \<or> ns = Some (m_Namespace (meta_of ob)))}"
  by (auto simp: mem_list_def set_first_of_key mem_at_def split: option.splits)

lemma mem_cop_ok:
  assumes "mem_create_or_patch ob f w = (Inr r, w')"
  shows "\<exists>ob' st. f (case mem_at w (key_of ob) of None \<Rightarrow> ob | Some o0 \<Rightarrow> o0) = Inr ob'
        \<and> mem_at w' (key_of ob) = Some st \<and> same_content st ob'
        \<and> (r = OpCreated) = (mem_at w (key_of ob) = None)
        \<and> (r = OpNone) = (mem_at w (key_of ob) = Some ob')
        \<and> (r = OpNone \<longrightarrow> st = ob')"
  using assms
  by (cases "mem_at w (key_of ob)")
    (auto simp: mem_create_or_patch_def mem_at_put split: option.splits sum.splits if_splits)

lemma mem_cop_error: "mem_create_or_patch ob f w = (Inl e, w') \<Longrightarrow> w' = w"
  by (auto simp: mem_create_or_patch_def split: option.splits sum.splits if_splits)

lemma mem_cop_frame: "k \<noteq> key_of ob \<Longrightarrow> mem_at (snd (mem_create_or_patch ob f w)) k = mem_at w k"
  by (simp add: mem_create_or_patch_def mem_at_put split: option.split sum.split)

lemma mem_cop_log: "k_Events (snd (mem_create_or_patch ob f w)) = k_Events w"
  by (simp add: mem_create_or_patch_def split: option.split sum.split)

lemma mem_delete_gone:
  "mem_delete k w = (dr, w') \<Longrightarrow> (case dr of None \<Rightarrow> True | Some e \<Rightarrow> is_not_found e) \<Longrightarrow> mem_at w' k = None"
  by (auto simp: mem_delete_def mem_at_del fault_not_missing split: option.splits)

lemma mem_delete_error: "mem_delete k w = (Some e, w') \<Longrightarrow> w' = w"
  by (auto simp: mem_delete_def split: option.splits)

lemma mem_delete_frame: "k' \<noteq> k \<Longrightarrow> mem_at (snd (mem_delete k w)) k' = mem_at w k'"
  by (simp add: mem_delete_def mem_at_del split: option.split)

lemma mem_delete_log: "k_Events (snd (mem_delete k w)) = k_Events w"
  by (simp add: mem_delete_def split: option.split)

lemma mem_patch_ok:
  assumes "mem_patch_status b n w = (None, w')"
  shows "\<exists>s. mem_at w (key_of n) = Some s \<and> mem_at w' (key_of n) = Some (merge_status b n s)"
  using assms by (auto simp: mem_patch_status_def mem_at_put mem_at_key split: option.splits)

lemma mem_patch_error: "mem_patch_status b n w = (Some e, w') \<Longrightarrow> w' = w"
  by (auto simp: mem_patch_status_def split: option.splits)

lemma mem_patch_frame: "k \<noteq> key_of n \<Longrightarrow> mem_at (snd (mem_patch_status b n w)) k = mem_at w k"
  by (auto simp: mem_patch_status_def mem_at_put dest: mem_at_key split: option.split)

lemma mem_patch_log: "k_Events (snd (mem_patch_status b n w)) = k_Events w"
  by (simp add: mem_patch_status_def split: option.split)

lemmas mem_laws =
  mem_at_key mem_get_some mem_get_missing mem_list_set mem_cop_ok mem_cop_frame mem_cop_log
  mem_delete_gone mem_delete_frame mem_delete_log mem_patch_ok mem_patch_frame mem_patch_log

lemma fault_foreign: "fault c w = Some e \<Longrightarrow> foreign_error e"
  by (auto simp: fault_def split: option.splits if_splits)

lemma mem_cop_foreign:
  assumes "mem_create_or_patch ob f w = (Inl e, w')" and "\<And>x e'. f x = Inl e' \<Longrightarrow> foreign_error e'"
  shows "foreign_error e"
  using assms fault_foreign
  by (auto simp: mem_create_or_patch_def split: option.splits sum.splits if_splits)

lemma mem_foreign:
  "mem_get k w = Inl e \<Longrightarrow> foreign_error e" "mem_list kd ns w = Inl e \<Longrightarrow> foreign_error e"
  "mem_delete k w = (Some e, w') \<Longrightarrow> foreign_error e"
  by (auto simp: mem_get_def mem_list_def mem_delete_def not_found_def dest: fault_foreign split: option.splits)

interpretation mem: kube_client mem_client mem_at k_Events
proof (unfold_locales, goal_cases)
  case (4 kd ns w obs)
  then show ?case using mem_list_set [of kd ns w obs] by simp
next
  case (6 ob f w e w')
  then show ?case using mem_cop_error [of ob f w e w'] by simp
next
  case (9 k w e w')
  then show ?case using mem_delete_error [of k w e w'] by simp
next
  case (12 b n w e w')
  then show ?case using mem_patch_error [of b n w e w'] by simp
next
  case (5 ob f w r w')
  then show ?case using mem_cop_ok [of ob f w r w'] by simp
next
  case (8 k w dr w')
  then show ?case using mem_delete_gone [of k w dr w'] by simp
next
  case (11 b n w w')
  then show ?case using mem_patch_ok [of b n w w'] by simp
next
  case (14 k w e)
  then show ?case using mem_foreign(1) by simp
next
  case (15 kd ns w e)
  then show ?case using mem_foreign(2) by simp
next
  case (16 ob f w e w')
  then show ?case using mem_cop_foreign [of ob f w e w'] by simp
next
  case (17 k w e w')
  then show ?case using mem_foreign(3) by simp
next
  case (23 k w w')
  then show ?case by (auto simp: mem_delete_def split: option.splits)
qed (simp_all add: mem_at_key mem_get_some mem_get_missing mem_cop_frame
      mem_cop_log mem_delete_frame mem_delete_log mem_patch_frame mem_patch_log)

section \<open>Conditions\<close>

fun ref_set_condition :: "condition list \<Rightarrow> condition \<Rightarrow> condition list" where
  "ref_set_condition [] c = [c]"
| "ref_set_condition (d # cs) c =
     (if cd_Type d = cd_Type c
      then (if same_condition d c then d
            else c\<lparr>cd_TransitionTime := (if cd_Status d = cd_Status c then cd_TransitionTime d
                                        else Suc (cd_TransitionTime d))\<rparr>) # cs
      else d # ref_set_condition cs c)"

definition ref_remove_condition :: "condition list \<Rightarrow> string \<Rightarrow> condition list" where
  "ref_remove_condition cs t = filter (\<lambda>d. cd_Type d \<noteq> t) cs"

definition ref_find_condition :: "condition list \<Rightarrow> string \<Rightarrow> condition option" where
  "ref_find_condition cs t = find (\<lambda>d. cd_Type d = t) cs"

section \<open>Owner references\<close>

fun upsert_owner :: "owner_ref \<Rightarrow> owner_ref list \<Rightarrow> owner_ref list" where
  "upsert_owner r [] = [r]"
| "upsert_owner r (x # xs) =
     (if or_Kind x = or_Kind r \<and> or_Name x = or_Name r then r # xs else x # upsert_owner r xs)"

definition ref_set_controller :: "kind \<Rightarrow> object_meta \<Rightarrow> object_meta \<Rightarrow> goerror + object_meta" where
  "ref_set_controller k om m =
     (if m_Namespace om \<noteq> m_Namespace m
      then Inl (Plain ''cross-namespace owner references are disallowed'')
      else if controller_of m \<notin> {None, Some (k, m_Name om)}
      then Inl (Plain (''Object '' @ m_Namespace m @ ''/'' @ m_Name m @ '' is already owned by another controller''))
      else Inr (m\<lparr>m_Owners := upsert_owner \<lparr>or_Kind = k, or_Name = m_Name om, or_Uid = m_Uid om, or_Controller = True\<rparr>
                                (m_Owners m)\<rparr>))"

section \<open>Nested fields\<close>

fun ref_set_nested :: "jobject \<Rightarrow> string list \<Rightarrow> json \<Rightarrow> goerror + jobject" where
  "ref_set_nested m [] v = Inl (Plain ''no fields'')"
| "ref_set_nested m [k] v = Inr (m(k \<mapsto> v))"
| "ref_set_nested m (k # j # ks) v =
     (case m k of
        None \<Rightarrow> map_sum id (\<lambda>m'. m(k \<mapsto> JMap m')) (ref_set_nested Map.empty (j # ks) v)
      | Some (JMap n) \<Rightarrow> map_sum id (\<lambda>m'. m(k \<mapsto> JMap m')) (ref_set_nested n (j # ks) v)
      | Some _ \<Rightarrow> Inl (Plain ''value cannot be set because an element is not a map''))"

fun ref_remove_nested :: "jobject \<Rightarrow> string list \<Rightarrow> jobject" where
  "ref_remove_nested m [] = m"
| "ref_remove_nested m [k] = m(k := None)"
| "ref_remove_nested m (k # j # ks) =
     (case m k of Some (JMap n) \<Rightarrow> m(k \<mapsto> JMap (ref_remove_nested n (j # ks))) | _ \<Rightarrow> m)"

section \<open>Printing\<close>

text \<open>\<open>EnvVar\<close> and \<open>EnvFromSource\<close> by their JSON tags.\<close>

definition ref_env_json :: "env_var \<Rightarrow> goerror + json" where
  "ref_env_json e =
     Inr (JMap (Map.empty(''name'' \<mapsto> JStr (ev_Name e),
       ''value'' := (if ev_Value e = [] then None else Some (JStr (ev_Value e))),
       ''valueFrom'' := ev_ValueFrom e)))"

text \<open>The string-valued field at a path, as a line of YAML.\<close>

definition yaml_line :: "jobject \<Rightarrow> string list \<Rightarrow> string" where
  "yaml_line m p = (case json_get m p of Some (JStr s) \<Rightarrow> last p @ '': '' @ s @ [CHR 0x0A] | _ \<Rightarrow> [])"

definition ref_json_to_yaml :: "json \<Rightarrow> string + string" where
  "ref_json_to_yaml j =
     (case j of
        JMap m \<Rightarrow> Inr (yaml_line m [''presidio'', ''endpoint''] @ yaml_line m [''presidio'', ''language'']
                        @ yaml_line m [''provider''])
      | _ \<Rightarrow> Inl ''not an object'')"

definition ref_lib :: klib where
  "ref_lib =
     \<lparr>l_set_condition = ref_set_condition, l_remove_condition = ref_remove_condition,
      l_find_condition = ref_find_condition, l_set_controller = ref_set_controller,
      l_set_nested = ref_set_nested, l_remove_nested = ref_remove_nested,
      l_env_json = ref_env_json, l_env_from_json = (\<lambda>e. Inr (ef_Source e)),
      l_json_to_yaml = ref_json_to_yaml, l_quote = (\<lambda>s. [CHR 0x22] @ s @ [CHR 0x22]),
      l_ip6 = (\<lambda>s. if CHR '':'' \<in> set s then None else Some ''unable to parse IP'')\<rparr>"

lemma ref_lib_simps [simp]:
  "l_set_condition ref_lib = ref_set_condition" "l_remove_condition ref_lib = ref_remove_condition"
  "l_find_condition ref_lib = ref_find_condition" "l_set_controller ref_lib = ref_set_controller"
  "l_set_nested ref_lib = ref_set_nested" "l_remove_nested ref_lib = ref_remove_nested"
  "l_env_json ref_lib = ref_env_json" "l_env_from_json ref_lib = (\<lambda>e. Inr (ef_Source e))"
  "l_json_to_yaml ref_lib = ref_json_to_yaml"
  "l_quote ref_lib = (\<lambda>s. [CHR 0x22] @ s @ [CHR 0x22])"
  "l_ip6 ref_lib = (\<lambda>s. if CHR '':'' \<in> set s then None else Some ''unable to parse IP'')"
  by (simp_all add: ref_lib_def)

section \<open>They satisfy the laws\<close>

lemma ref_find_Cons:
  "ref_find_condition (d # cs) t = (if cd_Type d = t then Some d else ref_find_condition cs t)"
  by (simp add: ref_find_condition_def)

interpretation ref_conditions: condition_lib ref_lib
proof (unfold_locales, unfold ref_lib_simps)
  fix cs c t d
  show "\<exists>d. ref_find_condition (ref_set_condition cs c) (cd_Type c) = Some d \<and> same_condition d c"
    by (induction cs) (auto simp: ref_find_Cons ref_find_condition_def same_condition_def)
  show "ref_find_condition (ref_set_condition cs c) t = ref_find_condition cs t" if "t \<noteq> cd_Type c"
    using that by (induction cs) (auto simp: ref_find_Cons ref_find_condition_def)
  show "ref_set_condition cs c = cs"
    if "ref_find_condition cs (cd_Type c) = Some d" "same_condition d c"
    using that by (induction cs) (auto simp: ref_find_Cons ref_find_condition_def)
  show "ref_find_condition (ref_remove_condition cs t) t = None"
    by (auto simp: ref_find_condition_def ref_remove_condition_def find_None_iff)
  show "ref_find_condition (ref_remove_condition cs t) u = ref_find_condition cs u" if "u \<noteq> t" for u
    using that by (induction cs) (auto simp: ref_find_condition_def ref_remove_condition_def)
  show "ref_remove_condition cs t = cs" if "ref_find_condition cs t = None"
    using that by (auto simp: ref_find_condition_def ref_remove_condition_def find_None_iff filter_id_conv)
  show "ref_find_condition [] t = None" by (simp add: ref_find_condition_def)
qed

lemma upsert_controller:
  assumes "map_option (\<lambda>x. (or_Kind x, or_Name x)) (find or_Controller xs) \<in> {None, Some (or_Kind r, or_Name r)}"
    and "or_Controller r"
  shows "map_option (\<lambda>x. (or_Kind x, or_Name x)) (find or_Controller (upsert_owner r xs)) = Some (or_Kind r, or_Name r)"
  using assms by (induction xs) (auto split: if_splits)

lemma upsert_mem: "r \<in> set (upsert_owner r xs)"
  by (induction xs) auto

lemma upsert_upsert: "upsert_owner r (upsert_owner r xs) = upsert_owner r xs"
  by (induction xs) auto

lemma ref_set_controller_ok:
  assumes "ref_set_controller k om m = Inr m'"
  defines "r \<equiv> \<lparr>or_Kind = k, or_Name = m_Name om, or_Uid = m_Uid om, or_Controller = True\<rparr>"
  shows "m' = m\<lparr>m_Owners := upsert_owner r (m_Owners m)\<rparr>" "m_Namespace om = m_Namespace m"
    "controller_of m' = Some (k, m_Name om)"
proof -
  show 1: "m' = m\<lparr>m_Owners := upsert_owner r (m_Owners m)\<rparr>" and "m_Namespace om = m_Namespace m"
    using assms(1) by (simp_all add: ref_set_controller_def r_def split: if_splits)
  have "controller_of m \<in> {None, Some (k, m_Name om)}"
    using assms(1) unfolding ref_set_controller_def by (metis Inl_Inr_False)
  then show "controller_of m' = Some (k, m_Name om)"
    using upsert_controller [of "m_Owners m" r] by (simp add: 1 controller_of_def r_def)
qed

lemma ref_set_controller_stable:
  assumes "ref_set_controller k om m = Inr m'" and c: "clear_server m2 = clear_server m'"
  shows "ref_set_controller k om m2 = Inr m2"
proof -
  note ok = ref_set_controller_ok [OF assms(1)]
  have m2: "m_Owners m2 = m_Owners m'" "m_Namespace m2 = m_Namespace m'" "m_Name m2 = m_Name m'"
    using c by (cases m2; cases m'; simp add: clear_server_def)+
  have "m_Namespace om = m_Namespace m2" using ok(1,2) m2 by simp
  moreover have "controller_of m2 = Some (k, m_Name om)" using ok(3) m2 by (simp add: controller_of_def)
  moreover have "upsert_owner \<lparr>or_Kind = k, or_Name = m_Name om, or_Uid = m_Uid om, or_Controller = True\<rparr> (m_Owners m2) = m_Owners m2"
    unfolding m2(1) ok(1) by (simp add: upsert_upsert)
  ultimately show ?thesis unfolding ref_set_controller_def by simp
qed

interpretation ref_owner: owner_lib ref_lib
proof (unfold_locales, goal_cases)
  case (1 k om m m')
  then have s: "ref_set_controller k om m = Inr m'" by simp
  show ?case
    using ref_set_controller_ok [OF s]
    by (auto simp: is_controller_ref_def intro!: bexI [OF _ upsert_mem])
next
  case (2 m c k om)
  then show ?case by (simp add: ref_set_controller_def)
next
  case (3 k om m e)
  then show ?case by (auto simp: ref_set_controller_def split: if_splits)
next
  case (4 m k om)
  then show ?case by (auto simp: ref_set_controller_def)
next
  case (5 k om m m' m2)
  then show ?case using ref_set_controller_stable by simp
qed

text \<open>Reading a path one field at a time.\<close>

definition sub_map :: "jobject \<Rightarrow> string \<Rightarrow> jobject option" where
  "sub_map m k = (case m k of Some (JMap n) \<Rightarrow> Some n | _ \<Rightarrow> None)"

lemma json_get_step: "ks \<noteq> [] \<Longrightarrow> json_get m (k # ks) = (case sub_map m k of None \<Rightarrow> None | Some n \<Rightarrow> json_get n ks)"
  by (auto simp: sub_map_def split: option.split json.split)

lemma json_get_one: "json_get m [k] = m k"
  by (simp split: option.split)

lemma json_get_nil_map: "q \<noteq> [] \<Longrightarrow> json_get Map.empty q = None"
  by (cases q) simp_all

lemma sub_map_upd [simp]: "sub_map (m(k \<mapsto> JMap n)) k' = (if k' = k then Some n else sub_map m k')"
  by (simp add: sub_map_def)

lemma ref_set_nested_step:
  assumes "ks \<noteq> []"
  shows "ref_set_nested m (k # ks) v =
     (if m k = None \<or> sub_map m k \<noteq> None
      then map_sum id (\<lambda>m'. m(k \<mapsto> JMap m')) (ref_set_nested (case sub_map m k of None \<Rightarrow> Map.empty | Some n \<Rightarrow> n) ks v)
      else Inl (Plain ''value cannot be set because an element is not a map''))"
  using assms by (cases ks) (auto simp: sub_map_def split: option.splits json.splits)

lemma ref_remove_nested_step:
  assumes "ks \<noteq> []"
  shows "ref_remove_nested m (k # ks) =
     (case sub_map m k of None \<Rightarrow> m | Some n \<Rightarrow> m(k \<mapsto> JMap (ref_remove_nested n ks)))"
  using assms by (cases ks) (auto simp: sub_map_def split: option.splits json.splits)

lemma ref_get_set: "ref_set_nested m p v = Inr m' \<Longrightarrow> p \<noteq> [] \<Longrightarrow> json_get m' p = Some v"
proof (induction p arbitrary: m m')
  case (Cons k ks)
  show ?case
  proof (cases "ks = []")
    case False
    with Cons show ?thesis
      by (auto simp: ref_set_nested_step json_get_step map_sum_Inr simp del: json_get.simps split: if_splits)
  qed (use Cons.prems in auto)
qed simp

lemma ref_get_set_other:
  "ref_set_nested m p v = Inr m' \<Longrightarrow> p \<noteq> [] \<Longrightarrow> q \<noteq> [] \<Longrightarrow> take (length q) p \<noteq> q \<Longrightarrow>
   take (length p) q \<noteq> p \<Longrightarrow> json_get m' q = json_get m q"
proof (induction p arbitrary: m m' q)
  case (Cons k ks)
  then obtain j js where q: "q = j # js" by (cases q) auto
  show ?case
  proof (cases "j = k")
    case True
    then have ne: "ks \<noteq> []" "js \<noteq> []" using Cons.prems q by auto
    then obtain n' where n': "ref_set_nested (case sub_map m k of None \<Rightarrow> Map.empty | Some n \<Rightarrow> n) ks v = Inr n'"
      "m' = m(k \<mapsto> JMap n')"
      using Cons.prems(1) by (auto simp: ref_set_nested_step map_sum_Inr split: if_splits)
    have "json_get n' js = json_get (case sub_map m k of None \<Rightarrow> Map.empty | Some n \<Rightarrow> n) js"
      by (rule Cons.IH [OF n'(1)]) (use ne Cons.prems q True in auto)
    then show ?thesis
      unfolding n'(2) q True json_get_step [OF ne(2)] sub_map_upd
      using ne(2) by (simp add: json_get_nil_map del: json_get.simps split: option.split)
  next
    case False
    then have "m' j = m j"
      using Cons.prems(1) by (cases "ks = []") (auto simp: ref_set_nested_step map_sum_Inr split: if_splits)
    then show ?thesis by (simp add: q)
  qed
qed simp

lemma ref_set_free:
  assumes "p \<noteq> []"
    and "\<And>q. q \<noteq> [] \<Longrightarrow> q \<noteq> p \<Longrightarrow> take (length q) p = q \<Longrightarrow>
      (case json_get m q of None \<Rightarrow> True | Some v \<Rightarrow> \<exists>n. v = JMap n)"
  shows "\<exists>m'. ref_set_nested m p v = Inr m'"
  using assms
proof (induction p arbitrary: m)
  case (Cons k ks)
  show ?case
  proof (cases "ks = []")
    case False
    have k: "m k = None \<or> sub_map m k \<noteq> None"
      using Cons.prems(2) [of "[k]"] False by (auto simp: sub_map_def split: option.splits json.splits)
    have "\<exists>m'. ref_set_nested (case sub_map m k of None \<Rightarrow> Map.empty | Some n \<Rightarrow> n) ks v = Inr m'"
    proof (rule Cons.IH [OF False])
      fix q :: "string list" assume q: "q \<noteq> []" "q \<noteq> ks" "take (length q) ks = q"
      then show "case json_get (case sub_map m k of None \<Rightarrow> Map.empty | Some n \<Rightarrow> n) q of None \<Rightarrow> True | Some v \<Rightarrow> \<exists>n. v = JMap n"
        using Cons.prems(2) [of "k # q"]
        by (simp add: json_get_step json_get_nil_map del: json_get.simps split: option.splits)
    qed
    then show ?thesis using k False by (auto simp: ref_set_nested_step)
  qed simp
qed simp

lemma ref_get_remove: "p \<noteq> [] \<Longrightarrow> json_get (ref_remove_nested m p) p = None"
proof (induction p arbitrary: m)
  case (Cons k ks)
  then show ?case
    by (cases "ks = []")
      (auto simp: ref_remove_nested_step json_get_step json_get_one simp del: json_get.simps split: option.split)
qed simp

lemma ref_get_remove_other:
  "p \<noteq> [] \<Longrightarrow> q \<noteq> [] \<Longrightarrow> take (length q) p \<noteq> q \<Longrightarrow> take (length p) q \<noteq> p \<Longrightarrow>
   json_get (ref_remove_nested m p) q = json_get m q"
proof (induction p arbitrary: m q)
  case (Cons k ks)
  then obtain j js where q: "q = j # js" by (cases q) auto
  show ?case
  proof (cases "j = k")
    case True
    then have ne: "ks \<noteq> []" "js \<noteq> []" using Cons.prems q by auto
    have "json_get (ref_remove_nested n ks) js = json_get n js" for n
      by (rule Cons.IH) (use ne Cons.prems q True in auto)
    then show ?thesis
      by (simp add: q True ref_remove_nested_step json_get_step ne del: json_get.simps split: option.split)
  next
    case False
    then have "ref_remove_nested m (k # ks) j = m j"
      by (cases "ks = []") (auto simp: ref_remove_nested_step split: option.split)
    then show ?thesis by (simp add: q)
  qed
qed simp

lemma ref_set_same: "json_get m p = Some v \<Longrightarrow> p \<noteq> [] \<Longrightarrow> ref_set_nested m p v = Inr m"
proof (induction p arbitrary: m)
  case (Cons k ks)
  show ?case
  proof (cases "ks = []")
    case True
    with Cons.prems have "m k = Some v" by (simp add: json_get_one del: json_get.simps)
    with True show ?thesis by (simp add: fun_upd_idem)
  next
    case False
    with Cons.prems obtain n where n: "sub_map m k = Some n" "json_get n ks = Some v"
      by (auto simp: json_get_step simp del: json_get.simps split: option.splits)
    then have "m k = Some (JMap n)" by (auto simp: sub_map_def split: option.splits json.splits)
    with False n Cons.IH show ?thesis by (simp add: ref_set_nested_step fun_upd_idem)
  qed
qed simp

lemma ref_remove_absent: "json_get m p = None \<Longrightarrow> p \<noteq> [] \<Longrightarrow> ref_remove_nested m p = m"
proof (induction p arbitrary: m)
  case (Cons k ks)
  show ?case
  proof (cases "ks = []")
    case True
    with Cons.prems have "m k = None" by (simp add: json_get_one del: json_get.simps)
    with True show ?thesis by (simp add: fun_upd_idem)
  next
    case False
    show ?thesis
    proof (cases "sub_map m k")
      case None
      with False show ?thesis by (simp add: ref_remove_nested_step)
    next
      case (Some n)
      then have "m k = Some (JMap n)" by (auto simp: sub_map_def split: option.splits json.splits)
      moreover have "json_get n ks = None" using Cons.prems Some False by (simp add: json_get_step del: json_get.simps)
      ultimately show ?thesis using False Some Cons.IH by (simp add: ref_remove_nested_step fun_upd_idem)
    qed
  qed
qed simp

lemma ref_set_foreign: "ref_set_nested m p v = Inl e \<Longrightarrow> foreign_error e"
proof (induction m p v rule: ref_set_nested.induct)
  case (3 m k j ks v)
  then show ?case by (auto simp: map_sum_def split: option.splits json.splits sum.splits)
qed auto

interpretation ref_nested: nested_lib ref_lib
proof (unfold_locales, unfold ref_lib_simps)
  show "\<exists>o2. ref_set_nested o1 p v = Inr o2"
    if "p \<noteq> []" "\<And>q. q \<noteq> [] \<Longrightarrow> q \<noteq> p \<Longrightarrow> take (length q) p = q \<Longrightarrow>
      (case json_get o1 q of None \<Rightarrow> True | Some v \<Rightarrow> \<exists>m. v = JMap m)" for o1 p v
    using ref_set_free [OF that(1)] that(2) by blast
qed (fact ref_get_set ref_set_foreign ref_set_same ref_get_set_other ref_get_remove ref_remove_absent ref_get_remove_other)+

section \<open>A reconciler on it\<close>

definition mem_reconciler :: "cluster reconciler" where
  "mem_reconciler = \<lparr>r_Client = mem_client, r_Lib = ref_lib, r_Recorder = True\<rparr>"

interpretation mem_rec: operator mem_reconciler mem_at k_Events
  unfolding operator_def mem_reconciler_def
  by (simp add: mem.kube_client_axioms ref_conditions.condition_lib_axioms ref_owner.owner_lib_axioms
      ref_nested.nested_lib_axioms)

definition mem_cluster :: "kobj list \<Rightarrow> cluster" where
  "mem_cluster obs = \<lparr>k_Objects = obs, k_Faults = [], k_Events = []\<rparr>"

text \<open>What evaluates a call on a concrete cluster.\<close>

lemmas mem_eval =
  mem_cluster_def get_as_def mem_get_def fault_def mem_at_def find_append key_simps new_meta_def
  mem_create_or_patch_def put_obj_def del_obj_def mem_patch_status_def merge_status_def patch_field_def
  ref_set_controller_def controller_of_def ref_find_condition_def list_as_def mem_list_def mem_delete_def
  not_found_def admit_def List.map_filter_simps

end
