(* ===== verification/GuardReconciler.thy ===== *)
theory GuardReconciler
  imports GuardConfig KubeMemory
begin

text \<open>
  \<open>guard_reconciler.go\<close>: a \<open>Guard\<close> is reconciled into an adapter Deployment, its ConfigMap
  and its Service, all named \<open><guard>-adapter\<close> in the guard's namespace, and a Ready
  condition.  An operation takes the world and returns its result with the new world;
  \<open>ctrl.Result\<close> is always empty and left out.
\<close>

section \<open>Constants\<close>

definition GuardAdapterControllerName :: string where
  "GuardAdapterControllerName = ''runtime.agentic-layer.ai/guard-adapter-controller''"
definition AdapterServicePort :: "32 word" where "AdapterServicePort = 80"
definition adapterContainerPort :: "32 word" where "adapterContainerPort = 9001"
definition adapterHealthPort :: "32 word" where "adapterHealthPort = 8080"
definition configHashAnnotation :: string where
  "configHashAnnotation = ''runtime.agentic-layer.ai/config-hash''"
definition guardReadyType :: string where "guardReadyType = ''Ready''"

definition guardReasonReconciled :: string where "guardReasonReconciled = ''Reconciled''"
definition guardReasonAdapterNotConfigured :: string where
  "guardReasonAdapterNotConfigured = ''AdapterNotConfigured''"
definition guardReasonProviderNotFound :: string where "guardReasonProviderNotFound = ''ProviderNotFound''"
definition guardReasonUnsupportedProviderType :: string where
  "guardReasonUnsupportedProviderType = ''UnsupportedProviderType''"
definition guardReasonInvalidConfig :: string where "guardReasonInvalidConfig = ''InvalidConfig''"
definition guardReasonReconcileFailed :: string where "guardReasonReconcileFailed = ''ReconcileFailed''"

lemmas guard_reasons =
  guardReasonReconciled_def guardReasonAdapterNotConfigured_def guardReasonProviderNotFound_def
  guardReasonUnsupportedProviderType_def guardReasonInvalidConfig_def guardReasonReconcileFailed_def

record 'w guard_reconciler = "'w reconciler" +
  r_AdapterImage :: string

section \<open>The adapter's resources\<close>

definition adapterName :: "guard \<Rightarrow> string" where
  "adapterName g = m_Name (g_Meta g) @ ''-adapter''"

definition config_map_mutate :: "klib \<Rightarrow> guard \<Rightarrow> string \<Rightarrow> config_map \<Rightarrow> goerror + config_map" where
  "config_map_mutate lib g configYAML cm =
     (case l_set_controller lib KGuard (g_Meta g) (cm_Meta cm) of
        Inl e \<Rightarrow> Inl e
      | Inr m \<Rightarrow>
          (let data = (case cm_Data cm of None \<Rightarrow> Map.empty | Some d \<Rightarrow> d)
           in Inr (cm\<lparr>cm_Meta := m, cm_Data := Some (data(staticConfigKey \<mapsto> configYAML))\<rparr>)))"

definition ensureConfigMap ::
  "'w guard_reconciler \<Rightarrow> guard \<Rightarrow> string \<Rightarrow> 'w \<Rightarrow> goerror option \<times> 'w" where
  "ensureConfigMap r g configYAML w =
     (let cm = \<lparr>cm_Meta = new_meta (adapterName g) (m_Namespace (g_Meta g)), cm_Data = None\<rparr>
      in case c_create_or_patch (r_Client r) (OConfigMap cm)
                (on_config_map (config_map_mutate (r_Lib r) g configYAML)) w of
           (Inl e, w') \<Rightarrow> (Some (Wrapf ''failed to ensure ConfigMap: '' e []), w')
         | (Inr op, w') \<Rightarrow> (None, w'))"

definition httpProbe :: "32 word \<Rightarrow> 32 word \<Rightarrow> 32 word \<Rightarrow> probe" where
  "httpProbe port initialDelay period =
     \<lparr>pb_Path = ''/health'', pb_Port = port, pb_InitialDelay = initialDelay, pb_Period = period\<rparr>"

definition adapter_pod_spec :: "string \<Rightarrow> string \<Rightarrow> pod_spec" where
  "adapter_pod_spec img name =
     \<lparr>ps_AutomountToken = Some False,
      ps_Containers =
        [\<lparr>ct_Name = ''guardrail-adapter'', ct_Image = img, ct_PullPolicy = ''IfNotPresent'',
          ct_Args = [''--addr=:'' @ int_to_dec (uint adapterContainerPort),
                     ''--health-addr=:'' @ int_to_dec (uint adapterHealthPort)],
          ct_Ports = [\<lparr>cp_Name = ''ext-proc'', cp_Port = adapterContainerPort\<rparr>,
                      \<lparr>cp_Name = ''health'', cp_Port = adapterHealthPort\<rparr>],
          ct_Env = [\<lparr>ev_Name = ''GUARDRAIL_CONFIG_FILE'', ev_Value = ''/etc/guardrail/config.yaml'', ev_ValueFrom = None\<rparr>,
                    \<lparr>ev_Name = ''LOG_LEVEL'', ev_Value = ''info'', ev_ValueFrom = None\<rparr>],
          ct_VolumeMounts = [\<lparr>vm_Name = ''guardrail-config'', vm_MountPath = ''/etc/guardrail'', vm_ReadOnly = True\<rparr>],
          ct_ReadinessProbe = Some (httpProbe adapterHealthPort 3 5),
          ct_LivenessProbe = Some (httpProbe adapterHealthPort 15 10)\<rparr>],
      ps_Volumes = [\<lparr>vo_Name = ''guardrail-config'', vo_ConfigMap = name\<rparr>]\<rparr>"

definition deployment_mutate ::
  "klib \<Rightarrow> string \<Rightarrow> guard \<Rightarrow> string \<Rightarrow> deployment \<Rightarrow> goerror + deployment" where
  "deployment_mutate lib img g configHash dep =
     (let name = adapterName g; labels = Map.empty(''app'' \<mapsto> name) in
      case l_set_controller lib KGuard (g_Meta g) (dp_Meta dep) of
        Inl e \<Rightarrow> Inl e
      | Inr m \<Rightarrow>
          (let anns = (case dp_TemplateAnnotations dep of None \<Rightarrow> Map.empty | Some a \<Rightarrow> a)
           in Inr (dep\<lparr>dp_Meta := m,
                       dp_Replicas := Some 1,
                       dp_Selector := Some labels,
                       dp_TemplateLabels := Some labels,
                       dp_TemplateAnnotations := Some (anns(configHashAnnotation \<mapsto> configHash)),
                       dp_PodSpec := adapter_pod_spec img name\<rparr>)))"

definition empty_pod_spec :: pod_spec where
  "empty_pod_spec = \<lparr>ps_AutomountToken = None, ps_Containers = [], ps_Volumes = []\<rparr>"

definition ensureDeployment ::
  "'w guard_reconciler \<Rightarrow> guard \<Rightarrow> string \<Rightarrow> 'w \<Rightarrow> goerror option \<times> 'w" where
  "ensureDeployment r g configHash w =
     (let dep = \<lparr>dp_Meta = new_meta (adapterName g) (m_Namespace (g_Meta g)), dp_Replicas = None,
                dp_Selector = None, dp_TemplateLabels = None, dp_TemplateAnnotations = None,
                dp_PodSpec = empty_pod_spec\<rparr>
      in case c_create_or_patch (r_Client r) (ODeployment dep)
                (on_deployment (deployment_mutate (r_Lib r) (r_AdapterImage r) g configHash)) w of
           (Inl e, w') \<Rightarrow> (Some (Wrapf ''failed to ensure Deployment: '' e []), w')
         | (Inr op, w') \<Rightarrow> (None, w'))"

definition service_mutate :: "klib \<Rightarrow> guard \<Rightarrow> service \<Rightarrow> goerror + service" where
  "service_mutate lib g svc =
     (case l_set_controller lib KGuard (g_Meta g) (sv_Meta svc) of
        Inl e \<Rightarrow> Inl e
      | Inr m \<Rightarrow>
          Inr (svc\<lparr>sv_Meta := m,
                   sv_Selector := Some (Map.empty(''app'' \<mapsto> adapterName g)),
                   sv_Ports := [\<lparr>sp_Name = ''ext-proc'', sp_Port = AdapterServicePort,
                                 sp_TargetPort = adapterContainerPort, sp_Protocol = ''TCP'',
                                 sp_AppProtocol = Some ''kubernetes.io/h2c''\<rparr>]\<rparr>))"

definition ensureService :: "'w guard_reconciler \<Rightarrow> guard \<Rightarrow> 'w \<Rightarrow> goerror option \<times> 'w" where
  "ensureService r g w =
     (let svc = \<lparr>sv_Meta = new_meta (adapterName g) (m_Namespace (g_Meta g)), sv_Selector = None, sv_Ports = []\<rparr>
      in case c_create_or_patch (r_Client r) (OService svc)
                (on_service (service_mutate (r_Lib r) g)) w of
           (Inl e, w') \<Rightarrow> (Some (Wrapf ''failed to ensure Service: '' e []), w')
         | (Inr op, w') \<Rightarrow> (None, w'))"

section \<open>Reconciliation\<close>

definition provider_key :: "guard \<Rightarrow> nsname" where
  "provider_key g =
     (let ns = ref_Namespace (g_ProviderRef g)
      in (if ns = [] then m_Namespace (g_Meta g) else ns, ref_Name (g_ProviderRef g)))"

definition fetchProvider :: "'w guard_reconciler \<Rightarrow> guard \<Rightarrow> 'w \<Rightarrow> goerror + guardrail_provider" where
  "fetchProvider r g w = get_as as_provider (r_Client r) (KGuardrailProvider, provider_key g) w"

text \<open>The condition is set on the guard in memory; the patch is from the guard before that.\<close>

definition set_guard_ready :: "klib \<Rightarrow> guard \<Rightarrow> string \<Rightarrow> string \<Rightarrow> string \<Rightarrow> guard" where
  "set_guard_ready lib g status reason message =
     g\<lparr>g_Conditions := l_set_condition lib (g_Conditions g)
         \<lparr>cd_Type = guardReadyType, cd_Status = status, cd_Reason = reason, cd_Message = message,
          cd_ObservedGeneration = m_Generation (g_Meta g), cd_TransitionTime = 0\<rparr>\<rparr>"

definition setReadyCondition ::
  "'w guard_reconciler \<Rightarrow> guard \<Rightarrow> string \<Rightarrow> string \<Rightarrow> string \<Rightarrow> 'w \<Rightarrow> goerror option \<times> 'w" where
  "setReadyCondition r g status reason message w =
     (case c_patch_status (r_Client r) (OGuard g)
             (OGuard (set_guard_ready (r_Lib r) g status reason message)) w of
        (Some e, w') \<Rightarrow> (Some (Wrapf ''failed to patch Guard status: '' e []), w')
      | (None, w') \<Rightarrow> (None, w'))"

definition isTerminalReason :: "string \<Rightarrow> bool" where
  "isTerminalReason reason =
     (reason = guardReasonAdapterNotConfigured \<or> reason = guardReasonProviderNotFound
      \<or> reason = guardReasonUnsupportedProviderType \<or> reason = guardReasonInvalidConfig)"

definition guard_failed :: "string \<Rightarrow> goerror \<Rightarrow> 'w \<Rightarrow> (string \<times> string \<times> goerror option) \<times> 'w" where
  "guard_failed reason e w = ((reason, error_text e, Some e), w)"

text \<open>The reason and message on failure, with the error.\<close>

definition reconcileGuard ::
  "'w guard_reconciler \<Rightarrow> guard \<Rightarrow> 'w \<Rightarrow> (string \<times> string \<times> goerror option) \<times> 'w" where
  "reconcileGuard r g w =
     (if r_AdapterImage r = []
      then ((guardReasonAdapterNotConfigured, ''--guardrail-adapter-image flag is not set on the operator'',
             Some (Plain ''adapter image not configured'')), w)
      else case fetchProvider r g w of
        Inl e \<Rightarrow>
          if is_not_found e then guard_failed guardReasonProviderNotFound e w
          else guard_failed guardReasonReconcileFailed e w
      | Inr provider \<Rightarrow>
          (case renderStaticConfig (r_Lib r) g provider of
             Inl e \<Rightarrow>
               if errors_is e errUnsupportedProvider then guard_failed guardReasonUnsupportedProviderType e w
               else if errors_is e errInvalidConfig then guard_failed guardReasonInvalidConfig e w
               else guard_failed guardReasonReconcileFailed e w
           | Inr (configYAML, configHash) \<Rightarrow>
               (case ensureConfigMap r g configYAML w of
                  (Some e, w1) \<Rightarrow> guard_failed guardReasonReconcileFailed e w1
                | (None, w1) \<Rightarrow>
                    (case ensureDeployment r g configHash w1 of
                       (Some e, w2) \<Rightarrow> guard_failed guardReasonReconcileFailed e w2
                     | (None, w2) \<Rightarrow>
                         (case ensureService r g w2 of
                            (Some e, w3) \<Rightarrow> guard_failed guardReasonReconcileFailed e w3
                          | (None, w3) \<Rightarrow> (([], [], None), w3))))))"

definition Guard_Reconcile :: "'w guard_reconciler \<Rightarrow> nsname \<Rightarrow> 'w \<Rightarrow> goerror option \<times> 'w" where
  "Guard_Reconcile r req w =
     (case get_as as_guard (r_Client r) (KGuard, req) w of
        Inl e \<Rightarrow> if is_not_found e then (None, w) else (Some e, w)
      | Inr g \<Rightarrow>
          (case reconcileGuard r g w of
             ((reason, msg, Some e), w1) \<Rightarrow>
               (let (statusErr, w2) = setReadyCondition r g ConditionFalse reason msg w1
                in if isTerminalReason reason then (None, w2) else (Some e, w2))
           | ((reason, msg, None), w1) \<Rightarrow>
               setReadyCondition r g ConditionTrue guardReasonReconciled ''Adapter resources reconciled'' w1))"

section \<open>Watches\<close>

definition findGuardsForProvider :: "'w guard_reconciler \<Rightarrow> kobj \<Rightarrow> 'w \<Rightarrow> nsname list" where
  "findGuardsForProvider r obj w =
     (case obj of
        OGuardrailProvider p \<Rightarrow>
          (case list_as as_guard (r_Client r) KGuard None w of
             Inl e \<Rightarrow> []
           | Inr guards \<Rightarrow>
               map (\<lambda>g. meta_key (g_Meta g))
                 (filter (\<lambda>g. ref_Name (g_ProviderRef g) = m_Name (gp_Meta p)
                              \<and> fst (provider_key g) = m_Namespace (gp_Meta p)) guards))
      | _ \<Rightarrow> [])"

definition Guard_SetupWithManager :: "'w guard_reconciler \<Rightarrow> 'w controller_setup" where
  "Guard_SetupWithManager r =
     \<lparr>su_Name = GuardAdapterControllerName, su_For = KGuard,
      su_Owns = [KDeployment, KConfigMap, KService],
      su_Watches = [(KGuardrailProvider, findGuardsForProvider r)]\<rparr>"

section \<open>The adapter in place\<close>

definition adapter_key :: "guard \<Rightarrow> nsname" where
  "adapter_key g = (m_Namespace (g_Meta g), adapterName g)"

definition adapter_keys :: "guard \<Rightarrow> okey set" where
  "adapter_keys g = {(KConfigMap, adapter_key g), (KDeployment, adapter_key g), (KService, adapter_key g)}"

definition adapter_labels :: "guard \<Rightarrow> (string \<rightharpoonup> string) option" where
  "adapter_labels g = Some (Map.empty(''app'' \<mapsto> adapterName g))"

text \<open>
  The three objects of an adapter that serves the config \<open>data\<close>: the config is in the map
  the pod mounts, its hash on the pod template, the pods carry the labels that the
  deployment and the service select, and the guard controls all three.
\<close>

definition adapter_serves :: "string \<Rightarrow> guard \<Rightarrow> string \<Rightarrow> (okey \<Rightarrow> kobj option) \<Rightarrow> bool" where
  "adapter_serves img g data store =
     (\<exists>cm dep svc d a.
        store (KConfigMap, adapter_key g) = Some (OConfigMap cm)
        \<and> cm_Data cm = Some d \<and> d staticConfigKey = Some data
        \<and> store (KDeployment, adapter_key g) = Some (ODeployment dep)
        \<and> dp_TemplateAnnotations dep = Some a \<and> a configHashAnnotation = Some (hex_encode (sum256 data))
        \<and> dp_PodSpec dep = adapter_pod_spec img (adapterName g)
        \<and> dp_Selector dep = adapter_labels g \<and> dp_TemplateLabels dep = adapter_labels g
        \<and> dp_Replicas dep = Some 1
        \<and> store (KService, adapter_key g) = Some (OService svc)
        \<and> sv_Selector svc = adapter_labels g
        \<and> map sp_Port (sv_Ports svc) = [80] \<and> map sp_TargetPort (sv_Ports svc) = [9001]
        \<and> (\<forall>m \<in> {cm_Meta cm, dp_Meta dep, sv_Meta svc}. controller_of m = Some (KGuard, m_Name (g_Meta g))))"

text \<open>The same as fixpoints of the mutate functions: nothing is left to reconcile.\<close>

definition adapter_settled :: "klib \<Rightarrow> string \<Rightarrow> guard \<Rightarrow> string \<Rightarrow> (okey \<Rightarrow> kobj option) \<Rightarrow> bool" where
  "adapter_settled lib img g data store =
     (\<exists>cm dep svc.
        store (KConfigMap, adapter_key g) = Some (OConfigMap cm) \<and> config_map_mutate lib g data cm = Inr cm
        \<and> store (KDeployment, adapter_key g) = Some (ODeployment dep)
        \<and> deployment_mutate lib img g (hex_encode (sum256 data)) dep = Inr dep
        \<and> store (KService, adapter_key g) = Some (OService svc) \<and> service_mutate lib g svc = Inr svc)"

lemma config_map_mutate_ok:
  assumes "config_map_mutate lib g data x = Inr y"
  obtains d where "l_set_controller lib KGuard (g_Meta g) (cm_Meta x) = Inr (cm_Meta y)"
    "cm_Data y = Some d" "d staticConfigKey = Some data"
  using assms by (auto simp: config_map_mutate_def Let_def split: sum.splits)

lemma deployment_mutate_ok:
  assumes "deployment_mutate lib img g h x = Inr y"
  obtains a where "l_set_controller lib KGuard (g_Meta g) (dp_Meta x) = Inr (dp_Meta y)"
    "dp_TemplateAnnotations y = Some a" "a configHashAnnotation = Some h"
    "dp_Selector y = adapter_labels g" "dp_TemplateLabels y = adapter_labels g" "dp_Replicas y = Some 1"
    "dp_PodSpec y = adapter_pod_spec img (adapterName g)"
  using assms by (auto simp: deployment_mutate_def adapter_labels_def Let_def split: sum.splits)

lemma service_mutate_ok:
  assumes "service_mutate lib g x = Inr y"
  shows "l_set_controller lib KGuard (g_Meta g) (sv_Meta x) = Inr (sv_Meta y)"
    "sv_Selector y = adapter_labels g" "map sp_Port (sv_Ports y) = [80]" "map sp_TargetPort (sv_Ports y) = [9001]"
  using assms
  by (auto simp: service_mutate_def adapter_labels_def AdapterServicePort_def adapterContainerPort_def split: sum.splits)

context owner_lib
begin

lemma config_map_mutator: "mutator (on_config_map (config_map_mutate lib g data))"
proof (rule mutator_config_map)
  fix x y z
  assume f: "config_map_mutate lib g data x = Inr y"
    and z: "z\<lparr>cm_Meta := clear_server (cm_Meta z)\<rparr> = y\<lparr>cm_Meta := clear_server (cm_Meta y)\<rparr>"
  obtain m where m: "l_set_controller lib KGuard (g_Meta g) (cm_Meta x) = Inr m" and y: "cm_Meta y = m"
    and d: "\<exists>d. cm_Data y = Some d \<and> d staticConfigKey = Some data"
    using f by (auto simp: config_map_mutate_def Let_def split: sum.splits)
  have "clear_server (cm_Meta z) = clear_server m" "cm_Data z = cm_Data y"
    using arg_cong [OF z, of cm_Meta] arg_cong [OF z, of cm_Data] y by simp_all
  then show "config_map_mutate lib g data z = Inr z"
    using set_controller_stable [OF m] d by (auto simp: config_map_mutate_def Let_def fun_upd_idem)
qed

lemma deployment_mutator: "mutator (on_deployment (deployment_mutate lib img g h))"
proof (rule mutator_deployment)
  fix x y z
  assume f: "deployment_mutate lib img g h x = Inr y"
    and z: "z\<lparr>dp_Meta := clear_server (dp_Meta z)\<rparr> = y\<lparr>dp_Meta := clear_server (dp_Meta y)\<rparr>"
  obtain m where m: "l_set_controller lib KGuard (g_Meta g) (dp_Meta x) = Inr m" and y: "dp_Meta y = m"
    and d: "\<exists>a. dp_TemplateAnnotations y = Some a \<and> a configHashAnnotation = Some h"
    and o: "dp_Selector y = adapter_labels g" "dp_TemplateLabels y = adapter_labels g" "dp_Replicas y = Some 1"
      "dp_PodSpec y = adapter_pod_spec img (adapterName g)"
    using f by (auto simp: deployment_mutate_def adapter_labels_def Let_def split: sum.splits)
  have "clear_server (dp_Meta z) = clear_server m" "dp_TemplateAnnotations z = dp_TemplateAnnotations y"
    "dp_Selector z = dp_Selector y" "dp_TemplateLabels z = dp_TemplateLabels y"
    "dp_Replicas z = dp_Replicas y" "dp_PodSpec z = dp_PodSpec y"
    using y arg_cong [OF z, of dp_Meta] arg_cong [OF z, of dp_TemplateAnnotations] arg_cong [OF z, of dp_Selector]
      arg_cong [OF z, of dp_TemplateLabels] arg_cong [OF z, of dp_Replicas] arg_cong [OF z, of dp_PodSpec] by simp_all
  then show "deployment_mutate lib img g h z = Inr z"
    using set_controller_stable [OF m, of "dp_Meta z"] d o
    by (cases z) (auto simp: deployment_mutate_def adapter_labels_def Let_def fun_upd_idem)
qed

lemma service_mutator: "mutator (on_service (service_mutate lib g))"
proof (rule mutator_service)
  fix x y z
  assume f: "service_mutate lib g x = Inr y"
    and z: "z\<lparr>sv_Meta := clear_server (sv_Meta z)\<rparr> = y\<lparr>sv_Meta := clear_server (sv_Meta y)\<rparr>"
  obtain m where m: "l_set_controller lib KGuard (g_Meta g) (sv_Meta x) = Inr m"
    and y: "y = x\<lparr>sv_Meta := m, sv_Selector := sv_Selector y, sv_Ports := sv_Ports y\<rparr>"
    using f by (auto simp: service_mutate_def split: sum.splits)
  have "clear_server (sv_Meta z) = clear_server m" "sv_Selector z = sv_Selector y" "sv_Ports z = sv_Ports y"
    using arg_cong [OF y, of sv_Meta] arg_cong [OF z, of sv_Meta] arg_cong [OF z, of sv_Selector]
      arg_cong [OF z, of sv_Ports] by simp_all
  then show "service_mutate lib g z = Inr z"
    using set_controller_stable [OF m, of "sv_Meta z"] f m
    by (cases z) (auto simp: service_mutate_def)
qed

lemma settled_serves: "adapter_settled lib img g data store \<Longrightarrow> adapter_serves img g data store"
proof -
  assume "adapter_settled lib img g data store"
  then obtain cm dep svc where cm: "store (KConfigMap, adapter_key g) = Some (OConfigMap cm)" "config_map_mutate lib g data cm = Inr cm"
    and dep: "store (KDeployment, adapter_key g) = Some (ODeployment dep)"
      "deployment_mutate lib img g (hex_encode (sum256 data)) dep = Inr dep"
    and svc: "store (KService, adapter_key g) = Some (OService svc)" "service_mutate lib g svc = Inr svc"
    unfolding adapter_settled_def by blast
  have 1: "\<exists>d. cm_Data cm = Some d \<and> d staticConfigKey = Some data" "controller_of (cm_Meta cm) = Some (KGuard, m_Name (g_Meta g))"
    by (rule config_map_mutate_ok [OF cm(2)]; use set_controller_of in blast)+
  have 2: "\<exists>a. dp_TemplateAnnotations dep = Some a \<and> a configHashAnnotation = Some (hex_encode (sum256 data))"
    "dp_Selector dep = adapter_labels g" "dp_TemplateLabels dep = adapter_labels g" "dp_Replicas dep = Some 1"
    "dp_PodSpec dep = adapter_pod_spec img (adapterName g)" "controller_of (dp_Meta dep) = Some (KGuard, m_Name (g_Meta g))"
    by (rule deployment_mutate_ok [OF dep(2)]; use set_controller_of in blast)+
  have 3: "sv_Selector svc = adapter_labels g" "map sp_Port (sv_Ports svc) = [80]" "map sp_TargetPort (sv_Ports svc) = [9001]"
    "controller_of (sv_Meta svc) = Some (KGuard, m_Name (g_Meta g))"
    using service_mutate_ok [OF svc(2)] set_controller_of by blast+
  show ?thesis
    unfolding adapter_serves_def using cm(1) dep(1) svc(1) 1 2 3 by auto
qed

end

section \<open>Each step\<close>

locale guard_operator = operator r at events
  for r :: "'w guard_reconciler" and at :: "'w \<Rightarrow> okey \<Rightarrow> kobj option" and events :: "'w \<Rightarrow> kevent list"
begin

lemma ensureConfigMap_ok:
  assumes "ensureConfigMap r g data w = (None, w')"
  shows "\<exists>cm. at w' (KConfigMap, adapter_key g) = Some (OConfigMap cm) \<and> config_map_mutate (r_Lib r) g data cm = Inr cm"
  using assms cop_converges [OF config_map_mutator] on_config_map_fix
  by (fastforce simp: ensureConfigMap_def key_of_def adapter_key_def Let_def split: prod.splits sum.splits)

lemma ensureDeployment_ok:
  assumes "ensureDeployment r g h w = (None, w')"
  shows "\<exists>dep. at w' (KDeployment, adapter_key g) = Some (ODeployment dep)
           \<and> deployment_mutate (r_Lib r) (r_AdapterImage r) g h dep = Inr dep"
  using assms cop_converges [OF deployment_mutator] on_deployment_fix
  by (fastforce simp: ensureDeployment_def key_of_def adapter_key_def Let_def split: prod.splits sum.splits)

lemma ensureService_ok:
  assumes "ensureService r g w = (None, w')"
  shows "\<exists>svc. at w' (KService, adapter_key g) = Some (OService svc) \<and> service_mutate (r_Lib r) g svc = Inr svc"
  using assms cop_converges [OF service_mutator] on_service_fix
  by (fastforce simp: ensureService_def key_of_def adapter_key_def Let_def split: prod.splits sum.splits)

lemma ensureConfigMap_frame: "ensureConfigMap r g data w = (x, w') \<Longrightarrow> unchanged_outside {(KConfigMap, adapter_key g)} at w w'"
  by (auto simp: ensureConfigMap_def key_of_def adapter_key_def Let_def split: prod.splits sum.splits intro: cop_unchanged)

lemma ensureDeployment_frame: "ensureDeployment r g h w = (x, w') \<Longrightarrow> unchanged_outside {(KDeployment, adapter_key g)} at w w'"
  by (auto simp: ensureDeployment_def key_of_def adapter_key_def Let_def split: prod.splits sum.splits intro: cop_unchanged)

lemma ensureService_frame: "ensureService r g w = (x, w') \<Longrightarrow> unchanged_outside {(KService, adapter_key g)} at w w'"
  by (auto simp: ensureService_def key_of_def adapter_key_def Let_def split: prod.splits sum.splits intro: cop_unchanged)

lemma ensureConfigMap_fix:
  "ensureConfigMap r g data w = (None, w') \<Longrightarrow> at w (KConfigMap, adapter_key g) = Some (OConfigMap cm) \<Longrightarrow>
   config_map_mutate (r_Lib r) g data cm = Inr cm \<Longrightarrow> at w' k = at w k"
  by (auto simp: ensureConfigMap_def key_of_def adapter_key_def Let_def on_config_map_def split: prod.splits sum.splits
      elim!: cop_fixpoint(2) [rotated 2])

lemma ensureDeployment_fix:
  "ensureDeployment r g h w = (None, w') \<Longrightarrow> at w (KDeployment, adapter_key g) = Some (ODeployment dep) \<Longrightarrow>
   deployment_mutate (r_Lib r) (r_AdapterImage r) g h dep = Inr dep \<Longrightarrow> at w' k = at w k"
  by (auto simp: ensureDeployment_def key_of_def adapter_key_def Let_def on_deployment_def split: prod.splits sum.splits
      elim!: cop_fixpoint(2) [rotated 2])

lemma ensureService_fix:
  "ensureService r g w = (None, w') \<Longrightarrow> at w (KService, adapter_key g) = Some (OService svc) \<Longrightarrow>
   service_mutate (r_Lib r) g svc = Inr svc \<Longrightarrow> at w' k = at w k"
  by (auto simp: ensureService_def key_of_def adapter_key_def Let_def on_service_def split: prod.splits sum.splits
      elim!: cop_fixpoint(2) [rotated 2])

section \<open>reconcileGuard\<close>

lemma reconcileGuard_frame:
  assumes "reconcileGuard r g w = (x, w')"
  shows "unchanged_outside (adapter_keys g) at w w'"
proof -
  note m = unchanged_mono [where K = "adapter_keys g", OF ensureConfigMap_frame]
    unchanged_mono [where K = "adapter_keys g", OF ensureDeployment_frame]
    unchanged_mono [where K = "adapter_keys g", OF ensureService_frame]
  have k: "{(KConfigMap, adapter_key g)} \<subseteq> adapter_keys g" "{(KDeployment, adapter_key g)} \<subseteq> adapter_keys g"
    "{(KService, adapter_key g)} \<subseteq> adapter_keys g" by (auto simp: adapter_keys_def)
  show ?thesis
    using assms
    by (auto simp: reconcileGuard_def guard_failed_def split: if_splits sum.splits prod.splits option.splits
        dest!: m(1) [OF _ k(1)] m(2) [OF _ k(2)] m(3) [OF _ k(3)] intro: unchanged_trans)
qed

lemma fetchProvider_some:
  "fetchProvider r g w = Inr p \<Longrightarrow> at w (KGuardrailProvider, provider_key g) = Some (OGuardrailProvider p)"
  unfolding fetchProvider_def using get_as_some [OF _ as_provider_iff] by blast

lemma fetchProvider_missing:
  assumes "fetchProvider r g w = Inl e" "is_not_found e"
  shows "at w (KGuardrailProvider, provider_key g) = None"
proof (rule get_as_missing [OF assms(1) [unfolded fetchProvider_def] assms(2)])
  show "as_provider ob = Inl e \<Longrightarrow> e = decode_error" for ob e by (cases ob) simp_all
qed

text \<open>Success: the image is set, the provider is there, the guard is valid, the adapter settled.\<close>

lemma reconcileGuard_ok:
  assumes "reconcileGuard r g w = ((reason, msg, None), w')"
  obtains p data where "r_AdapterImage r \<noteq> []" "fetchProvider r g w = Inr p" "valid_guard g p"
    "l_json_to_yaml (r_Lib r) (guard_static_config g p) = Inr data"
    "adapter_settled (r_Lib r) (r_AdapterImage r) g data (at w')"
proof -
  obtain p data h w1 w2 where img: "r_AdapterImage r \<noteq> []" and p: "fetchProvider r g w = Inr p"
    and rd: "renderStaticConfig (r_Lib r) g p = Inr (data, h)"
    and c: "ensureConfigMap r g data w = (None, w1)"
    and d: "ensureDeployment r g h w1 = (None, w2)"
    and s: "ensureService r g w2 = (None, w')"
    using assms
    by (auto simp: reconcileGuard_def guard_failed_def
        split: if_splits sum.splits prod.splits option.splits)
  note rd' = render_ok [OF rd]
  have k: "(KConfigMap, adapter_key g) \<notin> {(KDeployment, adapter_key g)}"
    "(KConfigMap, adapter_key g) \<notin> {(KService, adapter_key g)}"
    "(KDeployment, adapter_key g) \<notin> {(KService, adapter_key g)}" by simp_all
  have "adapter_settled (r_Lib r) (r_AdapterImage r) g data (at w')"
    unfolding adapter_settled_def
    using ensureConfigMap_ok [OF c] ensureDeployment_ok [OF d [unfolded rd'(3)]] ensureService_ok [OF s]
      unchangedD [OF ensureDeployment_frame [OF d] k(1)] unchangedD [OF ensureService_frame [OF s] k(2)]
      unchangedD [OF ensureService_frame [OF s] k(3)] by auto
  with img p rd'(1,2) show thesis by (rule that)
qed

text \<open>Failure: the reason tells which phase failed.\<close>

lemma reconcileGuard_failed:
  assumes "reconcileGuard r g w = ((reason, msg, Some e), w')"
  shows "reason = guardReasonAdapterNotConfigured \<longleftrightarrow> r_AdapterImage r = []"
    and "reason = guardReasonProviderNotFound \<Longrightarrow> at w (KGuardrailProvider, provider_key g) = None"
    and "reason = guardReasonUnsupportedProviderType \<Longrightarrow>
           \<exists>p. at w (KGuardrailProvider, provider_key g) = Some (OGuardrailProvider p) \<and> gp_Type p \<noteq> providerTypePresidio"
    and "reason = guardReasonInvalidConfig \<Longrightarrow>
           \<exists>p. at w (KGuardrailProvider, provider_key g) = Some (OGuardrailProvider p)
             \<and> gp_Type p = providerTypePresidio \<and> \<not> valid_guard g p"
    and "isTerminalReason reason \<Longrightarrow> w' = w"
    and "isTerminalReason reason \<or> reason = guardReasonReconcileFailed"
  using assms
  by (auto simp: reconcileGuard_def guard_failed_def guard_reasons isTerminalReason_def
      dest: fetchProvider_missing fetchProvider_some render_error split: if_splits sum.splits prod.splits option.splits)

text \<open>An object another owner controls is left as it is.\<close>

lemma ensure_refused:
  assumes foreign: "at w k = Some ob" "controller_of (meta_of ob) = Some c" "c \<noteq> (KGuard, m_Name (g_Meta g))"
    and "k \<in> adapter_keys g"
  shows "ensureConfigMap r g data w = (x1, w1) \<Longrightarrow> at w1 k = Some ob"
    and "ensureDeployment r g h w = (x2, w2) \<Longrightarrow> at w2 k = Some ob"
    and "ensureService r g w = (x3, w3) \<Longrightarrow> at w3 k = Some ob"
proof -
  have ref: "l_set_controller (r_Lib r) KGuard (g_Meta g) (meta_of ob) \<noteq> Inr m" for m
    using set_controller_refused [OF foreign(2,3)] by auto
  show "at w1 k = Some ob" if e: "ensureConfigMap r g data w = (x1, w1)"
  proof (cases "k = (KConfigMap, adapter_key g)")
    case True
    have "on_config_map (config_map_mutate (r_Lib r) g data) ob \<noteq> Inr y" for y
      using ref by (cases ob) (auto simp: on_config_map_def config_map_mutate_def split: sum.split)
    then show ?thesis
      using e foreign(1) True cop_refuses(1)
      by (fastforce simp: ensureConfigMap_def Let_def key_of_def adapter_key_def split: prod.splits sum.splits)
  qed (use unchangedD [OF ensureConfigMap_frame [OF e]] foreign(1) in simp)
  show "at w2 k = Some ob" if e: "ensureDeployment r g h w = (x2, w2)"
  proof (cases "k = (KDeployment, adapter_key g)")
    case True
    have "on_deployment (deployment_mutate (r_Lib r) (r_AdapterImage r) g h) ob \<noteq> Inr y" for y
      using ref by (cases ob) (auto simp: on_deployment_def deployment_mutate_def Let_def split: sum.split)
    then show ?thesis
      using e foreign(1) True cop_refuses(1)
      by (fastforce simp: ensureDeployment_def Let_def key_of_def adapter_key_def split: prod.splits sum.splits)
  qed (use unchangedD [OF ensureDeployment_frame [OF e]] foreign(1) in simp)
  show "at w3 k = Some ob" if e: "ensureService r g w = (x3, w3)"
  proof (cases "k = (KService, adapter_key g)")
    case True
    have "on_service (service_mutate (r_Lib r) g) ob \<noteq> Inr y" for y
      using ref by (cases ob) (auto simp: on_service_def service_mutate_def split: sum.split)
    then show ?thesis
      using e foreign(1) True cop_refuses(1)
      by (fastforce simp: ensureService_def Let_def key_of_def adapter_key_def split: prod.splits sum.splits)
  qed (use unchangedD [OF ensureService_frame [OF e]] foreign(1) in simp)
qed

lemma reconcileGuard_refused:
  assumes foreign: "at w k = Some ob" "controller_of (meta_of ob) = Some c" "c \<noteq> (KGuard, m_Name (g_Meta g))"
    and k: "k \<in> adapter_keys g" and run: "reconcileGuard r g w = ((reason, msg, x), w')"
  shows "at w' k = Some ob" "x \<noteq> None"
proof -
  note ref = ensure_refused [OF _ foreign(2,3) k]
  show at: "at w' k = Some ob"
    using run foreign(1)
    by (auto simp: reconcileGuard_def guard_failed_def split: if_splits sum.splits prod.splits option.splits
        intro: ref(1) ref(2) [OF ref(1)] ref(3) [OF ref(2) [OF ref(1)]])
  show "x \<noteq> None"
  proof
    assume "x = None"
    then obtain p data where "adapter_settled (r_Lib r) (r_AdapterImage r) g data (at w')"
      using reconcileGuard_ok run by metis
    then show False
      using settled_serves at k foreign(2,3) unfolding adapter_serves_def adapter_keys_def by fastforce
  qed
qed

section \<open>Status\<close>

lemma setReady_frame:
  "setReadyCondition r g s reason msg w = (x, w') \<Longrightarrow> unchanged_outside {(KGuard, meta_key (g_Meta g))} at w w'"
  by (auto simp: setReadyCondition_def set_guard_ready_def key_of_def split: prod.splits option.splits intro: patch_unchanged)

lemma merge_guard:
  "merge_status (OGuard g) (OGuard (set_guard_ready lib g s reason msg)) (OGuard g) = OGuard (set_guard_ready lib g s reason msg)"
  by (simp add: merge_status_def set_guard_ready_def patch_field_def)

lemma setReady_at:
  assumes "setReadyCondition r g s reason msg w = (x, w')" and "at w (KGuard, meta_key (g_Meta g)) = Some (OGuard g)"
  shows "x = None \<Longrightarrow> at w' (KGuard, meta_key (g_Meta g)) = Some (OGuard (set_guard_ready (r_Lib r) g s reason msg))"
    and "at w' (KGuard, meta_key (g_Meta g)) \<in> {Some (OGuard g), Some (OGuard (set_guard_ready (r_Lib r) g s reason msg))}"
proof -
  let ?n = "OGuard (set_guard_ready (r_Lib r) g s reason msg)"
  have k: "key_of ?n = (KGuard, meta_key (g_Meta g))" by (simp add: key_of_def set_guard_ready_def)
  obtain y where p: "c_patch_status (r_Client r) (OGuard g) ?n w = (y, w')" and y: "x = None \<longleftrightarrow> y = None"
    using assms(1) by (auto simp: setReadyCondition_def split: prod.splits option.splits)
  show 1: "x = None \<Longrightarrow> at w' (KGuard, meta_key (g_Meta g)) = Some ?n"
    using patch_ok [of "OGuard g" ?n w w'] p y assms(2) merge_guard by (auto simp: k)
  show "at w' (KGuard, meta_key (g_Meta g)) \<in> {Some (OGuard g), Some ?n}"
  proof (cases y)
    case None
    with 1 y show ?thesis by simp
  next
    case (Some e)
    with patch_error [of "OGuard g" ?n w e w'] p assms(2) merge_guard show ?thesis by (auto simp: k)
  qed
qed

lemma find_guard_ready:
  "\<exists>c. l_find_condition (r_Lib r) (g_Conditions (set_guard_ready (r_Lib r) g s reason msg)) guardReadyType = Some c
     \<and> cd_Status c = s \<and> cd_Reason c = reason \<and> cd_Message c = msg \<and> cd_ObservedGeneration c = m_Generation (g_Meta g)"
  using find_set [of "g_Conditions g" "\<lparr>cd_Type = guardReadyType, cd_Status = s, cd_Reason = reason, cd_Message = msg,
          cd_ObservedGeneration = m_Generation (g_Meta g), cd_TransitionTime = 0\<rparr>"]
  by (auto simp: set_guard_ready_def dest: same_condition_fields)

lemma found_guard_ready:
  "l_find_condition (r_Lib r) (g_Conditions (set_guard_ready (r_Lib r) g s reason msg)) guardReadyType = Some c \<Longrightarrow>
   cd_Status c = s \<and> cd_Reason c = reason \<and> cd_Message c = msg \<and> cd_ObservedGeneration c = m_Generation (g_Meta g)"
  using find_guard_ready [of g s reason msg] by auto

lemma set_guard_ready_twice:
  "set_guard_ready (r_Lib r) (set_guard_ready (r_Lib r) g s reason msg) s reason msg = set_guard_ready (r_Lib r) g s reason msg"
  by (simp add: set_guard_ready_def set_set)

section \<open>Reconcile\<close>

lemma guard_not_adapter: "(KGuard, k) \<notin> adapter_keys g"
  by (simp add: adapter_keys_def)

text \<open>A run on a stored guard: the read fails, or all phases ran and the status was patched.\<close>

lemma guard_run:
  assumes run: "Guard_Reconcile r req w = (res, w')" and st: "at w (KGuard, req) = Some (OGuard g)"
  obtains (read) "w' = w" "res \<noteq> None"
  | (ready) reason msg w1 where "reconcileGuard r g w = ((reason, msg, None), w1)"
      "meta_key (g_Meta g) = req" "at w1 (KGuard, req) = Some (OGuard g)"
      "setReadyCondition r g ConditionTrue guardReasonReconciled ''Adapter resources reconciled'' w1 = (res, w')"
  | (failed) reason msg e w1 y where "reconcileGuard r g w = ((reason, msg, Some e), w1)"
      "meta_key (g_Meta g) = req" "at w1 (KGuard, req) = Some (OGuard g)"
      "setReadyCondition r g ConditionFalse reason msg w1 = (y, w')"
      "res = (if isTerminalReason reason then None else Some e)"
proof (cases "get_as as_guard (r_Client r) (KGuard, req) w")
  case (Inl e)
  have "\<not> is_not_found e"
  proof
    assume n: "is_not_found e"
    have "at w (KGuard, req) = None"
    proof (rule get_as_missing [OF Inl n])
      show "as_guard ob = Inl e \<Longrightarrow> e = decode_error" for ob e by (cases ob) simp_all
    qed
    with st show False by simp
  qed
  then show thesis using read run by (auto simp: Guard_Reconcile_def Inl)
next
  case (Inr g')
  from get_as_some [OF Inr as_guard_iff] st have g: "g' = g" and key: "meta_key (g_Meta g) = req"
    by (auto simp: key_of_def)
  obtain reason msg x w1 where rg: "reconcileGuard r g w = ((reason, msg, x), w1)" by (metis prod_cases3 surj_pair)
  have st1: "at w1 (KGuard, req) = Some (OGuard g)"
    using unchangedD [OF reconcileGuard_frame [OF rg] guard_not_adapter] st by simp
  show thesis
  proof (cases x)
    case None
    then show ?thesis using ready [OF _ key st1] run Inr g rg by (simp add: Guard_Reconcile_def)
  next
    case (Some e)
    obtain y w2 where y: "setReadyCondition r g ConditionFalse reason msg w1 = (y, w2)" by fastforce
    show ?thesis
      by (rule failed [of reason msg e w1 y])
        (use run Inr g rg Some y key st1 in \<open>auto simp: Guard_Reconcile_def split: if_splits\<close>)
  qed
qed

lemma guard_frame:
  assumes run: "Guard_Reconcile r req w = (res, w')" and st: "at w (KGuard, req) = Some (OGuard g)"
  shows "unchanged_outside (insert (KGuard, req) (adapter_keys g)) at w w'"
proof (cases rule: guard_run [OF run st, case_names read ready failed])
  case (ready reason msg w1)
  with reconcileGuard_frame [OF ready(1)] setReady_frame [OF ready(4)] show ?thesis
    by (auto simp: unchanged_outside_def)
next
  case (failed reason msg e w1 y)
  with reconcileGuard_frame [OF failed(1)] setReady_frame [OF failed(4)] show ?thesis
    by (auto simp: unchanged_outside_def)
qed simp

text \<open>When the stored Ready condition changes, it is the outcome of this run.\<close>

lemma guard_status_written:
  assumes run: "Guard_Reconcile r req w = (res, w')" and st: "at w (KGuard, req) = Some (OGuard g)"
    and st': "at w' (KGuard, req) = Some (OGuard g')"
    and c: "l_find_condition (r_Lib r) (g_Conditions g') guardReadyType = Some c"
    and new: "l_find_condition (r_Lib r) (g_Conditions g) guardReadyType \<noteq> Some c"
  obtains (ready) reason msg w1 where "reconcileGuard r g w = ((reason, msg, None), w1)"
      "cd_Status c = ConditionTrue" "cd_Reason c = guardReasonReconciled"
      "cd_ObservedGeneration c = m_Generation (g_Meta g)" "unchanged_outside {(KGuard, req)} at w1 w'"
  | (failed) reason msg e w1 where "reconcileGuard r g w = ((reason, msg, Some e), w1)"
      "cd_Status c = ConditionFalse" "cd_Reason c = reason" "cd_Message c = msg"
      "cd_ObservedGeneration c = m_Generation (g_Meta g)" "unchanged_outside {(KGuard, req)} at w1 w'"
      "res = (if isTerminalReason reason then None else Some e)"
proof -
  show thesis
  proof (cases rule: guard_run [OF run st, case_names read ready failed])
    case (ready reason msg w1)
    then have "g' = set_guard_ready (r_Lib r) g ConditionTrue guardReasonReconciled ''Adapter resources reconciled''"
      using setReady_at(2) [OF ready(4)] st' c new by auto
    then show ?thesis
      using found_guard_ready c ready setReady_frame [OF ready(4)] by (intro that(1) [OF ready(1)]) auto
  next
    case (failed reason msg e w1 y)
    then have "g' = set_guard_ready (r_Lib r) g ConditionFalse reason msg"
      using setReady_at(2) [OF failed(4)] st' c new by auto
    then show ?thesis
      using found_guard_ready c failed setReady_frame [OF failed(4)] by (intro that(2) [OF failed(1)]) auto
  qed (use st st' c new in auto)
qed

text \<open>From a settled state a run changes nothing.\<close>

lemma reconcileGuard_settled:
  assumes p: "at w (KGuardrailProvider, provider_key g) = Some (OGuardrailProvider p)"
    and data: "l_json_to_yaml (r_Lib r) (guard_static_config g p) = Inr data"
    and settled: "adapter_settled (r_Lib r) (r_AdapterImage r) g data (at w)"
    and run: "reconcileGuard r g w = ((reason, msg, None), w')"
  shows "at w' k = at w k"
proof -
  obtain p' data' h w1 w2 where p': "fetchProvider r g w = Inr p'"
    and rd: "renderStaticConfig (r_Lib r) g p' = Inr (data', h)"
    and c: "ensureConfigMap r g data' w = (None, w1)"
    and d: "ensureDeployment r g h w1 = (None, w2)"
    and s: "ensureService r g w2 = (None, w')"
    using run by (auto simp: reconcileGuard_def guard_failed_def split: if_splits sum.splits prod.splits option.splits)
  have "p' = p" using fetchProvider_some [OF p'] p by simp
  then have e: "data' = data" "h = hex_encode (sum256 data)"
    using render_ok(2,3) [OF rd] data by auto
  obtain cm dep svc where o: "at w (KConfigMap, adapter_key g) = Some (OConfigMap cm)" "config_map_mutate (r_Lib r) g data cm = Inr cm"
      "at w (KDeployment, adapter_key g) = Some (ODeployment dep)"
      "deployment_mutate (r_Lib r) (r_AdapterImage r) g (hex_encode (sum256 data)) dep = Inr dep"
      "at w (KService, adapter_key g) = Some (OService svc)" "service_mutate (r_Lib r) g svc = Inr svc"
    using settled unfolding adapter_settled_def by blast
  have 1: "at w1 k = at w k" for k using ensureConfigMap_fix [OF c] o(1,2) e by simp
  then have 2: "at w2 k = at w k" for k using ensureDeployment_fix [OF d] o(3,4) e by simp
  then show ?thesis using ensureService_fix [OF s] o(5,6) by simp
qed

end

end
