(* ===== verification/GuardProperties.thy ===== *)
theory GuardProperties
  imports GuardReconciler
begin

text \<open>
  What the guard controller guarantees: the facts on whole runs of \<open>Guard_Reconcile\<close> (in the
  locale of its world), a small cluster to run it on, and its properties.
\<close>

section \<open>Runs\<close>

context guard_operator
begin

lemma ready_adapter:
  assumes "at w (KGuard, req) = Some (OGuard g)"
    and "Guard_Reconcile r req w = (res, w')"
    and "at w' (KGuard, req) = Some (OGuard g')"
    and "l_find_condition (r_Lib r) (g_Conditions g') guardReadyType = Some c" "cd_Status c = ConditionTrue"
    and "l_find_condition (r_Lib r) (g_Conditions g) guardReadyType \<noteq> Some c"
  shows "\<exists>p data. at w (KGuardrailProvider, provider_key g) = Some (OGuardrailProvider p) \<and> valid_guard g p
      \<and> l_json_to_yaml (r_Lib r) (guard_static_config g p) = Inr data
      \<and> adapter_serves (r_AdapterImage r) g data (at w')
      \<and> cd_ObservedGeneration c = m_Generation (g_Meta g)"
proof (cases rule: guard_status_written [OF assms(2,1,3,4,6), case_names ready failed])
  case (ready reason msg w1)
  obtain p data where p: "fetchProvider r g w = Inr p" "valid_guard g p"
    "l_json_to_yaml (r_Lib r) (guard_static_config g p) = Inr data"
    "adapter_settled (r_Lib r) (r_AdapterImage r) g data (at w1)"
    using reconcileGuard_ok [OF ready(1)] by metis
  have "at w' k = at w1 k" if "fst k \<noteq> KGuard" for k
    using unchangedD [OF ready(5), of k] that by (cases k) auto
  then have "adapter_serves (r_AdapterImage r) g data (at w')"
    using settled_serves [OF p(4)] by (simp add: adapter_serves_def)
  with p fetchProvider_some [OF p(1)] ready(4) show ?thesis by blast
qed (use assms(5) in \<open>simp add: ConditionTrue_def ConditionFalse_def\<close>)

lemma status_explains:
  assumes "at w (KGuard, req) = Some (OGuard g)"
    and "Guard_Reconcile r req w = (res, w')"
    and "at w' (KGuard, req) = Some (OGuard g')"
    and "l_find_condition (r_Lib r) (g_Conditions g') guardReadyType = Some c"
    and "l_find_condition (r_Lib r) (g_Conditions g) guardReadyType \<noteq> Some c"
    and "cd_Status c \<noteq> ConditionTrue"
  shows "cd_Reason c = guardReasonAdapterNotConfigured \<longleftrightarrow> r_AdapterImage r = []"
    and "cd_Reason c = guardReasonProviderNotFound \<Longrightarrow> at w (KGuardrailProvider, provider_key g) = None"
    and "cd_Reason c = guardReasonUnsupportedProviderType \<Longrightarrow>
           \<exists>p. at w (KGuardrailProvider, provider_key g) = Some (OGuardrailProvider p) \<and> gp_Type p \<noteq> providerTypePresidio"
    and "cd_Reason c = guardReasonInvalidConfig \<Longrightarrow>
           \<exists>p. at w (KGuardrailProvider, provider_key g) = Some (OGuardrailProvider p)
             \<and> gp_Type p = providerTypePresidio \<and> \<not> valid_guard g p"
    and "isTerminalReason (cd_Reason c) \<or> cd_Reason c = guardReasonReconcileFailed"
    and "isTerminalReason (cd_Reason c) \<longleftrightarrow> res = None"
    and "res = None \<Longrightarrow> unchanged_outside {(KGuard, req)} at w w'"
proof -
  obtain reason msg e w1 where f: "reconcileGuard r g w = ((reason, msg, Some e), w1)"
    "cd_Reason c = reason" "unchanged_outside {(KGuard, req)} at w1 w'"
    "res = (if isTerminalReason reason then None else Some e)"
    using guard_status_written [OF assms(2,1,3,4,5)] assms(6) by metis
  note r = reconcileGuard_failed [OF f(1)]
  show "cd_Reason c = guardReasonAdapterNotConfigured \<longleftrightarrow> r_AdapterImage r = []"
    "cd_Reason c = guardReasonProviderNotFound \<Longrightarrow> at w (KGuardrailProvider, provider_key g) = None"
    "cd_Reason c = guardReasonUnsupportedProviderType \<Longrightarrow>
           \<exists>p. at w (KGuardrailProvider, provider_key g) = Some (OGuardrailProvider p) \<and> gp_Type p \<noteq> providerTypePresidio"
    "cd_Reason c = guardReasonInvalidConfig \<Longrightarrow>
           \<exists>p. at w (KGuardrailProvider, provider_key g) = Some (OGuardrailProvider p)
             \<and> gp_Type p = providerTypePresidio \<and> \<not> valid_guard g p"
    "isTerminalReason (cd_Reason c) \<or> cd_Reason c = guardReasonReconcileFailed"
    "isTerminalReason (cd_Reason c) \<longleftrightarrow> res = None"
    "res = None \<Longrightarrow> unchanged_outside {(KGuard, req)} at w w'"
    using r f(2,3,4) by (auto split: if_splits)
qed

lemma conditions_irrelevant:
  "provider_key (set_guard_ready lib g s reason msg) = provider_key g"
  "guard_static_config (set_guard_ready lib g s reason msg) p = guard_static_config g p"
  "valid_guard (set_guard_ready lib g s reason msg) p = valid_guard g p"
  "adapter_key (set_guard_ready lib g s reason msg) = adapter_key g"
  "adapter_settled lib img (set_guard_ready lib g s reason msg) data = adapter_settled lib img g data"
proof -
  have m: "g_Meta (set_guard_ready lib g s reason msg) = g_Meta g"
    "g_ProviderRef (set_guard_ready lib g s reason msg) = g_ProviderRef g"
    "g_Mode (set_guard_ready lib g s reason msg) = g_Mode g"
    "g_Presidio (set_guard_ready lib g s reason msg) = g_Presidio g"
    by (simp_all add: set_guard_ready_def)
  then have n: "adapterName (set_guard_ready lib g s reason msg) = adapterName g" by (simp add: adapterName_def)
  have mutate: "config_map_mutate lib (set_guard_ready lib g s reason msg) d cm = config_map_mutate lib g d cm"
    "deployment_mutate lib img (set_guard_ready lib g s reason msg) h dep = deployment_mutate lib img g h dep"
    "service_mutate lib (set_guard_ready lib g s reason msg) svc = service_mutate lib g svc" for d cm h dep svc
    by (simp_all add: config_map_mutate_def deployment_mutate_def service_mutate_def n m cong: sum.case_cong)
  show k: "adapter_key (set_guard_ready lib g s reason msg) = adapter_key g"
    by (simp add: adapter_key_def n m)
  show "adapter_settled lib img (set_guard_ready lib g s reason msg) data = adapter_settled lib img g data"
    unfolding adapter_settled_def mutate k by (rule refl)
qed (simp_all add: set_guard_ready_def provider_key_def Let_def guard_static_config_def valid_guard_def)

lemma second_run:
  assumes "at w (KGuard, req) = Some (OGuard g)"
    and run1: "Guard_Reconcile r req w = (None, w1)"
    and "at w1 (KGuard, req) = Some (OGuard g')"
    and "l_find_condition (r_Lib r) (g_Conditions g') guardReadyType = Some c" "cd_Status c = ConditionTrue"
    and "l_find_condition (r_Lib r) (g_Conditions g) guardReadyType \<noteq> Some c"
    and run2: "Guard_Reconcile r req w1 = (None, w2)"
  shows "at w2 k = at w1 k"
proof (cases rule: guard_run [OF run1 assms(1), case_names read ready failed])
  case (ready reason msg v)
  let ?g = "set_guard_ready (r_Lib r) g ConditionTrue guardReasonReconciled ''Adapter resources reconciled''"
  have g': "g' = ?g" using setReady_at(1) [OF ready(4)] ready(2,3) assms(3) by simp
  obtain p data where p: "r_AdapterImage r \<noteq> []" "fetchProvider r g w = Inr p" "valid_guard g p"
    "l_json_to_yaml (r_Lib r) (guard_static_config g p) = Inr data"
    "adapter_settled (r_Lib r) (r_AdapterImage r) g data (at v)"
    using reconcileGuard_ok [OF ready(1)] by metis
  have vw: "at w1 j = at v j" if "fst j \<noteq> KGuard" for j
    using unchangedD [OF setReady_frame [OF ready(4)], of j] that by (cases j) auto
  have "at v (KGuardrailProvider, provider_key g) = at w (KGuardrailProvider, provider_key g)"
    using unchangedD [OF reconcileGuard_frame [OF ready(1)]] by (simp add: adapter_keys_def)
  then have p1: "at w1 (KGuardrailProvider, provider_key g') = Some (OGuardrailProvider p)"
    using fetchProvider_some [OF p(2)] vw by (simp add: g' conditions_irrelevant)
  have s1: "adapter_settled (r_Lib r) (r_AdapterImage r) g' data (at w1)"
    using p(5) vw by (simp add: g' conditions_irrelevant) (simp add: adapter_settled_def)
  show ?thesis
  proof (cases rule: guard_run [OF run2 assms(3), case_names read2 ready2 failed2])
    case (ready2 reason2 msg2 v2)
    have 1: "at v2 j = at w1 j" for j
      using reconcileGuard_settled [OF p1 _ s1 ready2(1)] p(4) by (simp add: g' conditions_irrelevant)
    have "set_guard_ready (r_Lib r) g' ConditionTrue guardReasonReconciled ''Adapter resources reconciled'' = g'"
      by (simp add: g' set_guard_ready_twice)
    then have "at w2 (KGuard, req) = at v2 (KGuard, req)"
      using setReady_at(2) [OF ready2(4)] ready2(2,3) by simp
    then show ?thesis
      using unchangedD [OF setReady_frame [OF ready2(4)], of k] ready2(2) 1 by (cases "k = (KGuard, req)") auto
  next
    case (failed2 reason2 msg2 e v2 y)
    have "\<not> isTerminalReason reason2"
      using reconcileGuard_failed(1-4) [OF failed2(1)] p(1,3) p1 valid_guard_def [of g p]
      by (auto simp: isTerminalReason_def g' conditions_irrelevant)
    with failed2(5) show ?thesis by simp
  qed simp
next
  case (failed reason msg e v y)
  then show ?thesis
    using setReady_at(2) [OF failed(4)] found_guard_ready assms(3-6)
    by (auto simp: ConditionTrue_def ConditionFalse_def)
qed simp

lemma keeps_foreign:
  assumes "at w (KGuard, req) = Some (OGuard g)"
    and "k \<in> adapter_keys g" "at w k = Some ob"
    and "controller_of (meta_of ob) = Some c" "c \<noteq> (KGuard, m_Name (g_Meta g))"
    and run: "Guard_Reconcile r req w = (res, w')"
  shows "at w' k = Some ob"
proof -
  have ng: "k \<notin> {(KGuard, meta_key (g_Meta g))}" using assms(2) by (auto simp: adapter_keys_def)
  show ?thesis
  proof (cases rule: guard_run [OF run assms(1), case_names read ready failed])
    case (ready reason msg w1)
    from reconcileGuard_refused(2) [OF assms(3,4,5,2) ready(1)] show ?thesis by simp
  next
    case (failed reason msg e w1 y)
    from reconcileGuard_refused(1) [OF assms(3,4,5,2) failed(1)] unchangedD [OF setReady_frame [OF failed(4)] ng]
    show ?thesis by simp
  qed (use assms(3) in simp)
qed

lemma finds_guards:
  assumes "c_list (r_Client r) KGuard None w = Inr obs"
  shows "set (findGuardsForProvider r (OGuardrailProvider p) w) =
     {k. \<exists>g. at w (KGuard, k) = Some (OGuard g) \<and> provider_key g = meta_key (gp_Meta p)}"
proof -
  obtain gs where l: "list_as as_guard (r_Client r) KGuard None w = Inr gs"
    using assms by (simp add: list_as_def)
  have s: "set gs = {g. at w (key_of (OGuard g)) = Some (OGuard g)}"
    using list_as_set [OF l as_guard_iff] by simp
  have k: "at w (KGuard, k) = Some (OGuard g) \<Longrightarrow> meta_key (g_Meta g) = k" for k g
    using at_key by (fastforce simp: key_of_def)
  have f: "findGuardsForProvider r (OGuardrailProvider p) w =
    map (\<lambda>g. meta_key (g_Meta g)) (filter (\<lambda>g. provider_key g = meta_key (gp_Meta p)) gs)"
    by (simp add: findGuardsForProvider_def l provider_key_def meta_key_def conj_commute Let_def)
  show ?thesis unfolding f using k by (force simp: s key_of_def)
qed

end
section \<open>Properties\<close>

definition mem_guard_reconciler :: "string \<Rightarrow> cluster guard_reconciler" where
  "mem_guard_reconciler img =
     \<lparr>r_Client = mem_client, r_Lib = ref_lib, r_Recorder = True, r_AdapterImage = img\<rparr>"

interpretation mem_guard: guard_operator "mem_guard_reconciler img" mem_at k_Events for img
  unfolding guard_operator_def operator_def mem_guard_reconciler_def
  by (simp add: mem.kube_client_axioms ref_conditions.condition_lib_axioms ref_owner.owner_lib_axioms
      ref_nested.nested_lib_axioms)

text \<open>The mutate functions of the adapter's objects keep the contract of a mutate function.\<close>

interpretation config_map_mut: mutator "on_config_map (config_map_mutate ref_lib g data)" for g data
  by (rule ref_owner.config_map_mutator)

interpretation deployment_mut: mutator "on_deployment (deployment_mutate ref_lib img g h)" for img g h
  by (rule ref_owner.deployment_mutator)

interpretation service_mut: mutator "on_service (service_mutate ref_lib g)" for g
  by (rule ref_owner.service_mutator)

definition demo_guard :: guard where
  "demo_guard = \<lparr>g_Meta = new_meta ''pii'' ''ns'', g_Mode = [''pre_call''],
     g_ProviderRef = \<lparr>ref_Name = ''presidio'', ref_Namespace = []\<rparr>, g_Presidio = None, g_Conditions = []\<rparr>"

definition demo_provider :: guardrail_provider where
  "demo_provider = \<lparr>gp_Meta = new_meta ''presidio'' ''ns'', gp_Type = ''presidio-api'', gp_Presidio = Some ''http://p''\<rparr>"

definition demo_world :: cluster where
  "demo_world = mem_cluster [OGuard demo_guard, OGuardrailProvider demo_provider]"

lemmas guard_eval =
  Guard_Reconcile_def reconcileGuard_def guard_failed_def fetchProvider_def renderStaticConfig_def
  ensureConfigMap_def ensureDeployment_def ensureService_def on_config_map_def on_deployment_def
  on_service_def config_map_mutate_def deployment_mutate_def service_mutate_def setReadyCondition_def
  set_guard_ready_def adapterName_def provider_key_def ref_json_to_yaml_def yaml_line_def
  static_config_json_def static_presidio_of_def static_presidio_json_def mem_guard_reconciler_def
  providerTypePresidio_def GuardModePreCall_def GuardModePostCall_def guard_reasons guardReadyType_def
  isTerminalReason_def Let_def ConditionTrue_def ConditionFalse_def staticConfigKey_def errInvalidConfig_def errUnsupportedProvider_def



definition demo_req :: nsname where "demo_req = (''ns'', ''pii'')"

abbreviation demo_rec :: "cluster guard_reconciler" where "demo_rec \<equiv> mem_guard_reconciler ''img''"

definition demo_after :: cluster where "demo_after = snd (Guard_Reconcile demo_rec demo_req demo_world)"

definition demo_ready :: condition where
  "demo_ready = \<lparr>cd_Type = ''Ready'', cd_Status = ''True'', cd_Reason = ''Reconciled'',
     cd_Message = ''Adapter resources reconciled'', cd_ObservedGeneration = 0, cd_TransitionTime = 0\<rparr>"

lemma demo_guard_at: "mem_at demo_world (KGuard, demo_req) = Some (OGuard demo_guard)"
  by (simp add: demo_world_def demo_req_def demo_guard_def mem_eval)

lemma demo_run: "fst (Guard_Reconcile demo_rec demo_req demo_world) = None
   \<and> mem_at demo_after (KGuard, demo_req) = Some (OGuard (demo_guard\<lparr>g_Conditions := [demo_ready]\<rparr>))"
  by (simp add: demo_after_def demo_req_def demo_world_def demo_guard_def demo_provider_def demo_ready_def mem_eval guard_eval)

lemma demo_run2: "fst (Guard_Reconcile demo_rec demo_req demo_after) = None"
  by (simp add: demo_after_def demo_req_def demo_world_def demo_guard_def demo_provider_def demo_ready_def mem_eval guard_eval)

text \<open>
  C13: A \<open>Guard\<close> is only turned Ready when its adapter is in place: whenever a reconcile writes
  a Ready=True condition, the provider exists and the guard is valid for it, the ConfigMap holds
  the rendered configuration, the pod template carries the hash of exactly these bytes and the
  operator's adapter image, the Deployment's and the Service's selectors match the pod labels,
  the guard controls all three objects, and the condition is of the guard's generation.
\<close>

theorem guard_ready_adapter:
  assumes "guard_operator r at events"
    and "at w (KGuard, req) = Some (OGuard g)"
    and "Guard_Reconcile r req w = (res, w')"
    and "at w' (KGuard, req) = Some (OGuard g')"
    and "l_find_condition (r_Lib r) (g_Conditions g') guardReadyType = Some c" "cd_Status c = ConditionTrue"
    and "l_find_condition (r_Lib r) (g_Conditions g) guardReadyType \<noteq> Some c"
  shows "\<exists>p data. at w (KGuardrailProvider, provider_key g) = Some (OGuardrailProvider p) \<and> valid_guard g p
      \<and> l_json_to_yaml (r_Lib r) (guard_static_config g p) = Inr data
      \<and> adapter_serves (r_AdapterImage r) g data (at w')
      \<and> cd_ObservedGeneration c = m_Generation (g_Meta g)"
  by (rule guard_operator.ready_adapter [OF assms])

lemma demo_ready_facts:
  "l_find_condition (r_Lib demo_rec) (g_Conditions (demo_guard\<lparr>g_Conditions := [demo_ready]\<rparr>)) guardReadyType = Some demo_ready"
  "cd_Status demo_ready = ConditionTrue"
  "l_find_condition (r_Lib demo_rec) (g_Conditions demo_guard) guardReadyType \<noteq> Some demo_ready"
  by (simp_all add: mem_guard_reconciler_def ref_find_condition_def guardReadyType_def demo_ready_def demo_guard_def
      ConditionTrue_def)

lemma demo_run_pair: "Guard_Reconcile demo_rec demo_req demo_world = (None, demo_after)"
  using demo_run by (simp add: demo_after_def prod_eq_iff)

theorem guard_ready_adapter_witness:
  "\<exists>data. adapter_serves ''img'' demo_guard data (mem_at demo_after)"
  using guard_ready_adapter [OF mem_guard.guard_operator_axioms demo_guard_at demo_run_pair conjunct2 [OF demo_run]
      demo_ready_facts]
  by (auto simp: mem_guard_reconciler_def)






text \<open>
  On a server that stores what it is sent, reconciling is idempotent.  After a reconcile that turned
  the guard Ready, another one that returns without an error leaves every object as it is.
\<close>

theorem guard_idempotent:
  assumes "guard_operator r at events"
    and "at w (KGuard, req) = Some (OGuard g)"
    and "Guard_Reconcile r req w = (None, w1)"
    and "at w1 (KGuard, req) = Some (OGuard g')"
    and "l_find_condition (r_Lib r) (g_Conditions g') guardReadyType = Some c" "cd_Status c = ConditionTrue"
    and "l_find_condition (r_Lib r) (g_Conditions g) guardReadyType \<noteq> Some c"
    and "Guard_Reconcile r req w1 = (None, w2)"
  shows "at w2 k = at w1 k"
  by (rule guard_operator.second_run [OF assms])

theorem guard_idempotent_witness:
  "mem_at (snd (Guard_Reconcile demo_rec demo_req demo_after)) (KDeployment, (''ns'', ''pii-adapter''))
   = mem_at demo_after (KDeployment, (''ns'', ''pii-adapter''))"
  by (rule guard_idempotent [OF mem_guard.guard_operator_axioms demo_guard_at demo_run_pair conjunct2 [OF demo_run]
      demo_ready_facts]) (simp add: demo_run2 prod_eq_iff)

text \<open>
  C22: The operator never takes over an adapter object that belongs to someone else: a
  ConfigMap, Deployment or Service under the adapter's name with another controller is left
  exactly as it is.
\<close>

theorem guard_keeps_foreign:
  assumes "guard_operator r at events"
    and "at w (KGuard, req) = Some (OGuard g)"
    and "k \<in> adapter_keys g" "at w k = Some ob"
    and "controller_of (meta_of ob) = Some c" "c \<noteq> (KGuard, m_Name (g_Meta g))"
    and "Guard_Reconcile r req w = (res, w')"
  shows "at w' k = Some ob"
  by (rule guard_operator.keeps_foreign [OF assms])

definition foreign_service :: service where
  "foreign_service = \<lparr>sv_Meta = (new_meta ''pii-adapter'' ''ns'')\<lparr>m_Owners := [\<lparr>or_Kind = KGateway, or_Name = ''x'', or_Uid = ''u'', or_Controller = True\<rparr>]\<rparr>,
     sv_Selector = None, sv_Ports = []\<rparr>"

definition demo_squat :: cluster where
  "demo_squat = mem_cluster [OGuard demo_guard, OGuardrailProvider demo_provider, OService foreign_service]"

theorem guard_keeps_foreign_witness:
  "mem_at (snd (Guard_Reconcile demo_rec demo_req demo_squat)) (KService, (''ns'', ''pii-adapter'')) = Some (OService foreign_service)"
  by (rule guard_keeps_foreign [OF mem_guard.guard_operator_axioms _ _ _ _ _ surjective_pairing,
      where g = demo_guard and c = "(KGateway, ''x'')"])
    (simp_all add: demo_squat_def demo_guard_def demo_req_def foreign_service_def adapter_keys_def adapter_key_def
      adapterName_def demo_provider_def mem_eval)

text \<open>
  The provider watch is exact: when the guards can be listed, an event on a
  \<open>GuardrailProvider\<close> enqueues precisely the guards that the reconciler would look the
  provider up for.
\<close>

theorem guard_watch_exact:
  assumes "guard_operator r at events" and "c_list (r_Client r) KGuard None w = Inr obs"
  shows "\<exists>f. su_Watches (Guard_SetupWithManager r) = [(KGuardrailProvider, f)]
     \<and> set (f (OGuardrailProvider p) w) = {k. \<exists>g. at w (KGuard, k) = Some (OGuard g) \<and> provider_key g = meta_key (gp_Meta p)}"
  using guard_operator.finds_guards [OF assms] by (simp add: Guard_SetupWithManager_def)

theorem guard_watch_exact_witness:
  "set (findGuardsForProvider demo_rec (OGuardrailProvider demo_provider) demo_world) = {demo_req}"
proof -
  have "set (findGuardsForProvider demo_rec (OGuardrailProvider demo_provider) demo_world)
    = {k. \<exists>g. mem_at demo_world (KGuard, k) = Some (OGuard g) \<and> provider_key g = meta_key (gp_Meta demo_provider)}"
    using guard_watch_exact [OF mem_guard.guard_operator_axioms [of "''img''"], where w = demo_world and obs = "[OGuard demo_guard]"]
    by (simp add: Guard_SetupWithManager_def demo_world_def demo_guard_def demo_provider_def mem_guard_reconciler_def mem_eval)
  then show ?thesis
    by (auto simp: demo_world_def demo_req_def demo_guard_def demo_provider_def provider_key_def mem_eval)
qed

text \<open>
  The status of a failure that only a user can resolve can be lost for good.  When the
  provider is missing and the status patch is rejected, the reconcile still returns without an
  error, so nothing retries it: the guard keeps a status without any Ready condition.
\<close>

theorem guard_terminal_status_lost:
  "\<exists>w. mem_at w (KGuard, demo_req) = Some (OGuard demo_guard) \<and> g_Conditions demo_guard = []
     \<and> mem_at w (KGuardrailProvider, provider_key demo_guard) = None
     \<and> Guard_Reconcile demo_rec demo_req w = (None, w)"
  by (rule exI [of _ "mem_cluster [OGuard demo_guard]\<lparr>k_Faults := [(CallPatchStatus (KGuard, demo_req), Conflict, ''conflict'')]\<rparr>"])
    (simp add: demo_req_def demo_guard_def mem_eval guard_eval)

end
