(* ===== verification/ClassOwnership.thy ===== *)
theory ClassOwnership
  imports KubeClient
begin

text \<open>
  \<open>class_ownership.go\<close>: which \<open>ToolGateway\<close> a \<open>ToolRoute\<close> targets, and whether this
  controller owns a \<open>ToolGateway\<close>.
\<close>

section \<open>The functions\<close>

definition ToolGatewayAgentgatewayControllerName :: string where
  "ToolGatewayAgentgatewayControllerName = ''runtime.agentic-layer.ai/tool-gateway-agentgateway-controller''"

definition toolGatewayClassDefaultAnnotation :: string where
  "toolGatewayClassDefaultAnnotation = ''toolgatewayclass.kubernetes.io/is-default-class''"

definition defaultToolGatewayNamespace :: string where
  "defaultToolGatewayNamespace = ''tool-gateway''"

definition errNoDefaultToolGateway :: goerror where
  "errNoDefaultToolGateway =
     Sentinel (''no default ToolGateway found in namespace '' @ defaultToolGatewayNamespace)"

definition resolveToolGatewayKey :: "'w client \<Rightarrow> tool_route \<Rightarrow> 'w \<Rightarrow> goerror + nsname" where
  "resolveToolGatewayKey cl route w =
     (case tr_ToolGatewayRef route of
        Some ref \<Rightarrow>
          (let ns = (if ref_Namespace ref = [] then m_Namespace (tr_Meta route) else ref_Namespace ref)
           in Inr (ns, ref_Name ref))
      | None \<Rightarrow>
          (case list_as as_tool_gateway cl KToolGateway (Some defaultToolGatewayNamespace) w of
             Inl e \<Rightarrow> Inl (Wrapf (''failed to list ToolGateways in namespace '' @ defaultToolGatewayNamespace @ '': '') e [])
           | Inr items \<Rightarrow>
               (case items of
                  [] \<Rightarrow> Inl errNoDefaultToolGateway
                | tg # _ \<Rightarrow> Inr (m_Namespace (tg_Meta tg), m_Name (tg_Meta tg)))))"

definition isToolGatewayOwnedByController :: "'w client \<Rightarrow> tool_gateway \<Rightarrow> 'w \<Rightarrow> goerror + bool" where
  "isToolGatewayOwnedByController cl tg w =
     (case list_as as_class cl KToolGatewayClass None w of
        Inl e \<Rightarrow> Inl (Wrapf ''failed to list ToolGatewayClasses: '' e [])
      | Inr items \<Rightarrow>
          (let owned = filter (\<lambda>tgc. tgc_Controller tgc = ToolGatewayAgentgatewayControllerName) items;
               className = tg_ClassName tg
           in if className \<noteq> []
              then Inr (list_ex (\<lambda>c. m_Name (tgc_Meta c) = className) owned)
              else Inr (list_ex (\<lambda>c. m_Annotations (tgc_Meta c) toolGatewayClassDefaultAnnotation = Some ''true'') owned)))"

text \<open>The classes that make a gateway ours.\<close>

definition claims_gateway :: "('w \<Rightarrow> okey \<Rightarrow> kobj option) \<Rightarrow> 'w \<Rightarrow> tool_gateway \<Rightarrow> tool_gateway_class \<Rightarrow> bool" where
  "claims_gateway at w tg c =
     (at w (key_of (OToolGatewayClass c)) = Some (OToolGatewayClass c)
      \<and> tgc_Controller c = ToolGatewayAgentgatewayControllerName
      \<and> (if tg_ClassName tg \<noteq> [] then m_Name (tgc_Meta c) = tg_ClassName tg
         else m_Annotations (tgc_Meta c) toolGatewayClassDefaultAnnotation = Some ''true''))"

context kube_client
begin

lemma owned_iff:
  assumes "isToolGatewayOwnedByController cl tg w = Inr b"
  shows "b \<longleftrightarrow> (\<exists>c. claims_gateway at w tg c)"
proof -
  obtain items where l: "list_as as_class cl KToolGatewayClass None w = Inr items"
    using assms by (auto simp: isToolGatewayOwnedByController_def split: sum.splits)
  have s: "set items = {c. at w (key_of (OToolGatewayClass c)) = Some (OToolGatewayClass c)}"
    using list_as_set [OF l as_class_iff] by simp
  show ?thesis
    using assms by (auto simp: isToolGatewayOwnedByController_def l Let_def claims_gateway_def list_ex_iff s
        split: if_splits)
qed

lemma owned_error:
  "isToolGatewayOwnedByController cl tg w = Inl e \<Longrightarrow>
   \<exists>e'. c_list cl KToolGatewayClass None w = Inl e' \<and> e = Wrapf ''failed to list ToolGatewayClasses: '' e' []"
  by (auto simp: isToolGatewayOwnedByController_def list_as_error Let_def split: sum.splits if_splits)

text \<open>The targeted gateway.\<close>

lemma resolve_default:
  assumes "resolveToolGatewayKey cl route w = Inr k" and "tr_ToolGatewayRef route = None"
  shows "\<exists>tg. at w (KToolGateway, k) = Some (OToolGateway tg) \<and> fst k = defaultToolGatewayNamespace"
proof -
  obtain tg items where l: "list_as as_tool_gateway cl KToolGateway (Some defaultToolGatewayNamespace) w = Inr (tg # items)"
    and k: "k = (m_Namespace (tg_Meta tg), m_Name (tg_Meta tg))"
    using assms by (auto simp: resolveToolGatewayKey_def split: sum.splits list.splits)
  have "tg \<in> set (tg # items)" by simp
  then have "at w (key_of (OToolGateway tg)) = Some (OToolGateway tg)
       \<and> m_Namespace (tg_Meta tg) = defaultToolGatewayNamespace"
    by (subst (asm) list_as_set [OF l as_tool_gateway_iff]) simp_all
  then show ?thesis by (auto simp: k key_simps)
qed

lemma resolve_no_default:
  assumes "resolveToolGatewayKey cl route w = Inl errNoDefaultToolGateway"
  shows "tr_ToolGatewayRef route = None
     \<and> (\<forall>tg. at w (key_of (OToolGateway tg)) = Some (OToolGateway tg) \<longrightarrow> m_Namespace (tg_Meta tg) \<noteq> defaultToolGatewayNamespace)"
proof -
  have n: "tr_ToolGatewayRef route = None"
    using assms by (cases "tr_ToolGatewayRef route") (auto simp: resolveToolGatewayKey_def)
  have l: "list_as as_tool_gateway cl KToolGateway (Some defaultToolGatewayNamespace) w = Inr []"
    using assms n
    by (auto simp: resolveToolGatewayKey_def errNoDefaultToolGateway_def split: sum.splits list.splits)
  show ?thesis using n list_as_set [OF l as_tool_gateway_iff] by auto
qed

end

end
