(* ===== verification/GoUtf8.thy ===== *)
theory GoUtf8
  imports GoStd
begin

text \<open>
  Runes of a Go string.  A \<open>range\<close> loop decodes UTF-8 and yields U+FFFD with width one for
  every byte that does not start a valid encoding; \<open>strings.Builder.WriteRune\<close> encodes.
  The round trip between the two is what lets the translation of tool filters be read
  character by character.  \<open>strings.TrimSpace\<close> is here because it trims by rune.
\<close>

section \<open>Decoding and encoding\<close>

definition rune_error :: nat where "rune_error = 65533"

definition in_range :: "nat \<Rightarrow> nat \<Rightarrow> char \<Rightarrow> bool" where
  "in_range lo hi c = (lo \<le> of_char c \<and> (of_char c :: nat) \<le> hi)"

text \<open>
  \<open>utf8.DecodeRuneInString\<close>: the rune and its width.  The accepted range of the second byte
  depends on the first one (no overlong forms, no surrogates, nothing above U+10FFFF).
\<close>

definition snd_lo :: "nat \<Rightarrow> nat" where
  "snd_lo b = (if b = 224 then 160 else if b = 240 then 144 else 128)"

definition snd_hi :: "nat \<Rightarrow> nat" where
  "snd_hi b = (if b = 237 then 159 else if b = 244 then 143 else 191)"

fun decode_rune :: "string \<Rightarrow> nat \<times> nat" where
  "decode_rune [] = (rune_error, 0)"
| "decode_rune (a # s) =
     (let b = of_char a :: nat in
      if b < 128 then (b, 1)
      else if 194 \<le> b \<and> b \<le> 223 then
        (case s of
           c # _ \<Rightarrow> if in_range 128 191 c then ((b - 192) * 64 + (of_char c - 128), 2) else (rune_error, 1)
         | [] \<Rightarrow> (rune_error, 1))
      else if 224 \<le> b \<and> b \<le> 239 then
        (case s of
           c # d # _ \<Rightarrow>
             if in_range (snd_lo b) (snd_hi b) c \<and> in_range 128 191 d
             then ((b - 224) * 4096 + (of_char c - 128) * 64 + (of_char d - 128), 3) else (rune_error, 1)
         | _ \<Rightarrow> (rune_error, 1))
      else if 240 \<le> b \<and> b \<le> 244 then
        (case s of
           c # d # e # _ \<Rightarrow>
             if in_range (snd_lo b) (snd_hi b) c \<and> in_range 128 191 d \<and> in_range 128 191 e
             then ((b - 240) * 262144 + (of_char c - 128) * 4096 + (of_char d - 128) * 64 + (of_char e - 128), 4)
             else (rune_error, 1)
         | _ \<Rightarrow> (rune_error, 1))
      else (rune_error, 1))"

text \<open>The runes a \<open>range\<close> loop visits, each with the bytes it was decoded from.\<close>

function rune_chunks :: "string \<Rightarrow> (nat \<times> string) list" where
  "rune_chunks [] = []"
| "rune_chunks (a # s) =
     (let n = snd (decode_rune (a # s)) - 1
      in (fst (decode_rune (a # s)), a # take n s) # rune_chunks (drop n s))"
  by pat_completeness auto
termination by (relation "measure length") auto

definition go_runes :: "string \<Rightarrow> nat list" where
  "go_runes s = map fst (rune_chunks s)"

text \<open>\<open>WriteRune\<close>: values that are no Unicode scalar are written as U+FFFD.\<close>

definition valid_rune :: "nat \<Rightarrow> bool" where
  "valid_rune r = (r < 55296 \<or> 57344 \<le> r \<and> r \<le> 1114111)"

definition encode_valid :: "nat \<Rightarrow> string" where
  "encode_valid r =
     (if r < 128 then [char_of r]
      else if r < 2048 then [char_of (192 + r div 64), char_of (128 + r mod 64)]
      else if r < 65536 then
        [char_of (224 + r div 4096), char_of (128 + r div 64 mod 64), char_of (128 + r mod 64)]
      else
        [char_of (240 + r div 262144), char_of (128 + r div 4096 mod 64),
         char_of (128 + r div 64 mod 64), char_of (128 + r mod 64)])"

definition encode_rune :: "nat \<Rightarrow> string" where
  "encode_rune r = encode_valid (if valid_rune r then r else rune_error)"

definition encode_runes :: "nat list \<Rightarrow> string" where
  "encode_runes rs = concat (map encode_rune rs)"

section \<open>Round trip\<close>

lemma byte_of [simp]: "n < 256 \<Longrightarrow> (of_char (char_of n :: char) :: nat) = n"
  by simp

declare of_char_of [simp del]

lemma rune_chunks_concat: "concat (map snd (rune_chunks s)) = s"
  by (induction s rule: rune_chunks.induct) (auto simp: Let_def)

lemma rune_chunks_cons:
  assumes "decode_rune (e @ s) = (r, length e)" and "e \<noteq> []"
  shows "rune_chunks (e @ s) = (r, e) # rune_chunks s"
  using assms by (cases e) (simp_all add: Let_def)

text \<open>Decoding of an encoding given by its bytes, one lemma per length.\<close>

lemma decode_bytes_1: "b < 128 \<Longrightarrow> decode_rune (char_of b # s) = (b, 1)"
  by (simp add: Let_def)

lemma decode_bytes_2:
  assumes "2 \<le> b" "b < 32" "c < 64"
  shows "decode_rune (char_of (192 + b) # char_of (128 + c) # s) = (b * 64 + c, 2)"
  using assms by (simp add: Let_def in_range_def)

lemma decode_bytes_3:
  assumes "a < 16" "b < 64" "c < 64" "a = 0 \<Longrightarrow> 32 \<le> b" "a = 13 \<Longrightarrow> b \<le> 31"
  shows "decode_rune (char_of (224 + a) # char_of (128 + b) # char_of (128 + c) # s)
         = (a * 4096 + b * 64 + c, 3)"
  using assms by (simp add: Let_def in_range_def snd_lo_def snd_hi_def)

lemma decode_bytes_4:
  assumes "a < 5" "b < 64" "c < 64" "d < 64" "a = 0 \<Longrightarrow> 16 \<le> b" "a = 4 \<Longrightarrow> b \<le> 15"
  shows "decode_rune (char_of (240 + a) # char_of (128 + b) # char_of (128 + c) # char_of (128 + d) # s)
         = (a * 262144 + b * 4096 + c * 64 + d, 4)"
  using assms by (simp add: Let_def in_range_def snd_lo_def snd_hi_def)

lemma split64: "(r::nat) = r div 64 * 64 + r mod 64"
  by simp

lemma split4096: "(r::nat) = r div 4096 * 4096 + r div 64 mod 64 * 64 + r mod 64"
proof -
  have "r div 64 = r div 64 div 64 * 64 + r div 64 mod 64" by simp
  moreover have "r div 64 div 64 = r div 4096" by (simp add: div_mult2_eq [symmetric])
  ultimately show ?thesis using split64 [of r] by linarith
qed

lemma split262144:
  "(r::nat) = r div 262144 * 262144 + r div 4096 mod 64 * 4096 + r div 64 mod 64 * 64 + r mod 64"
proof -
  have "r div 4096 = r div 4096 div 64 * 64 + r div 4096 mod 64" by simp
  moreover have "r div 4096 div 64 = r div 262144" by (simp add: div_mult2_eq [symmetric])
  ultimately show ?thesis using split4096 [of r] by linarith
qed

lemma mod64 [simp]: "(n::nat) mod 64 < 64"
  by simp

lemma decode_encode_2:
  assumes "128 \<le> r" "r < 2048"
  shows "decode_rune (encode_valid r @ s) = (r, 2)"
proof -
  have "2 \<le> r div 64" using div_le_mono [OF assms(1), of 64] by simp
  moreover have "r div 64 < 32" using assms(2) by (simp add: less_mult_imp_div_less)
  ultimately have "decode_rune (encode_valid r @ s) = (r div 64 * 64 + r mod 64, 2)"
    using assms by (simp add: encode_valid_def decode_bytes_2 del: decode_rune.simps)
  then show ?thesis by simp
qed

lemma decode_encode_3:
  assumes "2048 \<le> r" "r < 65536" "valid_rune r"
  shows "decode_rune (encode_valid r @ s) = (r, 3)"
proof -
  define a b c where "a = r div 4096" and "b = r div 64 mod 64" and "c = r mod 64"
  have r: "r = a * 4096 + b * 64 + c" unfolding a_def b_def c_def by (rule split4096)
  have a: "a < 16" using assms(2) unfolding a_def by (simp add: less_mult_imp_div_less)
  have bc: "b < 64" "c < 64" unfolding b_def c_def by simp_all
  have lo: "a = 0 \<Longrightarrow> 32 \<le> b" using assms(1) r bc by linarith
  have hi: "a = 13 \<Longrightarrow> b \<le> 31" using assms(3) r bc unfolding valid_rune_def by linarith
  have "encode_valid r = [char_of (224 + a), char_of (128 + b), char_of (128 + c)]"
    using assms by (simp add: encode_valid_def a_def b_def c_def)
  then show ?thesis using decode_bytes_3 [OF a bc lo hi] by (simp add: r del: decode_rune.simps)
qed

lemma decode_encode_4:
  assumes "65536 \<le> r" "valid_rune r"
  shows "decode_rune (encode_valid r @ s) = (r, 4)"
proof -
  define a b c d where "a = r div 262144" and "b = r div 4096 mod 64"
    and "c = r div 64 mod 64" and "d = r mod 64"
  have r: "r = a * 262144 + b * 4096 + c * 64 + d"
    unfolding a_def b_def c_def d_def by (rule split262144)
  have r': "r \<le> 1114111" using assms by (auto simp: valid_rune_def)
  have a: "a < 5" using r r' by linarith
  have bcd: "b < 64" "c < 64" "d < 64" unfolding b_def c_def d_def by simp_all
  have lo: "a = 0 \<Longrightarrow> 16 \<le> b" using assms(1) r bcd by linarith
  have hi: "a = 4 \<Longrightarrow> b \<le> 15" using r' r bcd by linarith
  have "encode_valid r = [char_of (240 + a), char_of (128 + b), char_of (128 + c), char_of (128 + d)]"
    using assms by (simp add: encode_valid_def a_def b_def c_def d_def)
  then show ?thesis using decode_bytes_4 [OF a bcd lo hi] by (simp add: r del: decode_rune.simps)
qed

lemma decode_encode_1: "r < 128 \<Longrightarrow> decode_rune (encode_valid r @ s) = (r, 1)"
  by (simp add: encode_valid_def Let_def)

lemma length_encode_valid:
  "length (encode_valid r) = (if r < 128 then 1 else if r < 2048 then 2 else if r < 65536 then 3 else 4)"
  by (simp add: encode_valid_def)

lemma encode_valid_nonempty [simp]: "encode_valid r \<noteq> []" "encode_rune r \<noteq> []"
  by (simp_all add: encode_rune_def encode_valid_def)

lemma decode_encode_valid:
  "valid_rune r \<Longrightarrow> decode_rune (encode_valid r @ s) = (r, length (encode_valid r))"
  by (simp add: length_encode_valid decode_encode_1 decode_encode_2 decode_encode_3 decode_encode_4
      del: decode_rune.simps)

lemma rune_chunks_encode:
  "valid_rune r \<Longrightarrow> rune_chunks (encode_rune r @ s) = (r, encode_rune r) # rune_chunks s"
  by (rule rune_chunks_cons) (simp_all add: encode_rune_def decode_encode_valid)

lemma go_runes_Nil [simp]: "go_runes [] = []"
  by (simp add: go_runes_def)

lemma go_runes_encode:
  "valid_rune r \<Longrightarrow> go_runes (encode_rune r @ s) = r # go_runes s"
  by (simp add: go_runes_def rune_chunks_encode)

lemma go_runes_encode_runes:
  "list_all valid_rune rs \<Longrightarrow> go_runes (encode_runes rs @ s) = rs @ go_runes s"
  by (induction rs) (simp_all add: encode_runes_def go_runes_encode)

text \<open>Every rune a \<open>range\<close> loop yields is a Unicode scalar value.\<close>

lemma in_rangeD: "in_range lo hi c \<Longrightarrow> lo \<le> of_char c \<and> (of_char c :: nat) \<le> hi"
  by (simp add: in_range_def)

lemma valid_rune_error [simp]: "valid_rune rune_error"
  by (simp add: valid_rune_def rune_error_def)

lemma valid_rune_3:
  assumes "224 \<le> b" "b \<le> 239" "snd_lo b \<le> c" "c \<le> snd_hi b" "c < 192" "128 \<le> c" "d \<le> 191"
  shows "valid_rune ((b - 224) * 4096 + (c - 128) * 64 + (d - 128))"
  using assms unfolding valid_rune_def snd_hi_def snd_lo_def by (auto split: if_splits)

lemma valid_rune_4:
  assumes "240 \<le> b" "b \<le> 244" "snd_lo b \<le> c" "c \<le> snd_hi b" "c < 192" "128 \<le> c" "d \<le> 191" "e \<le> 191"
  shows "valid_rune ((b - 240) * 262144 + (c - 128) * 4096 + (d - 128) * 64 + (e - 128))"
  using assms unfolding valid_rune_def snd_hi_def snd_lo_def by (auto split: if_splits)

lemma decode_rune_valid: "valid_rune (fst (decode_rune s))"
proof (cases s)
  case Nil
  then show ?thesis by simp
next
  case (Cons a t)
  define b where "b = (of_char a :: nat)"
  consider "b < 128" | "194 \<le> b" "b \<le> 223" | "224 \<le> b" "b \<le> 239" | "240 \<le> b" "b \<le> 244"
    | "128 \<le> b" "b < 194 \<or> 244 < b" by linarith
  then show ?thesis
  proof cases
    case 2
    then show ?thesis unfolding Cons
      by (auto simp: Let_def valid_rune_def rune_error_def in_range_def b_def split: list.splits)
  next
    case 3
    then show ?thesis unfolding Cons
      by (auto simp: Let_def b_def [symmetric] split: list.split
          intro!: valid_rune_3 dest!: in_rangeD) (auto simp: snd_lo_def snd_hi_def split: if_splits)
  next
    case 4
    then show ?thesis unfolding Cons
      by (auto simp: Let_def b_def [symmetric] split: list.split
          intro!: valid_rune_4 dest!: in_rangeD) (auto simp: snd_lo_def snd_hi_def split: if_splits)
  qed (auto simp: Cons Let_def b_def valid_rune_def rune_error_def)
qed

lemma go_runes_valid: "list_all valid_rune (go_runes s)"
  unfolding go_runes_def
proof (induction s rule: rune_chunks.induct)
  case (2 a s)
  then show ?case by (simp add: Let_def decode_rune_valid del: decode_rune.simps)
qed simp

lemma encode_runes_Nil [simp]: "encode_runes [] = []"
  by (simp add: encode_runes_def)

lemma encode_runes_Cons [simp]: "encode_runes (r # rs) = encode_rune r @ encode_runes rs"
  by (simp add: encode_runes_def)

lemma encode_runes_append [simp]: "encode_runes (rs @ ts) = encode_runes rs @ encode_runes ts"
  by (simp add: encode_runes_def)

text \<open>A string is valid UTF-8 when decoding and encoding give it back.\<close>

definition valid_utf8 :: "string \<Rightarrow> bool" where
  "valid_utf8 s = (encode_runes (go_runes s) = s)"

lemma valid_utf8_encode: "list_all valid_rune rs \<Longrightarrow> valid_utf8 (encode_runes rs)"
  using go_runes_encode_runes [of rs "[]"] by (simp add: valid_utf8_def)

definition is_ascii :: "string \<Rightarrow> bool" where
  "is_ascii s = list_all (\<lambda>c. (of_char c :: nat) < 128) s"

lemma rune_chunks_ascii_cons:
  "(of_char c :: nat) < 128 \<Longrightarrow> rune_chunks (c # s) = (of_char c, [c]) # rune_chunks s"
  by (simp add: Let_def)

lemma go_runes_ascii_cons:
  "(of_char c :: nat) < 128 \<Longrightarrow> go_runes (c # s) = of_char c # go_runes s"
  by (simp add: go_runes_def rune_chunks_ascii_cons)

lemma go_runes_ascii: "is_ascii s \<Longrightarrow> go_runes s = map of_char s"
  by (induction s) (simp_all add: is_ascii_def go_runes_ascii_cons)

section \<open>strings.TrimSpace\<close>

text \<open>\<open>unicode.IsSpace\<close>: the six ASCII space characters and the white space above ASCII.\<close>

definition is_space :: "nat \<Rightarrow> bool" where
  "is_space r = (r \<in> set [9, 10, 11, 12, 13, 32, 133, 160, 5760, 8232, 8233, 8239, 8287, 12288]
     \<or> 8192 \<le> r \<and> r \<le> 8202)"

definition trim_space :: "string \<Rightarrow> string" where
  "trim_space s =
     concat (map snd (rev (dropWhile (\<lambda>p. is_space (fst p))
       (rev (dropWhile (\<lambda>p. is_space (fst p)) (rune_chunks s))))))"

lemma trim_space_Nil [simp]: "trim_space [] = []"
  by (simp add: trim_space_def)

text \<open>A string whose first and last runes are no spaces is left alone.\<close>

lemma trim_space_id:
  assumes "s \<noteq> []" and "\<not> is_space (hd (go_runes s))" and "\<not> is_space (last (go_runes s))"
  shows "trim_space s = s"
proof -
  let ?p = "\<lambda>p. is_space (fst p)"
  from assms(1) have ne: "rune_chunks s \<noteq> []" by (cases s) (simp_all add: Let_def)
  with assms have h: "\<not> ?p (hd (rune_chunks s))" and l: "\<not> ?p (last (rune_chunks s))"
    by (simp_all add: go_runes_def hd_map last_map)
  from ne h have d: "dropWhile ?p (rune_chunks s) = rune_chunks s"
    by (cases "rune_chunks s") simp_all
  from ne l have "\<not> ?p (hd (rev (rune_chunks s)))" by (simp add: hd_rev)
  with ne have "dropWhile ?p (rev (rune_chunks s)) = rev (rune_chunks s)"
    by (cases "rev (rune_chunks s)") simp_all
  with d show ?thesis by (simp add: trim_space_def rune_chunks_concat)
qed

lemma trim_space_ascii_left:
  "(of_char c :: nat) < 128 \<Longrightarrow> is_space (of_char c) \<Longrightarrow> trim_space (c # s) = trim_space s"
  by (simp add: trim_space_def rune_chunks_ascii_cons)

end
