(* ===== verification/GoJson.thy ===== *)
theory GoJson
  imports GoUtf8
begin

text \<open>
  \<open>encoding/json\<close> as the operator uses it: \<open>json.Unmarshal\<close> into a \<open>map[string]string\<close>.
  The whole input must be one JSON value.  \<open>null\<close> gives a nil map without an error; an
  object gives a map when all its values are strings (or \<open>null\<close>, which stores the empty
  string), later duplicates winning; anything else is an error.

  The parser spends one unit of fuel per nested call.  Every call consumes input, so fuel
  above the length of the input never runs out (\<open>parse_value_fuel\<close>), and
  \<open>json_unmarshal_string_map\<close> gives exactly that.
\<close>

section \<open>Lexical level\<close>

definition json_space :: "char \<Rightarrow> bool" where
  "json_space c = (of_char c \<in> set [32, 9, 10, 13 :: nat])"

definition skip_ws :: "string \<Rightarrow> string" where
  "skip_ws s = dropWhile json_space s"

text \<open>\<open>is_hex\<close> and \<open>unhex\<close> of four hexadecimal digits.\<close>

definition hex_digit :: "char \<Rightarrow> nat option" where
  "hex_digit c =
     (let n = of_char c :: nat in
      if 48 \<le> n \<and> n \<le> 57 then Some (n - 48)
      else if 97 \<le> n \<and> n \<le> 102 then Some (n - 87)
      else if 65 \<le> n \<and> n \<le> 70 then Some (n - 55) else None)"

fun hex4 :: "string \<Rightarrow> nat option" where
  "hex4 (a # b # c # d # _) =
     (case (hex_digit a, hex_digit b, hex_digit c, hex_digit d) of
        (Some w, Some x, Some y, Some z) \<Rightarrow> Some (4096 * w + 256 * x + 16 * y + z)
      | _ \<Rightarrow> None)"
| "hex4 _ = None"

text \<open>
  The body of a string literal up to its closing quote: the raw text and what follows.
  Control characters and unknown escapes are syntax errors.
\<close>

fun scan_string :: "string \<Rightarrow> (string \<times> string) option" where
  "scan_string [] = None"
| "scan_string (c # s) =
     (if c = CHR 0x22 then Some ([], s)
      else if (of_char c :: nat) < 32 then None
      else if c = CHR 0x5C then
        (case s of
           [] \<Rightarrow> None
         | e # t \<Rightarrow>
             if e \<in> set (CHR 0x22 # CHR 0x5C # ''/bfnrt'') \<or> (e = CHR ''u'' \<and> hex4 t \<noteq> None)
             then map_option (\<lambda>(r, rest). (c # e # r, rest)) (scan_string t) else None)
      else map_option (\<lambda>(r, rest). (c # r, rest)) (scan_string s))"

definition is_surrogate :: "nat \<Rightarrow> bool" where
  "is_surrogate r = (55296 \<le> r \<and> r < 57344)"

definition utf16_pair :: "nat \<Rightarrow> nat \<Rightarrow> nat option" where
  "utf16_pair r r1 =
     (if 55296 \<le> r \<and> r < 56320 \<and> 56320 \<le> r1 \<and> r1 < 57344
      then Some ((r - 55296) * 1024 + (r1 - 56320) + 65536) else None)"

definition simple_escape :: "char \<Rightarrow> char" where
  "simple_escape e =
     (if e = CHR ''b'' then CHR 0x08 else if e = CHR ''f'' then CHR 0x0C
      else if e = CHR ''n'' then CHR 0x0A else if e = CHR ''r'' then CHR 0x0D
      else if e = CHR ''t'' then CHR 0x09 else e)"

text \<open>
  \<open>unquote\<close>: escapes are resolved, surrogate pairs joined, and anything that is no Unicode
  scalar (lone surrogates, invalid UTF-8) replaced by U+FFFD.
\<close>

function unquote :: "string \<Rightarrow> string" where
  "unquote [] = []"
| "unquote (c # s) =
     (if c = CHR 0x5C then
        (if s \<noteq> [] \<and> hd s = CHR ''u'' then
           (case hex4 (tl s) of
              None \<Rightarrow> []
            | Some r \<Rightarrow>
                if \<not> is_surrogate r then encode_rune r @ unquote (drop 5 s)
                else (case (if take 2 (drop 5 s) = [CHR 0x5C, CHR ''u''] then hex4 (drop 7 s) else None) of
                        None \<Rightarrow> encode_rune rune_error @ unquote (drop 5 s)
                      | Some r1 \<Rightarrow>
                          (case utf16_pair r r1 of
                             Some d \<Rightarrow> encode_rune d @ unquote (drop 11 s)
                           | None \<Rightarrow> encode_rune rune_error @ unquote (drop 5 s))))
         else if s = [] then [] else simple_escape (hd s) # unquote (tl s))
      else if (of_char c :: nat) < 128 then c # unquote s
      else encode_rune (fst (decode_rune (c # s))) @ unquote (drop (snd (decode_rune (c # s)) - 1) s))"
  by pat_completeness auto
termination by (relation "measure length") (auto simp del: decode_rune.simps)

text \<open>A number: the rest after it, \<open>None\<close> when it is malformed.\<close>

definition scan_int :: "string \<Rightarrow> string option" where
  "scan_int s =
     (case s of
        [] \<Rightarrow> None
      | c # t \<Rightarrow> if c = CHR ''0'' then Some t
                 else if is_digit c then Some (dropWhile is_digit t) else None)"

definition scan_digits1 :: "string \<Rightarrow> string option" where
  "scan_digits1 s = (case s of [] \<Rightarrow> None | c # t \<Rightarrow> if is_digit c then Some (dropWhile is_digit t) else None)"

definition scan_frac :: "string \<Rightarrow> string option" where
  "scan_frac s = (case s of c # t \<Rightarrow> if c = CHR ''.'' then scan_digits1 t else Some s | [] \<Rightarrow> Some s)"

definition scan_exp :: "string \<Rightarrow> string option" where
  "scan_exp s =
     (case s of
        c # t \<Rightarrow>
          if c = CHR ''e'' \<or> c = CHR ''E'' then
            scan_digits1 (case t of d # u \<Rightarrow> if d = CHR ''+'' \<or> d = CHR ''-'' then u else t | [] \<Rightarrow> t)
          else Some s
      | [] \<Rightarrow> Some s)"

definition scan_number :: "string \<Rightarrow> string option" where
  "scan_number s =
     Option.bind (scan_int (case s of c # t \<Rightarrow> if c = CHR ''-'' then t else s | [] \<Rightarrow> s))
       (\<lambda>r. Option.bind (scan_frac r) scan_exp)"

section \<open>Values\<close>

text \<open>What the decoder distinguishes; the contents of arrays are checked but not kept.\<close>

datatype jval = VNull | VBool | VNum | VStr string | VArr | VObj "(string \<times> jval) list"

definition max_depth :: nat where "max_depth = 10000"

fun parse_value :: "nat \<Rightarrow> nat \<Rightarrow> string \<Rightarrow> (jval \<times> string) option"
  and parse_members :: "nat \<Rightarrow> nat \<Rightarrow> string \<Rightarrow> ((string \<times> jval) list \<times> string) option"
  and parse_elems :: "nat \<Rightarrow> nat \<Rightarrow> string \<Rightarrow> string option" where
  "parse_value 0 d s = None"
| "parse_value (Suc n) d s =
     (case skip_ws s of
        [] \<Rightarrow> None
      | c # t \<Rightarrow>
          if c = CHR ''{'' then
            (if max_depth < Suc d then None
             else (case skip_ws t of
                     [] \<Rightarrow> None
                   | e # u \<Rightarrow> if e = CHR ''}'' then Some (VObj [], u)
                              else map_option (\<lambda>(ms, r). (VObj ms, r)) (parse_members n (Suc d) t)))
          else if c = CHR ''['' then
            (if max_depth < Suc d then None
             else (case skip_ws t of
                     [] \<Rightarrow> None
                   | e # u \<Rightarrow> if e = CHR '']'' then Some (VArr, u)
                              else map_option (\<lambda>r. (VArr, r)) (parse_elems n (Suc d) t)))
          else if c = CHR 0x22 then map_option (\<lambda>(raw, r). (VStr (unquote raw), r)) (scan_string t)
          else if has_prefix (c # t) ''null'' then Some (VNull, drop 3 t)
          else if has_prefix (c # t) ''true'' then Some (VBool, drop 3 t)
          else if has_prefix (c # t) ''false'' then Some (VBool, drop 4 t)
          else map_option (\<lambda>r. (VNum, r)) (scan_number (c # t)))"
| "parse_members 0 d s = None"
| "parse_members (Suc n) d s =
     (case skip_ws s of
        [] \<Rightarrow> None
      | c # t \<Rightarrow>
          if c \<noteq> CHR 0x22 then None
          else (case scan_string t of
                  None \<Rightarrow> None
                | Some (raw, r) \<Rightarrow>
                    (case skip_ws r of
                       [] \<Rightarrow> None
                     | e # u \<Rightarrow>
                         if e \<noteq> CHR '':'' then None
                         else (case parse_value n d u of
                                 None \<Rightarrow> None
                               | Some (v, r2) \<Rightarrow>
                                   (case skip_ws r2 of
                                      [] \<Rightarrow> None
                                    | f # w \<Rightarrow>
                                        if f = CHR ''}'' then Some ([(unquote raw, v)], w)
                                        else if f = CHR '','' then
                                          map_option (\<lambda>(ms, r3). ((unquote raw, v) # ms, r3)) (parse_members n d w)
                                        else None)))))"
| "parse_elems 0 d s = None"
| "parse_elems (Suc n) d s =
     (case parse_value n d s of
        None \<Rightarrow> None
      | Some (v, r) \<Rightarrow>
          (case skip_ws r of
             [] \<Rightarrow> None
           | f # w \<Rightarrow>
               if f = CHR '']'' then Some w
               else if f = CHR '','' then parse_elems n d w else None))"

subsection \<open>Every call consumes input, so the fuel is enough\<close>

lemma skip_ws_length: "length (skip_ws s) \<le> length s"
  by (simp add: skip_ws_def length_dropWhile_le)

lemma skip_ws_Cons: "skip_ws s = c # t \<Longrightarrow> length t < length s"
  using skip_ws_length [of s] by simp

lemma scan_string_length: "scan_string s = Some (a, r) \<Longrightarrow> length r < length s"
  by (induction s arbitrary: a r rule: scan_string.induct)
    (auto split: if_splits list.splits, fastforce+)

lemma scan_digits1_length: "scan_digits1 s = Some r \<Longrightarrow> length r < length s"
  by (auto simp: scan_digits1_def length_dropWhile_le less_Suc_eq_le split: list.splits if_splits)

lemma scan_int_length: "scan_int s = Some r \<Longrightarrow> length r < length s"
  by (auto simp: scan_int_def length_dropWhile_le less_Suc_eq_le split: list.splits if_splits)

lemma scan_frac_length: "scan_frac s = Some r \<Longrightarrow> length r \<le> length s"
  by (auto simp: scan_frac_def split: list.splits if_splits dest: scan_digits1_length)

lemma scan_exp_length: "scan_exp s = Some r \<Longrightarrow> length r \<le> length s"
  by (auto simp: scan_exp_def split: list.splits if_splits dest!: scan_digits1_length)

lemma scan_number_length: "scan_number s = Some r \<Longrightarrow> length r < length s"
  unfolding scan_number_def
  by (auto simp: bind_eq_Some_conv split: list.splits if_splits
      dest!: scan_int_length scan_frac_length scan_exp_length)

lemma parse_consumes:
  shows "parse_value n d s = Some (v, r) \<Longrightarrow> length r < length s"
    and "parse_members n d s = Some (ms, r) \<Longrightarrow> length r < length s"
    and "parse_elems n d s = Some r \<Longrightarrow> length r < length s"
proof (induction n d s and n d s and n d s arbitrary: v r and ms r and r
    rule: parse_value_parse_members_parse_elems.induct)
  case (2 n d s)
  show ?case
  proof (cases "skip_ws s")
    case (Cons c t)
    note t = skip_ws_Cons [OF Cons]
    from 2 Cons show ?thesis using t
      by (auto split: if_splits list.splits
          dest!: skip_ws_Cons scan_string_length scan_number_length) fastforce+
  qed (use 2 in simp)
next
  case (4 n d s)
  from 4 show ?case
    by (auto split: if_splits list.splits option.splits
        dest!: skip_ws_Cons scan_string_length) fastforce+
next
  case (6 n d s)
  from 6 show ?case
    by (auto split: if_splits list.splits option.splits dest!: skip_ws_Cons) fastforce+
qed simp_all

lemma parse_value_step:
  "parse_value (Suc n) d s = parse_value (Suc m) d s"
  if "\<And>d t. length t < length s \<Longrightarrow> parse_members n d t = parse_members m d t"
    and "\<And>d t. length t < length s \<Longrightarrow> parse_elems n d t = parse_elems m d t"
proof (cases "skip_ws s")
  case (Cons c t)
  then show ?thesis using skip_ws_Cons [OF Cons] that
    by (simp split: list.split)
qed simp

lemma parse_members_step:
  "parse_members (Suc n) d s = parse_members (Suc m) d s"
  if v: "\<And>d t. length t < length s \<Longrightarrow> parse_value n d t = parse_value m d t"
    and ms: "\<And>d t. length t < length s \<Longrightarrow> parse_members n d t = parse_members m d t"
proof -
  have 1: "parse_value n d u = parse_value m d u"
    if "skip_ws s = c # t" "scan_string t = Some (a, r)" "skip_ws r = e # u" for c t a r e u
    using that by (intro v) (auto dest!: skip_ws_Cons scan_string_length)
  have 2: "parse_members n d w = parse_members m d w"
    if "skip_ws s = c # t" "scan_string t = Some (a, r)" "skip_ws r = e # u"
      "parse_value m d u = Some (x, r2)" "skip_ws r2 = f # w" for c t a r e u x r2 f w
    using that by (intro ms) (auto dest!: skip_ws_Cons scan_string_length parse_consumes(1))
  show ?thesis by (simp add: 1 2 split: list.split option.split)
qed

lemma parse_elems_step:
  "parse_elems (Suc n) d s = parse_elems (Suc m) d s"
  if v: "parse_value n d s = parse_value m d s"
    and es: "\<And>d t. length t < length s \<Longrightarrow> parse_elems n d t = parse_elems m d t"
proof -
  have "parse_elems n d w = parse_elems m d w"
    if "parse_value m d s = Some (x, r)" "skip_ws r = f # w" for x r f w
    using that by (intro es) (auto dest!: skip_ws_Cons parse_consumes(1))
  then show ?thesis by (simp add: v split: list.split option.split)
qed

lemma parse_fuel:
  "(2 * length s < n \<and> 2 * length s < m \<longrightarrow> parse_value n d s = parse_value m d s) \<and>
   (2 * length s < n \<and> 2 * length s < m \<longrightarrow> parse_members n d s = parse_members m d s) \<and>
   (2 * length s + 1 < n \<and> 2 * length s + 1 < m \<longrightarrow> parse_elems n d s = parse_elems m d s)"
proof (induction "2 * length s + n" arbitrary: n m d s rule: less_induct)
  case less
  show ?case
  proof (cases "n = 0 \<or> m = 0")
    case False
    then obtain n' m' where nm: "n = Suc n'" "m = Suc m'" by (cases n; cases m) auto
    have IH: "2 * length t < n' \<Longrightarrow> 2 * length t < m' \<Longrightarrow> parse_value n' d t = parse_value m' d t"
      "2 * length t < n' \<Longrightarrow> 2 * length t < m' \<Longrightarrow> parse_members n' d t = parse_members m' d t"
      "2 * length t + 1 < n' \<Longrightarrow> 2 * length t + 1 < m' \<Longrightarrow> parse_elems n' d t = parse_elems m' d t"
      if "length t \<le> length s" for d t
      using less.hyps [of t n' m' d] that nm by simp_all
    have "parse_value (Suc n') d s = parse_value (Suc m') d s"
      if "2 * length s < Suc n'" "2 * length s < Suc m'"
      using that by (intro parse_value_step; intro IH) auto
    moreover have "parse_members (Suc n') d s = parse_members (Suc m') d s"
      if "2 * length s < Suc n'" "2 * length s < Suc m'"
      using that by (intro parse_members_step; intro IH) auto
    moreover have "parse_elems (Suc n') d s = parse_elems (Suc m') d s"
      if "2 * length s + 1 < Suc n'" "2 * length s + 1 < Suc m'"
      using that by (intro parse_elems_step; intro IH) auto
    ultimately show ?thesis unfolding nm by blast
  qed auto
qed

lemma parse_value_fuel:
  "2 * length s < n \<Longrightarrow> parse_value n d s = parse_value (2 * length s + 2) d s"
  using parse_fuel [of s n "2 * length s + 2" d] by simp

definition json_parse :: "string \<Rightarrow> jval option" where
  "json_parse s =
     (case parse_value (2 * length s + 2) 0 s of
        Some (v, r) \<Rightarrow> if skip_ws r = [] then Some v else None
      | None \<Rightarrow> None)"

section \<open>Unmarshal into map[string]string\<close>

definition string_value :: "jval \<Rightarrow> string option" where
  "string_value v = (case v of VStr t \<Rightarrow> Some t | VNull \<Rightarrow> Some [] | _ \<Rightarrow> None)"

fun store_members :: "(string \<rightharpoonup> string) \<Rightarrow> (string \<times> jval) list \<Rightarrow> (string \<rightharpoonup> string) option" where
  "store_members m [] = Some m"
| "store_members m ((k, v) # ms) =
     (case string_value v of None \<Rightarrow> None | Some t \<Rightarrow> store_members (m(k \<mapsto> t)) ms)"

text \<open>
  \<open>None\<close>: an error; \<open>Some None\<close>: no error and a nil map; \<open>Some (Some m)\<close>: the map \<open>m\<close>.
\<close>

definition json_unmarshal_string_map :: "string \<Rightarrow> (string \<rightharpoonup> string) option option" where
  "json_unmarshal_string_map s =
     (case json_parse s of
        Some VNull \<Rightarrow> Some None
      | Some (VObj ms) \<Rightarrow> map_option Some (store_members Map.empty ms)
      | _ \<Rightarrow> None)"

end
