(* ===== verification/Otel.thy ===== *)
theory Otel
  imports GoJson KubeObjects
begin

text \<open>
  \<open>otel.go\<close>: the \<open>OTEL_EXPORTER_OTLP_*\<close> variables of a \<open>ToolGateway\<close> are taken out of
  its environment and turned into agentgateway's tracing configuration.
\<close>

section \<open>The variables\<close>

definition otelExporterOTLPEndpoint :: string where
  "otelExporterOTLPEndpoint = ''OTEL_EXPORTER_OTLP_ENDPOINT''"
definition otelExporterOTLPProtocol :: string where
  "otelExporterOTLPProtocol = ''OTEL_EXPORTER_OTLP_PROTOCOL''"
definition otelExporterOTLPHeaders :: string where
  "otelExporterOTLPHeaders = ''OTEL_EXPORTER_OTLP_HEADERS''"
definition otelExporterOTLPTracesEndpoint :: string where
  "otelExporterOTLPTracesEndpoint = ''OTEL_EXPORTER_OTLP_TRACES_ENDPOINT''"
definition otelExporterOTLPMetricsEndpoint :: string where
  "otelExporterOTLPMetricsEndpoint = ''OTEL_EXPORTER_OTLP_METRICS_ENDPOINT''"
definition otelExporterOTLPLogsEndpoint :: string where
  "otelExporterOTLPLogsEndpoint = ''OTEL_EXPORTER_OTLP_LOGS_ENDPOINT''"
definition otelExporterOTLPTracesProtocol :: string where
  "otelExporterOTLPTracesProtocol = ''OTEL_EXPORTER_OTLP_TRACES_PROTOCOL''"
definition otelExporterOTLPMetricsProtocol :: string where
  "otelExporterOTLPMetricsProtocol = ''OTEL_EXPORTER_OTLP_METRICS_PROTOCOL''"
definition otelExporterOTLPLogsProtocol :: string where
  "otelExporterOTLPLogsProtocol = ''OTEL_EXPORTER_OTLP_LOGS_PROTOCOL''"
definition otelExporterOTLPTracesHeaders :: string where
  "otelExporterOTLPTracesHeaders = ''OTEL_EXPORTER_OTLP_TRACES_HEADERS''"
definition otelExporterOTLPMetricsHeaders :: string where
  "otelExporterOTLPMetricsHeaders = ''OTEL_EXPORTER_OTLP_METRICS_HEADERS''"
definition otelExporterOTLPLogsHeaders :: string where
  "otelExporterOTLPLogsHeaders = ''OTEL_EXPORTER_OTLP_LOGS_HEADERS''"

definition otlpProtocolGRPC :: string where "otlpProtocolGRPC = ''grpc''"
definition otlpProtocolHTTP :: string where "otlpProtocolHTTP = ''http''"

lemmas otel_names =
  otelExporterOTLPEndpoint_def otelExporterOTLPProtocol_def otelExporterOTLPHeaders_def
  otelExporterOTLPTracesEndpoint_def otelExporterOTLPMetricsEndpoint_def otelExporterOTLPLogsEndpoint_def
  otelExporterOTLPTracesProtocol_def otelExporterOTLPMetricsProtocol_def otelExporterOTLPLogsProtocol_def
  otelExporterOTLPTracesHeaders_def otelExporterOTLPMetricsHeaders_def otelExporterOTLPLogsHeaders_def

record otel_config =
  oc_endpoint :: string
  oc_protocol :: string
  oc_headers :: string
  oc_tracesEndpoint :: string
  oc_tracesProtocol :: string
  oc_tracesHeaders :: string
  oc_metricsEndpoint :: string
  oc_metricsProtocol :: string
  oc_metricsHeaders :: string
  oc_logsEndpoint :: string
  oc_logsProtocol :: string
  oc_logsHeaders :: string

definition no_otel :: otel_config where
  "no_otel =
     \<lparr>oc_endpoint = [], oc_protocol = [], oc_headers = [], oc_tracesEndpoint = [], oc_tracesProtocol = [],
      oc_tracesHeaders = [], oc_metricsEndpoint = [], oc_metricsProtocol = [], oc_metricsHeaders = [],
      oc_logsEndpoint = [], oc_logsProtocol = [], oc_logsHeaders = []\<rparr>"

text \<open>One turn of the loop: the config and the environment kept so far.\<close>

definition extract_step :: "env_var \<Rightarrow> otel_config \<times> env_var list \<Rightarrow> otel_config \<times> env_var list" where
  "extract_step env st =
     (let c = fst st; n = ev_Name env; v = ev_Value env in
      if n = otelExporterOTLPEndpoint then (c\<lparr>oc_endpoint := v\<rparr>, snd st)
      else if n = otelExporterOTLPProtocol then (c\<lparr>oc_protocol := v\<rparr>, snd st)
      else if n = otelExporterOTLPHeaders then (c\<lparr>oc_headers := v\<rparr>, snd st)
      else if n = otelExporterOTLPTracesEndpoint then (c\<lparr>oc_tracesEndpoint := v\<rparr>, snd st)
      else if n = otelExporterOTLPMetricsEndpoint then (c\<lparr>oc_metricsEndpoint := v\<rparr>, snd st)
      else if n = otelExporterOTLPLogsEndpoint then (c\<lparr>oc_logsEndpoint := v\<rparr>, snd st)
      else if n = otelExporterOTLPTracesProtocol then (c\<lparr>oc_tracesProtocol := v\<rparr>, snd st)
      else if n = otelExporterOTLPMetricsProtocol then (c\<lparr>oc_metricsProtocol := v\<rparr>, snd st)
      else if n = otelExporterOTLPLogsProtocol then (c\<lparr>oc_logsProtocol := v\<rparr>, snd st)
      else if n = otelExporterOTLPTracesHeaders then (c\<lparr>oc_tracesHeaders := v\<rparr>, snd st)
      else if n = otelExporterOTLPMetricsHeaders then (c\<lparr>oc_metricsHeaders := v\<rparr>, snd st)
      else if n = otelExporterOTLPLogsHeaders then (c\<lparr>oc_logsHeaders := v\<rparr>, snd st)
      else (c, snd st @ [env]))"

definition extractOTELEnvVars :: "env_var list \<Rightarrow> otel_config \<times> env_var list" where
  "extractOTELEnvVars envs = fold extract_step envs (no_otel, [])"

section \<open>Headers\<close>

definition add_pair :: "string \<Rightarrow> (string \<rightharpoonup> string) \<Rightarrow> (string \<rightharpoonup> string)" where
  "add_pair pair m =
     (case strings_splitN2 CHR ''='' (trim_space pair) of
        [k, v] \<Rightarrow> m(trim_space k \<mapsto> trim_space v)
      | _ \<Rightarrow> m)"

text \<open>A nil map (from the JSON text \<open>null\<close>) is \<open>None\<close>.\<close>

definition parseHeaders :: "string \<Rightarrow> (string \<rightharpoonup> string) option" where
  "parseHeaders headers =
     (case json_unmarshal_string_map headers of
        Some m \<Rightarrow> m
      | None \<Rightarrow> Some (fold add_pair (strings_split CHR '','' headers) Map.empty))"

section \<open>The tracing configuration\<close>

record agentgateway_tracing =
  at_OtlpEndpoint :: string
  at_OtlpProtocol :: string
  at_Headers :: "(string \<rightharpoonup> string) option"
  at_Path :: string
  at_RandomSampling :: "json option"
  at_ClientSampling :: "json option"

record agentgateway_config = ac_Tracing :: "agentgateway_tracing option"
record agentgateway_raw_config = arc_Config :: "agentgateway_config option"

text \<open>
  The JSON tree of the structs by their tags.  The code prints it with \<open>json.Marshal\<close> and
  reads it back with \<open>json.Unmarshal\<close>, which returns the same tree: its strings come from an
  API object, so they are valid UTF-8.
\<close>

definition omit_empty :: "string \<Rightarrow> json option" where
  "omit_empty s = (if s = [] then None else Some (JStr s))"

definition headers_json :: "(string \<rightharpoonup> string) option \<Rightarrow> json option" where
  "headers_json h =
     (case h of
        None \<Rightarrow> None
      | Some m \<Rightarrow> if m = Map.empty then None else Some (JMap (\<lambda>k. map_option JStr (m k))))"

definition tracing_json :: "agentgateway_tracing \<Rightarrow> jobject" where
  "tracing_json t = Map.empty(
     ''otlpEndpoint'' \<mapsto> JStr (at_OtlpEndpoint t),
     ''otlpProtocol'' := omit_empty (at_OtlpProtocol t),
     ''headers'' := headers_json (at_Headers t),
     ''path'' := omit_empty (at_Path t),
     ''randomSampling'' := at_RandomSampling t,
     ''clientSampling'' := at_ClientSampling t)"

definition config_json :: "agentgateway_config \<Rightarrow> jobject" where
  "config_json c = Map.empty(''tracing'' := map_option (\<lambda>t. JMap (tracing_json t)) (ac_Tracing c))"

definition raw_config_json :: "agentgateway_raw_config \<Rightarrow> jobject" where
  "raw_config_json r = Map.empty(''config'' := map_option (\<lambda>c. JMap (config_json c)) (arc_Config r))"

definition has_config :: "otel_config \<Rightarrow> bool" where
  "has_config c =
     (oc_endpoint c \<noteq> [] \<or> oc_protocol c \<noteq> [] \<or> oc_headers c \<noteq> []
      \<or> oc_tracesEndpoint c \<noteq> [] \<or> oc_tracesProtocol c \<noteq> [] \<or> oc_tracesHeaders c \<noteq> []
      \<or> oc_metricsEndpoint c \<noteq> [] \<or> oc_metricsProtocol c \<noteq> [] \<or> oc_metricsHeaders c \<noteq> []
      \<or> oc_logsEndpoint c \<noteq> [] \<or> oc_logsProtocol c \<noteq> [] \<or> oc_logsHeaders c \<noteq> [])"

text \<open>The signal-specific value overrides the general one.\<close>

definition first_set :: "string \<Rightarrow> string \<Rightarrow> string" where
  "first_set s g = (if s = [] then g else s)"

definition normalize_protocol :: "string \<Rightarrow> string" where
  "normalize_protocol p =
     (if has_prefix p otlpProtocolGRPC then otlpProtocolGRPC
      else if has_prefix p otlpProtocolHTTP then otlpProtocolHTTP else p)"

definition buildTelemetryConfig :: "otel_config \<Rightarrow> jobject option" where
  "buildTelemetryConfig c =
     (if \<not> has_config c then None
      else
        (let endpoint = first_set (oc_tracesEndpoint c) (oc_endpoint c) in
         if endpoint = [] then None
         else
           (let protocol = first_set (oc_tracesProtocol c) (oc_protocol c);
                headers = first_set (oc_tracesHeaders c) (oc_headers c);
                tracing = \<lparr>at_OtlpEndpoint = endpoint,
                           at_OtlpProtocol = (if protocol = [] then [] else normalize_protocol protocol),
                           at_Headers = (if headers = [] then None else parseHeaders headers),
                           at_Path = [], at_RandomSampling = None, at_ClientSampling = None\<rparr>
            in Some (raw_config_json \<lparr>arc_Config = Some \<lparr>ac_Tracing = Some tracing\<rparr>\<rparr>))))"

section \<open>Extraction\<close>

definition otel_variables :: "string list" where
  "otel_variables =
     [otelExporterOTLPEndpoint, otelExporterOTLPProtocol, otelExporterOTLPHeaders,
      otelExporterOTLPTracesEndpoint, otelExporterOTLPMetricsEndpoint, otelExporterOTLPLogsEndpoint,
      otelExporterOTLPTracesProtocol, otelExporterOTLPMetricsProtocol, otelExporterOTLPLogsProtocol,
      otelExporterOTLPTracesHeaders, otelExporterOTLPMetricsHeaders, otelExporterOTLPLogsHeaders]"

text \<open>The value of the last variable of a name, empty when there is none.\<close>

definition last_value :: "env_var list \<Rightarrow> string \<Rightarrow> string" where
  "last_value envs n = (case find (\<lambda>e. ev_Name e = n) (rev envs) of None \<Rightarrow> [] | Some e \<Rightarrow> ev_Value e)"

definition otel_of :: "env_var list \<Rightarrow> otel_config" where
  "otel_of envs =
     \<lparr>oc_endpoint = last_value envs otelExporterOTLPEndpoint,
      oc_protocol = last_value envs otelExporterOTLPProtocol,
      oc_headers = last_value envs otelExporterOTLPHeaders,
      oc_tracesEndpoint = last_value envs otelExporterOTLPTracesEndpoint,
      oc_tracesProtocol = last_value envs otelExporterOTLPTracesProtocol,
      oc_tracesHeaders = last_value envs otelExporterOTLPTracesHeaders,
      oc_metricsEndpoint = last_value envs otelExporterOTLPMetricsEndpoint,
      oc_metricsProtocol = last_value envs otelExporterOTLPMetricsProtocol,
      oc_metricsHeaders = last_value envs otelExporterOTLPMetricsHeaders,
      oc_logsEndpoint = last_value envs otelExporterOTLPLogsEndpoint,
      oc_logsProtocol = last_value envs otelExporterOTLPLogsProtocol,
      oc_logsHeaders = last_value envs otelExporterOTLPLogsHeaders\<rparr>"

lemma last_value_snoc:
  "last_value (envs @ [e]) n = (if ev_Name e = n then ev_Value e else last_value envs n)"
  by (simp add: last_value_def)

lemma otel_distinct: "distinct otel_variables"
  by (simp add: otel_variables_def otel_names)

lemma otel_distinct_rev:
  "distinct
     [otelExporterOTLPLogsHeaders, otelExporterOTLPMetricsHeaders, otelExporterOTLPTracesHeaders,
      otelExporterOTLPLogsProtocol, otelExporterOTLPMetricsProtocol, otelExporterOTLPTracesProtocol,
      otelExporterOTLPLogsEndpoint, otelExporterOTLPMetricsEndpoint, otelExporterOTLPTracesEndpoint,
      otelExporterOTLPHeaders, otelExporterOTLPProtocol, otelExporterOTLPEndpoint]"
  by (simp add: otel_names)

lemmas otel_neq = otel_distinct [unfolded otel_variables_def, simplified] otel_distinct_rev [simplified]

lemma otel_of_snoc:
  "(otel_of (envs @ [e]), filter (\<lambda>x. ev_Name x \<notin> set otel_variables) (envs @ [e])) =
   extract_step e (otel_of envs, filter (\<lambda>x. ev_Name x \<notin> set otel_variables) envs)"
proof (cases "ev_Name e \<in> set otel_variables")
  case True
  then consider "ev_Name e = otelExporterOTLPEndpoint" | "ev_Name e = otelExporterOTLPProtocol"
    | "ev_Name e = otelExporterOTLPHeaders" | "ev_Name e = otelExporterOTLPTracesEndpoint"
    | "ev_Name e = otelExporterOTLPMetricsEndpoint" | "ev_Name e = otelExporterOTLPLogsEndpoint"
    | "ev_Name e = otelExporterOTLPTracesProtocol" | "ev_Name e = otelExporterOTLPMetricsProtocol"
    | "ev_Name e = otelExporterOTLPLogsProtocol" | "ev_Name e = otelExporterOTLPTracesHeaders"
    | "ev_Name e = otelExporterOTLPMetricsHeaders" | "ev_Name e = otelExporterOTLPLogsHeaders"
    unfolding otel_variables_def by auto
  then show ?thesis
    using True
    by cases (simp_all add: extract_step_def Let_def otel_of_def last_value_snoc otel_variables_def otel_neq)
next
  case False
  then show ?thesis
    by (simp add: extract_step_def Let_def otel_of_def last_value_snoc otel_variables_def)
qed

text \<open>
  The variables split exactly: the recognised names go to the config, the last one of a name
  winning, and every other variable is kept, in order.
\<close>

lemma extract_eq:
  "extractOTELEnvVars envs = (otel_of envs, filter (\<lambda>e. ev_Name e \<notin> set otel_variables) envs)"
proof (induction envs rule: rev_induct)
  case Nil
  show ?case by (simp add: extractOTELEnvVars_def no_otel_def otel_of_def last_value_def)
next
  case (snoc e envs)
  then show ?case unfolding extractOTELEnvVars_def by (simp add: otel_of_snoc [symmetric] del: filter_append)
qed

section \<open>What is configured\<close>

lemma build_none:
  "buildTelemetryConfig c = None \<longleftrightarrow> oc_tracesEndpoint c = [] \<and> oc_endpoint c = []"
  by (auto simp: buildTelemetryConfig_def Let_def first_set_def has_config_def)

text \<open>The value of a field of the tracing section.\<close>

definition tracing_field :: "otel_config \<Rightarrow> string \<Rightarrow> json option" where
  "tracing_field c f =
     (case buildTelemetryConfig c of None \<Rightarrow> None | Some m \<Rightarrow> json_get m [''config'', ''tracing'', f])"

definition tracing_of :: "otel_config \<Rightarrow> agentgateway_tracing" where
  "tracing_of c =
     \<lparr>at_OtlpEndpoint = first_set (oc_tracesEndpoint c) (oc_endpoint c),
      at_OtlpProtocol = normalize_protocol (first_set (oc_tracesProtocol c) (oc_protocol c)),
      at_Headers = (if first_set (oc_tracesHeaders c) (oc_headers c) = [] then None
                    else parseHeaders (first_set (oc_tracesHeaders c) (oc_headers c))),
      at_Path = [], at_RandomSampling = None, at_ClientSampling = None\<rparr>"

lemma normalize_empty [simp]: "normalize_protocol [] = []"
  by (simp add: normalize_protocol_def has_prefix_def otlpProtocolGRPC_def otlpProtocolHTTP_def)

lemma build_some:
  "oc_tracesEndpoint c \<noteq> [] \<or> oc_endpoint c \<noteq> [] \<Longrightarrow>
   buildTelemetryConfig c = Some (raw_config_json \<lparr>arc_Config = Some \<lparr>ac_Tracing = Some (tracing_of c)\<rparr>\<rparr>)"
  by (auto simp: buildTelemetryConfig_def Let_def first_set_def has_config_def tracing_of_def)

lemma get_tracing:
  "json_get (raw_config_json \<lparr>arc_Config = Some \<lparr>ac_Tracing = Some t\<rparr>\<rparr>) [''config'', ''tracing'', f] = tracing_json t f"
  by (simp add: raw_config_json_def config_json_def split: option.split)

lemma tracing_field_eq:
  "oc_tracesEndpoint c \<noteq> [] \<or> oc_endpoint c \<noteq> [] \<Longrightarrow> tracing_field c f = tracing_json (tracing_of c) f"
  unfolding tracing_field_def build_some get_tracing by (simp add: build_some get_tracing del: json_get.simps)

section \<open>Header lists\<close>

text \<open>Printable ASCII without the separators (a value may contain an equals sign).\<close>

definition header_char :: "char \<Rightarrow> bool" where
  "header_char c = (33 \<le> (of_char c :: nat) \<and> (of_char c :: nat) \<le> 126 \<and> c \<noteq> CHR '','')"

definition header_key :: "string \<Rightarrow> bool" where
  "header_key k = (list_all header_char k \<and> CHR ''='' \<notin> set k)"

definition header_value :: "string \<Rightarrow> bool" where
  "header_value v = list_all header_char v"

definition show_pair :: "string \<times> string \<Rightarrow> string" where
  "show_pair p = fst p @ CHR ''='' # snd p"

definition show_headers :: "(string \<times> string) list \<Rightarrow> string" where
  "show_headers ps = strings_join '','' (map show_pair ps)"

lemma trim_header: "list_all header_char s \<Longrightarrow> trim_space s = s"
proof (cases "s = []")
  case False
  assume h: "list_all header_char s"
  then have c: "33 \<le> (of_char c :: nat) \<and> (of_char c :: nat) \<le> 126" if "c \<in> set s" for c
    using that unfolding list_all_iff header_char_def by blast
  then have "is_ascii s" unfolding is_ascii_def list_all_iff by fastforce
  then have r: "go_runes s = map of_char s" by (rule go_runes_ascii)
  have "\<not> is_space (of_char c)" if "c \<in> set s" for c
    using c [OF that] by (simp add: is_space_def)
  then show ?thesis using False r by (intro trim_space_id) (simp_all add: hd_map last_map)
qed simp

lemma header_char_eq [simp]: "header_char CHR ''=''" "header_char CHR '':''" "\<not> header_char CHR '',''"
  by (simp_all add: header_char_def)

lemma add_show_pair:
  "header_key k \<Longrightarrow> header_value v \<Longrightarrow> add_pair (show_pair (k, v)) m = m(k \<mapsto> v)"
  by (simp add: add_pair_def show_pair_def trim_header header_key_def header_value_def strings_splitN2_found)

lemma comma_free: "list_all header_char s \<Longrightarrow> CHR '','' \<notin> set s"
  by (auto simp: list_all_iff header_char_def)

lemma fold_pairs:
  "\<forall>(k, v) \<in> set ps. header_key k \<and> header_value v \<Longrightarrow>
   fold add_pair (map show_pair ps) m = m ++ map_of (rev ps)"
proof (induction ps arbitrary: m)
  case (Cons p ps)
  obtain k v where p: "p = (k, v)" by fastforce
  have "add_pair (show_pair p) m = m(k \<mapsto> v)"
    using Cons.prems p by (simp add: add_show_pair)
  then show ?case using Cons by (simp add: p map_add_def fun_eq_iff split: option.split)
qed simp

text \<open>Text that contains an equals sign and does not open an object is no JSON for a map.\<close>

lemma json_null_rest: "parse_value (Suc n) d s = Some (VNull, r) \<Longrightarrow> \<exists>w. s = w @ ''null'' @ r \<and> list_all json_space w"
proof -
  assume a: "parse_value (Suc n) d s = Some (VNull, r)"
  then obtain c t where ct: "skip_ws s = c # t" by (cases "skip_ws s") auto
  have "has_prefix (c # t) ''null'' \<and> r = drop 3 t"
    using a ct by (auto split: if_splits list.splits)
  then have "c # t = ''null'' @ r" unfolding has_prefix_def by (metis append_take_drop_id drop_Suc_Cons length_Cons list.size(3) numeral_3_eq_3)
  moreover have "s = takeWhile json_space s @ skip_ws s" by (simp add: skip_ws_def)
  moreover have "list_all json_space (takeWhile json_space s)"
    by (auto simp: list_all_iff dest: set_takeWhileD)
  ultimately show ?thesis using ct by metis
qed

lemma json_object_brace: "parse_value (Suc n) d s = Some (VObj ms, r) \<Longrightarrow> \<exists>t. skip_ws s = CHR ''{'' # t"
  by (cases "skip_ws s") (auto split: if_splits list.splits)

lemma unmarshal_pairs:
  assumes eq: "CHR ''='' \<in> set s" and nb: "\<And>t. skip_ws s \<noteq> CHR ''{'' # t"
  shows "json_unmarshal_string_map s = None"
proof -
  have "json_parse s \<noteq> Some VNull"
  proof
    assume "json_parse s = Some VNull"
    then obtain r where r: "parse_value (Suc (2 * length s + 1)) 0 s = Some (VNull, r)" "skip_ws r = []"
      by (auto simp: json_parse_def simp del: parse_value.simps split: option.splits if_splits)
    from json_null_rest [OF r(1)] obtain w where w: "s = w @ ''null'' @ r" "list_all json_space w" by blast
    from r(2) have "list_all json_space r" by (simp add: skip_ws_def list_all_iff)
    with w eq show False by (auto simp: list_all_iff json_space_def)
  qed
  moreover have "json_parse s \<noteq> Some (VObj ms)" for ms
    using json_object_brace [of "2 * length s + 1" 0 s ms] nb
    by (auto simp: json_parse_def simp del: parse_value.simps split: option.splits if_splits)
  ultimately show ?thesis
    by (auto simp: json_unmarshal_string_map_def split: option.split jval.split)
qed

lemma parse_show_headers:
  assumes "ps \<noteq> []" and ok: "\<forall>(k, v) \<in> set ps. header_key k \<and> header_value v"
    and nb: "\<not> has_prefix (fst (hd ps)) ''{''"
  shows "parseHeaders (show_headers ps) = Some (map_of (rev ps))"
proof -
  obtain k v qs where ps: "ps = (k, v) # qs" using assms(1) by (cases ps) auto
  have split: "strings_split CHR '','' (show_headers ps) = map show_pair ps"
    unfolding show_headers_def
    by (rule strings_split_join)
      (use assms(1) ok comma_free in \<open>auto simp: show_pair_def header_key_def header_value_def\<close>)
  have "\<exists>t. show_headers ps = show_pair (k, v) @ t"
    by (cases qs) (simp_all add: show_headers_def ps)
  then obtain t where t: "show_headers ps = k @ CHR ''='' # v @ t" by (auto simp: show_pair_def)
  have k: "list_all header_char k" using ok ps by (simp add: header_key_def)
  have "skip_ws (show_headers ps) = show_headers ps"
    unfolding t using k by (cases k) (auto simp: skip_ws_def json_space_def header_char_def)
  moreover have "show_headers ps \<noteq> CHR ''{'' # u" for u
    unfolding t using nb by (cases k) (auto simp: ps has_prefix_def)
  ultimately have "json_unmarshal_string_map (show_headers ps) = None"
    by (intro unmarshal_pairs) (auto simp: t)
  then show ?thesis
    using fold_pairs [OF ok, of Map.empty] by (simp add: parseHeaders_def split)
qed

end
