(* ===== verification/Resources.thy ===== *)
theory Resources
  imports Otel KubeMemory
begin

text \<open>
  \<open>resources.go\<close>: the agentgateway resources as unstructured JSON, the \<open>HTTPRoute\<close> spec,
  and the spec of \<open>AgentgatewayParameters\<close>.  The setters of \<open>unstructured\<close> and the converter
  of \<open>EnvVar\<close> and \<open>EnvFromSource\<close> are parameters (\<open>klib\<close>).
\<close>

section \<open>Builders\<close>

definition agentgateway_api :: string where "agentgateway_api = ''agentgateway.dev/v1alpha1''"

definition fieldName :: string where "fieldName = ''name''"

definition newAgentgatewayBackend :: "string \<Rightarrow> string \<Rightarrow> unstructured" where
  "newAgentgatewayBackend name ns =
     \<lparr>us_ApiVersion = agentgateway_api, us_Kind = ''AgentgatewayBackend'', us_Meta = new_meta name ns,
      us_Object = Map.empty\<rparr>"

definition newAgentgatewayParameters :: "string \<Rightarrow> string \<Rightarrow> unstructured" where
  "newAgentgatewayParameters name ns =
     \<lparr>us_ApiVersion = agentgateway_api, us_Kind = ''AgentgatewayParameters'', us_Meta = new_meta name ns,
      us_Object = Map.empty\<rparr>"

definition newAgentgatewayPolicy :: "string \<Rightarrow> string \<Rightarrow> unstructured" where
  "newAgentgatewayPolicy name ns =
     \<lparr>us_ApiVersion = agentgateway_api, us_Kind = ''AgentgatewayPolicy'', us_Meta = new_meta name ns,
      us_Object = Map.empty\<rparr>"

definition KBackend :: kind where "KBackend = KUnstructured agentgateway_api ''AgentgatewayBackend''"
definition KParameters :: kind where "KParameters = KUnstructured agentgateway_api ''AgentgatewayParameters''"
definition KPolicy :: kind where "KPolicy = KUnstructured agentgateway_api ''AgentgatewayPolicy''"

text \<open>A Go map literal as a JSON object.\<close>

definition jmap :: "(string \<times> json) list \<Rightarrow> json" where
  "jmap kvs = JMap (map_of kvs)"

definition buildMCPTarget :: "string \<Rightarrow> string \<Rightarrow> 32 word \<Rightarrow> string \<Rightarrow> json" where
  "buildMCPTarget name host port path =
     jmap [(fieldName, JStr name),
           (''static'', jmap [(''host'', JStr host), (''port'', JInt (sint port)), (''path'', JStr path),
                              (''protocol'', JStr ''StreamableHTTP'')])]"

text \<open>The setters on the object's JSON.\<close>

definition set_object :: "klib \<Rightarrow> unstructured \<Rightarrow> string list \<Rightarrow> json \<Rightarrow> goerror + unstructured" where
  "set_object lib u p v = map_sum id (\<lambda>ob. u\<lparr>us_Object := ob\<rparr>) (l_set_nested lib (us_Object u) p v)"

definition setMCPTargets :: "klib \<Rightarrow> unstructured \<Rightarrow> json list \<Rightarrow> goerror + unstructured" where
  "setMCPTargets lib backend targets =
     set_object lib backend [''spec'', ''mcp'']
       (jmap [(''targets'', JList targets), (''failureMode'', JStr ''FailOpen'')])"

definition buildHTTPRouteSpec ::
  "string \<Rightarrow> string \<Rightarrow> string \<Rightarrow> string \<Rightarrow> string \<Rightarrow> http_route_spec" where
  "buildHTTPRouteSpec gatewayName gatewayNamespace backendName backendNamespace path =
     \<lparr>hs_ParentRefs = [\<lparr>pa_Name = gatewayName, pa_Namespace = Some gatewayNamespace\<rparr>],
      hs_Rules =
        [\<lparr>hl_BackendRefs =
            [\<lparr>br_Group = Some ''agentgateway.dev'', br_Kind = Some ''AgentgatewayBackend'',
              br_Name = backendName, br_Namespace = Some backendNamespace\<rparr>],
          hl_Matches = [\<lparr>pm_Type = ''PathPrefix'', pm_Value = path\<rparr>]\<rparr>]\<rparr>"

definition toolServerHost :: "string \<Rightarrow> string \<Rightarrow> string" where
  "toolServerHost name ns = name @ ''.'' @ ns @ ''.svc.cluster.local''"

section \<open>AgentgatewayParameters\<close>

text \<open>The loop stops at the first item that does not convert.\<close>

fun toUnstructuredSlice :: "('a \<Rightarrow> goerror + json) \<Rightarrow> 'a list \<Rightarrow> goerror + json list" where
  "toUnstructuredSlice conv [] = Inr []"
| "toUnstructuredSlice conv (x # xs) =
     (case conv x of
        Inl e \<Rightarrow> Inl e
      | Inr j \<Rightarrow> (case toUnstructuredSlice conv xs of Inl e \<Rightarrow> Inl e | Inr js \<Rightarrow> Inr (j # js)))"

definition deployment_spec_json :: "json list \<Rightarrow> json" where
  "deployment_spec_json envFromSources =
     jmap [(''template'', jmap [(''spec'', jmap [(''containers'',
       JList [jmap [(fieldName, JStr ''agentgateway''), (''envFrom'', JList envFromSources)]])])])]"

definition set_wrapped :: "klib \<Rightarrow> string \<Rightarrow> unstructured \<Rightarrow> string list \<Rightarrow> json \<Rightarrow> goerror + unstructured" where
  "set_wrapped lib pre u p v = map_sum (\<lambda>e. Wrapf pre e []) id (set_object lib u p v)"

text \<open>\<open>spec.rawConfig\<close>, set from the telemetry config or removed when there is none.\<close>

definition set_raw_config :: "klib \<Rightarrow> unstructured \<Rightarrow> jobject option \<Rightarrow> goerror + unstructured" where
  "set_raw_config lib params telemetryConfig =
     (case telemetryConfig of
        Some c \<Rightarrow> set_wrapped lib ''failed to set spec.rawConfig: '' params [''spec'', ''rawConfig''] (JMap c)
      | None \<Rightarrow> Inr (params\<lparr>us_Object := l_remove_nested lib (us_Object params) [''spec'', ''rawConfig'']\<rparr>))"

definition setAgentgatewayParametersSpec :: "klib \<Rightarrow> unstructured \<Rightarrow> tool_gateway \<Rightarrow> goerror + unstructured" where
  "setAgentgatewayParametersSpec lib params tg =
     (let (otelConfig, filteredEnv) = extractOTELEnvVars (tg_Env tg)
      in case set_raw_config lib params (buildTelemetryConfig otelConfig) of
           Inl e \<Rightarrow> Inl e
         | Inr p1 \<Rightarrow>
             (case toUnstructuredSlice (l_env_json lib) filteredEnv of
                Inl e \<Rightarrow> Inl (Wrapf ''failed to convert spec.env: '' e [])
              | Inr envVars \<Rightarrow>
                  (case set_wrapped lib ''failed to set spec.env: '' p1 [''spec'', ''env''] (JList envVars) of
                     Inl e \<Rightarrow> Inl e
                   | Inr p2 \<Rightarrow>
                       (case toUnstructuredSlice (l_env_from_json lib) (tg_EnvFrom tg) of
                          Inl e \<Rightarrow> Inl (Wrapf ''failed to convert spec.envFrom: '' e [])
                        | Inr envFromSources \<Rightarrow>
                            (case set_wrapped lib ''failed to set spec.deployment.spec: '' p2
                                    [''spec'', ''deployment'', ''spec''] (deployment_spec_json envFromSources) of
                               Inl e \<Rightarrow> Inl e
                             | Inr p3 \<Rightarrow>
                                 set_wrapped lib ''failed to set spec.service.spec: '' p3
                                   [''spec'', ''service'', ''spec''] (jmap [(''type'', JStr ''ClusterIP'')]))))))"

section \<open>What the setters write\<close>

lemma set_object_ok: "set_object lib u p v = Inr u' \<Longrightarrow> \<exists>ob. l_set_nested lib (us_Object u) p v = Inr ob \<and> u' = u\<lparr>us_Object := ob\<rparr>"
  by (auto simp: set_object_def map_sum_Inr)

lemma set_wrapped_ok: "set_wrapped lib pre u p v = Inr u' \<longleftrightarrow> set_object lib u p v = Inr u'"
  by (cases "set_object lib u p v") (auto simp: set_wrapped_def)

lemma kind_of_new [simp]:
  "kind_of (OUnstructured (newAgentgatewayBackend n ns)) = KBackend"
  "kind_of (OUnstructured (newAgentgatewayParameters n ns)) = KParameters"
  "kind_of (OUnstructured (newAgentgatewayPolicy n ns)) = KPolicy"
  by (simp_all add: newAgentgatewayBackend_def newAgentgatewayParameters_def newAgentgatewayPolicy_def
      KBackend_def KParameters_def KPolicy_def)

lemma key_of_new [simp]:
  "key_of (OUnstructured (newAgentgatewayBackend n ns)) = (KBackend, (ns, n))"
  "key_of (OUnstructured (newAgentgatewayParameters n ns)) = (KParameters, (ns, n))"
  "key_of (OUnstructured (newAgentgatewayPolicy n ns)) = (KPolicy, (ns, n))"
  unfolding key_of_def kind_of_new
  by (simp_all add: newAgentgatewayBackend_def newAgentgatewayParameters_def newAgentgatewayPolicy_def)

lemma kinds_distinct [simp]:
  "KBackend \<noteq> KParameters" "KBackend \<noteq> KPolicy" "KParameters \<noteq> KBackend" "KParameters \<noteq> KPolicy"
  "KPolicy \<noteq> KBackend" "KPolicy \<noteq> KParameters"
  by (simp_all add: KBackend_def KParameters_def KPolicy_def)

lemma kinds_unstructured [simp]:
  "KBackend \<noteq> KGateway" "KBackend \<noteq> KHTTPRoute" "KBackend \<noteq> KToolGateway" "KBackend \<noteq> KToolRoute"
  "KParameters \<noteq> KGateway" "KParameters \<noteq> KHTTPRoute" "KParameters \<noteq> KToolGateway" "KParameters \<noteq> KToolRoute"
  "KPolicy \<noteq> KGateway" "KPolicy \<noteq> KHTTPRoute" "KPolicy \<noteq> KToolGateway" "KPolicy \<noteq> KToolRoute"
  "KGateway \<noteq> KBackend" "KHTTPRoute \<noteq> KBackend" "KToolGateway \<noteq> KBackend" "KToolRoute \<noteq> KBackend"
  "KGateway \<noteq> KParameters" "KHTTPRoute \<noteq> KParameters" "KToolGateway \<noteq> KParameters" "KToolRoute \<noteq> KParameters"
  "KGateway \<noteq> KPolicy" "KHTTPRoute \<noteq> KPolicy" "KToolGateway \<noteq> KPolicy" "KToolRoute \<noteq> KPolicy"
  by (simp_all add: KBackend_def KParameters_def KPolicy_def)

text \<open>The spec that a gateway's parameters end up with.\<close>

definition parameters_match :: "klib \<Rightarrow> tool_gateway \<Rightarrow> jobject \<Rightarrow> bool" where
  "parameters_match lib tg ob =
     (\<exists>envs froms.
        toUnstructuredSlice (l_env_json lib) (filter (\<lambda>e. ev_Name e \<notin> set otel_variables) (tg_Env tg)) = Inr envs
        \<and> toUnstructuredSlice (l_env_from_json lib) (tg_EnvFrom tg) = Inr froms
        \<and> json_get ob [''spec'', ''rawConfig''] = map_option JMap (buildTelemetryConfig (otel_of (tg_Env tg)))
        \<and> json_get ob [''spec'', ''env''] = Some (JList envs)
        \<and> json_get ob [''spec'', ''deployment'', ''spec''] = Some (deployment_spec_json froms)
        \<and> json_get ob [''spec'', ''service'', ''spec''] = Some (jmap [(''type'', JStr ''ClusterIP'')]))"

context nested_lib
begin

lemma set_object_get: "set_object lib u p v = Inr u' \<Longrightarrow> p \<noteq> [] \<Longrightarrow> json_get (us_Object u') p = Some v"
  by (auto dest!: set_object_ok intro: get_set)

lemma set_object_other:
  "set_object lib u p v = Inr u' \<Longrightarrow> p \<noteq> [] \<Longrightarrow> q \<noteq> [] \<Longrightarrow> take (length q) p \<noteq> q \<Longrightarrow> take (length p) q \<noteq> p \<Longrightarrow>
   json_get (us_Object u') q = json_get (us_Object u) q"
  by (drule set_object_ok) (auto simp del: json_get.simps intro: get_set_other)

lemma set_object_frame:
  "set_object lib u p v = Inr u' \<Longrightarrow> us_Meta u' = us_Meta u \<and> us_Kind u' = us_Kind u \<and> us_ApiVersion u' = us_ApiVersion u"
  by (auto dest: set_object_ok)

lemma set_object_same: "json_get (us_Object u) p = Some v \<Longrightarrow> p \<noteq> [] \<Longrightarrow> set_object lib u p v = Inr u"
  using set_same_value by (simp add: set_object_def)

lemma set_raw_config_ok:
  assumes "set_raw_config lib u t = Inr u'"
  shows "json_get (us_Object u') [''spec'', ''rawConfig''] = map_option JMap t"
    and "us_Meta u' = us_Meta u \<and> us_Kind u' = us_Kind u \<and> us_ApiVersion u' = us_ApiVersion u"
  using assms set_object_get [of u "[''spec'', ''rawConfig'']"] get_remove [of "[''spec'', ''rawConfig'']" "us_Object u"]
    set_object_frame [of u "[''spec'', ''rawConfig'']"]
  by (auto simp: set_raw_config_def set_wrapped_ok simp del: json_get.simps split: option.splits)

text \<open>Setting the spec writes exactly that, and on an object that has it changes nothing.\<close>

lemma set_parameters_ok:
  assumes "setAgentgatewayParametersSpec lib u tg = Inr u'"
  shows "parameters_match lib tg (us_Object u')"
    and "us_Meta u' = us_Meta u \<and> us_Kind u' = us_Kind u \<and> us_ApiVersion u' = us_ApiVersion u"
proof -
  let ?envs = "filter (\<lambda>e. ev_Name e \<notin> set otel_variables) (tg_Env tg)"
  obtain p1 p2 p3 envs froms where 1: "set_raw_config lib u (buildTelemetryConfig (otel_of (tg_Env tg))) = Inr p1"
    and envs: "toUnstructuredSlice (l_env_json lib) ?envs = Inr envs"
    and froms: "toUnstructuredSlice (l_env_from_json lib) (tg_EnvFrom tg) = Inr froms"
    and 2: "set_object lib p1 [''spec'', ''env''] (JList envs) = Inr p2"
    and 3: "set_object lib p2 [''spec'', ''deployment'', ''spec''] (deployment_spec_json froms) = Inr p3"
    and 4: "set_object lib p3 [''spec'', ''service'', ''spec''] (jmap [(''type'', JStr ''ClusterIP'')]) = Inr u'"
    using assms
    by (auto simp: setAgentgatewayParametersSpec_def extract_eq set_wrapped_ok split: sum.splits)
  note o2 = set_object_other [OF 2] and o3 = set_object_other [OF 3] and o4 = set_object_other [OF 4]
  show "parameters_match lib tg (us_Object u')"
    unfolding parameters_match_def
    using set_raw_config_ok(1) [OF 1] set_object_get [OF 2] set_object_get [OF 3] set_object_get [OF 4]
      o2 [of "[''spec'', ''rawConfig'']"] o3 [of "[''spec'', ''rawConfig'']"] o4 [of "[''spec'', ''rawConfig'']"]
      o3 [of "[''spec'', ''env'']"] o4 [of "[''spec'', ''env'']"] o4 [of "[''spec'', ''deployment'', ''spec'']"] envs froms
    by (simp del: json_get.simps)
  show "us_Meta u' = us_Meta u \<and> us_Kind u' = us_Kind u \<and> us_ApiVersion u' = us_ApiVersion u"
    using set_raw_config_ok(2) [OF 1] set_object_frame [OF 2] set_object_frame [OF 3] set_object_frame [OF 4] by simp
qed

lemma set_parameters_same:
  assumes "parameters_match lib tg (us_Object u)"
  shows "setAgentgatewayParametersSpec lib u tg = Inr u"
proof -
  obtain envs froms where envs: "toUnstructuredSlice (l_env_json lib) (filter (\<lambda>e. ev_Name e \<notin> set otel_variables) (tg_Env tg)) = Inr envs"
    and froms: "toUnstructuredSlice (l_env_from_json lib) (tg_EnvFrom tg) = Inr froms"
    and raw: "json_get (us_Object u) [''spec'', ''rawConfig''] = map_option JMap (buildTelemetryConfig (otel_of (tg_Env tg)))"
    and rest: "json_get (us_Object u) [''spec'', ''env''] = Some (JList envs)"
      "json_get (us_Object u) [''spec'', ''deployment'', ''spec''] = Some (deployment_spec_json froms)"
      "json_get (us_Object u) [''spec'', ''service'', ''spec''] = Some (jmap [(''type'', JStr ''ClusterIP'')])"
    using assms unfolding parameters_match_def by blast
  have "set_raw_config lib u (buildTelemetryConfig (otel_of (tg_Env tg))) = Inr u"
    using raw remove_absent [of "us_Object u" "[''spec'', ''rawConfig'']"] set_object_same [of u "[''spec'', ''rawConfig'']"]
    by (simp add: set_raw_config_def set_wrapped_ok del: json_get.simps split: option.split)
  moreover have "set_wrapped lib pre u [''spec'', ''env''] (JList envs) = Inr u"
    "set_wrapped lib pre u [''spec'', ''deployment'', ''spec''] (deployment_spec_json froms) = Inr u"
    "set_wrapped lib pre u [''spec'', ''service'', ''spec''] (jmap [(''type'', JStr ''ClusterIP'')]) = Inr u" for pre
    using set_object_same [OF rest(1)] set_object_same [OF rest(2)] set_object_same [OF rest(3)]
    by (simp_all add: set_wrapped_ok)
  ultimately show ?thesis
    using envs froms by (simp add: setAgentgatewayParametersSpec_def extract_eq)
qed

end

end
