(* ===== verification/ToolGatewayReconciler.thy ===== *)
theory ToolGatewayReconciler
  imports ClassOwnership Resources GuardReconciler
begin

text \<open>
  \<open>toolgateway_reconciler.go\<close>: a \<open>ToolGateway\<close> of our class is reconciled into
  \<open>AgentgatewayParameters\<close>, a \<open>Gateway\<close> and, when it has a guardrail, an
  \<open>AgentgatewayPolicy\<close>; the outcome is mirrored in its Ready condition.  The functions that
  mutate the \<open>ToolGateway\<close> in memory return it.
\<close>

section \<open>Constants\<close>

definition agentGatewayClassName :: string where "agentGatewayClassName = ''agentgateway''"
definition readyConditionType :: string where "readyConditionType = ''Ready''"
definition listenerNameHTTP :: string where "listenerNameHTTP = ''http''"
definition guardrailsUnsupported :: string where "guardrailsUnsupported = ''GuardrailsUnsupported''"

definition reasonReconciled :: string where "reasonReconciled = ''Reconciled''"
definition reasonAgentgatewayParametersFailed :: string where
  "reasonAgentgatewayParametersFailed = ''AgentgatewayParametersReconciliationFailed''"
definition reasonGatewayFailed :: string where "reasonGatewayFailed = ''GatewayReconciliationFailed''"
definition reasonGuardrailsFailed :: string where "reasonGuardrailsFailed = ''GuardrailsReconciliationFailed''"
definition reasonGuardNotFound :: string where "reasonGuardNotFound = ''GuardNotFound''"
definition reasonGuardNotReady :: string where "reasonGuardNotReady = ''GuardNotReady''"

lemmas gateway_reasons =
  reasonReconciled_def reasonAgentgatewayParametersFailed_def reasonGatewayFailed_def
  reasonGuardrailsFailed_def reasonGuardNotFound_def reasonGuardNotReady_def

definition errGuardNotFound :: goerror where "errGuardNotFound = Sentinel ''guard not found''"
definition errGuardNotReady :: goerror where "errGuardNotReady = Sentinel ''guard not ready''"

section \<open>Events\<close>

definition emitNormalEvent :: "('w, 'm) reconciler_scheme \<Rightarrow> okey \<Rightarrow> string \<Rightarrow> string \<Rightarrow> string \<Rightarrow> 'w \<Rightarrow> 'w" where
  "emitNormalEvent r regarding reason action note w =
     (if \<not> r_Recorder r then w
      else c_event (r_Client r) \<lparr>en_Regarding = regarding, en_Reason = reason, en_Action = action, en_Note = note\<rparr> w)"

text \<open>The switch on the operation result: an event for a created or an updated object.\<close>

definition emit_op ::
  "('w, 'm) reconciler_scheme \<Rightarrow> okey \<Rightarrow> string \<Rightarrow> string \<Rightarrow> string \<Rightarrow> op_result \<Rightarrow> 'w \<Rightarrow> 'w" where
  "emit_op r regarding what label name op w =
     (case op of
        OpCreated \<Rightarrow> emitNormalEvent r regarding (what @ ''Created'') (''Create'' @ what) (''Created '' @ label @ '' '' @ name) w
      | OpUpdated \<Rightarrow> emitNormalEvent r regarding (what @ ''Updated'') (''Update'' @ what) (''Updated '' @ label @ '' '' @ name) w
      | _ \<Rightarrow> w)"

section \<open>Gateway and parameters\<close>

definition tg_key :: "tool_gateway \<Rightarrow> okey" where
  "tg_key tg = (KToolGateway, meta_key (tg_Meta tg))"

definition gateway_spec_of :: "string \<Rightarrow> gateway_spec" where
  "gateway_spec_of name =
     \<lparr>gs_ClassName = agentGatewayClassName,
      gs_Listeners = [\<lparr>ln_Name = listenerNameHTTP, ln_Protocol = ''HTTP'', ln_Port = 80, ln_AllowedFrom = Some ''All''\<rparr>],
      gs_ParametersRef = Some \<lparr>lr_Group = ''agentgateway.dev'', lr_Kind = ''AgentgatewayParameters'', lr_Name = name\<rparr>\<rparr>"

definition gateway_mutate :: "klib \<Rightarrow> tool_gateway \<Rightarrow> gateway \<Rightarrow> goerror + gateway" where
  "gateway_mutate lib tg gw =
     (case l_set_controller lib KToolGateway (tg_Meta tg) (gw_Meta gw) of
        Inl e \<Rightarrow> Inl e
      | Inr m \<Rightarrow> Inr (gw\<lparr>gw_Meta := m, gw_Spec := gateway_spec_of (m_Name (tg_Meta tg))\<rparr>))"

definition empty_gateway_spec :: gateway_spec where
  "empty_gateway_spec = \<lparr>gs_ClassName = [], gs_Listeners = [], gs_ParametersRef = None\<rparr>"

definition ensureGateway :: "'w reconciler \<Rightarrow> tool_gateway \<Rightarrow> 'w \<Rightarrow> goerror option \<times> 'w" where
  "ensureGateway r tg w =
     (let gw = \<lparr>gw_Meta = new_meta (m_Name (tg_Meta tg)) (m_Namespace (tg_Meta tg)), gw_Spec = empty_gateway_spec\<rparr>
      in case c_create_or_patch (r_Client r) (OGateway gw) (on_gateway (gateway_mutate (r_Lib r) tg)) w of
           (Inl e, w') \<Rightarrow> (Some (Wrapf ''failed to create or update Gateway: '' e []), w')
         | (Inr op, w') \<Rightarrow> (None, emit_op r (tg_key tg) ''Gateway'' ''Gateway'' (m_Name (tg_Meta tg)) op w'))"

definition params_mutate :: "klib \<Rightarrow> tool_gateway \<Rightarrow> unstructured \<Rightarrow> goerror + unstructured" where
  "params_mutate lib tg u =
     (case l_set_controller lib KToolGateway (tg_Meta tg) (us_Meta u) of
        Inl e \<Rightarrow> Inl e
      | Inr m \<Rightarrow> setAgentgatewayParametersSpec lib (u\<lparr>us_Meta := m\<rparr>) tg)"

definition ensureAgentgatewayParameters :: "'w reconciler \<Rightarrow> tool_gateway \<Rightarrow> 'w \<Rightarrow> goerror option \<times> 'w" where
  "ensureAgentgatewayParameters r tg w =
     (let params = newAgentgatewayParameters (m_Name (tg_Meta tg)) (m_Namespace (tg_Meta tg))
      in case c_create_or_patch (r_Client r) (OUnstructured params) (on_unstructured (params_mutate (r_Lib r) tg)) w of
           (Inl e, w') \<Rightarrow> (Some (Wrapf ''failed to create or update AgentgatewayParameters: '' e []), w')
         | (Inr op, w') \<Rightarrow>
             (None, emit_op r (tg_key tg) ''AgentgatewayParameters'' ''AgentgatewayParameters'' (m_Name (tg_Meta tg)) op w'))"

section \<open>Guardrails\<close>

definition guard_ref_key :: "tool_gateway \<Rightarrow> object_ref \<Rightarrow> nsname" where
  "guard_ref_key tg ref =
     (if ref_Namespace ref = [] then m_Namespace (tg_Meta tg) else ref_Namespace ref, ref_Name ref)"

definition buildGuardrailPolicySpec :: "string \<Rightarrow> string \<Rightarrow> string \<Rightarrow> json" where
  "buildGuardrailPolicySpec toolGatewayName guardName guardNamespace =
     jmap [(''targetRefs'', JList [jmap [(''group'', JStr ''gateway.networking.k8s.io''), (''kind'', JStr ''Gateway''),
                                         (''name'', JStr toolGatewayName)]]),
           (''traffic'', jmap [(''extProc'', jmap [(''backendRef'',
              jmap [(''name'', JStr (guardName @ ''-adapter'')), (''namespace'', JStr guardNamespace),
                    (''port'', JInt (uint AdapterServicePort))])])])]"

definition guardrail_mutate :: "klib \<Rightarrow> tool_gateway \<Rightarrow> nsname \<Rightarrow> unstructured \<Rightarrow> goerror + unstructured" where
  "guardrail_mutate lib tg gk u =
     (case l_set_controller lib KToolGateway (tg_Meta tg) (us_Meta u) of
        Inl e \<Rightarrow> Inl e
      | Inr m \<Rightarrow> set_object lib (u\<lparr>us_Meta := m\<rparr>) [''spec''] (buildGuardrailPolicySpec (m_Name (tg_Meta tg)) (snd gk) (fst gk)))"

definition unsupported_condition :: "tool_gateway \<Rightarrow> condition" where
  "unsupported_condition tg =
     \<lparr>cd_Type = guardrailsUnsupported, cd_Status = ConditionTrue, cd_Reason = ''MultipleGuardsNotSupported'',
      cd_Message = ''Multiple guards are not supported (agentgateway has only one ext_proc slot per target)'',
      cd_ObservedGeneration = m_Generation (tg_Meta tg), cd_TransitionTime = 0\<rparr>"

text \<open>The em dash of the message, in UTF-8.\<close>

definition em_dash :: string where "em_dash = [CHR 0xE2, CHR 0x80, CHR 0x94]"

definition clear_unsupported :: "klib \<Rightarrow> tool_gateway \<Rightarrow> tool_gateway" where
  "clear_unsupported lib tg = tg\<lparr>tg_Conditions := l_remove_condition lib (tg_Conditions tg) guardrailsUnsupported\<rparr>"

definition guardrail_name :: "tool_gateway \<Rightarrow> string" where
  "guardrail_name tg = m_Name (tg_Meta tg) @ ''-guardrail''"

text \<open>The checks on the referenced guard (steps 3 and 4): its error, if there is one.\<close>

definition guard_check :: "'w reconciler \<Rightarrow> nsname \<Rightarrow> 'w \<Rightarrow> goerror option" where
  "guard_check r gk w =
     (let path = fst gk @ ''/'' @ snd gk in
      case get_as as_guard (r_Client r) (KGuard, gk) w of
        Inl e \<Rightarrow>
          if is_not_found e then Some (Wrapf [] errGuardNotFound ('': '' @ path))
          else Some (Wrapf (''failed to get guard '' @ path @ '': '') e [])
      | Inr g \<Rightarrow>
          (case l_find_condition (r_Lib r) (g_Conditions g) ''Ready'' of
             None \<Rightarrow> Some (Wrapf [] errGuardNotReady ('': '' @ path @ '' has no Ready condition yet''))
           | Some cond \<Rightarrow>
               if cd_Status cond \<noteq> ConditionTrue
               then Some (Wrapf [] errGuardNotReady
                      ('': '' @ path @ '': '' @ cd_Reason cond @ '' '' @ em_dash @ '' '' @ cd_Message cond))
               else None))"

definition ensureGuardrails ::
  "'w reconciler \<Rightarrow> tool_gateway \<Rightarrow> 'w \<Rightarrow> goerror option \<times> tool_gateway \<times> 'w" where
  "ensureGuardrails r tg w =
     (let policy = newAgentgatewayPolicy (guardrail_name tg) (m_Namespace (tg_Meta tg)) in
      case tg_Guardrails tg of
        [] \<Rightarrow>
          (case c_delete (r_Client r) (key_of (OUnstructured policy)) w of
             (Some e, w') \<Rightarrow>
               if is_not_found e then (None, clear_unsupported (r_Lib r) tg, w')
               else (Some (Wrapf ''failed to delete guardrail policy: '' e []), tg, w')
           | (None, w') \<Rightarrow> (None, clear_unsupported (r_Lib r) tg, w'))
      | _ # _ # _ \<Rightarrow>
          (Some (Plain ''multiple guards not supported''),
           tg\<lparr>tg_Conditions := l_set_condition (r_Lib r) (tg_Conditions tg) (unsupported_condition tg)\<rparr>, w)
      | [ref] \<Rightarrow>
          (let gk = guard_ref_key tg ref in
           case guard_check r gk w of
             Some e \<Rightarrow> (Some e, tg, w)
           | None \<Rightarrow>
               (case c_create_or_patch (r_Client r) (OUnstructured policy)
                       (on_unstructured (guardrail_mutate (r_Lib r) tg gk)) w of
                  (Inl e, w') \<Rightarrow> (Some (Wrapf ''failed to create or update guardrail policy: '' e []), tg, w')
                | (Inr op, w') \<Rightarrow>
                    (None, clear_unsupported (r_Lib r) tg,
                     emit_op r (tg_key tg) ''GuardrailPolicy'' ''guardrail policy'' (guardrail_name tg) op w'))))"

section \<open>Reconciliation\<close>

definition guardrails_reason :: "goerror \<Rightarrow> string" where
  "guardrails_reason e =
     (if errors_is e errGuardNotFound then reasonGuardNotFound
      else if errors_is e errGuardNotReady then reasonGuardNotReady
      else reasonGuardrailsFailed)"

definition reconcileToolGateway ::
  "'w reconciler \<Rightarrow> tool_gateway \<Rightarrow> 'w \<Rightarrow> (string \<times> goerror option) \<times> tool_gateway \<times> 'w" where
  "reconcileToolGateway r tg w =
     (case ensureAgentgatewayParameters r tg w of
        (Some e, w1) \<Rightarrow> ((reasonAgentgatewayParametersFailed, Some e), tg, w1)
      | (None, w1) \<Rightarrow>
          (case ensureGateway r tg w1 of
             (Some e, w2) \<Rightarrow> ((reasonGatewayFailed, Some e), tg, w2)
           | (None, w2) \<Rightarrow>
               (case ensureGuardrails r tg w2 of
                  (Some e, tg', w3) \<Rightarrow> ((guardrails_reason e, Some e), tg', w3)
                | (None, tg', w3) \<Rightarrow> (([], None), tg', w3))))"

definition ready_condition :: "object_meta \<Rightarrow> string \<Rightarrow> string \<Rightarrow> string \<Rightarrow> condition" where
  "ready_condition m status reason message =
     \<lparr>cd_Type = readyConditionType, cd_Status = status, cd_Reason = reason, cd_Message = message,
      cd_ObservedGeneration = m_Generation m, cd_TransitionTime = 0\<rparr>"

definition gateway_url :: "tool_gateway \<Rightarrow> string" where
  "gateway_url tg = ''http://'' @ m_Name (tg_Meta tg) @ ''.'' @ m_Namespace (tg_Meta tg) @ ''.svc.cluster.local''"

definition tg_ready :: "klib \<Rightarrow> tool_gateway \<Rightarrow> tool_gateway" where
  "tg_ready lib tg =
     tg\<lparr>tg_Url := gateway_url tg,
        tg_Conditions := l_set_condition lib (tg_Conditions tg)
          (ready_condition (tg_Meta tg) ConditionTrue reasonReconciled ''Gateway and its backing resources are configured'')\<rparr>"

definition tg_not_ready :: "klib \<Rightarrow> tool_gateway \<Rightarrow> string \<Rightarrow> string \<Rightarrow> tool_gateway" where
  "tg_not_ready lib tg reason message =
     tg\<lparr>tg_Conditions := l_set_condition lib (tg_Conditions tg) (ready_condition (tg_Meta tg) ConditionFalse reason message)\<rparr>"

definition patch_tg :: "'w reconciler \<Rightarrow> tool_gateway \<Rightarrow> tool_gateway \<Rightarrow> 'w \<Rightarrow> goerror option \<times> 'w" where
  "patch_tg r base new w =
     (case c_patch_status (r_Client r) (OToolGateway base) (OToolGateway new) w of
        (Some e, w') \<Rightarrow> (Some (Wrapf ''failed to patch ToolGateway status: '' e []), w')
      | (None, w') \<Rightarrow> (None, w'))"

definition updateStatusReady :: "'w reconciler \<Rightarrow> tool_gateway \<Rightarrow> 'w \<Rightarrow> goerror option \<times> 'w" where
  "updateStatusReady r tg w = patch_tg r tg (tg_ready (r_Lib r) tg) w"

definition updateStatusNotReady ::
  "'w reconciler \<Rightarrow> tool_gateway \<Rightarrow> string \<Rightarrow> string \<Rightarrow> 'w \<Rightarrow> goerror option \<times> 'w" where
  "updateStatusNotReady r tg reason message w = patch_tg r tg (tg_not_ready (r_Lib r) tg reason message) w"

definition ToolGateway_Reconcile :: "'w reconciler \<Rightarrow> nsname \<Rightarrow> 'w \<Rightarrow> goerror option \<times> 'w" where
  "ToolGateway_Reconcile r req w =
     (case get_as as_tool_gateway (r_Client r) (KToolGateway, req) w of
        Inl e \<Rightarrow> if is_not_found e then (None, w) else (Some e, w)
      | Inr tg \<Rightarrow>
          (case isToolGatewayOwnedByController (r_Client r) tg w of
             Inl e \<Rightarrow> (Some e, w)
           | Inr False \<Rightarrow> (None, w)
           | Inr True \<Rightarrow>
               (case reconcileToolGateway r tg w of
                  ((reason, Some e), tg', w1) \<Rightarrow>
                    (let (statusErr, w2) = updateStatusNotReady r tg' reason (error_text e) w1 in (Some e, w2))
                | ((reason, None), tg', w1) \<Rightarrow> updateStatusReady r tg' w1)))"

section \<open>Watches\<close>

definition findToolGatewayForGuard :: "'w reconciler \<Rightarrow> kobj \<Rightarrow> 'w \<Rightarrow> nsname list" where
  "findToolGatewayForGuard r obj w =
     (case obj of
        OGuard g \<Rightarrow>
          (case list_as as_tool_gateway (r_Client r) KToolGateway None w of
             Inl e \<Rightarrow> []
           | Inr tgs \<Rightarrow>
               map (\<lambda>tg. meta_key (tg_Meta tg))
                 (filter (\<lambda>tg. list_ex (\<lambda>ref. ref_Name ref = m_Name (g_Meta g)
                                          \<and> fst (guard_ref_key tg ref) = m_Namespace (g_Meta g)) (tg_Guardrails tg)) tgs))
      | _ \<Rightarrow> [])"

text \<open>The keys of the map of affected guards are the strings \<open>namespace/name\<close>.\<close>

definition affected_guards :: "guardrail_provider \<Rightarrow> guard list \<Rightarrow> string list" where
  "affected_guards p guards =
     map (\<lambda>g. m_Namespace (g_Meta g) @ ''/'' @ m_Name (g_Meta g))
       (filter (\<lambda>g. ref_Name (g_ProviderRef g) = m_Name (gp_Meta p)
                    \<and> fst (provider_key g) = m_Namespace (gp_Meta p)) guards)"

definition findToolGatewayForGuardrailProvider :: "'w reconciler \<Rightarrow> kobj \<Rightarrow> 'w \<Rightarrow> nsname list" where
  "findToolGatewayForGuardrailProvider r obj w =
     (case obj of
        OGuardrailProvider p \<Rightarrow>
          (case list_as as_guard (r_Client r) KGuard None w of
             Inl e \<Rightarrow> []
           | Inr guards \<Rightarrow>
               (case list_as as_tool_gateway (r_Client r) KToolGateway None w of
                  Inl e \<Rightarrow> []
                | Inr tgs \<Rightarrow>
                    map (\<lambda>tg. meta_key (tg_Meta tg))
                      (filter (\<lambda>tg. list_ex (\<lambda>ref. fst (guard_ref_key tg ref) @ ''/'' @ ref_Name ref
                                               \<in> set (affected_guards p guards)) (tg_Guardrails tg)) tgs)))
      | _ \<Rightarrow> [])"

definition ToolGateway_SetupWithManager :: "'w reconciler \<Rightarrow> 'w controller_setup" where
  "ToolGateway_SetupWithManager r =
     \<lparr>su_Name = ToolGatewayAgentgatewayControllerName, su_For = KToolGateway,
      su_Owns = [KGateway, KParameters, KPolicy],
      su_Watches = [(KGuard, findToolGatewayForGuard r),
                    (KGuardrailProvider, findToolGatewayForGuardrailProvider r)]\<rparr>"

section \<open>What a ready gateway has\<close>

definition tg_name_key :: "tool_gateway \<Rightarrow> nsname" where
  "tg_name_key tg = meta_key (tg_Meta tg)"

definition guardrail_key :: "tool_gateway \<Rightarrow> nsname" where
  "guardrail_key tg = (m_Namespace (tg_Meta tg), guardrail_name tg)"

definition gateway_keys :: "tool_gateway \<Rightarrow> okey set" where
  "gateway_keys tg = {(KGateway, tg_name_key tg), (KParameters, tg_name_key tg), (KPolicy, guardrail_key tg)}"

definition guard_is_ready :: "klib \<Rightarrow> kobj option \<Rightarrow> bool" where
  "guard_is_ready lib ob =
     (\<exists>g c. ob = Some (OGuard g) \<and> l_find_condition lib (g_Conditions g) ''Ready'' = Some c \<and> cd_Status c = ConditionTrue)"

text \<open>
  The gateway of our class with its listener and parameters, and the guardrail: none without a
  guard, else the policy that sends the gateway's traffic through the guard's adapter.
\<close>

definition gateway_serves :: "klib \<Rightarrow> tool_gateway \<Rightarrow> (okey \<Rightarrow> kobj option) \<Rightarrow> bool" where
  "gateway_serves lib tg store =
     (\<exists>gw u.
        store (KGateway, tg_name_key tg) = Some (OGateway gw) \<and> gw_Spec gw = gateway_spec_of (m_Name (tg_Meta tg))
        \<and> controller_of (gw_Meta gw) = Some (KToolGateway, m_Name (tg_Meta tg))
        \<and> store (KParameters, tg_name_key tg) = Some (OUnstructured u) \<and> parameters_match lib tg (us_Object u)
        \<and> controller_of (us_Meta u) = Some (KToolGateway, m_Name (tg_Meta tg))
        \<and> (case tg_Guardrails tg of
             [] \<Rightarrow> store (KPolicy, guardrail_key tg) = None
           | [ref] \<Rightarrow>
               guard_is_ready lib (store (KGuard, guard_ref_key tg ref))
               \<and> (\<exists>v. store (KPolicy, guardrail_key tg) = Some (OUnstructured v)
                    \<and> controller_of (us_Meta v) = Some (KToolGateway, m_Name (tg_Meta tg))
                    \<and> json_get (us_Object v) [''spec''] =
                        Some (buildGuardrailPolicySpec (m_Name (tg_Meta tg)) (ref_Name ref) (fst (guard_ref_key tg ref))))
           | _ \<Rightarrow> False))"

definition gateway_settled :: "klib \<Rightarrow> tool_gateway \<Rightarrow> (okey \<Rightarrow> kobj option) \<Rightarrow> bool" where
  "gateway_settled lib tg store =
     (\<exists>gw u.
        store (KGateway, tg_name_key tg) = Some (OGateway gw) \<and> gateway_mutate lib tg gw = Inr gw
        \<and> store (KParameters, tg_name_key tg) = Some (OUnstructured u) \<and> params_mutate lib tg u = Inr u
        \<and> (case tg_Guardrails tg of
             [] \<Rightarrow> store (KPolicy, guardrail_key tg) = None
           | [ref] \<Rightarrow>
               guard_is_ready lib (store (KGuard, guard_ref_key tg ref))
               \<and> (\<exists>v. store (KPolicy, guardrail_key tg) = Some (OUnstructured v)
                    \<and> guardrail_mutate lib tg (guard_ref_key tg ref) v = Inr v)
           | _ \<Rightarrow> False))"

lemma snd_guard_ref_key [simp]: "snd (guard_ref_key tg ref) = ref_Name ref"
  by (simp add: guard_ref_key_def)

lemma gateway_mutate_ok:
  "gateway_mutate lib tg x = Inr y \<Longrightarrow>
   l_set_controller lib KToolGateway (tg_Meta tg) (gw_Meta x) = Inr (gw_Meta y)
   \<and> gw_Spec y = gateway_spec_of (m_Name (tg_Meta tg))"
  by (auto simp: gateway_mutate_def split: sum.splits)

section \<open>Each step\<close>

locale gateway_operator = operator r at events
  for r :: "'w reconciler" and at :: "'w \<Rightarrow> okey \<Rightarrow> kobj option" and events :: "'w \<Rightarrow> kevent list"
begin

lemma gateway_mutator: "mutator (on_gateway (gateway_mutate (r_Lib r) tg))"
proof (rule mutator_gateway)
  fix x y z
  assume f: "gateway_mutate (r_Lib r) tg x = Inr y"
    and z: "z\<lparr>gw_Meta := clear_server (gw_Meta z)\<rparr> = y\<lparr>gw_Meta := clear_server (gw_Meta y)\<rparr>"
  have "clear_server (gw_Meta z) = clear_server (gw_Meta y)" "gw_Spec z = gw_Spec y"
    using arg_cong [OF z, of gw_Meta] arg_cong [OF z, of gw_Spec] by simp_all
  then show "gateway_mutate (r_Lib r) tg z = Inr z"
    using set_controller_stable [of KToolGateway "tg_Meta tg" "gw_Meta x" "gw_Meta y" "gw_Meta z"] gateway_mutate_ok [OF f]
    by (cases z) (simp add: gateway_mutate_def)
qed

lemma params_mutate_ok:
  assumes "params_mutate (r_Lib r) tg x = Inr y"
  shows "l_set_controller (r_Lib r) KToolGateway (tg_Meta tg) (us_Meta x) = Inr (us_Meta y)"
    "parameters_match (r_Lib r) tg (us_Object y)"
  using assms set_parameters_ok by (auto simp: params_mutate_def split: sum.splits)

lemma guardrail_mutate_ok:
  assumes "guardrail_mutate (r_Lib r) tg gk x = Inr y"
  shows "l_set_controller (r_Lib r) KToolGateway (tg_Meta tg) (us_Meta x) = Inr (us_Meta y)"
    "json_get (us_Object y) [''spec''] = Some (buildGuardrailPolicySpec (m_Name (tg_Meta tg)) (snd gk) (fst gk))"
  using assms set_object_get [of _ "[''spec'']"] set_object_frame [of _ "[''spec'']"]
  by (auto simp: guardrail_mutate_def simp del: json_get.simps split: sum.splits)

lemma params_mutator: "mutator (on_unstructured (params_mutate (r_Lib r) tg))"
proof (rule mutator_unstructured)
  fix x y z
  assume f: "params_mutate (r_Lib r) tg x = Inr y"
    and z: "z\<lparr>us_Meta := clear_server (us_Meta z)\<rparr> = y\<lparr>us_Meta := clear_server (us_Meta y)\<rparr>"
  note ok = params_mutate_ok [OF f]
  have "clear_server (us_Meta z) = clear_server (us_Meta y)" "us_Object z = us_Object y"
    using arg_cong [OF z, of us_Meta] arg_cong [OF z, of us_Object] by simp_all
  then show "params_mutate (r_Lib r) tg z = Inr z"
    using set_controller_stable [OF ok(1)] set_parameters_same [of tg z] ok(2)
    by (simp add: params_mutate_def)
qed

lemma guardrail_mutator: "mutator (on_unstructured (guardrail_mutate (r_Lib r) tg gk))"
proof (rule mutator_unstructured)
  fix x y z
  assume f: "guardrail_mutate (r_Lib r) tg gk x = Inr y"
    and z: "z\<lparr>us_Meta := clear_server (us_Meta z)\<rparr> = y\<lparr>us_Meta := clear_server (us_Meta y)\<rparr>"
  note ok = guardrail_mutate_ok [OF f]
  have "clear_server (us_Meta z) = clear_server (us_Meta y)" "us_Object z = us_Object y"
    using arg_cong [OF z, of us_Meta] arg_cong [OF z, of us_Object] by simp_all
  then show "guardrail_mutate (r_Lib r) tg gk z = Inr z"
    using set_controller_stable [OF ok(1)] set_object_same [of z "[''spec'']"] ok(2)
    by (simp add: guardrail_mutate_def del: json_get.simps)
qed

lemma settled_serves:
  assumes "gateway_settled (r_Lib r) tg store"
  shows "gateway_serves (r_Lib r) tg store"
proof -
  obtain gw u where gw: "store (KGateway, tg_name_key tg) = Some (OGateway gw)" "gateway_mutate (r_Lib r) tg gw = Inr gw"
    and u: "store (KParameters, tg_name_key tg) = Some (OUnstructured u)" "params_mutate (r_Lib r) tg u = Inr u"
    and pol: "case tg_Guardrails tg of
             [] \<Rightarrow> store (KPolicy, guardrail_key tg) = None
           | [ref] \<Rightarrow>
               guard_is_ready (r_Lib r) (store (KGuard, guard_ref_key tg ref))
               \<and> (\<exists>v. store (KPolicy, guardrail_key tg) = Some (OUnstructured v)
                    \<and> guardrail_mutate (r_Lib r) tg (guard_ref_key tg ref) v = Inr v)
           | _ \<Rightarrow> False"
    using assms unfolding gateway_settled_def by blast
  have v: "controller_of (us_Meta v) = Some (KToolGateway, m_Name (tg_Meta tg))
      \<and> json_get (us_Object v) [''spec''] = Some (buildGuardrailPolicySpec (m_Name (tg_Meta tg)) (snd gk) (fst gk))"
    if "guardrail_mutate (r_Lib r) tg gk v = Inr v" for gk v
    using guardrail_mutate_ok [OF that] set_controller_of by blast
  have "controller_of (gw_Meta gw) = Some (KToolGateway, m_Name (tg_Meta tg))" "gw_Spec gw = gateway_spec_of (m_Name (tg_Meta tg))"
    "controller_of (us_Meta u) = Some (KToolGateway, m_Name (tg_Meta tg))" "parameters_match (r_Lib r) tg (us_Object u)"
    using gateway_mutate_ok [OF gw(2)] params_mutate_ok [OF u(2)] set_controller_of by blast+
  moreover have "case tg_Guardrails tg of
       [] \<Rightarrow> store (KPolicy, guardrail_key tg) = None
     | [ref] \<Rightarrow>
         guard_is_ready (r_Lib r) (store (KGuard, guard_ref_key tg ref))
         \<and> (\<exists>v. store (KPolicy, guardrail_key tg) = Some (OUnstructured v)
              \<and> controller_of (us_Meta v) = Some (KToolGateway, m_Name (tg_Meta tg))
              \<and> json_get (us_Object v) [''spec''] =
                  Some (buildGuardrailPolicySpec (m_Name (tg_Meta tg)) (ref_Name ref) (fst (guard_ref_key tg ref))))
     | _ \<Rightarrow> False"
  proof (cases "tg_Guardrails tg")
    case (Cons ref rest)
    with pol have "rest = []" by (cases rest) simp_all
    with pol Cons obtain x where "guard_is_ready (r_Lib r) (store (KGuard, guard_ref_key tg ref))"
      "store (KPolicy, guardrail_key tg) = Some (OUnstructured x)" "guardrail_mutate (r_Lib r) tg (guard_ref_key tg ref) x = Inr x"
      by auto
    with v [OF this(3)] show ?thesis
      unfolding Cons \<open>rest = []\<close> by (simp del: json_get.simps)
  qed (use pol in simp)
  ultimately show ?thesis unfolding gateway_serves_def using gw(1) u(1) by blast
qed

lemma emit_at [simp]: "at (emit_op r k a b c op w) = at w" "at (emitNormalEvent r k x y z w) = at w"
  by (auto simp: emit_op_def emitNormalEvent_def event_at split: op_result.split)

lemma emit_none [simp]: "emit_op r k a b c OpNone w = w"
  by (simp add: emit_op_def)

lemma unchanged_emit [simp]: "unchanged_outside K at w (emit_op r k a b c op w') = unchanged_outside K at w w'"
  by (simp add: unchanged_outside_def)

lemma ensureGateway_ok:
  assumes "ensureGateway r tg w = (None, w')"
  shows "\<exists>gw. at w' (KGateway, tg_name_key tg) = Some (OGateway gw) \<and> gateway_mutate (r_Lib r) tg gw = Inr gw"
  using assms cop_converges [OF gateway_mutator] on_gateway_fix
  by (fastforce simp: ensureGateway_def key_of_def tg_name_key_def meta_key_def new_meta_def Let_def split: prod.splits sum.splits)

lemma ensureParameters_ok:
  assumes "ensureAgentgatewayParameters r tg w = (None, w')"
  shows "\<exists>u. at w' (KParameters, tg_name_key tg) = Some (OUnstructured u) \<and> params_mutate (r_Lib r) tg u = Inr u"
proof -
  obtain op w1 where c: "c_create_or_patch (r_Client r)
      (OUnstructured (newAgentgatewayParameters (m_Name (tg_Meta tg)) (m_Namespace (tg_Meta tg))))
      (on_unstructured (params_mutate (r_Lib r) tg)) w = (Inr op, w1)" and "at w' = at w1"
    using assms by (auto simp: ensureAgentgatewayParameters_def split: prod.splits sum.splits)
  with cop_converges [OF params_mutator c] on_unstructured_fix show ?thesis
    by (fastforce simp: tg_name_key_def meta_key_def)
qed

lemma ensureGateway_frame: "ensureGateway r tg w = (x, w') \<Longrightarrow> unchanged_outside {(KGateway, tg_name_key tg)} at w w'"
  by (auto simp: ensureGateway_def key_of_def tg_name_key_def meta_key_def new_meta_def Let_def
      split: prod.splits sum.splits dest!: cop_unchanged [where K = "{(KGateway, meta_key (tg_Meta tg))}"])

lemma ensureParameters_frame:
  "ensureAgentgatewayParameters r tg w = (x, w') \<Longrightarrow> unchanged_outside {(KParameters, tg_name_key tg)} at w w'"
  by (auto simp: ensureAgentgatewayParameters_def tg_name_key_def meta_key_def
      split: prod.splits sum.splits dest!: cop_unchanged [where K = "{(KParameters, meta_key (tg_Meta tg))}"])

lemma ensureGuardrails_frame:
  "ensureGuardrails r tg w = (x, tg', w') \<Longrightarrow> unchanged_outside {(KPolicy, guardrail_key tg)} at w w'"
  by (auto simp: ensureGuardrails_def guardrail_key_def Let_def
      split: prod.splits sum.splits option.splits list.splits if_splits
      dest!: cop_unchanged [where K = "{(KPolicy, guardrail_key tg)}"] delete_unchanged [where K = "{(KPolicy, guardrail_key tg)}"])

end

section \<open>Guardrails\<close>

context gateway_operator
begin

lemma as_guard_error: "as_guard ob = Inl e \<Longrightarrow> e = decode_error"
  by (cases ob) simp_all

lemma guard_missing: "get_as as_guard (r_Client r) k w = Inl e \<Longrightarrow> is_not_found e \<Longrightarrow> at w k = None"
  by (rule get_as_missing [where dec = as_guard]) (auto dest: as_guard_error)

lemma guard_check_none: "guard_check r gk w = None \<Longrightarrow> guard_is_ready (r_Lib r) (at w (KGuard, gk))"
  using get_as_some(1) [OF _ as_guard_iff]
  by (fastforce simp: guard_check_def guard_is_ready_def Let_def split: sum.splits option.splits if_splits)

lemma guard_check_error:
  assumes "guard_check r gk w = Some e"
  shows "errors_is e errGuardNotFound \<Longrightarrow> at w (KGuard, gk) = None"
    and "errors_is e errGuardNotReady \<Longrightarrow> at w (KGuard, gk) \<noteq> None \<and> \<not> guard_is_ready (r_Lib r) (at w (KGuard, gk))"
proof -
  have foreign: "\<not> errors_is e' errGuardNotFound \<and> \<not> errors_is e' errGuardNotReady"
    if "get_as as_guard (r_Client r) (KGuard, gk) w = Inl e'" for e'
    using that get_foreign as_guard_error
    by (fastforce simp: get_as_def decode_error_def errGuardNotFound_def errGuardNotReady_def foreign_error_def split: sum.splits)
  show "at w (KGuard, gk) = None" if "errors_is e errGuardNotFound"
    using assms that foreign
    by (auto dest!: guard_missing simp: guard_check_def errGuardNotFound_def errGuardNotReady_def Let_def split: sum.splits option.splits if_splits)
  show "at w (KGuard, gk) \<noteq> None \<and> \<not> guard_is_ready (r_Lib r) (at w (KGuard, gk))" if "errors_is e errGuardNotReady"
  proof (cases "get_as as_guard (r_Client r) (KGuard, gk) w")
    case (Inl e')
    with assms that foreign [OF Inl] show ?thesis
      by (auto simp: guard_check_def errGuardNotFound_def errGuardNotReady_def Let_def split: if_splits)
  next
    case (Inr g)
    with assms get_as_some(1) [OF Inr as_guard_iff] show ?thesis
      by (auto simp: guard_check_def guard_is_ready_def Let_def split: option.splits if_splits)
  qed
qed

lemma guardrail_mutate_foreign: "on_unstructured (guardrail_mutate (r_Lib r) tg gk) x = Inl e \<Longrightarrow> foreign_error e"
  using set_controller_foreign set_foreign
  by (cases x)
    (auto simp: on_unstructured_def guardrail_mutate_def set_object_def decode_error_def map_sum_def split: sum.splits)

text \<open>The step succeeds with the policy as wanted, and the outdated condition removed.\<close>

definition policy_settled :: "tool_gateway \<Rightarrow> (okey \<Rightarrow> kobj option) \<Rightarrow> bool" where
  "policy_settled tg store =
     (case tg_Guardrails tg of
        [] \<Rightarrow> store (KPolicy, guardrail_key tg) = None
      | [ref] \<Rightarrow>
          guard_is_ready (r_Lib r) (store (KGuard, guard_ref_key tg ref))
          \<and> (\<exists>v. store (KPolicy, guardrail_key tg) = Some (OUnstructured v)
               \<and> guardrail_mutate (r_Lib r) tg (guard_ref_key tg ref) v = Inr v)
      | _ \<Rightarrow> False)"

lemma KGuard_policy [simp]: "KGuard \<noteq> KPolicy" "KPolicy \<noteq> KGuard"
  by (simp_all add: KPolicy_def)

lemma ensureGuardrails_ok:
  assumes e: "ensureGuardrails r tg w = (None, tg', w')"
  shows "tg' = clear_unsupported (r_Lib r) tg" and "policy_settled tg (at w')"
proof -
  show "tg' = clear_unsupported (r_Lib r) tg"
    using e by (auto simp: ensureGuardrails_def Let_def split: list.splits prod.splits option.splits sum.splits if_splits)
  show "policy_settled tg (at w')"
  proof (cases "tg_Guardrails tg")
    case Nil
    obtain dr w1 where d: "c_delete (r_Client r) (KPolicy, guardrail_key tg) w = (dr, w1)" by fastforce
    then have "(case dr of None \<Rightarrow> True | Some e \<Rightarrow> is_not_found e)" "w' = w1"
      using e Nil by (auto simp: ensureGuardrails_def guardrail_key_def Let_def split: option.splits if_splits)
    with delete_gone [OF d] Nil show ?thesis by (simp add: policy_settled_def)
  next
    case (Cons ref rest)
    with e have "rest = []" by (auto simp: ensureGuardrails_def Let_def split: list.splits)
    note refs = Cons [unfolded this]
    obtain op w1 where chk: "guard_check r (guard_ref_key tg ref) w = None"
      and c: "c_create_or_patch (r_Client r) (OUnstructured (newAgentgatewayPolicy (guardrail_name tg) (m_Namespace (tg_Meta tg))))
               (on_unstructured (guardrail_mutate (r_Lib r) tg (guard_ref_key tg ref))) w = (Inr op, w1)"
      and w': "at w' = at w1"
      using e refs by (auto simp: ensureGuardrails_def Let_def split: option.splits sum.splits prod.splits)
    obtain v where "at w1 (KPolicy, guardrail_key tg) = Some (OUnstructured v)"
      "guardrail_mutate (r_Lib r) tg (guard_ref_key tg ref) v = Inr v"
      using cop_converges [OF guardrail_mutator c] on_unstructured_fix by (fastforce simp: guardrail_key_def)
    moreover have "at w1 (KGuard, guard_ref_key tg ref) = at w (KGuard, guard_ref_key tg ref)"
      using unchangedD [OF cop_unchanged [OF c, of "{(KPolicy, guardrail_key tg)}"]] by (simp add: guardrail_key_def)
    ultimately show ?thesis
      using guard_check_none [OF chk] by (simp add: policy_settled_def refs w')
  qed
qed

text \<open>The errors, as the reasons classify them, and what the step does to the conditions.\<close>

lemma ensureGuardrails_error:
  assumes e: "ensureGuardrails r tg w = (Some e, tg', w')"
  shows "tg' = (if length (tg_Guardrails tg) \<le> 1 then tg
                else tg\<lparr>tg_Conditions := l_set_condition (r_Lib r) (tg_Conditions tg) (unsupported_condition tg)\<rparr>)"
    and "guardrails_reason e = reasonGuardNotFound \<Longrightarrow>
           \<exists>ref. tg_Guardrails tg = [ref] \<and> at w (KGuard, guard_ref_key tg ref) = None"
    and "guardrails_reason e = reasonGuardNotReady \<Longrightarrow>
           \<exists>ref. tg_Guardrails tg = [ref] \<and> at w (KGuard, guard_ref_key tg ref) \<noteq> None
             \<and> \<not> guard_is_ready (r_Lib r) (at w (KGuard, guard_ref_key tg ref))"
    and "length (tg_Guardrails tg) > 1 \<Longrightarrow> e = Plain ''multiple guards not supported'' \<and> w' = w"
proof -
  show "tg' = (if length (tg_Guardrails tg) \<le> 1 then tg
                else tg\<lparr>tg_Conditions := l_set_condition (r_Lib r) (tg_Conditions tg) (unsupported_condition tg)\<rparr>)"
    using e by (auto simp: ensureGuardrails_def Let_def split: list.splits prod.splits option.splits sum.splits if_splits)
  show "length (tg_Guardrails tg) > 1 \<Longrightarrow> e = Plain ''multiple guards not supported'' \<and> w' = w"
    using e by (auto simp: ensureGuardrails_def Let_def split: list.splits)
  have cases: "foreign_error e \<or> (\<exists>ref. tg_Guardrails tg = [ref] \<and> guard_check r (guard_ref_key tg ref) w = Some e)"
    using e delete_foreign cop_foreign [OF _ guardrail_mutate_foreign]
    by (auto simp: ensureGuardrails_def Let_def split: list.splits prod.splits option.splits sum.splits if_splits)
  have nf: "guardrails_reason e = reasonGuardNotFound \<Longrightarrow> errors_is e errGuardNotFound"
    and nr: "guardrails_reason e = reasonGuardNotReady \<Longrightarrow> errors_is e errGuardNotReady"
    by (auto simp: guardrails_reason_def gateway_reasons split: if_splits)
  show "\<exists>ref. tg_Guardrails tg = [ref] \<and> at w (KGuard, guard_ref_key tg ref) = None"
    if "guardrails_reason e = reasonGuardNotFound"
    using cases nf [OF that] guard_check_error(1) unfolding foreign_error_def errGuardNotFound_def by blast
  show "\<exists>ref. tg_Guardrails tg = [ref] \<and> at w (KGuard, guard_ref_key tg ref) \<noteq> None
             \<and> \<not> guard_is_ready (r_Lib r) (at w (KGuard, guard_ref_key tg ref))"
    if "guardrails_reason e = reasonGuardNotReady"
    using cases nr [OF that] guard_check_error(2) unfolding foreign_error_def errGuardNotReady_def by blast
qed

section \<open>reconcileToolGateway\<close>

lemma KGuard_keys [simp]: "(KGuard, k) \<notin> gateway_keys tg" "(KToolGateway, k) \<notin> gateway_keys tg"
  by (auto simp: gateway_keys_def KParameters_def KPolicy_def)

lemma reconcileToolGateway_frame:
  assumes "reconcileToolGateway r tg w = (x, tg', w')"
  shows "unchanged_outside (gateway_keys tg) at w w'"
proof -
  have k: "{(KGateway, tg_name_key tg)} \<subseteq> gateway_keys tg" "{(KParameters, tg_name_key tg)} \<subseteq> gateway_keys tg"
    "{(KPolicy, guardrail_key tg)} \<subseteq> gateway_keys tg" for tg by (auto simp: gateway_keys_def)
  note m = unchanged_mono [OF ensureGateway_frame k(1)] unchanged_mono [OF ensureParameters_frame k(2)]
    unchanged_mono [OF ensureGuardrails_frame k(3)]
  show ?thesis
    using assms
    by (auto simp: reconcileToolGateway_def split: prod.splits option.splits dest!: m intro: unchanged_trans)
qed

lemma gateway_settled_alt:
  "gateway_settled (r_Lib r) tg store \<longleftrightarrow>
     (\<exists>gw. store (KGateway, tg_name_key tg) = Some (OGateway gw) \<and> gateway_mutate (r_Lib r) tg gw = Inr gw)
     \<and> (\<exists>u. store (KParameters, tg_name_key tg) = Some (OUnstructured u) \<and> params_mutate (r_Lib r) tg u = Inr u)
     \<and> policy_settled tg store"
  unfolding gateway_settled_def policy_settled_def by blast

lemma reconcileToolGateway_ok:
  assumes "reconcileToolGateway r tg w = ((reason, None), tg', w')"
  shows "tg' = clear_unsupported (r_Lib r) tg" "gateway_settled (r_Lib r) tg (at w')"
proof -
  obtain w1 w2 where 1: "ensureAgentgatewayParameters r tg w = (None, w1)" and 2: "ensureGateway r tg w1 = (None, w2)"
    and 3: "ensureGuardrails r tg w2 = (None, tg', w')"
    using assms by (auto simp: reconcileToolGateway_def split: prod.splits option.splits)
  show "tg' = clear_unsupported (r_Lib r) tg" by (rule ensureGuardrails_ok(1) [OF 3])
  have p: "at w' (KParameters, tg_name_key tg) = at w1 (KParameters, tg_name_key tg)"
    and g: "at w' (KGateway, tg_name_key tg) = at w2 (KGateway, tg_name_key tg)"
    using unchangedD [OF ensureGateway_frame [OF 2]] unchangedD [OF ensureGuardrails_frame [OF 3]] by simp_all
  show "gateway_settled (r_Lib r) tg (at w')"
    unfolding gateway_settled_alt p g
    using ensureParameters_ok [OF 1] ensureGateway_ok [OF 2] ensureGuardrails_ok(2) [OF 3] by blast
qed

lemma reconcileToolGateway_error:
  assumes "reconcileToolGateway r tg w = ((reason, Some e), tg', w')"
  shows "tg' = tg \<or> 1 < length (tg_Guardrails tg) \<and> reason = reasonGuardrailsFailed
             \<and> e = Plain ''multiple guards not supported''
             \<and> tg' = tg\<lparr>tg_Conditions := l_set_condition (r_Lib r) (tg_Conditions tg) (unsupported_condition tg)\<rparr>"
    and "1 < length (tg_Guardrails tg) \<Longrightarrow> tg' = tg \<Longrightarrow> reason \<in> {reasonAgentgatewayParametersFailed, reasonGatewayFailed}
           \<or> tg\<lparr>tg_Conditions := l_set_condition (r_Lib r) (tg_Conditions tg) (unsupported_condition tg)\<rparr> = tg"
    and "reason \<in> {reasonAgentgatewayParametersFailed, reasonGatewayFailed, reasonGuardrailsFailed, reasonGuardNotFound, reasonGuardNotReady}"
    and "reason = reasonGuardNotFound \<Longrightarrow> \<exists>ref. tg_Guardrails tg = [ref] \<and> at w (KGuard, guard_ref_key tg ref) = None"
    and "reason = reasonGuardNotReady \<Longrightarrow>
           \<exists>ref. tg_Guardrails tg = [ref] \<and> at w (KGuard, guard_ref_key tg ref) \<noteq> None
             \<and> \<not> guard_is_ready (r_Lib r) (at w (KGuard, guard_ref_key tg ref))"
    and "1 < length (tg_Guardrails tg) \<Longrightarrow> at w' (KPolicy, guardrail_key tg) = at w (KPolicy, guardrail_key tg)"
proof -
  consider (params) w1 where "ensureAgentgatewayParameters r tg w = (Some e, w1)" "reason = reasonAgentgatewayParametersFailed" "tg' = tg" "w' = w1"
    | (gateway) w1 w2 where "ensureAgentgatewayParameters r tg w = (None, w1)" "ensureGateway r tg w1 = (Some e, w2)"
        "reason = reasonGatewayFailed" "tg' = tg" "w' = w2"
    | (guardrails) w1 w2 where "ensureAgentgatewayParameters r tg w = (None, w1)" "ensureGateway r tg w1 = (None, w2)"
        "ensureGuardrails r tg w2 = (Some e, tg', w')" "reason = guardrails_reason e"
    using assms by (auto simp: reconcileToolGateway_def split: prod.splits option.splits)
  note cs = this
  have guard_at: "at w2 (KGuard, k) = at w (KGuard, k)" "at w2 (KPolicy, k) = at w (KPolicy, k)"
    if "ensureAgentgatewayParameters r tg w = (x, w1)" "ensureGateway r tg w1 = (y, w2)" for x y w1 w2 k
    using unchangedD [OF ensureParameters_frame [OF that(1)]] unchangedD [OF ensureGateway_frame [OF that(2)]]
    by (simp_all add: KParameters_def KPolicy_def)
  have reason: "guardrails_reason (Plain m) = reasonGuardrailsFailed" for m
    by (simp add: guardrails_reason_def errGuardNotFound_def errGuardNotReady_def)
  show "tg' = tg \<or> 1 < length (tg_Guardrails tg) \<and> reason = reasonGuardrailsFailed
             \<and> e = Plain ''multiple guards not supported''
             \<and> tg' = tg\<lparr>tg_Conditions := l_set_condition (r_Lib r) (tg_Conditions tg) (unsupported_condition tg)\<rparr>"
    using cs
  proof cases
    case (guardrails w1 w2)
    then show ?thesis using ensureGuardrails_error(1,4) [OF guardrails(3)] reason by (auto split: if_splits)
  qed simp_all
  show "reason \<in> {reasonAgentgatewayParametersFailed, reasonGatewayFailed}
           \<or> tg\<lparr>tg_Conditions := l_set_condition (r_Lib r) (tg_Conditions tg) (unsupported_condition tg)\<rparr> = tg"
    if "1 < length (tg_Guardrails tg)" "tg' = tg"
    using cs that by cases (auto dest: ensureGuardrails_error(1))
  show "reason \<in> {reasonAgentgatewayParametersFailed, reasonGatewayFailed, reasonGuardrailsFailed, reasonGuardNotFound, reasonGuardNotReady}"
    using cs by cases (auto simp: guardrails_reason_def)
  show "\<exists>ref. tg_Guardrails tg = [ref] \<and> at w (KGuard, guard_ref_key tg ref) = None" if "reason = reasonGuardNotFound"
    using cs that by cases (auto simp: gateway_reasons guard_at dest: ensureGuardrails_error(2) [unfolded gateway_reasons])
  show "\<exists>ref. tg_Guardrails tg = [ref] \<and> at w (KGuard, guard_ref_key tg ref) \<noteq> None
             \<and> \<not> guard_is_ready (r_Lib r) (at w (KGuard, guard_ref_key tg ref))" if "reason = reasonGuardNotReady"
    using cs that by cases (auto simp: gateway_reasons guard_at dest: ensureGuardrails_error(3) [unfolded gateway_reasons])
  show "at w' (KPolicy, guardrail_key tg) = at w (KPolicy, guardrail_key tg)" if "1 < length (tg_Guardrails tg)"
    using cs
  proof cases
    case (params w1)
    then show ?thesis using unchangedD [OF ensureParameters_frame [OF params(1)]] by simp
  next
    case (gateway w1 w2)
    then show ?thesis by (simp add: guard_at)
  next
    case (guardrails w1 w2)
    then show ?thesis using ensureGuardrails_error(4) [OF guardrails(3) that] guard_at(2) by simp
  qed
qed

end

end
