(* ===== verification/GatewayProperties.thy ===== *)
theory GatewayProperties
  imports ToolGatewayReconciler
begin

text \<open>
  What the gateway controller guarantees: the facts on whole runs of
  \<open>ToolGateway_Reconcile\<close> (in the locale of its world), a small cluster to run it on, and its
  properties.
\<close>

section \<open>Runs\<close>

text \<open>A Ready gateway does not carry the multi-guard condition.\<close>

definition status_consistent :: "klib \<Rightarrow> condition list \<Rightarrow> bool" where
  "status_consistent lib cs =
     (case l_find_condition lib cs readyConditionType of
        Some c \<Rightarrow> cd_Status c = ConditionTrue \<longrightarrow> l_find_condition lib cs guardrailsUnsupported = None
      | None \<Rightarrow> True)"

text \<open>The results of \<open>CreateOrPatch\<close> with a mutate function that leaves the status alone: none of them is about the status.\<close>

definition spec_results :: "'w client \<Rightarrow> (kobj \<Rightarrow> goerror + kobj) \<Rightarrow> bool" where
  "spec_results cl f = (\<forall>ob w op w'. c_create_or_patch cl ob f w = (Inr op, w') \<longrightarrow> op \<in> {OpNone, OpCreated, OpUpdated})"

context gateway_operator
begin

text \<open>What a status patch leaves of the stored gateway.\<close>

definition merged_tg :: "tool_gateway \<Rightarrow> tool_gateway \<Rightarrow> tool_gateway \<Rightarrow> tool_gateway" where
  "merged_tg base new s =
     s\<lparr>tg_Url := patch_field (tg_Url base) (tg_Url new) (tg_Url s),
       tg_Conditions := patch_field (tg_Conditions base) (tg_Conditions new) (tg_Conditions s)\<rparr>"

lemma patch_tg_frame: "patch_tg r b n w = (x, w') \<Longrightarrow> unchanged_outside {(KToolGateway, meta_key (tg_Meta n))} at w w'"
  by (auto simp: patch_tg_def key_of_def split: prod.splits option.splits intro: patch_unchanged)

lemma patch_tg_at:
  assumes "patch_tg r b n w = (x, w')" and "at w (KToolGateway, meta_key (tg_Meta n)) = Some (OToolGateway s)"
  shows "x = None \<Longrightarrow> at w' (KToolGateway, meta_key (tg_Meta n)) = Some (OToolGateway (merged_tg b n s))"
    and "at w' (KToolGateway, meta_key (tg_Meta n)) \<in> {Some (OToolGateway s), Some (OToolGateway (merged_tg b n s))}"
proof -
  have k: "key_of (OToolGateway n) = (KToolGateway, meta_key (tg_Meta n))" by (simp add: key_of_def)
  have m: "merge_status (OToolGateway b) (OToolGateway n) (OToolGateway s) = OToolGateway (merged_tg b n s)"
    by (simp add: merge_status_def merged_tg_def)
  obtain y where p: "c_patch_status (r_Client r) (OToolGateway b) (OToolGateway n) w = (y, w')" and y: "x = None \<longleftrightarrow> y = None"
    using assms(1) by (auto simp: patch_tg_def split: prod.splits option.splits)
  show 1: "x = None \<Longrightarrow> at w' (KToolGateway, meta_key (tg_Meta n)) = Some (OToolGateway (merged_tg b n s))"
    using patch_ok [of "OToolGateway b" "OToolGateway n" w w'] p y assms(2) by (auto simp: k m)
  show "at w' (KToolGateway, meta_key (tg_Meta n)) \<in> {Some (OToolGateway s), Some (OToolGateway (merged_tg b n s))}"
  proof (cases y)
    case (Some e)
    with patch_error [of "OToolGateway b" "OToolGateway n" w e w'] p assms(2) show ?thesis by (auto simp: k m)
  qed (use 1 y in simp)
qed

text \<open>A run does nothing at all, or the gateway is ours and all phases ran.\<close>

lemma gateway_run:
  assumes run: "ToolGateway_Reconcile r req w = (res, w')" and st: "at w (KToolGateway, req) = Some (OToolGateway tg)"
  obtains (idle) "w' = w"
  | (ready) reason w1 where "\<exists>c. claims_gateway at w tg c" "meta_key (tg_Meta tg) = req"
      "reconcileToolGateway r tg w = ((reason, None), clear_unsupported (r_Lib r) tg, w1)"
      "at w1 (KToolGateway, req) = Some (OToolGateway tg)"
      "updateStatusReady r (clear_unsupported (r_Lib r) tg) w1 = (res, w')"
  | (failed) reason e tg' w1 y where "\<exists>c. claims_gateway at w tg c" "meta_key (tg_Meta tg) = req"
      "reconcileToolGateway r tg w = ((reason, Some e), tg', w1)"
      "at w1 (KToolGateway, req) = Some (OToolGateway tg)"
      "updateStatusNotReady r tg' reason (error_text e) w1 = (y, w')" "res = Some e"
proof (cases "get_as as_tool_gateway (r_Client r) (KToolGateway, req) w")
  case (Inl e)
  then show thesis using idle run by (auto simp: ToolGateway_Reconcile_def split: if_splits)
next
  case (Inr x)
  from get_as_some [OF Inr as_tool_gateway_iff] st have x: "x = tg" and key: "meta_key (tg_Meta tg) = req"
    by (auto simp: key_of_def)
  show thesis
  proof (cases "isToolGatewayOwnedByController (r_Client r) tg w = Inr True")
    case False
    then show ?thesis
      using idle run Inr x
      by (auto simp: ToolGateway_Reconcile_def split: sum.splits bool.splits)
  next
    case True
    then have own: "\<exists>c. claims_gateway at w tg c" using owned_iff by blast
    obtain reason z tg' w1 where rt: "reconcileToolGateway r tg w = ((reason, z), tg', w1)" by (metis prod_cases3 surj_pair)
    have st1: "at w1 (KToolGateway, req) = Some (OToolGateway tg)"
      using unchangedD [OF reconcileToolGateway_frame [OF rt] KGuard_keys(2)] st by simp
    show ?thesis
    proof (cases z)
      case None
      then show ?thesis
        using ready [OF own key _ st1] reconcileToolGateway_ok(1) run Inr x rt True
        by (simp add: ToolGateway_Reconcile_def)
    next
      case (Some e)
      obtain y w2 where y: "updateStatusNotReady r tg' reason (error_text e) w1 = (y, w2)" by fastforce
      show ?thesis
        by (rule failed [OF own key _ st1, of reason e tg' y])
          (use run Inr x rt Some y True in \<open>auto simp: ToolGateway_Reconcile_def\<close>)
    qed
  qed
qed

lemma same_ready: "same_condition d (ready_condition m s reason msg) \<Longrightarrow>
  cd_Status d = s \<and> cd_Reason d = reason \<and> cd_Message d = msg \<and> cd_ObservedGeneration d = m_Generation m"
  by (drule same_condition_fields) (simp add: ready_condition_def)

lemma ready_type [simp]: "cd_Type (ready_condition m s reason msg) = readyConditionType"
  by (simp add: ready_condition_def)

lemma types_differ [simp]: "guardrailsUnsupported \<noteq> readyConditionType" "readyConditionType \<noteq> guardrailsUnsupported"
  by (simp_all add: guardrailsUnsupported_def readyConditionType_def)

lemma found_ready:
  "l_find_condition (r_Lib r) (l_set_condition (r_Lib r) cs (ready_condition m s reason msg)) readyConditionType = Some c \<Longrightarrow>
   cd_Status c = s \<and> cd_Reason c = reason \<and> cd_Message c = msg \<and> cd_ObservedGeneration c = m_Generation m"
  using find_set [of cs "ready_condition m s reason msg"] same_ready by auto

text \<open>When the stored Ready condition changes, it is the outcome of this run.\<close>

lemma gateway_status_written:
  assumes run: "ToolGateway_Reconcile r req w = (res, w')" and st: "at w (KToolGateway, req) = Some (OToolGateway tg)"
    and st': "at w' (KToolGateway, req) = Some (OToolGateway tg')"
    and c: "l_find_condition (r_Lib r) (tg_Conditions tg') readyConditionType = Some c"
    and new: "l_find_condition (r_Lib r) (tg_Conditions tg) readyConditionType \<noteq> Some c"
  obtains (ready) w1 where "\<exists>c. claims_gateway at w tg c" "gateway_settled (r_Lib r) tg (at w1)"
      "unchanged_outside (gateway_keys tg) at w w1" "unchanged_outside {(KToolGateway, req)} at w1 w'"
      "cd_Status c = ConditionTrue" "cd_Reason c = reasonReconciled" "cd_ObservedGeneration c = m_Generation (tg_Meta tg)"
      "tg_Url tg' = gateway_url tg"
      "l_find_condition (r_Lib r) (tg_Conditions tg') guardrailsUnsupported = None"
      "l_set_condition (r_Lib r) (tg_Conditions tg') (ready_condition (tg_Meta tg) ConditionTrue reasonReconciled
         ''Gateway and its backing resources are configured'') = tg_Conditions tg'"
  | (failed) reason e u w1 where "\<exists>c. claims_gateway at w tg c"
      "reconcileToolGateway r tg w = ((reason, Some e), u, w1)" "unchanged_outside {(KToolGateway, req)} at w1 w'"
      "cd_Status c = ConditionFalse" "cd_Reason c = reason" "cd_Message c = error_text e"
      "cd_ObservedGeneration c = m_Generation (tg_Meta tg)" "res = Some e" "tg_Url tg' = tg_Url tg"
      "tg_Conditions tg' = tg_Conditions (tg_not_ready (r_Lib r) u reason (error_text e))"
proof -
  show thesis
  proof (cases rule: gateway_run [OF run st, case_names idle ready failed])
    case idle
    with st st' c new show thesis by simp
  next
    case (ready reason w1)
    let ?b = "clear_unsupported (r_Lib r) tg"
    have p: "patch_tg r ?b (tg_ready (r_Lib r) ?b) w1 = (res, w')" using ready(5) by (simp add: updateStatusReady_def)
    have m: "meta_key (tg_Meta (tg_ready (r_Lib r) ?b)) = req" using ready(2) by (simp add: tg_ready_def clear_unsupported_def)
    from patch_tg_at(2) [OF p] st' ready(4) m c new
    have tg': "tg' = merged_tg ?b (tg_ready (r_Lib r) ?b) tg" by auto
    have "tg_Conditions ?b \<noteq> tg_Conditions (tg_ready (r_Lib r) ?b)"
      using c new tg' by (auto simp: merged_tg_def patch_field_def)
    then have cs: "tg_Conditions tg' = l_set_condition (r_Lib r) (tg_Conditions ?b)
       (ready_condition (tg_Meta tg) ConditionTrue reasonReconciled ''Gateway and its backing resources are configured'')"
      using tg' by (simp add: merged_tg_def patch_field_def tg_ready_def clear_unsupported_def)
    show thesis
    proof (rule that(1) [OF ready(1)])
      show "gateway_settled (r_Lib r) tg (at w1)" by (rule reconcileToolGateway_ok(2) [OF ready(3)])
      show "unchanged_outside (gateway_keys tg) at w w1" by (rule reconcileToolGateway_frame [OF ready(3)])
      show "unchanged_outside {(KToolGateway, req)} at w1 w'" using patch_tg_frame [OF p] m by simp
      show "tg_Url tg' = gateway_url tg"
        by (simp add: tg' merged_tg_def patch_field_def tg_ready_def clear_unsupported_def gateway_url_def)
      show "l_find_condition (r_Lib r) (tg_Conditions tg') guardrailsUnsupported = None"
        by (simp add: cs find_set_other clear_unsupported_def find_remove)
    qed (use found_ready c cs set_set in auto)
  next
    case (failed reason e u w1 y)
    have p: "patch_tg r u (tg_not_ready (r_Lib r) u reason (error_text e)) w1 = (y, w')"
      using failed(5) by (simp add: updateStatusNotReady_def)
    have u: "tg_Meta u = tg_Meta tg" "tg_Url u = tg_Url tg"
      using reconcileToolGateway_error(1) [OF failed(3)] by auto
    have m: "meta_key (tg_Meta (tg_not_ready (r_Lib r) u reason (error_text e))) = req"
      using failed(2) u by (simp add: tg_not_ready_def)
    from patch_tg_at(2) [OF p] st' failed(4) m c new
    have tg': "tg' = merged_tg u (tg_not_ready (r_Lib r) u reason (error_text e)) tg" by auto
    then have cs: "tg_Conditions tg' = tg_Conditions (tg_not_ready (r_Lib r) u reason (error_text e))"
      using c new by (auto simp: merged_tg_def patch_field_def split: if_splits)
    show thesis
    proof (rule that(2) [OF failed(1,3)])
      show "unchanged_outside {(KToolGateway, req)} at w1 w'" using patch_tg_frame [OF p] m by simp
      show "tg_Url tg' = tg_Url tg"
        by (simp add: tg' merged_tg_def patch_field_def tg_not_ready_def)
    qed (use found_ready c cs failed(6) u in \<open>auto simp: tg_not_ready_def\<close>)
  qed
qed

section \<open>The status invariant\<close>

lemma gateway_status_invariant:
  assumes run: "ToolGateway_Reconcile r req w = (res, w')" and st: "at w (KToolGateway, req) = Some (OToolGateway tg)"
    and inv: "status_consistent (r_Lib r) (tg_Conditions tg)"
  shows "\<exists>tg'. at w' (KToolGateway, req) = Some (OToolGateway tg') \<and> status_consistent (r_Lib r) (tg_Conditions tg')"
proof (cases rule: gateway_run [OF run st, case_names idle ready failed])
  case idle
  with st inv show ?thesis by simp
next
  case (ready reason w1)
  let ?b = "clear_unsupported (r_Lib r) tg"
  let ?n = "tg_ready (r_Lib r) ?b"
  have p: "patch_tg r ?b ?n w1 = (res, w')" using ready(5) by (simp add: updateStatusReady_def)
  have m: "meta_key (tg_Meta ?n) = req" using ready(2) by (simp add: tg_ready_def clear_unsupported_def)
  have "status_consistent (r_Lib r) (tg_Conditions (merged_tg ?b ?n tg))"
  proof (cases "tg_Conditions ?b = tg_Conditions ?n")
    case True
    then show ?thesis using inv by (simp add: merged_tg_def patch_field_def)
  next
    case False
    then have "tg_Conditions (merged_tg ?b ?n tg) = tg_Conditions ?n" by (simp add: merged_tg_def patch_field_def)
    then show ?thesis
      by (simp add: status_consistent_def tg_ready_def clear_unsupported_def find_set_other find_remove split: option.split)
  qed
  with inv patch_tg_at(2) [OF p] ready(4) m show ?thesis by auto
next
  case (failed reason e u w1 y)
  let ?n = "tg_not_ready (r_Lib r) u reason (error_text e)"
  have p: "patch_tg r u ?n w1 = (y, w')" using failed(5) by (simp add: updateStatusNotReady_def)
  have u: "tg_Meta u = tg_Meta tg" using reconcileToolGateway_error(1) [OF failed(3)] by auto
  have m: "meta_key (tg_Meta ?n) = req" using failed(2) u by (simp add: tg_not_ready_def)
  have "status_consistent (r_Lib r) (tg_Conditions (merged_tg u ?n tg))"
  proof (cases "tg_Conditions u = tg_Conditions ?n")
    case True
    then show ?thesis using inv by (simp add: merged_tg_def patch_field_def)
  next
    case False
    then have e: "tg_Conditions (merged_tg u ?n tg) = tg_Conditions ?n" by (simp add: merged_tg_def patch_field_def)
    show ?thesis unfolding e
      using found_ready
      by (auto simp: status_consistent_def tg_not_ready_def ConditionTrue_def ConditionFalse_def split: option.split)
  qed
  with inv patch_tg_at(2) [OF p] failed(4) m show ?thesis by auto
qed

section \<open>The second run\<close>

lemma cop_settled:
  assumes "at w (key_of ob) = Some st" "f st = Inr st" "c_create_or_patch (r_Client r) ob f w = (Inr op, w')"
  shows "op = OpNone" "at w' = at w" "events w' = events w"
  using cop_fixpoint [OF assms] cop_log [of ob f w] assms(3) by auto

lemma emit_events_none [simp]: "events (emit_op r k a b c OpNone w) = events w"
  by simp

lemma ensureGateway_fix:
  assumes "ensureGateway r tg w = (None, w')" "at w (KGateway, tg_name_key tg) = Some (OGateway gw)"
    "gateway_mutate (r_Lib r) tg gw = Inr gw"
  shows "at w' = at w \<and> events w' = events w"
proof -
  let ?ob = "OGateway \<lparr>gw_Meta = new_meta (m_Name (tg_Meta tg)) (m_Namespace (tg_Meta tg)), gw_Spec = empty_gateway_spec\<rparr>"
  obtain op w1 where c: "c_create_or_patch (r_Client r) ?ob (on_gateway (gateway_mutate (r_Lib r) tg)) w = (Inr op, w1)"
    and w': "w' = emit_op r (tg_key tg) ''Gateway'' ''Gateway'' (m_Name (tg_Meta tg)) op w1"
    using assms(1) by (auto simp: ensureGateway_def split: prod.splits sum.splits)
  have a: "at w (key_of ?ob) = Some (OGateway gw)" using assms(2) by (simp add: key_of_def tg_name_key_def meta_key_def new_meta_def)
  have f: "on_gateway (gateway_mutate (r_Lib r) tg) (OGateway gw) = Inr (OGateway gw)"
    using assms(3) by (simp add: on_gateway_def)
  show ?thesis using cop_settled [OF a f c] w' by simp
qed

lemma ensureParameters_fix:
  assumes "ensureAgentgatewayParameters r tg w = (None, w')" "at w (KParameters, tg_name_key tg) = Some (OUnstructured u)"
    "params_mutate (r_Lib r) tg u = Inr u"
  shows "at w' = at w \<and> events w' = events w"
proof -
  let ?ob = "OUnstructured (newAgentgatewayParameters (m_Name (tg_Meta tg)) (m_Namespace (tg_Meta tg)))"
  obtain op w1 where c: "c_create_or_patch (r_Client r) ?ob (on_unstructured (params_mutate (r_Lib r) tg)) w = (Inr op, w1)"
    and w': "w' = emit_op r (tg_key tg) ''AgentgatewayParameters'' ''AgentgatewayParameters'' (m_Name (tg_Meta tg)) op w1"
    using assms(1) by (auto simp: ensureAgentgatewayParameters_def split: prod.splits sum.splits)
  have a: "at w (key_of ?ob) = Some (OUnstructured u)" using assms(2) by (simp add: tg_name_key_def meta_key_def)
  have f: "on_unstructured (params_mutate (r_Lib r) tg) (OUnstructured u) = Inr (OUnstructured u)"
    using assms(3) by (simp add: on_unstructured_def)
  show ?thesis using cop_settled [OF a f c] w' by simp
qed

lemma ensureGuardrails_fix:
  assumes "ensureGuardrails r tg w = (None, tg', w')" "policy_settled tg (at w)"
  shows "at w' = at w \<and> events w' = events w"
proof (cases "tg_Guardrails tg")
  case Nil
  obtain dr w1 where d: "c_delete (r_Client r) (KPolicy, guardrail_key tg) w = (dr, w1)" by fastforce
  then have "(case dr of None \<Rightarrow> True | Some e \<Rightarrow> is_not_found e)" "w' = w1"
    using assms(1) Nil by (auto simp: ensureGuardrails_def guardrail_key_def Let_def split: option.splits if_splits)
  with delete_gone [OF d] have "at w' (KPolicy, guardrail_key tg) = at w (KPolicy, guardrail_key tg)"
    using assms(2) Nil by (simp add: policy_settled_def)
  then have "at w' k = at w k" for k
    using unchangedD [OF ensureGuardrails_frame [OF assms(1)], of k] by (cases "k = (KPolicy, guardrail_key tg)") auto
  then show ?thesis using delete_log [of "(KPolicy, guardrail_key tg)" w] d \<open>w' = w1\<close> by auto
next
  case (Cons ref rest)
  with assms(2) have "rest = []" by (cases rest) (auto simp: policy_settled_def)
  note refs = Cons [unfolded this]
  let ?ob = "OUnstructured (newAgentgatewayPolicy (guardrail_name tg) (m_Namespace (tg_Meta tg)))"
  obtain op w1 where c: "c_create_or_patch (r_Client r) ?ob (on_unstructured (guardrail_mutate (r_Lib r) tg (guard_ref_key tg ref))) w = (Inr op, w1)"
    and w': "w' = emit_op r (tg_key tg) ''GuardrailPolicy'' ''guardrail policy'' (guardrail_name tg) op w1"
    using assms(1) refs by (auto simp: ensureGuardrails_def Let_def split: option.splits sum.splits prod.splits)
  obtain v where v: "at w (key_of ?ob) = Some (OUnstructured v)" "guardrail_mutate (r_Lib r) tg (guard_ref_key tg ref) v = Inr v"
    using assms(2) refs by (auto simp: policy_settled_def guardrail_key_def)
  have "on_unstructured (guardrail_mutate (r_Lib r) tg (guard_ref_key tg ref)) (OUnstructured v) = Inr (OUnstructured v)"
    using v(2) by (simp add: on_unstructured_def)
  then show ?thesis using cop_settled [OF v(1) _ c] w' by simp
qed

lemma reconcileToolGateway_fix:
  assumes "reconcileToolGateway r tg w = ((reason, None), tg', w')" "gateway_settled (r_Lib r) tg (at w)"
  shows "at w' = at w \<and> events w' = events w"
proof -
  obtain w1 w2 where 1: "ensureAgentgatewayParameters r tg w = (None, w1)" and 2: "ensureGateway r tg w1 = (None, w2)"
    and 3: "ensureGuardrails r tg w2 = (None, tg', w')"
    using assms(1) by (auto simp: reconcileToolGateway_def split: prod.splits option.splits)
  show ?thesis
    using assms(2) ensureParameters_fix [OF 1] ensureGateway_fix [OF 2] ensureGuardrails_fix [OF 3]
    unfolding gateway_settled_alt by auto
qed

text \<open>The steps do not look at the status.\<close>

lemma same_tg_mutate:
  assumes "tg_Meta a = tg_Meta b" "tg_Env a = tg_Env b" "tg_EnvFrom a = tg_EnvFrom b" "tg_Guardrails a = tg_Guardrails b"
  shows "gateway_settled lib a store = gateway_settled lib b store" "gateway_url a = gateway_url b"
proof -
  have k: "tg_name_key a = tg_name_key b" "guardrail_key a = guardrail_key b" "guard_ref_key a = guard_ref_key b"
    using assms by (auto simp: tg_name_key_def guardrail_key_def guardrail_name_def guard_ref_key_def fun_eq_iff)
  have m: "gateway_mutate lib a gw = gateway_mutate lib b gw" "guardrail_mutate lib a gk u = guardrail_mutate lib b gk u"
    "setAgentgatewayParametersSpec lib u a = setAgentgatewayParametersSpec lib u b" for gw u gk
    by (simp_all only: gateway_mutate_def guardrail_mutate_def setAgentgatewayParametersSpec_def assms)
  then have p: "params_mutate lib a u = params_mutate lib b u" for u
    by (simp only: params_mutate_def assms)
  show "gateway_settled lib a store = gateway_settled lib b store"
    unfolding gateway_settled_def k m p assms(4) by (rule refl)
  show "gateway_url a = gateway_url b" using assms by (simp add: gateway_url_def)
qed

lemma store_cong:
  assumes "\<And>j. fst j \<noteq> KToolGateway \<Longrightarrow> s1 j = s2 j"
  shows "gateway_settled lib tg s1 = gateway_settled lib tg s2" "gateway_serves lib tg s1 = gateway_serves lib tg s2"
proof -
  have e: "s1 (KGateway, k) = s2 (KGateway, k)" "s1 (KParameters, k) = s2 (KParameters, k)"
    "s1 (KPolicy, k) = s2 (KPolicy, k)" "s1 (KGuard, k) = s2 (KGuard, k)" for k
    by (rule assms; simp)+
  show "gateway_settled lib tg s1 = gateway_settled lib tg s2" "gateway_serves lib tg s1 = gateway_serves lib tg s2"
    unfolding gateway_settled_def gateway_serves_def e by (rule refl)+
qed

lemma gateway_spec_kept:
  assumes run: "ToolGateway_Reconcile r req w = (res, w')"
    and st: "at w (KToolGateway, req) = Some (OToolGateway tg)"
  shows "\<exists>u cs. at w' (KToolGateway, req) = Some (OToolGateway (tg\<lparr>tg_Url := u, tg_Conditions := cs\<rparr>))"
proof (cases rule: gateway_run [OF run st, case_names idle ready failed])
  case idle
  have "tg\<lparr>tg_Url := tg_Url tg, tg_Conditions := tg_Conditions tg\<rparr> = tg" by simp
  with idle st show ?thesis by metis
next
  case (ready reason w1)
  have same: "tg\<lparr>tg_Url := tg_Url tg, tg_Conditions := tg_Conditions tg\<rparr> = tg" by simp
  show ?thesis
    using patch_tg_at(2) [OF ready(5) [unfolded updateStatusReady_def], of tg] ready(2,4)
    by (auto simp: tg_ready_def clear_unsupported_def merged_tg_def) (metis same)
next
  case (failed reason e u w1 y)
  have same: "tg\<lparr>tg_Url := tg_Url tg, tg_Conditions := tg_Conditions tg\<rparr> = tg" by simp
  have "tg_Meta u = tg_Meta tg" using reconcileToolGateway_error(1) [OF failed(3)] by auto
  then show ?thesis
    using patch_tg_at(2) [OF failed(5) [unfolded updateStatusNotReady_def], of tg] failed(2,4)
    by (auto simp: tg_not_ready_def merged_tg_def) (metis same)
qed

lemma gateway_second_run:
  assumes run1: "ToolGateway_Reconcile r req w = (None, w1)"
    and st: "at w (KToolGateway, req) = Some (OToolGateway tg)"
    and st1: "at w1 (KToolGateway, req) = Some (OToolGateway tg1)"
    and c: "l_find_condition (r_Lib r) (tg_Conditions tg1) readyConditionType = Some c"
    and new: "l_find_condition (r_Lib r) (tg_Conditions tg) readyConditionType \<noteq> Some c"
    and run2: "ToolGateway_Reconcile r req w1 = (None, w2)"
  shows "at w2 k = at w1 k \<and> events w2 = events w1"
proof (cases rule: gateway_status_written [OF run1 st st1 c new, case_names ready failed])
  case (ready v)
  have tg1: "tg_Meta tg1 = tg_Meta tg" "tg_Env tg1 = tg_Env tg" "tg_EnvFrom tg1 = tg_EnvFrom tg" "tg_Guardrails tg1 = tg_Guardrails tg"
    using gateway_spec_kept [OF run1 st] st1 by auto
  have "at w1 j = at v j" if "fst j \<noteq> KToolGateway" for j
    using unchangedD [OF ready(4), of j] that by (cases j) auto
  then have "gateway_settled (r_Lib r) tg (at w1) = gateway_settled (r_Lib r) tg (at v)"
    by (rule store_cong(1))
  then have settled: "gateway_settled (r_Lib r) tg1 (at w1)" using ready(2) same_tg_mutate(1) [OF tg1] by simp
  show ?thesis
  proof (cases rule: gateway_run [OF run2 st1, case_names idle ready2 failed2])
    case (ready2 reason w3)
    note fix3 = reconcileToolGateway_fix [OF ready2(3) settled]
    have clear: "clear_unsupported (r_Lib r) tg1 = tg1"
      using remove_none [OF ready(9)] by (simp add: clear_unsupported_def)
    have "tg_ready (r_Lib r) tg1 = tg1"
      using ready(8,10) tg1(1) same_tg_mutate(2) [OF tg1] by (simp add: tg_ready_def)
    then have p: "patch_tg r tg1 tg1 w3 = (None, w2)" using ready2(5) by (simp add: updateStatusReady_def clear)
    have m: "merged_tg tg1 tg1 tg1 = tg1" by (simp add: merged_tg_def patch_field_def)
    have "at w2 k = at w3 k"
      using patch_tg_at(2) [OF p, of tg1] ready2(2,4) m unchangedD [OF patch_tg_frame [OF p], of k]
      by (cases "k = (KToolGateway, req)") auto
    moreover have "events w2 = events w3"
      using p patch_log [of "OToolGateway tg1" "OToolGateway tg1" w3] by (auto simp: patch_tg_def split: prod.splits option.splits)
    ultimately show ?thesis using fix3 by simp
  qed simp_all
qed simp

section \<open>Objects of others\<close>

lemma ensureGateway_refused:
  assumes "at w (KGateway, tg_name_key tg) = Some ob" "controller_of (meta_of ob) = Some c" "c \<noteq> (KToolGateway, m_Name (tg_Meta tg))"
    and e: "ensureGateway r tg w = (x, w')"
  shows "at w' (KGateway, tg_name_key tg) = Some ob"
proof -
  have "on_gateway (gateway_mutate (r_Lib r) tg) ob \<noteq> Inr y" for y
    using set_controller_refused [OF assms(2,3)]
    by (cases ob) (auto simp: on_gateway_def gateway_mutate_def split: sum.split)
  then show ?thesis
    using e assms(1) cop_refuses(1)
    by (fastforce simp: ensureGateway_def key_of_def tg_name_key_def meta_key_def new_meta_def Let_def split: prod.splits sum.splits)
qed

lemma ensureParameters_refused:
  assumes "at w (KParameters, tg_name_key tg) = Some ob" "controller_of (meta_of ob) = Some c" "c \<noteq> (KToolGateway, m_Name (tg_Meta tg))"
    and e: "ensureAgentgatewayParameters r tg w = (x, w')"
  shows "at w' (KParameters, tg_name_key tg) = Some ob"
proof -
  have "on_unstructured (params_mutate (r_Lib r) tg) ob \<noteq> Inr y" for y
    using set_controller_refused [OF assms(2,3)]
    by (cases ob) (auto simp: on_unstructured_def params_mutate_def split: sum.split)
  then show ?thesis
    using e assms(1) cop_refuses(1)
    by (fastforce simp: ensureAgentgatewayParameters_def tg_name_key_def meta_key_def Let_def split: prod.splits sum.splits)
qed

lemma gateway_frame:
  assumes run: "ToolGateway_Reconcile r req w = (res, w')" and st: "at w (KToolGateway, req) = Some (OToolGateway tg)"
    and ch: "at w' k \<noteq> at w k"
  shows "(\<exists>c. claims_gateway at w tg c) \<and> k \<in> insert (KToolGateway, req) (gateway_keys tg)"
proof (cases rule: gateway_run [OF run st, case_names idle ready failed])
  case (ready reason w1)
  have u1: "unchanged_outside {(KToolGateway, req)} at w1 w'"
    using patch_tg_frame [OF ready(5) [unfolded updateStatusReady_def]] ready(2) by (simp add: tg_ready_def clear_unsupported_def)
  show ?thesis
    using unchangedD [OF u1, of k] unchangedD [OF reconcileToolGateway_frame [OF ready(3)], of k] ch ready(1) by (metis insertI1 insertI2 singletonD)
next
  case (failed reason e u w1 y)
  have "tg_Meta u = tg_Meta tg" using reconcileToolGateway_error(1) [OF failed(3)] by auto
  then have u1: "unchanged_outside {(KToolGateway, req)} at w1 w'"
    using patch_tg_frame [OF failed(5) [unfolded updateStatusNotReady_def]] failed(2) by (simp add: tg_not_ready_def)
  show ?thesis
    using unchangedD [OF u1, of k] unchangedD [OF reconcileToolGateway_frame [OF failed(3)], of k] ch failed(1) by (metis insertI1 insertI2 singletonD)
qed (use ch in simp)

lemma reconcile_refused:
  assumes "k \<in> {(KGateway, tg_name_key tg), (KParameters, tg_name_key tg)}"
    and "at w k = Some ob" "controller_of (meta_of ob) = Some c" "c \<noteq> (KToolGateway, m_Name (tg_Meta tg))"
    and run: "reconcileToolGateway r tg w = (x, u, w')"
  shows "at w' k = Some ob"
proof -
  have p: "at w1 k = Some ob" if e: "ensureAgentgatewayParameters r tg v = (z, w1)" and v: "at v k = Some ob" for z v w1
    using assms(1) v ensureParameters_refused [OF _ assms(3,4) e] unchangedD [OF ensureParameters_frame [OF e], of k] by auto
  have g: "at w1 k = Some ob" if e: "ensureGateway r tg v = (z, w1)" and v: "at v k = Some ob" for z v w1
    using assms(1) v ensureGateway_refused [OF _ assms(3,4) e] unchangedD [OF ensureGateway_frame [OF e], of k] by auto
  have q: "at w1 k = Some ob" if e: "ensureGuardrails r tg v = (z, u', w1)" and v: "at v k = Some ob" for z u' v w1
    using assms(1) v unchangedD [OF ensureGuardrails_frame [OF e], of k] by auto
  show ?thesis
    using run assms(2)
    by (auto simp: reconcileToolGateway_def split: prod.splits option.splits intro: p g [OF _ p] q [OF _ g [OF _ p]])
qed

lemma gateway_refused:
  assumes st: "at w (KToolGateway, req) = Some (OToolGateway tg)"
    and k: "k \<in> {(KGateway, tg_name_key tg), (KParameters, tg_name_key tg)}"
    and foreign: "at w k = Some ob" "controller_of (meta_of ob) = Some c" "c \<noteq> (KToolGateway, m_Name (tg_Meta tg))"
    and run: "ToolGateway_Reconcile r req w = (res, w')"
  shows "at w' k = Some ob"
proof (cases rule: gateway_run [OF run st, case_names idle ready failed])
  case (ready reason w1)
  have u1: "unchanged_outside {(KToolGateway, req)} at w1 w'"
    using patch_tg_frame [OF ready(5) [unfolded updateStatusReady_def]] ready(2) by (simp add: tg_ready_def clear_unsupported_def)
  show ?thesis using reconcile_refused [OF k foreign ready(3)] k unchangedD [OF u1, of k] by auto
next
  case (failed reason e u w1 y)
  have "tg_Meta u = tg_Meta tg" using reconcileToolGateway_error(1) [OF failed(3)] by auto
  then have u1: "unchanged_outside {(KToolGateway, req)} at w1 w'"
    using patch_tg_frame [OF failed(5) [unfolded updateStatusNotReady_def]] failed(2) by (simp add: tg_not_ready_def)
  show ?thesis using reconcile_refused [OF k foreign failed(3)] k unchangedD [OF u1, of k] by auto
qed (use foreign in simp)

text \<open>More than one guard: the condition goes with the reason.\<close>

lemma multi_guard_failed:
  assumes run: "reconcileToolGateway r tg w = ((reason, Some e), u, w1)" and m: "1 < length (tg_Guardrails tg)"
  shows "at w1 (KPolicy, guardrail_key tg) = at w (KPolicy, guardrail_key tg)"
    and "reason \<in> {reasonAgentgatewayParametersFailed, reasonGatewayFailed, reasonGuardrailsFailed}"
    and "reason = reasonGuardrailsFailed \<Longrightarrow>
      \<exists>d. l_find_condition (r_Lib r) (tg_Conditions (tg_not_ready (r_Lib r) u reason m2)) guardrailsUnsupported = Some d
         \<and> cd_Status d = ConditionTrue \<and> cd_Reason d = ''MultipleGuardsNotSupported''"
proof -
  note err = reconcileToolGateway_error [OF run]
  show "at w1 (KPolicy, guardrail_key tg) = at w (KPolicy, guardrail_key tg)" by (rule err(6) [OF m])
  show "reason \<in> {reasonAgentgatewayParametersFailed, reasonGatewayFailed, reasonGuardrailsFailed}"
    using err(3-5) m by auto
  assume "reason = reasonGuardrailsFailed"
  with err(1,2) m have u: "u = tg\<lparr>tg_Conditions := l_set_condition (r_Lib r) (tg_Conditions tg) (unsupported_condition tg)\<rparr>"
    by (auto simp: gateway_reasons)
  have t: "cd_Type (unsupported_condition tg) = guardrailsUnsupported" by (simp add: unsupported_condition_def)
  obtain d where "l_find_condition (r_Lib r) (l_set_condition (r_Lib r) (tg_Conditions tg) (unsupported_condition tg)) guardrailsUnsupported = Some d"
    "same_condition d (unsupported_condition tg)"
    using find_set [of "tg_Conditions tg" "unsupported_condition tg"] t by auto
  then show "\<exists>d. l_find_condition (r_Lib r) (tg_Conditions (tg_not_ready (r_Lib r) u reason m2)) guardrailsUnsupported = Some d
         \<and> cd_Status d = ConditionTrue \<and> cd_Reason d = ''MultipleGuardsNotSupported''"
    by (auto simp: u tg_not_ready_def find_set_other unsupported_condition_def dest!: same_condition_fields)
qed

section \<open>The phases of a run\<close>

text \<open>The phases of a failed run: the ones before the failing one have succeeded.\<close>

lemma reconcileToolGateway_phases:
  assumes "reconcileToolGateway r tg w = ((reason, Some e), u, w')"
  obtains (parameters) "ensureAgentgatewayParameters r tg w = (Some e, w')"
      "reason = ''AgentgatewayParametersReconciliationFailed''"
    | (gateway) w1 where "ensureAgentgatewayParameters r tg w = (None, w1)" "ensureGateway r tg w1 = (Some e, w')"
        "reason = ''GatewayReconciliationFailed''"
    | (guardrails) w1 w2 where "ensureAgentgatewayParameters r tg w = (None, w1)" "ensureGateway r tg w1 = (None, w2)"
        "ensureGuardrails r tg w2 = (Some e, u, w')"
        "reason = (if errors_is e errGuardNotFound then ''GuardNotFound'' else if errors_is e errGuardNotReady then ''GuardNotReady''
           else ''GuardrailsReconciliationFailed'')"
  using assms
  by (auto simp: reconcileToolGateway_def guardrails_reason_def gateway_reasons split: prod.splits option.splits if_splits)

lemma parameters_written:
  assumes "ensureAgentgatewayParameters r tg w = (None, w1)" and "at w' (KParameters, tg_name_key tg) = at w1 (KParameters, tg_name_key tg)"
  shows "\<exists>u. at w' (KParameters, tg_name_key tg) = Some (OUnstructured u) \<and> parameters_match (r_Lib r) tg (us_Object u)"
  using ensureParameters_ok [OF assms(1)] params_mutate_ok(2) assms(2) by auto

lemma gateway_written:
  assumes "ensureGateway r tg w = (None, w1)" and "at w' (KGateway, tg_name_key tg) = at w1 (KGateway, tg_name_key tg)"
  shows "\<exists>gw. at w' (KGateway, tg_name_key tg) = Some (OGateway gw) \<and> gw_Spec gw = gateway_spec_of (m_Name (tg_Meta tg))"
  using ensureGateway_ok [OF assms(1)] gateway_mutate_ok assms(2) by auto

text \<open>A failed phase stops the run: the objects of the earlier phases are in place, those of the later ones as before.\<close>

lemma failed_phase:
  assumes run: "reconcileToolGateway r tg w = ((reason, Some e), u, w1)" and self: "unchanged_outside {(KToolGateway, req)} at w1 w'"
  obtains (parameters) "reason = ''AgentgatewayParametersReconciliationFailed''" "ensureAgentgatewayParameters r tg w = (Some e, w1)"
      "unchanged_outside {(KToolGateway, req), (KParameters, tg_name_key tg)} at w w'"
    | (gateway) v where "reason = ''GatewayReconciliationFailed''"
      "ensureAgentgatewayParameters r tg w = (None, v)" "ensureGateway r tg v = (Some e, w1)"
      "unchanged_outside {(KToolGateway, req), (KParameters, tg_name_key tg), (KGateway, tg_name_key tg)} at w w'"
      "\<exists>p. at w' (KParameters, tg_name_key tg) = Some (OUnstructured p) \<and> parameters_match (r_Lib r) tg (us_Object p)"
    | (guardrails) v v' where "reason = (if errors_is e errGuardNotFound then ''GuardNotFound''
           else if errors_is e errGuardNotReady then ''GuardNotReady'' else ''GuardrailsReconciliationFailed'')"
      "ensureAgentgatewayParameters r tg w = (None, v)" "ensureGateway r tg v = (None, v')" "ensureGuardrails r tg v' = (Some e, u, w1)"
      "\<exists>p. at w' (KParameters, tg_name_key tg) = Some (OUnstructured p) \<and> parameters_match (r_Lib r) tg (us_Object p)"
      "\<exists>gw. at w' (KGateway, tg_name_key tg) = Some (OGateway gw) \<and> gw_Spec gw = gateway_spec_of (m_Name (tg_Meta tg))"
proof -
  have other: "at w' k = at w1 k" if "fst k \<noteq> KToolGateway" for k
    using unchangedD [OF self, of k] that by (cases k) auto
  have two: "unchanged_outside (insert (KToolGateway, req) K) at w w'" if "unchanged_outside K at w w1" for K
    by (rule unchanged_trans [where w' = w1]) (rule unchanged_mono [OF that], blast, rule unchanged_mono [OF self], blast)
  from run show thesis
  proof (cases rule: reconcileToolGateway_phases)
    case parameters
    with two [OF ensureParameters_frame [OF parameters(1)]] that(1) show thesis by blast
  next
    case (gateway v)
    have "unchanged_outside {(KParameters, tg_name_key tg), (KGateway, tg_name_key tg)} at w w1"
      by (rule unchanged_trans [where w' = v])
        (rule unchanged_mono [OF ensureParameters_frame [OF gateway(1)]], blast,
         rule unchanged_mono [OF ensureGateway_frame [OF gateway(2)]], blast)
    moreover have "at w' (KParameters, tg_name_key tg) = at v (KParameters, tg_name_key tg)"
      using other unchangedD [OF ensureGateway_frame [OF gateway(2)]] by simp
    ultimately show thesis using that(2) gateway two parameters_written by blast
  next
    case (guardrails v v')
    have "at w' (KParameters, tg_name_key tg) = at v (KParameters, tg_name_key tg)"
      "at w' (KGateway, tg_name_key tg) = at v' (KGateway, tg_name_key tg)"
      using other unchangedD [OF ensureGateway_frame [OF guardrails(2)]] unchangedD [OF ensureGuardrails_frame [OF guardrails(3)]] by simp_all
    with that(3) guardrails parameters_written gateway_written show thesis by blast
  qed
qed

text \<open>A run for a gateway of ours that returns no error went through all phases.\<close>

lemma owned_run_ok:
  assumes run: "ToolGateway_Reconcile r req w = (None, w')" and st: "at w (KToolGateway, req) = Some (OToolGateway tg)"
    and own: "claims_gateway at w tg cls"
  obtains w1 where "reconcileToolGateway r tg w = (([], None), clear_unsupported (r_Lib r) tg, w1)"
    "updateStatusReady r (clear_unsupported (r_Lib r) tg) w1 = (None, w')" "meta_key (tg_Meta tg) = req"
proof (cases "get_as as_tool_gateway (r_Client r) (KToolGateway, req) w")
  case (Inl e)
  have "\<And>ob e. as_tool_gateway ob = Inl e \<Longrightarrow> e = decode_error" by (case_tac ob) simp_all
  with Inl get_as_missing [OF Inl] st have "\<not> is_not_found e" by auto
  with run Inl that show thesis by (simp add: ToolGateway_Reconcile_def)
next
  case (Inr x)
  from get_as_some [OF Inr as_tool_gateway_iff] st have x: "x = tg" and key: "meta_key (tg_Meta tg) = req"
    by (auto simp: key_of_def)
  have "isToolGatewayOwnedByController (r_Client r) tg w \<noteq> Inr False" using owned_iff [of tg w False] own by auto
  then have true: "isToolGatewayOwnedByController (r_Client r) tg w = Inr True"
    using run Inr x by (auto simp: ToolGateway_Reconcile_def split: sum.splits bool.splits)
  obtain reason z u w1 where rt: "reconcileToolGateway r tg w = ((reason, z), u, w1)" by (metis prod_cases3 surj_pair)
  with run Inr x true have z: "z = None" "updateStatusReady r u w1 = (None, w')"
    by (auto simp: ToolGateway_Reconcile_def split: option.splits prod.splits)
  have "reason = []" using rt z(1) by (auto simp: reconcileToolGateway_def split: prod.splits option.splits)
  with rt z reconcileToolGateway_ok(1) [of tg w reason u w1] that key show thesis by simp
qed

lemma other_kinds_status: "unchanged_outside {(KToolGateway, req)} at w w' \<Longrightarrow> fst k \<noteq> KToolGateway \<Longrightarrow> at w' k = at w k"
  by (cases k) (auto dest: unchangedD)

lemma patch_ready_frame:
  "updateStatusReady r (clear_unsupported (r_Lib r) tg) w = (x, w') \<Longrightarrow> meta_key (tg_Meta tg) = req \<Longrightarrow>
   unchanged_outside {(KToolGateway, req)} at w w'"
  unfolding updateStatusReady_def by (drule patch_tg_frame) (simp add: tg_ready_def clear_unsupported_def)

text \<open>Several guards: no run succeeds, and the policy is not touched.\<close>

lemma multi_guard_run:
  assumes run: "ToolGateway_Reconcile r req w = (res, w')" and st: "at w (KToolGateway, req) = Some (OToolGateway tg)"
    and own: "claims_gateway at w tg cls" and m: "1 < length (tg_Guardrails tg)"
  shows "res \<noteq> None" "at w' (KPolicy, guardrail_key tg) = at w (KPolicy, guardrail_key tg)"
    and "\<exists>tg'. at w' (KToolGateway, req) = Some (OToolGateway tg') \<and> (tg' = tg \<or>
      (\<exists>e reason u. res = Some e \<and> (\<exists>w1. reconcileToolGateway r tg w = ((reason, Some e), u, w1))
          \<and> tg_Conditions tg' = tg_Conditions (tg_not_ready (r_Lib r) u reason (error_text e))))"
proof -
  have no: "reconcileToolGateway r tg w \<noteq> ((reason, None), u, w1)" for reason u w1
    using reconcileToolGateway_ok(2) [of tg w reason u w1] m by (auto simp: gateway_settled_def split: list.splits)
  show "res \<noteq> None"
  proof
    assume "res = None"
    with run owned_run_ok [OF _ st own, of w'] no show False by metis
  qed
  have "at w' (KPolicy, guardrail_key tg) = at w (KPolicy, guardrail_key tg)
     \<and> (\<exists>tg'. at w' (KToolGateway, req) = Some (OToolGateway tg') \<and> (tg' = tg \<or>
      (\<exists>e reason u. res = Some e \<and> (\<exists>w1. reconcileToolGateway r tg w = ((reason, Some e), u, w1))
          \<and> tg_Conditions tg' = tg_Conditions (tg_not_ready (r_Lib r) u reason (error_text e)))))"
  proof (cases rule: gateway_run [OF run st, case_names idle ready failed])
    case (failed reason e u w1 y)
    let ?n = "tg_not_ready (r_Lib r) u reason (error_text e)"
    have p: "patch_tg r u ?n w1 = (y, w')" using failed(5) by (simp add: updateStatusNotReady_def)
    have u: "tg_Meta u = tg_Meta tg" "tg_Url u = tg_Url tg"
      using reconcileToolGateway_error(1) [OF failed(3)] by auto
    have key: "meta_key (tg_Meta ?n) = req" using failed(2) u by (simp add: tg_not_ready_def)
    have s: "merged_tg u ?n tg = tg \<or> tg_Conditions (merged_tg u ?n tg) = tg_Conditions ?n"
      by (simp add: merged_tg_def patch_field_def tg_not_ready_def u)
    have "at w' (KPolicy, guardrail_key tg) = at w1 (KPolicy, guardrail_key tg)"
      using unchangedD [OF patch_tg_frame [OF p]] by simp
    with multi_guard_failed(1) [OF failed(3) m] patch_tg_at(2) [OF p, of tg] failed(3,4,6) key s show ?thesis by fastforce
  qed (use no st in auto)
  then show "at w' (KPolicy, guardrail_key tg) = at w (KPolicy, guardrail_key tg)"
    "\<exists>tg'. at w' (KToolGateway, req) = Some (OToolGateway tg') \<and> (tg' = tg \<or>
      (\<exists>e reason u. res = Some e \<and> (\<exists>w1. reconcileToolGateway r tg w = ((reason, Some e), u, w1))
          \<and> tg_Conditions tg' = tg_Conditions (tg_not_ready (r_Lib r) u reason (error_text e))))" by blast+
qed

lemma not_ready_found:
  "\<exists>c. l_find_condition (r_Lib r) (tg_Conditions (tg_not_ready (r_Lib r) u reason m)) ''Ready'' = Some c
     \<and> cd_Status c = ''False'' \<and> cd_Reason c = reason \<and> cd_Message c = m"
  using find_set [of "tg_Conditions u" "ready_condition (tg_Meta u) ConditionFalse reason m"] same_ready
  by (auto simp: tg_not_ready_def readyConditionType_def ConditionFalse_def)

lemma multi_guard_message:
  assumes run: "reconcileToolGateway r tg w = ((reason, Some e), u, w1)" and m: "1 < length (tg_Guardrails tg)"
    and reason: "reason = reasonGuardrailsFailed"
  shows "e = Plain ''multiple guards not supported''"
  using run
proof (cases rule: reconcileToolGateway_phases)
  case (guardrails v v')
  with ensureGuardrails_error(4) [OF guardrails(3) m] show ?thesis by blast
qed (use reason in \<open>simp_all add: gateway_reasons\<close>)

text \<open>A policy of another controller is refused when it is to be written, and deleted when it is not wanted.\<close>

lemma ensureGuardrails_refused:
  assumes "tg_Guardrails tg \<noteq> []" "at w (KPolicy, guardrail_key tg) = Some ob" "controller_of (meta_of ob) = Some c"
    "c \<noteq> (KToolGateway, m_Name (tg_Meta tg))" and e: "ensureGuardrails r tg w = (x, u, w')"
  shows "at w' (KPolicy, guardrail_key tg) = Some ob"
proof (cases "\<exists>ref. tg_Guardrails tg = [ref]")
  case True
  then obtain ref where ref: "tg_Guardrails tg = [ref]" by blast
  let ?ob = "OUnstructured (newAgentgatewayPolicy (guardrail_name tg) (m_Namespace (tg_Meta tg)))"
  let ?f = "on_unstructured (guardrail_mutate (r_Lib r) tg (guard_ref_key tg ref))"
  have f: "?f ob \<noteq> Inr y" for y
    using set_controller_refused [OF assms(3,4)]
    by (cases ob) (auto simp: on_unstructured_def guardrail_mutate_def split: sum.split)
  have k: "at w (key_of ?ob) = Some ob" using assms(2) by (simp add: guardrail_key_def)
  show ?thesis
  proof (cases "guard_check r (guard_ref_key tg ref) w")
    case None
    obtain y w1 where c: "c_create_or_patch (r_Client r) ?ob ?f w = (y, w1)" by fastforce
    from cop_refuses [OF c k f] obtain e' where "at w1 (KPolicy, guardrail_key tg) = Some ob" "y = Inl e'"
      by (auto simp: guardrail_key_def)
    with e c ref None show ?thesis by (simp add: ensureGuardrails_def Let_def)
  qed (use e ref assms(2) in \<open>simp add: ensureGuardrails_def Let_def\<close>)
next
  case False
  with e assms(1,2) show ?thesis by (auto simp: ensureGuardrails_def Let_def split: list.splits)
qed

lemma foreign_policy:
  assumes run: "ToolGateway_Reconcile r req w = (res, w')" and st: "at w (KToolGateway, req) = Some (OToolGateway tg)"
    and own: "claims_gateway at w tg cls"
    and ob: "at w (KPolicy, guardrail_key tg) = Some ob" "controller_of (meta_of ob) = Some c" "c \<noteq> (KToolGateway, m_Name (tg_Meta tg))"
  shows "tg_Guardrails tg = [] \<Longrightarrow> res = None \<Longrightarrow> at w' (KPolicy, guardrail_key tg) = None"
    and "tg_Guardrails tg \<noteq> [] \<Longrightarrow> at w' (KPolicy, guardrail_key tg) = Some ob"
proof -
  assume a: "tg_Guardrails tg = []" "res = None"
  obtain w1 where 1: "reconcileToolGateway r tg w = (([], None), clear_unsupported (r_Lib r) tg, w1)"
    "updateStatusReady r (clear_unsupported (r_Lib r) tg) w1 = (None, w')" "meta_key (tg_Meta tg) = req"
    by (rule owned_run_ok [OF run [unfolded a(2)] st own])
  from reconcileToolGateway_ok(2) [OF 1(1)] a(1) have "at w1 (KPolicy, guardrail_key tg) = None"
    by (auto simp: gateway_settled_def)
  then show "at w' (KPolicy, guardrail_key tg) = None"
    using other_kinds_status [OF patch_ready_frame [OF 1(2,3)]] by simp
next
  assume g: "tg_Guardrails tg \<noteq> []"
  have kept: "at w1 (KPolicy, guardrail_key tg) = Some ob" if rt: "reconcileToolGateway r tg w = (x, u, w1)" for x u w1
  proof -
    obtain y1 v1 where 1: "ensureAgentgatewayParameters r tg w = (y1, v1)" by fastforce
    obtain y2 v2 where 2: "ensureGateway r tg v1 = (y2, v2)" by fastforce
    obtain y3 u3 v3 where 3: "ensureGuardrails r tg v2 = (y3, u3, v3)" by (metis prod_cases3)
    have p: "at v1 (KPolicy, guardrail_key tg) = Some ob" using unchangedD [OF ensureParameters_frame [OF 1]] ob(1) by simp
    then have q: "at v2 (KPolicy, guardrail_key tg) = Some ob" using unchangedD [OF ensureGateway_frame [OF 2]] by simp
    then have "at v3 (KPolicy, guardrail_key tg) = Some ob" by (rule ensureGuardrails_refused [OF g _ ob(2,3) 3])
    moreover have "w1 \<in> {v1, v2, v3}"
      using rt 1 2 3 by (auto simp: reconcileToolGateway_def split: option.splits)
    ultimately show ?thesis using p q by blast
  qed
  show "at w' (KPolicy, guardrail_key tg) = Some ob"
  proof (cases rule: gateway_run [OF run st, case_names idle ready failed])
    case (ready reason w1)
    with kept other_kinds_status [OF patch_ready_frame [OF ready(5,2)]] show ?thesis by auto
  next
    case (failed reason e u w1 y)
    have "tg_Meta u = tg_Meta tg" using reconcileToolGateway_error(1) [OF failed(3)] by auto
    then have "unchanged_outside {(KToolGateway, req)} at w1 w'"
      using patch_tg_frame [OF failed(5) [unfolded updateStatusNotReady_def]] failed(2) by (simp add: tg_not_ready_def)
    with kept [OF failed(3)] other_kinds_status show ?thesis by auto
  qed (use ob in simp)
qed

section \<open>Fields the operator does not write\<close>

lemma emit_events: "events v = events w \<Longrightarrow> \<exists>es. events (emit_op r k a b c op v) = events w @ es"
  by (auto simp: emit_op_def emitNormalEvent_def event_log split: op_result.split)

lemma cop_events: "c_create_or_patch (r_Client r) ob f w = (x, w') \<Longrightarrow> events w' = events w"
  using cop_log [of ob f w] by simp

lemma ensure_events:
  "ensureAgentgatewayParameters r tg w = (x, w') \<Longrightarrow> \<exists>es. events w' = events w @ es"
  "ensureGateway r tg w = (x, w') \<Longrightarrow> \<exists>es. events w' = events w @ es"
  by (auto simp: ensureAgentgatewayParameters_def ensureGateway_def Let_def split: prod.splits sum.splits
      dest!: cop_events intro: emit_events)

text \<open>A guardrail policy that carries a field which the operator does not write is written again.\<close>

lemma ensureGuardrails_rewrites:
  assumes rec: "r_Recorder r"
    and ops: "spec_results (r_Client r) (on_unstructured (guardrail_mutate (r_Lib r) tg (guard_ref_key tg ref)))"
    and ref: "tg_Guardrails tg = [ref]" and p: "at w (KPolicy, guardrail_key tg) = Some (OUnstructured p)"
    and fld: "json_get (us_Object p) [''spec'', ''traffic'', ''extProc'', ''backendRef'', fld] \<noteq> None"
      "fld \<notin> {''name'', ''namespace'', ''port''}"
    and e: "ensureGuardrails r tg w = (None, u, w')"
  shows "\<exists>ev. events w' = events w @ [ev] \<and> en_Regarding ev = tg_key tg \<and> en_Reason ev = ''GuardrailPolicyUpdated''"
proof -
  let ?ob = "OUnstructured (newAgentgatewayPolicy (guardrail_name tg) (m_Namespace (tg_Meta tg)))"
  let ?f = "on_unstructured (guardrail_mutate (r_Lib r) tg (guard_ref_key tg ref))"
  obtain op w1 where c: "c_create_or_patch (r_Client r) ?ob ?f w = (Inr op, w1)"
    and w': "w' = emit_op r (tg_key tg) ''GuardrailPolicy'' ''guardrail policy'' (guardrail_name tg) op w1"
    using e ref by (auto simp: ensureGuardrails_def Let_def split: option.splits sum.splits prod.splits)
  have k: "at w (key_of ?ob) = Some (OUnstructured p)" using p by (simp add: guardrail_key_def)
  from cop_ok [OF c] k obtain ob' where ob': "?f (OUnstructured p) = Inr ob'"
    and op: "op = OpCreated \<longleftrightarrow> False" "op = OpNone \<longleftrightarrow> Some (OUnstructured p) = Some ob'" by auto
  then obtain q where q: "ob' = OUnstructured q" "guardrail_mutate (r_Lib r) tg (guard_ref_key tg ref) p = Inr q"
    by (cases "guardrail_mutate (r_Lib r) tg (guard_ref_key tg ref) p") (auto simp: on_unstructured_def)
  have spec: "json_get (us_Object q) [''spec''] = Some (buildGuardrailPolicySpec (m_Name (tg_Meta tg)) (ref_Name ref) (fst (guard_ref_key tg ref)))"
    using guardrail_mutate_ok(2) [OF q(2)] by simp
  then have "json_get (us_Object q) [''spec'', ''traffic'', ''extProc'', ''backendRef'', fld] = None"
    using fld(2) by (auto simp: buildGuardrailPolicySpec_def jmap_def split: option.splits)
  with fld(1) have "q \<noteq> p" by auto
  with op q(1) ops c have "op = OpUpdated" unfolding spec_results_def by blast
  with w' rec show ?thesis
    using cop_events [OF c] by (simp add: emit_op_def emitNormalEvent_def event_log)
qed

lemma rewritten_every_run:
  assumes run: "ToolGateway_Reconcile r req w = (None, w')" and st: "at w (KToolGateway, req) = Some (OToolGateway tg)"
    and own: "claims_gateway at w tg cls" and rec: "r_Recorder r"
    and ops: "spec_results (r_Client r) (on_unstructured (guardrail_mutate (r_Lib r) tg (guard_ref_key tg ref)))"
    and ref: "tg_Guardrails tg = [ref]" and p: "at w (KPolicy, guardrail_key tg) = Some (OUnstructured p)"
    and fld: "json_get (us_Object p) [''spec'', ''traffic'', ''extProc'', ''backendRef'', fld] \<noteq> None"
      "fld \<notin> {''name'', ''namespace'', ''port''}"
  shows "\<exists>es ev. events w' = events w @ es @ [ev] \<and> en_Regarding ev = tg_key tg \<and> en_Reason ev = ''GuardrailPolicyUpdated''"
proof -
  obtain w1 where 1: "reconcileToolGateway r tg w = (([], None), clear_unsupported (r_Lib r) tg, w1)"
    "updateStatusReady r (clear_unsupported (r_Lib r) tg) w1 = (None, w')" "meta_key (tg_Meta tg) = req"
    by (rule owned_run_ok [OF run st own])
  obtain v1 v2 u where a: "ensureAgentgatewayParameters r tg w = (None, v1)" and b: "ensureGateway r tg v1 = (None, v2)"
    and c: "ensureGuardrails r tg v2 = (None, u, w1)"
    using 1(1) by (auto simp: reconcileToolGateway_def split: prod.splits option.splits)
  have "at v2 (KPolicy, guardrail_key tg) = Some (OUnstructured p)"
    using p unchangedD [OF ensureParameters_frame [OF a]] unchangedD [OF ensureGateway_frame [OF b]] by simp
  from ensureGuardrails_rewrites [OF rec ops ref this fld c] ensure_events(1) [OF a] ensure_events(2) [OF b]
  have "\<exists>es ev. events w1 = events w @ es @ [ev] \<and> en_Regarding ev = tg_key tg \<and> en_Reason ev = ''GuardrailPolicyUpdated''" by auto
  moreover have "events w' = events w1"
    using 1(2) patch_log by (auto simp: updateStatusReady_def patch_tg_def split: prod.splits option.splits) (metis snd_conv)+
  ultimately show ?thesis by simp
qed

section \<open>Watches\<close>

lemma finds_gateways:
  assumes "c_list (r_Client r) KToolGateway None w = Inr obs"
  shows "set (findToolGatewayForGuard r (OGuard g) w) =
     {k. \<exists>tg. at w (KToolGateway, k) = Some (OToolGateway tg)
            \<and> meta_key (g_Meta g) \<in> guard_ref_key tg ` set (tg_Guardrails tg)}"
proof -
  obtain tgs where l: "list_as as_tool_gateway (r_Client r) KToolGateway None w = Inr tgs"
    using assms by (simp add: list_as_def)
  have s: "set tgs = {tg. at w (key_of (OToolGateway tg)) = Some (OToolGateway tg)}"
    using list_as_set [OF l as_tool_gateway_iff] by simp
  have k: "at w (KToolGateway, k) = Some (OToolGateway tg) \<Longrightarrow> meta_key (tg_Meta tg) = k" for k tg
    using at_key by (fastforce simp: key_of_def)
  have p: "list_ex (\<lambda>ref. ref_Name ref = m_Name (g_Meta g) \<and> fst (guard_ref_key tg ref) = m_Namespace (g_Meta g)) (tg_Guardrails tg)
      \<longleftrightarrow> meta_key (g_Meta g) \<in> guard_ref_key tg ` set (tg_Guardrails tg)" for tg
    by (force simp: list_ex_iff meta_key_def guard_ref_key_def)
  show ?thesis
    unfolding findToolGatewayForGuard_def using k by (force simp: l p s key_of_def)
qed

lemma finds_gateways_provider:
  assumes "c_list (r_Client r) KToolGateway None w = Inr obs" "c_list (r_Client r) KGuard None w = Inr obs'"
    and tg: "at w (KToolGateway, k) = Some (OToolGateway tg)" "ref \<in> set (tg_Guardrails tg)"
    and g: "at w (KGuard, guard_ref_key tg ref) = Some (OGuard g)" "provider_key g = meta_key (gp_Meta p)"
  shows "k \<in> set (findToolGatewayForGuardrailProvider r (OGuardrailProvider p) w)"
proof -
  obtain tgs gs where l: "list_as as_tool_gateway (r_Client r) KToolGateway None w = Inr tgs"
    "list_as as_guard (r_Client r) KGuard None w = Inr gs"
    using assms(1,2) by (simp add: list_as_def)
  have key: "meta_key (tg_Meta tg) = k" "meta_key (g_Meta g) = guard_ref_key tg ref"
    using at_key [OF tg(1)] at_key [OF g(1)] by (auto simp: key_of_def)
  have tgs: "tg \<in> set tgs"
    using list_as_set [OF l(1) as_tool_gateway_iff] tg(1) key by (simp add: key_of_def)
  have gs: "g \<in> set gs"
    using list_as_set [OF l(2) as_guard_iff] g(1) key by (simp add: key_of_def)
  have "fst (guard_ref_key tg ref) @ ''/'' @ ref_Name ref \<in> set (affected_guards p gs)"
    unfolding affected_guards_def using gs g(2) key(2)
    by (force simp: meta_key_def guard_ref_key_def provider_key_def Let_def split: if_splits)
  then show ?thesis
    unfolding findToolGatewayForGuardrailProvider_def using tgs tg(2) key(1) by (force simp: l list_ex_iff)
qed

end

section \<open>A small cluster\<close>

definition demo_class :: tool_gateway_class where
  "demo_class = \<lparr>tgc_Meta = new_meta ''agentgateway'' [], tgc_Controller = ToolGatewayAgentgatewayControllerName\<rparr>"

definition demo_tg :: tool_gateway where
  "demo_tg = \<lparr>tg_Meta = new_meta ''tools'' ''ns'', tg_ClassName = ''agentgateway'',
     tg_Env = [\<lparr>ev_Name = ''OTEL_EXPORTER_OTLP_ENDPOINT'', ev_Value = ''http://otel:4317'', ev_ValueFrom = None\<rparr>,
               \<lparr>ev_Name = ''LOG_LEVEL'', ev_Value = ''debug'', ev_ValueFrom = None\<rparr>],
     tg_EnvFrom = [], tg_Guardrails = [\<lparr>ref_Name = ''pii'', ref_Namespace = []\<rparr>], tg_Url = [], tg_Conditions = []\<rparr>"

definition guard_with :: "string \<Rightarrow> guard" where
  "guard_with s = \<lparr>g_Meta = new_meta ''pii'' ''ns'', g_Mode = [''pre_call''],
     g_ProviderRef = \<lparr>ref_Name = ''presidio'', ref_Namespace = []\<rparr>, g_Presidio = None,
     g_Conditions = [\<lparr>cd_Type = ''Ready'', cd_Status = s, cd_Reason = ''R'', cd_Message = ''m'',
                     cd_ObservedGeneration = 0, cd_TransitionTime = 0\<rparr>]\<rparr>"

definition tg_req :: nsname where "tg_req = (''ns'', ''tools'')"

definition tg_world :: cluster where
  "tg_world = mem_cluster [OToolGatewayClass demo_class, OToolGateway demo_tg, OGuard (guard_with ''True'')]"

definition tg_after :: cluster where
  "tg_after = snd (ToolGateway_Reconcile mem_reconciler tg_req tg_world)"

definition tg_ready_cond :: condition where
  "tg_ready_cond = \<lparr>cd_Type = ''Ready'', cd_Status = ''True'', cd_Reason = ''Reconciled'',
     cd_Message = ''Gateway and its backing resources are configured'', cd_ObservedGeneration = 0, cd_TransitionTime = 0\<rparr>"

interpretation mem_gateway: gateway_operator mem_reconciler mem_at k_Events
  unfolding gateway_operator_def by (rule mem_rec.operator_axioms)

text \<open>The mutate functions of the gateway's objects keep the contract of a mutate function.\<close>

interpretation gateway_mut: mutator "on_gateway (gateway_mutate ref_lib tg)" for tg
  using mem_gateway.gateway_mutator by (simp add: mem_reconciler_def)

interpretation params_mut: mutator "on_unstructured (params_mutate ref_lib tg)" for tg
  using mem_gateway.params_mutator by (simp add: mem_reconciler_def)

interpretation guardrail_mut: mutator "on_unstructured (guardrail_mutate ref_lib tg gk)" for tg gk
  using mem_gateway.guardrail_mutator by (simp add: mem_reconciler_def)

lemmas resource_eval =
  newAgentgatewayBackend_def newAgentgatewayParameters_def newAgentgatewayPolicy_def KBackend_def KParameters_def
  KPolicy_def agentgateway_api_def set_object_def set_wrapped_def jmap_def fieldName_def

lemmas gateway_eval =
  ToolGateway_Reconcile_def isToolGatewayOwnedByController_def reconcileToolGateway_def
  ensureAgentgatewayParameters_def ensureGateway_def ensureGuardrails_def guard_check_def guard_ref_key_def
  params_mutate_def gateway_mutate_def guardrail_mutate_def on_gateway_def on_unstructured_def
  setAgentgatewayParametersSpec_def set_raw_config_def extractOTELEnvVars_def extract_step_def no_otel_def
  otel_names buildTelemetryConfig_def has_config_def first_set_def clear_unsupported_def guardrail_name_def
  guardrailsUnsupported_def readyConditionType_def ref_remove_condition_def updateStatusReady_def
  updateStatusNotReady_def patch_tg_def tg_ready_def tg_not_ready_def ready_condition_def reasonReconciled_def
  ConditionTrue_def ConditionFalse_def gateway_url_def emit_op_def emitNormalEvent_def mem_event_def mem_reconciler_def
  ToolGatewayAgentgatewayControllerName_def ref_env_json_def guardrails_reason_def gateway_reasons Let_def
  errGuardNotFound_def errGuardNotReady_def resource_eval

lemma tg_run: "fst (ToolGateway_Reconcile mem_reconciler tg_req tg_world) = None
   \<and> mem_at tg_after (KToolGateway, tg_req) = Some (OToolGateway (demo_tg\<lparr>tg_Url := ''http://tools.ns.svc.cluster.local'', tg_Conditions := [tg_ready_cond]\<rparr>))"
  by (simp add: tg_after_def tg_req_def tg_world_def demo_tg_def demo_class_def guard_with_def tg_ready_cond_def
      mem_eval gateway_eval)

lemma tg_run2: "fst (ToolGateway_Reconcile mem_reconciler tg_req tg_after) = None"
  by (simp add: tg_after_def tg_req_def tg_world_def demo_tg_def demo_class_def guard_with_def tg_ready_cond_def
      mem_eval gateway_eval)

lemma tg_run_pair: "ToolGateway_Reconcile mem_reconciler tg_req tg_world = (None, tg_after)"
  using tg_run by (simp add: tg_after_def prod_eq_iff)

definition tg_stored :: tool_gateway where
  "tg_stored = demo_tg\<lparr>tg_Url := ''http://tools.ns.svc.cluster.local'', tg_Conditions := [tg_ready_cond]\<rparr>"

lemma tg_at: "mem_at tg_world (KToolGateway, tg_req) = Some (OToolGateway demo_tg)"
  by (simp add: tg_world_def tg_req_def demo_tg_def demo_class_def mem_eval)

lemma tg_after_at: "mem_at tg_after (KToolGateway, tg_req) = Some (OToolGateway tg_stored)"
  using tg_run by (simp add: tg_stored_def)

lemma tg_ready_facts:
  "l_find_condition (r_Lib mem_reconciler) (tg_Conditions tg_stored) readyConditionType = Some tg_ready_cond"
  "l_find_condition (r_Lib mem_reconciler) (tg_Conditions demo_tg) readyConditionType \<noteq> Some tg_ready_cond"
  "cd_Status tg_ready_cond = ConditionTrue"
  by (simp_all add: mem_reconciler_def ref_find_condition_def readyConditionType_def tg_ready_cond_def tg_stored_def demo_tg_def
      ConditionTrue_def)

section \<open>Properties\<close>

text \<open>
  C1: A \<open>ToolGateway\<close> is only turned Ready when traffic is wired as it asks.  Whenever a
  reconcile writes Ready=True, the gateway's class is ours, the \<open>Gateway\<close> has our class, its
  HTTP listener on port 80 and the reference to its parameters, the parameters carry exactly
  the environment, telemetry and service type of the spec, and the guardrail is as specified:
  with no guard there is no guardrail policy at all, with one guard that guard is itself
  Ready and the policy sends the gateway's traffic to its adapter's service.  The URL and the
  observed generation are the gateway's.
\<close>

theorem gateway_ready_serves:
  assumes "gateway_operator r at events"
    and "ToolGateway_Reconcile r req w = (res, w')"
    and "at w (KToolGateway, req) = Some (OToolGateway tg)" "at w' (KToolGateway, req) = Some (OToolGateway tg')"
    and "l_find_condition (r_Lib r) (tg_Conditions tg') readyConditionType = Some c"
    and "l_find_condition (r_Lib r) (tg_Conditions tg) readyConditionType \<noteq> Some c"
    and "cd_Status c = ConditionTrue"
  shows "(\<exists>cls. claims_gateway at w tg cls) \<and> gateway_serves (r_Lib r) tg (at w')
     \<and> tg_Url tg' = gateway_url tg \<and> cd_ObservedGeneration c = m_Generation (tg_Meta tg)"
proof (cases rule: gateway_operator.gateway_status_written [OF assms(1-6), case_names ready failed])
  case (ready w1)
  have "at w' j = at w1 j" if "fst j \<noteq> KToolGateway" for j
    using unchangedD [OF ready(4), of j] that by (cases j) auto
  with ready gateway_operator.settled_serves [OF assms(1) ready(2)] gateway_operator.store_cong(2) [OF assms(1)]
  show ?thesis by metis
qed (use assms(7) in \<open>simp add: ConditionTrue_def ConditionFalse_def\<close>)

theorem gateway_ready_serves_witness:
  "gateway_serves ref_lib demo_tg (mem_at tg_after)"
  using gateway_ready_serves [OF mem_gateway.gateway_operator_axioms tg_run_pair tg_at tg_after_at tg_ready_facts]
  by (simp add: mem_reconciler_def)

text \<open>
  C15: A Ready condition that a reconcile turns to False names the phase that failed: the
  parameters, the Gateway or the guardrail returned the very error that the reconcile returns and
  whose text the condition carries, and the phases before it succeeded.  The objects of these
  earlier phases are in place and those of the later ones as they were; the URL stays.  Of the
  guardrail reasons, GuardNotFound is only written for a guard that does not exist, GuardNotReady
  only for one that exists and is not Ready.
\<close>

theorem gateway_status_explains:
  assumes "gateway_operator r at events"
    and "ToolGateway_Reconcile r req w = (res, w')"
    and "at w (KToolGateway, req) = Some (OToolGateway tg)" "at w' (KToolGateway, req) = Some (OToolGateway tg')"
    and "l_find_condition (r_Lib r) (tg_Conditions tg') readyConditionType = Some c"
    and "l_find_condition (r_Lib r) (tg_Conditions tg) readyConditionType \<noteq> Some c"
    and "cd_Status c \<noteq> ConditionTrue"
  shows "tg_Url tg' = tg_Url tg
     \<and> (\<exists>e w1. res = Some e \<and> cd_Message c = error_text e \<and> unchanged_outside {(KToolGateway, req)} at w1 w'
       \<and> (cd_Reason c = ''AgentgatewayParametersReconciliationFailed'' \<and> ensureAgentgatewayParameters r tg w = (Some e, w1)
            \<and> unchanged_outside {(KToolGateway, req), (KParameters, tg_name_key tg)} at w w'
        \<or> cd_Reason c = ''GatewayReconciliationFailed''
            \<and> (\<exists>v. ensureAgentgatewayParameters r tg w = (None, v) \<and> ensureGateway r tg v = (Some e, w1))
            \<and> unchanged_outside {(KToolGateway, req), (KParameters, tg_name_key tg), (KGateway, tg_name_key tg)} at w w'
            \<and> (\<exists>p. at w' (KParameters, tg_name_key tg) = Some (OUnstructured p) \<and> parameters_match (r_Lib r) tg (us_Object p))
        \<or> cd_Reason c = (if errors_is e errGuardNotFound then ''GuardNotFound''
                         else if errors_is e errGuardNotReady then ''GuardNotReady'' else ''GuardrailsReconciliationFailed'')
            \<and> (\<exists>v v' u. ensureAgentgatewayParameters r tg w = (None, v) \<and> ensureGateway r tg v = (None, v')
                  \<and> ensureGuardrails r tg v' = (Some e, u, w1))
            \<and> (\<exists>p. at w' (KParameters, tg_name_key tg) = Some (OUnstructured p) \<and> parameters_match (r_Lib r) tg (us_Object p))
            \<and> (\<exists>gw. at w' (KGateway, tg_name_key tg) = Some (OGateway gw) \<and> gw_Spec gw = gateway_spec_of (m_Name (tg_Meta tg)))))
     \<and> (cd_Reason c = ''GuardNotFound'' \<longrightarrow>
          (\<exists>ref. tg_Guardrails tg = [ref] \<and> at w (KGuard, guard_ref_key tg ref) = None))
     \<and> (cd_Reason c = ''GuardNotReady'' \<longrightarrow>
          (\<exists>ref. tg_Guardrails tg = [ref] \<and> at w (KGuard, guard_ref_key tg ref) \<noteq> None
             \<and> \<not> guard_is_ready (r_Lib r) (at w (KGuard, guard_ref_key tg ref))))"
proof (cases rule: gateway_operator.gateway_status_written [OF assms(1-6), case_names ready failed])
  case (failed reason e u w1)
  note err = gateway_operator.reconcileToolGateway_error [OF assms(1) failed(2)]
  have guard: "(cd_Reason c = ''GuardNotFound'' \<longrightarrow>
          (\<exists>ref. tg_Guardrails tg = [ref] \<and> at w (KGuard, guard_ref_key tg ref) = None))
     \<and> (cd_Reason c = ''GuardNotReady'' \<longrightarrow>
          (\<exists>ref. tg_Guardrails tg = [ref] \<and> at w (KGuard, guard_ref_key tg ref) \<noteq> None
             \<and> \<not> guard_is_ready (r_Lib r) (at w (KGuard, guard_ref_key tg ref))))"
    using err(4,5) failed(5) by (simp add: reasonGuardNotFound_def reasonGuardNotReady_def)
  show ?thesis
    by (cases rule: gateway_operator.failed_phase [OF assms(1) failed(2,3)])
      (insert failed(3,5,6,8,9) guard, blast+)
qed (use assms(7) in simp)

definition unready_world :: cluster where
  "unready_world = mem_cluster [OToolGatewayClass demo_class, OToolGateway demo_tg, OGuard (guard_with ''False'')]"

definition unready_after :: cluster where
  "unready_after = snd (ToolGateway_Reconcile mem_reconciler tg_req unready_world)"

definition unready_cond :: condition where
  "unready_cond = \<lparr>cd_Type = ''Ready'', cd_Status = ''False'', cd_Reason = ''GuardNotReady'',
     cd_Message = ''guard not ready: ns/pii: R '' @ em_dash @ '' m'', cd_ObservedGeneration = 0, cd_TransitionTime = 0\<rparr>"

lemma unready_run: "mem_at unready_after (KToolGateway, tg_req) = Some (OToolGateway (demo_tg\<lparr>tg_Conditions := [unready_cond]\<rparr>))"
  by (simp add: unready_after_def tg_req_def unready_world_def demo_tg_def demo_class_def guard_with_def unready_cond_def
      mem_eval gateway_eval em_dash_def)

theorem gateway_status_explains_witness:
  "\<not> guard_is_ready ref_lib (mem_at unready_world (KGuard, guard_ref_key demo_tg \<lparr>ref_Name = ''pii'', ref_Namespace = []\<rparr>))"
proof -
  have "\<exists>ref. tg_Guardrails demo_tg = [ref] \<and> mem_at unready_world (KGuard, guard_ref_key demo_tg ref) \<noteq> None
     \<and> \<not> guard_is_ready (r_Lib mem_reconciler) (mem_at unready_world (KGuard, guard_ref_key demo_tg ref))"
    using gateway_status_explains [OF mem_gateway.gateway_operator_axioms surjective_pairing _ unready_run [unfolded unready_after_def], where tg = demo_tg and c = unready_cond]
    by (simp add: unready_world_def tg_req_def demo_tg_def demo_class_def unready_cond_def mem_eval gateway_eval
        del: fst_conv snd_conv)
  then show ?thesis by (simp add: demo_tg_def mem_reconciler_def)
qed


lemma class_claims:
  assumes "mem_at w (KToolGatewayClass, ([], ''agentgateway'')) = Some (OToolGatewayClass demo_class)" "tg_ClassName tg = ''agentgateway''"
  shows "claims_gateway mem_at w tg demo_class"
  using assms by (simp add: claims_gateway_def key_simps demo_class_def new_meta_def)

definition multi_tg :: tool_gateway where
  "multi_tg = demo_tg\<lparr>tg_Guardrails := [\<lparr>ref_Name = ''pii'', ref_Namespace = []\<rparr>, \<lparr>ref_Name = ''b'', ref_Namespace = []\<rparr>]\<rparr>"

definition multi_world :: cluster where
  "multi_world = mem_cluster [OToolGatewayClass demo_class, OToolGateway multi_tg]"





text \<open>
  The two status conditions never contradict each other: if the stored gateway is not both
  Ready and marked GuardrailsUnsupported, it is not after a reconcile, whatever the reconcile
  meets, a rejected status patch included.
\<close>

theorem gateway_status_consistent:
  assumes "gateway_operator r at events"
    and "ToolGateway_Reconcile r req w = (res, w')"
    and "at w (KToolGateway, req) = Some (OToolGateway tg)"
    and "status_consistent (r_Lib r) (tg_Conditions tg)"
  shows "\<exists>tg'. at w' (KToolGateway, req) = Some (OToolGateway tg') \<and> status_consistent (r_Lib r) (tg_Conditions tg')"
  by (rule gateway_operator.gateway_status_invariant [OF assms])

theorem gateway_status_consistent_witness:
  "\<exists>tg'. mem_at (snd (ToolGateway_Reconcile mem_reconciler tg_req multi_world)) (KToolGateway, tg_req) = Some (OToolGateway tg')
     \<and> status_consistent (r_Lib mem_reconciler) (tg_Conditions tg')"
  by (rule gateway_status_consistent [OF mem_gateway.gateway_operator_axioms surjective_pairing, where tg = multi_tg])
    (simp_all add: multi_world_def tg_req_def multi_tg_def demo_tg_def demo_class_def status_consistent_def mem_reconciler_def mem_eval)

text \<open>
  On a server that stores what it is sent, reconciling a gateway is idempotent and silent: after a
  reconcile that wrote a new Ready condition without an error, another one that returns without an
  error changes no object and records no event.
\<close>

theorem gateway_idempotent:
  assumes "gateway_operator r at events"
    and "ToolGateway_Reconcile r req w = (None, w1)"
    and "at w (KToolGateway, req) = Some (OToolGateway tg)" "at w1 (KToolGateway, req) = Some (OToolGateway tg1)"
    and "l_find_condition (r_Lib r) (tg_Conditions tg1) readyConditionType = Some c"
    and "l_find_condition (r_Lib r) (tg_Conditions tg) readyConditionType \<noteq> Some c"
    and "ToolGateway_Reconcile r req w1 = (None, w2)"
  shows "at w2 k = at w1 k \<and> events w2 = events w1"
  by (rule gateway_operator.gateway_second_run [OF assms])

lemma tg_run2_pair: "ToolGateway_Reconcile mem_reconciler tg_req tg_after = (None, snd (ToolGateway_Reconcile mem_reconciler tg_req tg_after))"
  using tg_run2 by (simp add: prod_eq_iff)

theorem gateway_idempotent_witness:
  "k_Events (snd (ToolGateway_Reconcile mem_reconciler tg_req tg_after)) = k_Events tg_after"
  using gateway_idempotent [OF mem_gateway.gateway_operator_axioms tg_run_pair tg_at tg_after_at tg_ready_facts(1,2) tg_run2_pair]
  by simp

text \<open>
  C34: A server that fills in fields of the guardrail policy makes every run write it again.  When
  the stored policy has a field of the reference to the adapter that the operator does not set (as
  \<open>group\<close> and \<open>kind\<close>, which the schema of the policy in the repository defaults), a successful
  run of a gateway with a guard ends with the event that the policy has been updated, even if
  nothing the gateway asks for has changed.
\<close>

theorem guardrail_rewritten:
  assumes "gateway_operator r at events"
    and "ToolGateway_Reconcile r req w = (None, w')"
    and "at w (KToolGateway, req) = Some (OToolGateway tg)" and "claims_gateway at w tg cls" and "r_Recorder r"
    and "spec_results (r_Client r) (on_unstructured (guardrail_mutate (r_Lib r) tg (guard_ref_key tg ref)))"
    and "tg_Guardrails tg = [ref]" and "at w (KPolicy, guardrail_key tg) = Some (OUnstructured p)"
    and "json_get (us_Object p) [''spec'', ''traffic'', ''extProc'', ''backendRef'', fld] \<noteq> None"
    and "fld \<notin> {''name'', ''namespace'', ''port''}"
  shows "\<exists>es ev. events w' = events w @ es @ [ev] \<and> en_Regarding ev = tg_key tg \<and> en_Reason ev = ''GuardrailPolicyUpdated''"
  by (rule gateway_operator.rewritten_every_run [OF assms])

definition defaulted_policy :: unstructured where
  "defaulted_policy = (newAgentgatewayPolicy ''tools-guardrail'' ''ns'')\<lparr>us_Object :=
     [''spec'' \<mapsto> jmap [(''targetRefs'', JList [jmap [(''group'', JStr ''gateway.networking.k8s.io''), (''kind'', JStr ''Gateway''), (''name'', JStr ''tools'')]]),
        (''traffic'', jmap [(''extProc'', jmap [(''backendRef'',
           jmap [(''group'', JStr []), (''kind'', JStr ''Service''), (''name'', JStr ''pii-adapter''), (''namespace'', JStr ''ns''),
                 (''port'', JInt 80)])])])]]\<rparr>"

definition defaulted_world :: cluster where
  "defaulted_world = mem_cluster [OToolGatewayClass demo_class, OToolGateway demo_tg, OGuard (guard_with ''True''), OUnstructured defaulted_policy]"

lemma defaulted_facts:
  "fst (ToolGateway_Reconcile mem_reconciler tg_req defaulted_world) = None"
  "mem_at defaulted_world (KToolGateway, tg_req) = Some (OToolGateway demo_tg)"
  "mem_at defaulted_world (KPolicy, guardrail_key demo_tg) = Some (OUnstructured defaulted_policy)"
  by (simp_all add: defaulted_world_def defaulted_policy_def tg_req_def demo_tg_def demo_class_def guard_with_def guardrail_key_def mem_eval gateway_eval)
lemma spec_results_mem: "spec_results mem_client f"
  by (auto simp: spec_results_def mem_create_or_patch_def split: option.splits sum.splits if_splits)

lemma defaulted_pair:
  "ToolGateway_Reconcile mem_reconciler tg_req defaulted_world = (None, snd (ToolGateway_Reconcile mem_reconciler tg_req defaulted_world))"
  using defaulted_facts(1) by (simp add: prod_eq_iff)

theorem guardrail_rewritten_witness:
  "\<exists>es ev. k_Events (snd (ToolGateway_Reconcile mem_reconciler tg_req defaulted_world)) = k_Events defaulted_world @ es @ [ev]
     \<and> en_Regarding ev = tg_key demo_tg \<and> en_Reason ev = ''GuardrailPolicyUpdated''"
proof (rule guardrail_rewritten [OF mem_gateway.gateway_operator_axioms defaulted_pair defaulted_facts(2)])
  show "claims_gateway mem_at defaulted_world demo_tg demo_class"
    by (rule class_claims) (simp_all add: defaulted_world_def demo_class_def demo_tg_def mem_eval)
  show "r_Recorder mem_reconciler" "spec_results (r_Client mem_reconciler)
      (on_unstructured (guardrail_mutate (r_Lib mem_reconciler) demo_tg (guard_ref_key demo_tg \<lparr>ref_Name = ''pii'', ref_Namespace = []\<rparr>)))"
    using spec_results_mem by (simp_all add: mem_reconciler_def)
  show "tg_Guardrails demo_tg = [\<lparr>ref_Name = ''pii'', ref_Namespace = []\<rparr>]" by (simp add: demo_tg_def)
  show "json_get (us_Object defaulted_policy) [''spec'', ''traffic'', ''extProc'', ''backendRef'', ''kind''] \<noteq> None"
    by (simp add: defaulted_policy_def jmap_def)
  show "mem_at defaulted_world (KPolicy, guardrail_key demo_tg) = Some (OUnstructured defaulted_policy)" by (rule defaulted_facts(3))
qed simp

text \<open>
  C18: A reconcile only ever changes what is its own: if any object differs afterwards, a
  \<open>ToolGatewayClass\<close> with our controller claims the gateway, and the object is the gateway
  itself or one of the three objects under its names.
\<close>

theorem gateway_changes_own:
  assumes "gateway_operator r at events"
    and "ToolGateway_Reconcile r req w = (res, w')"
    and "at w (KToolGateway, req) = Some (OToolGateway tg)" and "at w' k \<noteq> at w k"
  shows "(\<exists>c. claims_gateway at w tg c) \<and> k \<in> insert (KToolGateway, req) (gateway_keys tg)"
  by (rule gateway_operator.gateway_frame [OF assms])

theorem gateway_changes_own_witness:
  "\<exists>c. claims_gateway mem_at tg_world demo_tg c"
proof -
  have "mem_at tg_after (KToolGateway, tg_req) \<noteq> mem_at tg_world (KToolGateway, tg_req)"
    by (simp add: tg_at tg_after_at tg_stored_def) (simp add: demo_tg_def)
  then show ?thesis
    using gateway_changes_own [OF mem_gateway.gateway_operator_axioms tg_run_pair tg_at] by blast
qed

text \<open>
  C21: A \<open>Gateway\<close> or \<open>AgentgatewayParameters\<close> of the gateway's name that has another
  controller is never overwritten, whatever the run meets and returns.
\<close>

theorem gateway_keeps_foreign:
  assumes "gateway_operator r at events"
    and "at w (KToolGateway, req) = Some (OToolGateway tg)"
    and "k \<in> {(KGateway, tg_name_key tg), (KParameters, tg_name_key tg)}"
    and "at w k = Some ob" "controller_of (meta_of ob) = Some c" "c \<noteq> (KToolGateway, m_Name (tg_Meta tg))"
    and "ToolGateway_Reconcile r req w = (res, w')"
  shows "at w' k = Some ob"
  by (rule gateway_operator.gateway_refused [OF assms])

definition foreign_gateway :: gateway where
  "foreign_gateway = \<lparr>gw_Meta = (new_meta ''tools'' ''ns'')\<lparr>m_Owners := [\<lparr>or_Kind = KService, or_Name = ''x'', or_Uid = ''u'', or_Controller = True\<rparr>]\<rparr>,
     gw_Spec = empty_gateway_spec\<rparr>"

definition foreign_world :: cluster where
  "foreign_world = mem_cluster [OToolGatewayClass demo_class, OToolGateway demo_tg, OGateway foreign_gateway]"

theorem gateway_keeps_foreign_witness:
  "mem_at (snd (ToolGateway_Reconcile mem_reconciler tg_req foreign_world)) (KGateway, tg_req) = Some (OGateway foreign_gateway)"
  by (rule gateway_keeps_foreign [OF mem_gateway.gateway_operator_axioms _ _ _ _ _ surjective_pairing,
      where tg = demo_tg and c = "(KService, ''x'')"])
    (simp_all add: foreign_world_def foreign_gateway_def tg_req_def tg_name_key_def demo_tg_def demo_class_def mem_eval)

text \<open>
  C29: The guardrail policy is protected by its owner when it is written, and not when it is
  deleted.  Of an \<open>AgentgatewayPolicy\<close> named \<open><gateway>-guardrail\<close> that another owner controls,
  every run for a gateway of ours with guards leaves all as it is, but a gateway without guards
  has deleted it when its run succeeds.
\<close>

theorem gateway_deletes_foreign_policy:
  assumes "gateway_operator r at events"
    and "ToolGateway_Reconcile r req w = (res, w')"
    and "at w (KToolGateway, req) = Some (OToolGateway tg)" and "claims_gateway at w tg cls"
    and "at w (KPolicy, guardrail_key tg) = Some ob" "controller_of (meta_of ob) = Some c"
    and "c \<noteq> (KToolGateway, m_Name (tg_Meta tg))"
  shows "(tg_Guardrails tg = [] \<and> res = None \<longrightarrow> at w' (KPolicy, guardrail_key tg) = None)
     \<and> (tg_Guardrails tg \<noteq> [] \<longrightarrow> at w' (KPolicy, guardrail_key tg) = Some ob)"
  using gateway_operator.foreign_policy [OF assms] by blast

definition users_policy :: unstructured where
  "users_policy = (newAgentgatewayPolicy ''tools-guardrail'' ''ns'')\<lparr>us_Meta := (new_meta ''tools-guardrail'' ''ns'')
     \<lparr>m_Owners := [\<lparr>or_Kind = KService, or_Name = ''x'', or_Uid = ''u'', or_Controller = True\<rparr>]\<rparr>\<rparr>"

definition plain_tg :: tool_gateway where "plain_tg = demo_tg\<lparr>tg_Guardrails := []\<rparr>"

definition policy_world :: cluster where
  "policy_world = mem_cluster [OToolGatewayClass demo_class, OToolGateway plain_tg, OUnstructured users_policy]"

lemma policy_at:
  "fst (ToolGateway_Reconcile mem_reconciler tg_req policy_world) = None"
  "mem_at policy_world (KToolGateway, tg_req) = Some (OToolGateway plain_tg)"
  "mem_at policy_world (KToolGatewayClass, ([], ''agentgateway'')) = Some (OToolGatewayClass demo_class)"
  "mem_at policy_world (KPolicy, guardrail_key plain_tg) = Some (OUnstructured users_policy)"
  "controller_of (meta_of (OUnstructured users_policy)) = Some (KService, ''x'')"
  by (simp_all add: policy_world_def users_policy_def tg_req_def plain_tg_def demo_tg_def demo_class_def guardrail_key_def
      mem_eval gateway_eval)

theorem gateway_deletes_foreign_policy_witness:
  "mem_at (snd (ToolGateway_Reconcile mem_reconciler tg_req policy_world)) (KPolicy, guardrail_key plain_tg) = None"
proof -
  have c: "claims_gateway mem_at policy_world plain_tg demo_class" "tg_Guardrails plain_tg = []"
    by (rule class_claims [OF policy_at(3)]) (simp_all add: plain_tg_def demo_tg_def)
  show ?thesis
    using gateway_deletes_foreign_policy [OF mem_gateway.gateway_operator_axioms surjective_pairing policy_at(2) c(1) policy_at(4,5)] c(2) policy_at(1)
    by simp
qed

text \<open>
  The guard watch is exact: an event on a \<open>Guard\<close> enqueues precisely the gateways that
  have it among their guardrails, an omitted namespace read as the gateway's.
\<close>

theorem gateway_guard_watch_exact:
  assumes "gateway_operator r at events" and "c_list (r_Client r) KToolGateway None w = Inr obs"
  shows "\<exists>f. (KGuard, f) \<in> set (su_Watches (ToolGateway_SetupWithManager r))
     \<and> set (f (OGuard g) w) =
         {k. \<exists>tg. at w (KToolGateway, k) = Some (OToolGateway tg)
                \<and> meta_key (g_Meta g) \<in> guard_ref_key tg ` set (tg_Guardrails tg)}"
  using gateway_operator.finds_gateways [OF assms] by (auto simp: ToolGateway_SetupWithManager_def)

theorem gateway_guard_watch_exact_witness:
  "tg_req \<in> set (findToolGatewayForGuard mem_reconciler (OGuard (guard_with ''True'')) tg_world)"
proof -
  have l: "c_list (r_Client mem_reconciler) KToolGateway None tg_world = Inr [OToolGateway demo_tg]"
    by (simp add: mem_reconciler_def tg_world_def demo_tg_def demo_class_def guard_with_def mem_eval)
  show ?thesis
    using gateway_guard_watch_exact [OF mem_gateway.gateway_operator_axioms l, of "guard_with ''True''"]
    by (auto simp: ToolGateway_SetupWithManager_def tg_at)
      (simp_all add: tg_req_def demo_tg_def guard_with_def guard_ref_key_def meta_key_def new_meta_def)
qed

text \<open>
  The provider watch misses nothing: when the gateways and the guards can be listed, an
  event on a \<open>GuardrailProvider\<close> enqueues every gateway one of whose guards refers to the
  provider.
\<close>

theorem gateway_provider_watch_complete:
  assumes "gateway_operator r at events"
    and "c_list (r_Client r) KToolGateway None w = Inr obs" "c_list (r_Client r) KGuard None w = Inr obs'"
    and "at w (KToolGateway, k) = Some (OToolGateway tg)" "ref \<in> set (tg_Guardrails tg)"
    and "at w (KGuard, guard_ref_key tg ref) = Some (OGuard g)" "provider_key g = meta_key (gp_Meta p)"
  shows "\<exists>f. (KGuardrailProvider, f) \<in> set (su_Watches (ToolGateway_SetupWithManager r)) \<and> k \<in> set (f (OGuardrailProvider p) w)"
  using gateway_operator.finds_gateways_provider [OF assms] by (auto simp: ToolGateway_SetupWithManager_def)

definition the_provider :: guardrail_provider where
  "the_provider = \<lparr>gp_Meta = new_meta ''presidio'' ''ns'', gp_Type = ''presidio-api'', gp_Presidio = Some ''http://p''\<rparr>"

theorem gateway_provider_watch_complete_witness:
  "tg_req \<in> set (findToolGatewayForGuardrailProvider mem_reconciler (OGuardrailProvider the_provider) tg_world)"
proof -
  have l: "c_list (r_Client mem_reconciler) KToolGateway None tg_world = Inr [OToolGateway demo_tg]"
    "c_list (r_Client mem_reconciler) KGuard None tg_world = Inr [OGuard (guard_with ''True'')]"
    by (simp_all add: mem_reconciler_def tg_world_def demo_tg_def demo_class_def guard_with_def mem_eval)
  have g: "\<lparr>ref_Name = ''pii'', ref_Namespace = []\<rparr> \<in> set (tg_Guardrails demo_tg)"
    "mem_at tg_world (KGuard, guard_ref_key demo_tg \<lparr>ref_Name = ''pii'', ref_Namespace = []\<rparr>) = Some (OGuard (guard_with ''True''))"
    "provider_key (guard_with ''True'') = meta_key (gp_Meta the_provider)"
    by (simp_all add: tg_world_def demo_tg_def demo_class_def guard_with_def guard_ref_key_def provider_key_def the_provider_def mem_eval)
  show ?thesis
    using gateway_provider_watch_complete [OF mem_gateway.gateway_operator_axioms l tg_at g]
    by (auto simp: ToolGateway_SetupWithManager_def)
qed

end
