(* ===== verification/ToolAuthz.thy ===== *)
theory ToolAuthz
  imports GoUtf8 KubeObjects
begin

text \<open>
  \<open>internal/controller/toolroute_authz.go\<close>: the translation of a \<open>ToolFilter\<close> (glob allow
  and deny lists) into the CEL rules of an \<open>AgentgatewayPolicy\<close>, and the shape of its
  output.  What the rules mean to a CEL engine is the subject of \<open>CelReading\<close>.
\<close>

section \<open>Definitions\<close>


definition hasGlobMeta :: "string \<Rightarrow> bool" where
  "hasGlobMeta p = contains_any p ''*?''"

text \<open>
  The loop of \<open>globToRegex\<close> over the runes of the glob: \<open>b\<close> is the builder, \<open>literal\<close> the
  pending literal segment; \<open>flush_literal\<close> is the closure that quotes and empties it.
\<close>

definition flush_literal :: "string \<Rightarrow> string \<Rightarrow> string" where
  "flush_literal b literal = (if literal \<noteq> [] then b @ quote_meta literal else b)"

fun glob_loop :: "nat list \<Rightarrow> string \<Rightarrow> string \<Rightarrow> string" where
  "glob_loop [] b literal = flush_literal b literal"
| "glob_loop (r # rs) b literal =
     (if r = of_char (CHR ''*'') then glob_loop rs (flush_literal b literal @ ''.*'') []
      else if r = of_char (CHR ''?'') then glob_loop rs (flush_literal b literal @ ''.'') []
      else glob_loop rs b (literal @ encode_rune r))"

definition globToRegex :: "string \<Rightarrow> string" where
  "globToRegex glob = glob_loop (go_runes glob) ''^'' [] @ ''$''"

definition celEscape :: "string \<Rightarrow> string" where
  "celEscape s =
     (let s1 = replace_all (CHR 0x5C) [CHR 0x5C, CHR 0x5C] s;
          s2 = replace_all (CHR 0x22) [CHR 0x5C, CHR 0x22] s1
      in [CHR 0x22] @ s2 @ [CHR 0x22])"

definition globToCELPredicate :: "string \<Rightarrow> string" where
  "globToCELPredicate pattern =
     (if \<not> hasGlobMeta pattern then ''mcp.tool.name == '' @ celEscape pattern
      else ''mcp.tool.name.matches('' @ celEscape (globToRegex pattern) @ '')'')"

definition orJoin :: "string list \<Rightarrow> string" where
  "orJoin preds = strings_join '' || '' preds"

definition buildMcpAuthorizationRules :: "tool_filter option \<Rightarrow> string list" where
  "buildMcpAuthorizationRules flt =
     (case flt of
        None \<Rightarrow> []
      | Some f \<Rightarrow>
          if tf_Allow f = [] \<and> tf_Deny f = [] then []
          else
            (let allowPreds = map globToCELPredicate (tf_Allow f);
                 denyPreds = map globToCELPredicate (tf_Deny f)
             in if allowPreds \<noteq> [] \<and> denyPreds \<noteq> []
                then [''('' @ orJoin allowPreds @ '') && !('' @ orJoin denyPreds @ '')'']
                else if allowPreds \<noteq> [] then [orJoin allowPreds]
                else if denyPreds \<noteq> [] then [''!('' @ orJoin denyPreds @ '')'']
                else []))"

section \<open>The regex of a glob, rune by rune\<close>

text \<open>What one rune of the glob contributes to the regular expression.\<close>

definition regex_of_rune :: "nat \<Rightarrow> string" where
  "regex_of_rune r =
     (if r = of_char (CHR ''*'') then ''.*''
      else if r = of_char (CHR ''?'') then ''.''
      else quote_meta (encode_rune r))"

lemma flush_literal_eq: "flush_literal b literal = b @ quote_meta literal"
  by (simp add: flush_literal_def)

lemma glob_loop_eq:
  "glob_loop rs b literal = b @ quote_meta literal @ concat (map regex_of_rune rs)"
  by (induction rs arbitrary: b literal)
    (simp_all add: flush_literal_eq regex_of_rune_def quote_meta_append)

lemma globToRegex_eq: "globToRegex g = ''^'' @ concat (map regex_of_rune (go_runes g)) @ ''$''"
  by (simp add: globToRegex_def glob_loop_eq)

lemma buildMcpAuthorizationRules_Nil_iff:
  "buildMcpAuthorizationRules f = [] \<longleftrightarrow> (case f of None \<Rightarrow> True | Some g \<Rightarrow> tf_Allow g = [] \<and> tf_Deny g = [])"
  by (auto simp: buildMcpAuthorizationRules_def Let_def split: option.split)

lemma buildMcpAuthorizationRules_at_most_one: "length (buildMcpAuthorizationRules f) \<le> 1"
  by (auto simp: buildMcpAuthorizationRules_def Let_def split: option.split)

end
