(* ===== verification/CelReading.thy ===== *)
theory CelReading
  imports ToolAuthz
begin

text \<open>
  What the generated rules mean.  The CEL and RE2 engines are not part of the repository, so
  they are the parameters of the locale \<open>cel_engine\<close>: its laws say that on the fragment of
  CEL and of RE2 read here (string equality, \<open>matches\<close>, the boolean connectives,
  parentheses; anchored sequences of literals, \<open>.\<close> and \<open>.*\<close>) the engines follow their
  language definitions.  Outside the fragment nothing is assumed.  The reading itself is an
  executable lexer, parser and evaluator, which also gives a reference engine that satisfies
  the laws.

  Against this reading, the rules built from a filter accept exactly the tool names the
  filter admits (\<open>rules_meaning\<close>).
\<close>

section \<open>Tokens of CEL\<close>

datatype cel_tok =
    TLParen | TRParen | TNot | TAnd | TOr | TEq | TDot
  | TIdent string
  | TStr string

datatype lex_state = LNormal | LIdent string | LStr string

definition ident_char :: "char \<Rightarrow> bool" where
  "ident_char c =
     (let n = of_char c :: nat in
      97 \<le> n \<and> n \<le> 122 \<or> 65 \<le> n \<and> n \<le> 90 \<or> 48 \<le> n \<and> n \<le> 57 \<or> n = 95)"

definition cel_space :: "char \<Rightarrow> bool" where
  "cel_space c = (of_char c \<in> set [32, 9, 10, 12, 13 :: nat])"

definition is_newline :: "char \<Rightarrow> bool" where
  "is_newline c = (of_char c = (10::nat) \<or> of_char c = (13::nat))"

text \<open>
  Double-quoted literals may not contain a raw newline; of the escapes only the backslash
  and the quote are in the fragment.
\<close>

function cel_lex :: "lex_state \<Rightarrow> string \<Rightarrow> cel_tok list option" where
  "cel_lex LNormal [] = Some []"
| "cel_lex (LIdent a) [] = Some [TIdent a]"
| "cel_lex (LStr a) [] = None"
| "cel_lex (LIdent a) (c # s) =
     (if ident_char c then cel_lex (LIdent (a @ [c])) s
      else map_option ((#) (TIdent a)) (cel_lex LNormal (c # s)))"
| "cel_lex (LStr a) (c # s) =
     (if c = CHR 0x22 then map_option ((#) (TStr a)) (cel_lex LNormal s)
      else if is_newline c then None
      else if c = CHR 0x5C then
        (case s of
           d # t \<Rightarrow> if d = CHR 0x22 \<or> d = CHR 0x5C then cel_lex (LStr (a @ [d])) t else None
         | [] \<Rightarrow> None)
      else cel_lex (LStr (a @ [c])) s)"
| "cel_lex LNormal (c # s) =
     (if cel_space c then cel_lex LNormal s
      else if c = CHR ''('' then map_option ((#) TLParen) (cel_lex LNormal s)
      else if c = CHR '')'' then map_option ((#) TRParen) (cel_lex LNormal s)
      else if c = CHR ''.'' then map_option ((#) TDot) (cel_lex LNormal s)
      else if c = CHR ''!'' then map_option ((#) TNot) (cel_lex LNormal s)
      else if c = CHR 0x22 then cel_lex (LStr []) s
      else if c = CHR ''&'' \<or> c = CHR ''|'' \<or> c = CHR ''='' then
        (case s of
           d # t \<Rightarrow>
             if d = c then map_option ((#) (if c = CHR ''&'' then TAnd else if c = CHR ''|'' then TOr else TEq))
                             (cel_lex LNormal t)
             else None
         | [] \<Rightarrow> None)
      else if ident_char c then cel_lex (LIdent [c]) s
      else None)"
  by pat_completeness auto
termination
  by (relation "measure (\<lambda>(st, s). 2 * length s + (if st = LNormal then 0 else 1))") auto

section \<open>Grammar of CEL\<close>

datatype cel =
    CLit string
  | CPath "string list"
  | CEq cel cel
  | CMatches cel cel
  | CNot cel
  | CAnd cel cel
  | COr cel cel

text \<open>The argument list \<open>("...")\<close> of a call, if there is one.\<close>

definition cel_args :: "cel_tok list \<Rightarrow> (string \<times> cel_tok list) option" where
  "cel_args ts =
     (case ts of
        u # v # w # r \<Rightarrow>
          if u = TLParen \<and> w = TRParen then (case v of TStr s \<Rightarrow> Some (s, r) | _ \<Rightarrow> None) else None
      | _ \<Rightarrow> None)"

text \<open>The selectors after an identifier, and the one method call of the fragment.\<close>

fun cel_suffix :: "string list \<Rightarrow> cel_tok list \<Rightarrow> (cel \<times> cel_tok list) option" where
  "cel_suffix path [] = Some (CPath path, [])"
| "cel_suffix path [t] = (if t = TDot then None else Some (CPath path, [t]))"
| "cel_suffix path (t # u # r) =
     (if t = TDot then
        (case u of
           TIdent i \<Rightarrow>
             (case cel_args r of
                Some (s, r') \<Rightarrow> if i = ''matches'' then Some (CMatches (CPath path) (CLit s), r') else None
              | None \<Rightarrow> cel_suffix (path @ [i]) r)
         | _ \<Rightarrow> None)
      else Some (CPath path, t # u # r))"

text \<open>
  One function per level of the grammar; \<open>||\<close> binds weakest, then \<open>&&\<close>, then \<open>==\<close>, then
  \<open>!\<close>.  The first argument bounds the nesting.
\<close>

fun cel_or :: "nat \<Rightarrow> cel_tok list \<Rightarrow> (cel \<times> cel_tok list) option"
  and cel_and :: "nat \<Rightarrow> cel_tok list \<Rightarrow> (cel \<times> cel_tok list) option"
  and cel_rel :: "nat \<Rightarrow> cel_tok list \<Rightarrow> (cel \<times> cel_tok list) option"
  and cel_unary :: "nat \<Rightarrow> cel_tok list \<Rightarrow> (cel \<times> cel_tok list) option" where
  "cel_or 0 ts = None"
| "cel_or (Suc n) ts =
     (case cel_and n ts of
        Some (a, TOr # r) \<Rightarrow> map_option (\<lambda>(b, r'). (COr a b, r')) (cel_or n r)
      | x \<Rightarrow> x)"
| "cel_and 0 ts = None"
| "cel_and (Suc n) ts =
     (case cel_rel n ts of
        Some (a, TAnd # r) \<Rightarrow> map_option (\<lambda>(b, r'). (CAnd a b, r')) (cel_and n r)
      | x \<Rightarrow> x)"
| "cel_rel 0 ts = None"
| "cel_rel (Suc n) ts =
     (case cel_unary n ts of
        Some (a, TEq # r) \<Rightarrow> map_option (\<lambda>(b, r'). (CEq a b, r')) (cel_unary n r)
      | x \<Rightarrow> x)"
| "cel_unary 0 ts = None"
| "cel_unary (Suc n) ts =
     (case ts of
        TNot # r \<Rightarrow> map_option (\<lambda>(b, r'). (CNot b, r')) (cel_unary n r)
      | TLParen # r \<Rightarrow> (case cel_or n r of Some (a, TRParen # r') \<Rightarrow> Some (a, r') | _ \<Rightarrow> None)
      | TIdent i # r \<Rightarrow> cel_suffix [i] r
      | TStr s # r \<Rightarrow> Some (CLit s, r)
      | _ \<Rightarrow> None)"

definition cel_parse :: "string \<Rightarrow> cel option" where
  "cel_parse e =
     (case cel_lex LNormal e of
        None \<Rightarrow> None
      | Some ts \<Rightarrow> (case cel_or (4 * length ts + 8) ts of Some (a, []) \<Rightarrow> Some a | _ \<Rightarrow> None))"

section \<open>Evaluation\<close>

text \<open>
  The value of an expression for a tool name; the only variable is \<open>mcp.tool.name\<close>.
  \<open>None\<close> is a type error.
\<close>

datatype cel_value = VString string | VBoolean bool

definition bool_of :: "cel_value option \<Rightarrow> bool option" where
  "bool_of v = (case v of Some (VBoolean b) \<Rightarrow> Some b | _ \<Rightarrow> None)"

fun cel_eval :: "(string \<Rightarrow> string \<Rightarrow> bool) \<Rightarrow> string \<Rightarrow> cel \<Rightarrow> cel_value option" where
  "cel_eval re2 name (CLit s) = Some (VString s)"
| "cel_eval re2 name (CPath p) =
     (if p = [''mcp'', ''tool'', ''name''] then Some (VString name) else None)"
| "cel_eval re2 name (CEq a b) =
     (case (cel_eval re2 name a, cel_eval re2 name b) of
        (Some (VString x), Some (VString y)) \<Rightarrow> Some (VBoolean (x = y))
      | _ \<Rightarrow> None)"
| "cel_eval re2 name (CMatches a b) =
     (case (cel_eval re2 name a, cel_eval re2 name b) of
        (Some (VString x), Some (VString y)) \<Rightarrow> Some (VBoolean (re2 y x))
      | _ \<Rightarrow> None)"
| "cel_eval re2 name (CNot a) = map_option (\<lambda>x. VBoolean (\<not> x)) (bool_of (cel_eval re2 name a))"
| "cel_eval re2 name (CAnd a b) =
     (case (bool_of (cel_eval re2 name a), bool_of (cel_eval re2 name b)) of
        (Some x, Some y) \<Rightarrow> Some (VBoolean (x \<and> y)) | _ \<Rightarrow> None)"
| "cel_eval re2 name (COr a b) =
     (case (bool_of (cel_eval re2 name a), bool_of (cel_eval re2 name b)) of
        (Some x, Some y) \<Rightarrow> Some (VBoolean (x \<or> y)) | _ \<Rightarrow> None)"

section \<open>Regular expressions of RE2\<close>

datatype ritem = RLit nat | RAny | RAnyStar | REnd

text \<open>The ASCII punctuation QuoteMeta escapes; any other use of it is outside the fragment.\<close>

definition special_rune :: "nat \<Rightarrow> bool" where
  "special_rune r = (r \<in> set [92, 46, 43, 42, 63, 40, 41, 124, 91, 93, 123, 125, 94, 36])"

fun re_items :: "nat list \<Rightarrow> ritem list option" where
  "re_items [] = Some []"
| "re_items (c # s) =
     (if c = 92 then
        (case s of d # t \<Rightarrow> if special_rune d then map_option ((#) (RLit d)) (re_items t) else None
                 | [] \<Rightarrow> None)
      else if c = 46 then
        (case s of d # t \<Rightarrow> if d = 42 then map_option ((#) RAnyStar) (re_items t)
                            else map_option ((#) RAny) (re_items s)
                 | [] \<Rightarrow> Some [RAny])
      else if c = 36 then (if s = [] then Some [REnd] else None)
      else if special_rune c then None
      else map_option ((#) (RLit c)) (re_items s))"

text \<open>Only patterns anchored at the start are in the fragment.\<close>

definition re_parse :: "string \<Rightarrow> ritem list option" where
  "re_parse p = (case go_runes p of c # s \<Rightarrow> if c = 94 then re_items s else None | [] \<Rightarrow> None)"

text \<open>
  Matching from the start of the text.  By default \<open>.\<close> matches any character but a newline,
  and an expression without \<open>$\<close> may match a proper prefix.
\<close>

fun items_match :: "ritem list \<Rightarrow> nat list \<Rightarrow> bool" where
  "items_match [] xs = True"
| "items_match (RLit r # is) xs = (case xs of x # ys \<Rightarrow> x = r \<and> items_match is ys | [] \<Rightarrow> False)"
| "items_match (RAny # is) xs = (case xs of x # ys \<Rightarrow> x \<noteq> 10 \<and> items_match is ys | [] \<Rightarrow> False)"
| "items_match (REnd # is) xs = (xs = [] \<and> items_match is xs)"
| "items_match (RAnyStar # is) [] = items_match is []"
| "items_match (RAnyStar # is) (x # xs) =
     (items_match is (x # xs) \<or> x \<noteq> 10 \<and> items_match (RAnyStar # is) xs)"

section \<open>Lexing the generated strings\<close>

definition cel_esc_char :: "char \<Rightarrow> string" where
  "cel_esc_char c = (if c = CHR 0x5C \<or> c = CHR 0x22 then [CHR 0x5C, c] else [c])"

lemma celEscape_eq: "celEscape s = CHR 0x22 # concat (map cel_esc_char s) @ [CHR 0x22]"
proof -
  have "replace_all (CHR 0x22) [CHR 0x5C, CHR 0x22] (replace_all (CHR 0x5C) [CHR 0x5C, CHR 0x5C] s)
        = concat (map cel_esc_char s)"
    by (induction s) (simp_all add: replace_all_def cel_esc_char_def)
  then show ?thesis by (simp add: celEscape_def)
qed

definition no_newline :: "string \<Rightarrow> bool" where
  "no_newline s = list_all (\<lambda>c. \<not> is_newline c) s"

lemma cel_lex_string:
  "no_newline p \<Longrightarrow>
   cel_lex (LStr a) (concat (map cel_esc_char p) @ CHR 0x22 # s)
   = map_option ((#) (TStr (a @ p))) (cel_lex LNormal s)"
  by (induction p arbitrary: a) (auto simp: no_newline_def cel_esc_char_def is_newline_def)

lemma cel_lex_escape:
  "no_newline p \<Longrightarrow> cel_lex LNormal (celEscape p @ s) = map_option ((#) (TStr p)) (cel_lex LNormal s)"
  by (simp add: celEscape_eq cel_lex_string cel_space_def)

definition name_toks :: "cel_tok list" where
  "name_toks = [TIdent ''mcp'', TDot, TIdent ''tool'', TDot, TIdent ''name'']"

definition atom_toks :: "string \<Rightarrow> cel_tok list" where
  "atom_toks p =
     name_toks @ (if hasGlobMeta p
                  then [TDot, TIdent ''matches'', TLParen, TStr (globToRegex p), TRParen]
                  else [TEq, TStr p])"

lemma encode_rune_ascii:
  assumes "c \<in> set (encode_rune r)" and "(of_char c :: nat) < 128"
  shows "r = of_char c"
proof -
  have "c \<in> set (encode_valid q) \<Longrightarrow> q \<le> 1114111 \<Longrightarrow> q = of_char c" for q
  proof -
    assume c: "c \<in> set (encode_valid q)" and q: "q \<le> 1114111"
    show "q = of_char c"
    proof (cases "q < 128")
      case False
      have "q div 4096 \<le> 31" if "q < 65536" using that by (simp add: less_mult_imp_div_less Suc_leI)
      have b: "128 + q mod 64 < 256" "128 + q div 64 mod 64 < 256" "128 + q div 4096 mod 64 < 256"
        using mod64 [of q] mod64 [of "q div 64"] mod64 [of "q div 4096"] by linarith+
      have d: "q < 2048 \<Longrightarrow> 192 + q div 64 < 256" "q < 65536 \<Longrightarrow> 224 + q div 4096 < 256"
        "240 + q div 262144 < 256"
        using q by (simp_all add: div_less_iff_less_mult)
      from c False assms(2) b d show ?thesis
        by (auto simp: encode_valid_def split: if_splits)
    qed (use c in \<open>simp add: encode_valid_def\<close>)
  qed
  with assms show ?thesis
    by (auto simp: encode_rune_def valid_rune_def rune_error_def encode_valid_def split: if_splits)
qed

lemma decode_rune_small: "fst (decode_rune s) < 128 \<Longrightarrow> s \<noteq> [] \<and> fst (decode_rune s) = of_char (hd s)"
  by (cases s)
    (auto simp: Let_def rune_error_def in_range_def snd_lo_def snd_hi_def split: if_splits list.splits)

lemma go_runes_ascii_mem:
  assumes "r \<in> set (go_runes s)" and "r < 128"
  shows "char_of r \<in> set s"
  using assms
proof (induction s rule: rune_chunks.induct)
  case (2 a s)
  let ?d = "decode_rune (a # s)"
  from 2(2) consider "r = fst ?d" | "r \<in> set (go_runes (drop (snd ?d - 1) s))"
    by (auto simp: go_runes_def Let_def simp del: decode_rune.simps)
  then show ?case
  proof cases
    case 1
    with decode_rune_small [of "a # s"] 2(3) show ?thesis by simp
  next
    case 2
    with "2.IH" [OF refl] \<open>r < 128\<close> show ?thesis
      by (auto simp del: decode_rune.simps dest: in_set_dropD)
  qed
qed simp

lemma no_newline_rune: "no_newline p \<Longrightarrow> r \<in> set (go_runes p) \<Longrightarrow> no_newline (encode_rune r)"
proof -
  assume p: "no_newline p" and r: "r \<in> set (go_runes p)"
  have False if c: "c \<in> set (encode_rune r)" and n: "is_newline c" for c
  proof -
    from n have "r = of_char c" using encode_rune_ascii [OF c] by (auto simp: is_newline_def)
    with go_runes_ascii_mem [OF r] n have "c \<in> set p" by (auto simp: is_newline_def)
    with p n show False by (auto simp: no_newline_def list_all_iff)
  qed
  then show ?thesis by (auto simp: no_newline_def list_all_iff)
qed

lemma no_newline_quote: "no_newline s \<Longrightarrow> no_newline (quote_meta s)"
  by (auto simp: no_newline_def quote_meta_def list_all_iff backslash_def is_newline_def)

lemma no_newline_globToRegex:
  assumes "no_newline p" shows "no_newline (globToRegex p)"
proof -
  have "no_newline (regex_of_rune r)" if "r \<in> set (go_runes p)" for r
    using no_newline_quote [OF no_newline_rune [OF assms that]]
    by (simp add: regex_of_rune_def no_newline_def is_newline_def)
  then show ?thesis
    by (auto simp: globToRegex_eq no_newline_def list_all_iff is_newline_def)
qed

lemma cel_lex_atom:
  assumes "no_newline p"
  shows "cel_lex LNormal (globToCELPredicate p @ s) = map_option ((@) (atom_toks p)) (cel_lex LNormal s)"
  using cel_lex_escape [OF assms] cel_lex_escape [OF no_newline_globToRegex [OF assms]]
  by (cases "cel_lex LNormal s")
    (simp_all add: globToCELPredicate_def atom_toks_def name_toks_def cel_space_def ident_char_def)

fun or_toks :: "string list \<Rightarrow> cel_tok list" where
  "or_toks [] = []"
| "or_toks [p] = atom_toks p"
| "or_toks (p # q # ps) = atom_toks p @ TOr # or_toks (q # ps)"

lemma cel_lex_or:
  "list_all no_newline ps \<Longrightarrow> ps \<noteq> [] \<Longrightarrow>
   cel_lex LNormal (orJoin (map globToCELPredicate ps) @ s)
   = map_option ((@) (or_toks ps)) (cel_lex LNormal s)"
proof (induction ps rule: or_toks.induct)
  case (3 p q ps)
  then have "cel_lex LNormal (globToCELPredicate p @ '' || '' @ orJoin (map globToCELPredicate (q # ps)) @ s)
     = map_option ((@) (or_toks (p # q # ps))) (cel_lex LNormal s)"
    by (cases "cel_lex LNormal s") (simp_all add: cel_lex_atom cel_space_def)
  then show ?case by (cases "cel_lex LNormal s") (simp_all add: orJoin_def)
qed (simp_all add: orJoin_def cel_lex_atom)

section \<open>Parsing the generated strings\<close>

definition atom_ast :: "string \<Rightarrow> cel" where
  "atom_ast p =
     (if hasGlobMeta p
      then CMatches (CPath [''mcp'', ''tool'', ''name'']) (CLit (globToRegex p))
      else CEq (CPath [''mcp'', ''tool'', ''name'']) (CLit p))"

fun or_ast :: "string list \<Rightarrow> cel" where
  "or_ast [] = CLit []"
| "or_ast [p] = atom_ast p"
| "or_ast (p # q # ps) = COr (atom_ast p) (or_ast (q # ps))"

text \<open>
  One step of each level, given what follows the operand.  \<open>ends_atom\<close> holds of the tokens
  that may follow a relation in the generated rules, \<open>ends_or\<close> of those after a disjunction.
\<close>

definition ends_atom :: "cel_tok list \<Rightarrow> bool" where
  "ends_atom r = (r = [] \<or> hd r \<in> {TOr, TAnd, TRParen})"

definition ends_or :: "cel_tok list \<Rightarrow> bool" where
  "ends_or r = (r = [] \<or> hd r = TRParen)"

lemma ends_simps [simp]:
  "ends_atom []" "ends_atom (TOr # r)" "ends_atom (TAnd # r)" "ends_atom (TRParen # r)"
  "ends_or []" "ends_or (TRParen # r)"
  by (simp_all add: ends_atom_def ends_or_def)

lemma ends_orE: "ends_or r \<Longrightarrow> r = [] \<or> (\<exists>u. r = TRParen # u)"
  by (cases r) (simp_all add: ends_or_def)

lemma ends_atomE: "ends_atom r \<Longrightarrow> r = [] \<or> (\<exists>u. r = TRParen # u \<or> r = TOr # u \<or> r = TAnd # u)"
  by (cases r) (auto simp: ends_atom_def)

lemma cel_rel_end:
  "cel_unary n ts = Some (a, r) \<Longrightarrow> ends_atom r \<Longrightarrow> cel_rel (Suc n) ts = Some (a, r)"
  by (auto dest!: ends_atomE)

lemma cel_and_end:
  "cel_rel n ts = Some (a, r) \<Longrightarrow> ends_or r \<or> hd r = TOr \<and> r \<noteq> [] \<Longrightarrow> cel_and (Suc n) ts = Some (a, r)"
  by (cases r) (auto simp: ends_or_def)

lemma cel_and_more:
  "cel_rel n ts = Some (a, TAnd # r) \<Longrightarrow> cel_and n r = Some (b, r') \<Longrightarrow>
   cel_and (Suc n) ts = Some (CAnd a b, r')"
  by simp

lemma cel_or_end:
  "cel_and n ts = Some (a, r) \<Longrightarrow> ends_or r \<Longrightarrow> cel_or (Suc n) ts = Some (a, r)"
  by (auto dest!: ends_orE)

lemma cel_or_more:
  "cel_and n ts = Some (a, TOr # r) \<Longrightarrow> cel_or n r = Some (b, r') \<Longrightarrow>
   cel_or (Suc n) ts = Some (COr a b, r')"
  by simp

lemma cel_unary_paren:
  "cel_or n r = Some (a, TRParen # r') \<Longrightarrow> cel_unary (Suc n) (TLParen # r) = Some (a, r')"
  by simp

lemma cel_unary_not:
  "cel_unary n r = Some (a, r') \<Longrightarrow> cel_unary (Suc n) (TNot # r) = Some (CNot a, r')"
  by simp

lemma cel_rel_atom:
  assumes "ends_atom r" shows "cel_rel (Suc (Suc n)) (atom_toks p @ r) = Some (atom_ast p, r)"
proof (cases r)
  case Nil
  then show ?thesis by (simp add: atom_toks_def name_toks_def atom_ast_def cel_args_def)
next
  case (Cons t u)
  with assms have "t = TOr \<or> t = TAnd \<or> t = TRParen" by (auto simp: ends_atom_def)
  then show ?thesis unfolding Cons
    by (cases u) (auto simp: atom_toks_def name_toks_def atom_ast_def cel_args_def)
qed

declare cel_or.simps [simp del] cel_and.simps [simp del] cel_rel.simps [simp del] cel_unary.simps [simp del]

lemma cel_or_atoms:
  assumes "ps \<noteq> []" and "ends_or r"
  shows "cel_or (length ps + 3 + n) (or_toks ps @ r) = Some (or_ast ps, r)"
  using assms
proof (induction ps rule: or_toks.induct)
  case (2 p)
  have "cel_rel (Suc (Suc n)) (atom_toks p @ r) = Some (atom_ast p, r)"
    using 2 by (intro cel_rel_atom) (auto simp: ends_or_def ends_atom_def)
  then have "cel_or (Suc (Suc (Suc (Suc n)))) (atom_toks p @ r) = Some (atom_ast p, r)"
    using 2 by (intro cel_or_end cel_and_end) simp_all
  moreover have "length [p] + 3 + n = Suc (Suc (Suc (Suc n)))" by simp
  ultimately show ?case by (simp only: or_toks.simps or_ast.simps)
next
  case (3 p q ps)
  define m where "m = length ps + n"
  have "cel_rel (Suc (Suc (Suc m))) (atom_toks p @ TOr # or_toks (q # ps) @ r)
      = Some (atom_ast p, TOr # or_toks (q # ps) @ r)"
    by (rule cel_rel_atom) simp
  then have a: "cel_and (Suc (Suc (Suc (Suc m)))) (atom_toks p @ TOr # or_toks (q # ps) @ r)
      = Some (atom_ast p, TOr # or_toks (q # ps) @ r)"
    by (rule cel_and_end) simp
  have "cel_or (length (q # ps) + 3 + n) (or_toks (q # ps) @ r) = Some (or_ast (q # ps), r)"
    using 3 by blast
  moreover have "length (q # ps) + 3 + n = Suc (Suc (Suc (Suc m)))" by (simp add: m_def)
  ultimately have b: "cel_or (Suc (Suc (Suc (Suc m)))) (or_toks (q # ps) @ r) = Some (or_ast (q # ps), r)"
    by (simp only:)
  have "length (p # q # ps) + 3 + n = Suc (Suc (Suc (Suc (Suc m))))" by (simp add: m_def)
  then show ?case using cel_or_more [OF a b]
    by (simp only: or_toks.simps or_ast.simps append.simps append_assoc)
qed simp

text \<open>The three shapes of a rule.\<close>

lemma cel_lex_Nil [simp]: "cel_lex LNormal [] = Some []"
  by simp

lemma length_or_toks: "length ps \<le> length (or_toks ps)"
  by (induction ps rule: or_toks.induct) (simp_all add: atom_toks_def name_toks_def)

lemma fuel_split: "k \<le> n \<Longrightarrow> \<exists>m. n = k + (m::nat)"
  using le_Suc_ex by blast

lemma cel_parse_allow:
  assumes "list_all no_newline ps" "ps \<noteq> []"
  shows "cel_parse (orJoin (map globToCELPredicate ps)) = Some (or_ast ps)"
proof -
  have lex: "cel_lex LNormal (orJoin (map globToCELPredicate ps)) = Some (or_toks ps)"
    using cel_lex_or [OF assms, of "[]"] by simp
  have "length ps + 3 \<le> 4 * length (or_toks ps) + 8" using length_or_toks [of ps] by simp
  then obtain m where m: "4 * length (or_toks ps) + 8 = length ps + 3 + m"
    using fuel_split by blast
  show ?thesis
    using cel_or_atoms [OF assms(2), of "[]" m] unfolding cel_parse_def lex option.case m by simp
qed

lemma cel_unary_group:
  assumes "ps \<noteq> []"
  shows "cel_unary (Suc (length ps + 3 + n)) (TLParen # or_toks ps @ TRParen # r) = Some (or_ast ps, r)"
  by (intro cel_unary_paren cel_or_atoms assms) simp

lemma cel_rel_deny:
  assumes "ps \<noteq> []" and "ends_or r"
  shows "cel_rel (length ps + 6 + n) (TNot # TLParen # or_toks ps @ TRParen # r) = Some (CNot (or_ast ps), r)"
proof -
  have "cel_rel (Suc (Suc (Suc (length ps + 3 + n)))) (TNot # TLParen # or_toks ps @ TRParen # r)
        = Some (CNot (or_ast ps), r)"
    using assms(2) by (intro cel_rel_end cel_unary_not cel_unary_group assms) (auto simp: ends_or_def ends_atom_def)
  moreover have "length ps + 6 + n = Suc (Suc (Suc (length ps + 3 + n)))" by simp
  ultimately show ?thesis by (simp only:)
qed

lemma cel_parse_deny:
  assumes "list_all no_newline ps" "ps \<noteq> []"
  shows "cel_parse (''!('' @ orJoin (map globToCELPredicate ps) @ '')'') = Some (CNot (or_ast ps))"
proof -
  let ?ts = "TNot # TLParen # or_toks ps @ [TRParen]"
  have lex: "cel_lex LNormal (''!('' @ orJoin (map globToCELPredicate ps) @ '')'') = Some ?ts"
    using cel_lex_or [OF assms, of "'')''"] by (simp add: cel_space_def)
  have "length ps + 8 \<le> 4 * length ?ts + 8" using length_or_toks [of ps] by simp
  then obtain m where m: "4 * length ?ts + 8 = Suc (Suc (length ps + 6 + m))"
    using fuel_split [of "length ps + 8" "4 * length ?ts + 8"] by auto
  have "cel_or (Suc (Suc (length ps + 6 + m))) ?ts = Some (CNot (or_ast ps), [])"
    by (rule cel_or_end, rule cel_and_end, rule cel_rel_deny) (simp_all add: assms)
  then show ?thesis unfolding cel_parse_def lex option.case m by simp
qed

lemma cel_parse_both:
  assumes "list_all no_newline ps" "ps \<noteq> []" "list_all no_newline qs" "qs \<noteq> []"
  shows "cel_parse (''('' @ orJoin (map globToCELPredicate ps) @ '') && !('' @ orJoin (map globToCELPredicate qs) @ '')'')
         = Some (CAnd (or_ast ps) (CNot (or_ast qs)))"
proof -
  let ?d = "TNot # TLParen # or_toks qs @ [TRParen]"
  let ?ts = "TLParen # or_toks ps @ TRParen # TAnd # ?d"
  have d: "cel_lex LNormal (''!('' @ orJoin (map globToCELPredicate qs) @ '')'') = Some ?d"
    using cel_lex_or [OF assms(3,4), of "'')''"] by (simp add: cel_space_def)
  have lex: "cel_lex LNormal (''('' @ orJoin (map globToCELPredicate ps) @ '') && !('' @ orJoin (map globToCELPredicate qs) @ '')'')
      = Some ?ts"
    using cel_lex_or [OF assms(1,2), of "'') && !('' @ orJoin (map globToCELPredicate qs) @ '')''"] d
    by (simp add: cel_space_def)
  have "length ps + length qs + 9 \<le> 4 * length ?ts + 8"
    using length_or_toks [of ps] length_or_toks [of qs] by simp
  then obtain m where m: "4 * length ?ts + 8 = length ps + length qs + 9 + m"
    using fuel_split by blast
  have "cel_rel (Suc (Suc (length ps + 3 + (length qs + m + 2)))) ?ts = Some (or_ast ps, TAnd # ?d)"
    by (rule cel_rel_end, rule cel_unary_group) (simp_all add: assms)
  then have a: "cel_rel (Suc (length qs + 6 + (length ps + m))) ?ts = Some (or_ast ps, TAnd # ?d)"
    by (simp add: algebra_simps)
  have "cel_and (Suc (length qs + 6 + (length ps + m))) ?d = Some (CNot (or_ast qs), [])"
    by (rule cel_and_end, rule cel_rel_deny) (simp_all add: assms)
  from cel_and_more [OF a this]
  have "cel_or (Suc (Suc (Suc (length qs + 6 + (length ps + m))))) ?ts
      = Some (CAnd (or_ast ps) (CNot (or_ast qs)), [])"
    by (rule cel_or_end) simp
  moreover have e: "4 * length ?ts + 8 = Suc (Suc (Suc (length qs + 6 + (length ps + m))))"
    unfolding m by simp
  ultimately show ?thesis unfolding cel_parse_def lex option.case e by simp
qed

section \<open>Reading the generated regular expression\<close>

text \<open>The runes one rune of the glob becomes, and the item they are read as.\<close>

definition regex_runes :: "nat \<Rightarrow> nat list" where
  "regex_runes r =
     (if r = 42 then [46, 42] else if r = 63 then [46] else if special_rune r then [92, r] else [r])"

definition item_of :: "nat \<Rightarrow> ritem" where
  "item_of r = (if r = 42 then RAnyStar else if r = 63 then RAny else RLit r)"

lemma regex_runes_simps [simp]:
  "regex_runes 42 = [46, 42]" "regex_runes 63 = [46]"
  "r \<noteq> 42 \<Longrightarrow> r \<noteq> 63 \<Longrightarrow> regex_runes r = (if special_rune r then [92, r] else [r])"
  by (simp_all add: regex_runes_def)

lemma item_of_simps [simp]:
  "item_of 42 = RAnyStar" "item_of 63 = RAny"
  "r \<noteq> 42 \<Longrightarrow> r \<noteq> 63 \<Longrightarrow> item_of r = RLit r"
  by (simp_all add: item_of_def)

lemma encode_rune_char:
  "(of_char c :: nat) < 128 \<Longrightarrow> encode_rune (of_char c) = [c]"
  by (simp add: encode_rune_def encode_valid_def valid_rune_def)

lemma encode_rune_ascii_simps [simp]:
  "encode_rune 94 = ''^''" "encode_rune 36 = ''$''" "encode_rune 46 = ''.''"
  "encode_rune 42 = ''*''" "encode_rune 92 = [backslash]"
  using encode_rune_char [of "CHR ''^''"] encode_rune_char [of "CHR ''$''"]
    encode_rune_char [of "CHR ''.''"] encode_rune_char [of "CHR ''*''"] encode_rune_char [of backslash]
  by (simp_all add: backslash_def)

lemma special_char_rune:
  "regex_special c \<longleftrightarrow> special_rune (of_char c)"
proof -
  have "regex_special c \<longleftrightarrow> (of_char c :: nat) \<in> of_char ` set (CHR 0x5C # ''.+*?()|[]{}^$'')"
    unfolding regex_special_def by (rule inj_image_mem_iff [symmetric]) (simp add: inj_def)
  then show ?thesis by (simp add: special_rune_def)
qed

lemma special_rune_ascii: "special_rune r \<Longrightarrow> r < 128"
  by (auto simp: special_rune_def)

lemma quote_meta_rune:
  assumes "valid_rune r"
  shows "quote_meta (encode_rune r) = encode_runes (if special_rune r then [92, r] else [r])"
proof (cases "r < 128")
  case True
  then have "encode_rune r = [char_of r]" by (simp add: encode_rune_def encode_valid_def valid_rune_def)
  with True show ?thesis by (simp add: quote_meta_def special_char_rune)
next
  case False
  have "\<not> regex_special c" if "c \<in> set (encode_rune r)" for c
    using encode_rune_ascii [OF that] special_rune_ascii [of "of_char c"] False
    by (auto simp: special_char_rune)
  then have "quote_meta (encode_rune r) = concat (map (\<lambda>c. [c]) (encode_rune r))"
    unfolding quote_meta_def by (intro arg_cong [where f = concat] map_cong) auto
  with False show ?thesis by (auto dest: special_rune_ascii)
qed

lemma regex_of_rune_runes:
  "valid_rune r \<Longrightarrow> regex_of_rune r = encode_runes (regex_runes r)"
  by (cases "r = 42"; cases "r = 63") (simp_all add: regex_of_rune_def quote_meta_rune)

lemma regex_runes_valid: "valid_rune r \<Longrightarrow> list_all valid_rune (regex_runes r)"
  by (simp add: regex_runes_def valid_rune_def)

lemma globToRegex_runes:
  "go_runes (globToRegex g) = 94 # concat (map regex_runes (go_runes g)) @ [36]"
proof -
  have v: "list_all valid_rune (go_runes g)" by (rule go_runes_valid)
  have "concat (map regex_of_rune rs) = encode_runes (concat (map regex_runes rs))"
    if "list_all valid_rune rs" for rs
    using that by (induction rs) (simp_all add: regex_of_rune_runes)
  with v have eq: "globToRegex g = encode_runes (94 # concat (map regex_runes (go_runes g)) @ [36])"
    by (simp add: globToRegex_eq)
  have "list_all valid_rune (94 # concat (map regex_runes (go_runes g)) @ [36])"
    using v regex_runes_valid by (auto simp: list_all_iff valid_rune_def)
  from go_runes_encode_runes [OF this, of "[]"] have
    "go_runes (encode_runes (94 # concat (map regex_runes (go_runes g)) @ [36]))
      = 94 # concat (map regex_runes (go_runes g)) @ [36]"
    by (simp only: append_Nil2 go_runes_Nil)
  with eq show ?thesis by (simp only:)
qed

lemma regex_runes_head: "hd (concat (map regex_runes rs) @ [36]) \<noteq> 42"
  by (cases rs) (simp_all add: regex_runes_def special_rune_def)

lemma re_items_regex:
  "re_items (concat (map regex_runes rs) @ [36]) = Some (map item_of rs @ [REnd])"
proof (induction rs)
  case (Cons r rs)
  obtain d t where d: "concat (map regex_runes rs) @ [36] = d # t"
    by (cases "concat (map regex_runes rs) @ [36]") simp_all
  with regex_runes_head [of rs] have "d \<noteq> 42" by simp
  then show ?case using Cons d
    by (cases "r = 42"; cases "r = 63") (auto simp: special_rune_def)
qed simp

lemma re_parse_globToRegex:
  "re_parse (globToRegex g) = Some (map item_of (go_runes g) @ [REnd])"
  by (simp add: re_parse_def globToRegex_runes re_items_regex)

section \<open>Globs\<close>

text \<open>
  The documented meaning of a pattern: \<open>*\<close> stands for any run of characters, \<open>?\<close> for exactly
  one, and every other character for itself.
\<close>

fun glob_match :: "nat list \<Rightarrow> nat list \<Rightarrow> bool" where
  "glob_match [] xs = (xs = [])"
| "glob_match (p # ps) xs =
     (if p = 42 then list_ex (\<lambda>i. glob_match ps (drop i xs)) [0..<Suc (length xs)]
      else (case xs of [] \<Rightarrow> False | x # ys \<Rightarrow> (p = 63 \<or> x = p) \<and> glob_match ps ys))"

lemma glob_star_Nil: "glob_match (42 # ps) [] = glob_match ps []"
  by simp

lemma glob_star_Cons:
  "glob_match (42 # ps) (x # xs) = (glob_match ps (x # xs) \<or> glob_match (42 # ps) xs)"
proof -
  have "(\<exists>i \<le> Suc (length xs). glob_match ps (drop i (x # xs)))
      = (glob_match ps (x # xs) \<or> (\<exists>i \<le> length xs. glob_match ps (drop i xs)))"
    by (metis (no_types, lifting) Suc_le_mono drop0 drop_Suc_Cons le0 not0_implies_Suc)
  then show ?thesis by (auto simp: list_ex_iff less_Suc_eq_le simp del: upt_Suc)
qed

lemma items_match_glob:
  "10 \<notin> set xs \<Longrightarrow> items_match (map item_of ps @ [REnd]) xs = glob_match ps xs"
proof (induction ps arbitrary: xs)
  case (Cons p ps)
  show ?case
  proof (cases "p = 42")
    case True
    from Cons.prems show ?thesis
    proof (induction xs)
      case Nil
      with True show ?case using Cons.IH [of "[]"] by simp
    next
      case (Cons x xs)
      then show ?case using True Cons.IH Cons.prems
        using \<open>\<And>xs. 10 \<notin> set xs \<Longrightarrow> items_match (map item_of ps @ [REnd]) xs = glob_match ps xs\<close> [of "x # xs"]
        by (simp add: glob_star_Cons del: glob_match.simps)
    qed
  next
    case False
    with Cons show ?thesis by (cases "p = 63"; cases xs) auto
  qed
qed simp

lemma glob_match_plain:
  "42 \<notin> set ps \<Longrightarrow> 63 \<notin> set ps \<Longrightarrow> glob_match ps xs \<longleftrightarrow> xs = ps"
  by (induction ps arbitrary: xs) (auto split: list.splits)

section \<open>What a filter admits, and what a policy admits\<close>

definition pattern_matches :: "string \<Rightarrow> string \<Rightarrow> bool" where
  "pattern_matches p name = glob_match (go_runes p) (go_runes name)"

definition tool_allowed :: "tool_filter option \<Rightarrow> string \<Rightarrow> bool" where
  "tool_allowed flt name =
     (case flt of
        None \<Rightarrow> True
      | Some f \<Rightarrow>
          (tf_Allow f = [] \<or> list_ex (\<lambda>p. pattern_matches p name) (tf_Allow f))
          \<and> \<not> list_ex (\<lambda>p. pattern_matches p name) (tf_Deny f))"

text \<open>
  A policy with action Allow admits a tool when one of its expressions holds.  Without rules
  the operator deletes the policy and every tool passes.
\<close>

definition rules_admit :: "(string \<Rightarrow> string \<Rightarrow> bool) \<Rightarrow> string list \<Rightarrow> string \<Rightarrow> bool" where
  "rules_admit accepts rules name = (rules = [] \<or> list_ex (\<lambda>e. accepts e name) rules)"

text \<open>
  Patterns that can be written in a CEL string literal: valid UTF-8 without line breaks
  (a CEL literal in double quotes cannot contain one).
\<close>

definition clean_pattern :: "string \<Rightarrow> bool" where
  "clean_pattern p = (valid_utf8 p \<and> no_newline p)"

definition clean_filter :: "tool_filter option \<Rightarrow> bool" where
  "clean_filter flt =
     (case flt of None \<Rightarrow> True | Some f \<Rightarrow> list_all clean_pattern (tf_Allow f @ tf_Deny f))"

text \<open>A tool name the reading covers: valid UTF-8 with no line feed.\<close>

definition clean_name :: "string \<Rightarrow> bool" where
  "clean_name name = (valid_utf8 name \<and> 10 \<notin> set (go_runes name))"

lemma in_range_high: "in_range lo hi c \<Longrightarrow> 128 \<le> lo \<Longrightarrow> 128 \<le> (of_char c :: nat)"
  by (simp add: in_range_def)

lemma snd_lo_high [simp]: "128 \<le> snd_lo b"
  by (simp add: snd_lo_def)

text \<open>The bytes of one chunk: an ASCII byte is a chunk of its own.\<close>

lemma chunk_tail_high:
  "c \<in> set (take (snd (decode_rune (a # s)) - 1) s) \<Longrightarrow> 128 \<le> (of_char c :: nat)"
proof -
  assume c: "c \<in> set (take (snd (decode_rune (a # s)) - 1) s)"
  define b where "b = (of_char a :: nat)"
  consider "b < 128" | "194 \<le> b" "b \<le> 223" | "224 \<le> b" "b \<le> 239" | "240 \<le> b" "b \<le> 244"
    | "128 \<le> b" "b < 194 \<or> 244 < b" by linarith
  then show ?thesis
  proof cases
    case 2
    with c show ?thesis
      by (auto simp: Let_def b_def [symmetric] dest: in_range_high split: list.splits if_splits)
  next
    case 3
    show ?thesis
    proof (cases "\<exists>x y t. s = x # y # t \<and> in_range (snd_lo b) (snd_hi b) x \<and> in_range 128 191 y")
      case True
      then obtain x y t where s: "s = x # y # t"
        and r: "in_range (snd_lo b) (snd_hi b) x" "in_range 128 191 y" by blast
      with 3 have "snd (decode_rune (a # s)) = 3" by (simp add: Let_def b_def [symmetric])
      with c s have "c \<in> {x, y}" by (simp add: numeral_eq_Suc)
      with r show ?thesis by (auto dest: in_range_high)
    next
      case False
      with 3 have "snd (decode_rune (a # s)) = 1"
        by (auto simp: Let_def b_def [symmetric] split: list.split)
      with c show ?thesis by simp
    qed
  next
    case 4
    show ?thesis
    proof (cases "\<exists>x y z t. s = x # y # z # t \<and> in_range (snd_lo b) (snd_hi b) x \<and> in_range 128 191 y \<and> in_range 128 191 z")
      case True
      then obtain x y z t where s: "s = x # y # z # t"
        and r: "in_range (snd_lo b) (snd_hi b) x" "in_range 128 191 y" "in_range 128 191 z" by blast
      with 4 have "snd (decode_rune (a # s)) = 4" by (simp add: Let_def b_def [symmetric])
      with c s have "c \<in> {x, y, z}" by (simp add: numeral_eq_Suc)
      with r show ?thesis by (auto dest: in_range_high)
    next
      case False
      with 4 have "snd (decode_rune (a # s)) = 1"
        by (auto simp: Let_def b_def [symmetric] split: list.split)
      with c show ?thesis by simp
    qed
  qed (use c in \<open>auto simp: Let_def b_def\<close>)
qed

lemma decode_rune_ascii: "(of_char a :: nat) < 128 \<Longrightarrow> fst (decode_rune (a # s)) = of_char a"
  by (simp add: Let_def)

lemma go_runes_Cons:
  "go_runes (a # s) = fst (decode_rune (a # s)) # go_runes (drop (snd (decode_rune (a # s)) - 1) s)"
  by (simp add: go_runes_def Let_def del: decode_rune.simps)

lemma ascii_mem_go_runes:
  "c \<in> set s \<Longrightarrow> (of_char c :: nat) < 128 \<Longrightarrow> of_char c \<in> set (go_runes s)"
proof (induction s rule: rune_chunks.induct)
  case (2 a s)
  let ?n = "snd (decode_rune (a # s)) - 1"
  from 2(2) have "c = a \<or> c \<in> set (take ?n s) \<or> c \<in> set (drop ?n s)"
    by (metis Un_iff append_take_drop_id set_ConsD set_append)
  then show ?case
  proof (elim disjE)
    assume "c \<in> set (take ?n s)"
    with chunk_tail_high 2(3) show ?thesis by (meson not_le)
  next
    assume "c \<in> set (drop ?n s)"
    with 2 show ?thesis by (simp add: go_runes_Cons del: decode_rune.simps)
  qed (use 2(3) in \<open>simp add: go_runes_Cons decode_rune_ascii del: decode_rune.simps\<close>)
qed simp

lemma hasGlobMeta_runes:
  "hasGlobMeta p \<longleftrightarrow> 42 \<in> set (go_runes p) \<or> 63 \<in> set (go_runes p)"
proof -
  have "c \<in> set p \<longleftrightarrow> of_char c \<in> set (go_runes p)" if "(of_char c :: nat) < 128" for c
    using that ascii_mem_go_runes [of c p] go_runes_ascii_mem [of "of_char c" p] by auto
  from this [of "CHR ''*''"] this [of "CHR ''?''"] show ?thesis
    by (auto simp: hasGlobMeta_def contains_any_def list_ex_iff)
qed

lemma go_runes_inj: "valid_utf8 a \<Longrightarrow> valid_utf8 b \<Longrightarrow> go_runes a = go_runes b \<longleftrightarrow> a = b"
  unfolding valid_utf8_def by metis

section \<open>The engines\<close>

locale cel_engine =
  fixes accepts :: "string \<Rightarrow> string \<Rightarrow> bool"
    and re2 :: "string \<Rightarrow> string \<Rightarrow> bool"
  assumes accepts_fragment:
      "cel_parse e = Some a \<Longrightarrow> bool_of (cel_eval re2 name a) = Some b \<Longrightarrow> accepts e name = b"
    and re2_fragment:
      "re_parse p = Some items \<Longrightarrow> re2 p text = items_match items (go_runes text)"
begin

lemma re2_glob:
  "10 \<notin> set (go_runes name) \<Longrightarrow> re2 (globToRegex p) name = pattern_matches p name"
  by (simp add: re2_fragment [OF re_parse_globToRegex] items_match_glob pattern_matches_def)

lemma eval_atom:
  assumes "valid_utf8 p" "clean_name name"
  shows "bool_of (cel_eval re2 name (atom_ast p)) = Some (pattern_matches p name)"
proof (cases "hasGlobMeta p")
  case True
  then show ?thesis using assms by (simp add: atom_ast_def bool_of_def re2_glob clean_name_def)
next
  case False
  then have "pattern_matches p name \<longleftrightarrow> name = p"
    using assms by (simp add: pattern_matches_def hasGlobMeta_runes glob_match_plain go_runes_inj clean_name_def)
  with False show ?thesis by (simp add: atom_ast_def bool_of_def)
qed

lemma bool_of_boolean [simp]: "bool_of (Some (VBoolean b)) = Some b"
  by (simp add: bool_of_def)

lemma bool_of_map [simp]: "bool_of (map_option (\<lambda>x. VBoolean (f x)) v) = map_option f v"
  by (cases v) (simp_all add: bool_of_def)

lemma eval_or:
  assumes "list_all clean_pattern ps" "ps \<noteq> []" "clean_name name"
  shows "bool_of (cel_eval re2 name (or_ast ps)) = Some (list_ex (\<lambda>p. pattern_matches p name) ps)"
  using assms
proof (induction ps rule: or_ast.induct)
  case (3 p q ps)
  then have "bool_of (cel_eval re2 name (atom_ast p)) = Some (pattern_matches p name)"
    by (simp add: eval_atom clean_pattern_def)
  with 3 show ?case by (simp add: bool_of_def split: option.splits cel_value.splits)
qed (simp_all add: eval_atom clean_pattern_def)

lemma clean_no_newline: "list_all clean_pattern ps \<Longrightarrow> list_all no_newline ps"
  by (simp add: list_all_iff clean_pattern_def)

lemma accepts_allow:
  assumes "list_all clean_pattern ps" "ps \<noteq> []" "clean_name name"
  shows "accepts (orJoin (map globToCELPredicate ps)) name = list_ex (\<lambda>p. pattern_matches p name) ps"
  using accepts_fragment [OF cel_parse_allow eval_or] assms clean_no_newline by blast

lemma accepts_deny:
  assumes "list_all clean_pattern ps" "ps \<noteq> []" "clean_name name"
  shows "accepts (''!('' @ orJoin (map globToCELPredicate ps) @ '')'') name
         = (\<not> list_ex (\<lambda>p. pattern_matches p name) ps)"
  by (rule accepts_fragment [OF cel_parse_deny])
    (simp_all add: assms clean_no_newline eval_or)

lemma accepts_both:
  assumes "list_all clean_pattern ps" "ps \<noteq> []" "list_all clean_pattern qs" "qs \<noteq> []" "clean_name name"
  shows "accepts (''('' @ orJoin (map globToCELPredicate ps) @ '') && !('' @ orJoin (map globToCELPredicate qs) @ '')'') name
         = (list_ex (\<lambda>p. pattern_matches p name) ps \<and> \<not> list_ex (\<lambda>p. pattern_matches p name) qs)"
proof (rule accepts_fragment [OF cel_parse_both])
  show "bool_of (cel_eval re2 name (CAnd (or_ast ps) (CNot (or_ast qs))))
      = Some (list_ex (\<lambda>p. pattern_matches p name) ps \<and> \<not> list_ex (\<lambda>p. pattern_matches p name) qs)"
    using eval_or [of ps name] eval_or [of qs name] assms
    by (simp add: bool_of_def split: option.splits cel_value.splits)
qed (simp_all add: assms clean_no_newline)

lemma rules_admit_filter:
  assumes "clean_filter flt" and "clean_name name"
  shows "rules_admit accepts (buildMcpAuthorizationRules flt) name = tool_allowed flt name"
proof (cases flt)
  case (Some f)
  with assms show ?thesis
    by (cases "tf_Allow f = []"; cases "tf_Deny f = []")
      (simp_all add: buildMcpAuthorizationRules_def rules_admit_def tool_allowed_def clean_filter_def
        accepts_allow accepts_deny [simplified] accepts_both [simplified])
qed (simp add: buildMcpAuthorizationRules_def rules_admit_def tool_allowed_def)

end

text \<open>
  The reference engine: the reading of this theory, used as an implementation; an
  expression outside the fragment is not accepted.
\<close>

definition ref_re2 :: "string \<Rightarrow> string \<Rightarrow> bool" where
  "ref_re2 p text = (case re_parse p of Some items \<Rightarrow> items_match items (go_runes text) | None \<Rightarrow> False)"

definition ref_accepts :: "string \<Rightarrow> string \<Rightarrow> bool" where
  "ref_accepts e name =
     (case cel_parse e of Some a \<Rightarrow> bool_of (cel_eval ref_re2 name a) = Some True | None \<Rightarrow> False)"

interpretation ref_cel: cel_engine ref_accepts ref_re2
  by unfold_locales (auto simp: ref_accepts_def ref_re2_def)

end
