(* ===== verification/ComponentProperties.thy ===== *)
theory ComponentProperties
  imports CelReading GatewayProperties
begin

text \<open>
  The properties of the pure parts: the tool filter's rules, the telemetry extracted from a
  gateway's environment, the adapter's static configuration, the parameters' spec, and the
  functions that decide which gateway a route targets and who owns it.
\<close>

section \<open>Tool filters\<close>

text \<open>
  C12: The CEL rules generated for a tool filter admit exactly the tools the filter allows: a
  name passes when it matches some allow pattern, or there is none, and matches no deny
  pattern, where \<open>*\<close> stands for any run of characters and \<open>?\<close> for one.  This holds for every
  engine that agrees with the grammar, the evaluation and the matching of \<open>CelReading\<close>, for
  patterns that fit a CEL literal and names without a line feed: no quote, backslash or
  regular-expression metacharacter of a pattern escapes from its literal.
\<close>

theorem filter_rules_exact:
  assumes "cel_engine accepts re2" and "clean_filter flt" and "clean_name name"
  shows "rules_admit accepts (buildMcpAuthorizationRules flt) name = tool_allowed flt name"
  by (rule cel_engine.rules_admit_filter [OF assms])

lemma valid_utf8_ascii: "is_ascii s \<Longrightarrow> valid_utf8 s"
  by (induction s)
    (simp_all add: valid_utf8_def is_ascii_def go_runes_ascii_cons encode_runes_def encode_rune_char)

lemmas ascii_eval =
  valid_utf8_ascii go_runes_ascii is_ascii_def clean_filter_def clean_pattern_def clean_name_def no_newline_def
  is_newline_def tool_allowed_def pattern_matches_def

theorem filter_rules_exact_witness:
  "rules_admit ref_accepts (buildMcpAuthorizationRules (Some \<lparr>tf_Allow = [''g*''], tf_Deny = [''g?x'']\<rparr>)) ''gx''
   \<and> \<not> rules_admit ref_accepts (buildMcpAuthorizationRules (Some \<lparr>tf_Allow = [''g*''], tf_Deny = [''g?x'']\<rparr>)) ''gxx''"
  using filter_rules_exact [OF ref_cel.cel_engine_axioms, of "Some \<lparr>tf_Allow = [''g*''], tf_Deny = [''g?x'']\<rparr>" "''gx''"]
    filter_rules_exact [OF ref_cel.cel_engine_axioms, of "Some \<lparr>tf_Allow = [''g*''], tf_Deny = [''g?x'']\<rparr>" "''gxx''"]
  by (simp add: ascii_eval)

lemma star_rejects_newline: "items_match [RAnyStar, REnd] xs = (10 \<notin> set xs)"
  by (induction xs) auto

lemma glob_star_any: "glob_match [42] xs"
proof (induction xs)
  case Nil
  show ?case by (simp add: glob_star_Nil)
next
  case (Cons x xs)
  then show ?case unfolding glob_star_Cons by blast
qed

lemma deny_all_star:
  assumes "cel_engine accepts re2"
  shows "rules_admit accepts (buildMcpAuthorizationRules (Some \<lparr>tf_Allow = [], tf_Deny = [''*'']\<rparr>)) name = (10 \<in> set (go_runes name))"
proof -
  have n: "list_all no_newline [''*'']" by (simp add: no_newline_def is_newline_def)
  have r: "re2 (globToRegex ''*'') name = (10 \<notin> set (go_runes name))"
    using cel_engine.re2_fragment [OF assms re_parse_globToRegex, of "''*''" name]
    by (simp add: go_runes_ascii is_ascii_def item_of_def star_rejects_newline)
  have "accepts (''!('' @ orJoin (map globToCELPredicate [''*'']) @ '')'') name = (10 \<in> set (go_runes name))"
    by (rule cel_engine.accepts_fragment [OF assms cel_parse_deny [OF n]])
      (simp_all add: atom_ast_def hasGlobMeta_def contains_any_def bool_of_def r)
  then show ?thesis
    by (simp add: buildMcpAuthorizationRules_def rules_admit_def)
qed

text \<open>
  C30: The exception to that: a deny list of \<open>*\<close>, which is documented to match any run of
  characters, admits every tool whose name contains a line feed, as the generated \<open>.*\<close> does
  not match one.
\<close>

theorem filter_newline_bypass:
  assumes "cel_engine accepts re2" and "10 \<in> set (go_runes name)"
  shows "rules_admit accepts (buildMcpAuthorizationRules (Some \<lparr>tf_Allow = [], tf_Deny = [''*'']\<rparr>)) name
     \<and> \<not> tool_allowed (Some \<lparr>tf_Allow = [], tf_Deny = [''*'']\<rparr>) name"
  using assms glob_star_any by (simp add: deny_all_star tool_allowed_def pattern_matches_def go_runes_ascii is_ascii_def)

theorem filter_newline_bypass_witness:
  "rules_admit ref_accepts (buildMcpAuthorizationRules (Some \<lparr>tf_Allow = [], tf_Deny = [''*'']\<rparr>)) [CHR ''a'', CHR 0x0A]"
  using filter_newline_bypass [OF ref_cel.cel_engine_axioms, of "[CHR ''a'', CHR 0x0A]"]
  by (simp add: go_runes_ascii is_ascii_def)

section \<open>Telemetry\<close>

text \<open>
  The variables of a gateway split exactly: each of the twelve OTLP names gives its field of
  the configuration, the last variable of a name winning, and every other variable is kept in
  its order.
\<close>

theorem extract_exact:
  "extractOTELEnvVars envs = (otel_of envs, filter (\<lambda>e. ev_Name e \<notin> set otel_variables) envs)"
  by (rule extract_eq)

lemma protocol_family:
  "omit_empty (normalize_protocol p) =
     (if p = [] then None
      else Some (JStr (if take 4 p = ''grpc'' then ''grpc'' else if take 4 p = ''http'' then ''http'' else p)))"
  by (simp add: omit_empty_def normalize_protocol_def has_prefix_def otlpProtocolGRPC_def otlpProtocolHTTP_def numeral_eq_Suc)

lemma headers_field:
  "headers_json (if h = [] then None else parseHeaders h) =
     (if h = [] then None
      else case parseHeaders h of
             None \<Rightarrow> None
           | Some m \<Rightarrow> if m = Map.empty then None else Some (JMap (\<lambda>k. map_option JStr (m k))))"
  by (simp add: headers_json_def)

text \<open>
  The tracing section of the documentation: the value for traces, if there is one, overrides the
  general one; a protocol is cut down to its family; the headers are a list of pairs.
\<close>

definition documented_tracing :: "string \<Rightarrow> string \<Rightarrow> string \<Rightarrow> jobject" where
  "documented_tracing endpoint protocol headers f =
     (if f = ''otlpEndpoint'' then Some (JStr endpoint)
      else if f = ''otlpProtocol'' then
        (if protocol = [] then None
         else Some (JStr (if take 4 protocol = ''grpc'' then ''grpc'' else if take 4 protocol = ''http'' then ''http'' else protocol)))
      else if f = ''headers'' then
        (if headers = [] then None
         else case parseHeaders headers of
                None \<Rightarrow> None
              | Some m \<Rightarrow> if m = Map.empty then None else Some (JMap (\<lambda>k. map_option JStr (m k))))
      else None)"

lemma tracing_documented:
  "tracing_json (tracing_of c) =
     documented_tracing
       (if oc_tracesEndpoint c \<noteq> [] then oc_tracesEndpoint c else oc_endpoint c)
       (if oc_tracesProtocol c \<noteq> [] then oc_tracesProtocol c else oc_protocol c)
       (if oc_tracesHeaders c \<noteq> [] then oc_tracesHeaders c else oc_headers c)"
proof (rule ext)
  fix f
  have s: "first_set a b = (if a \<noteq> [] then a else b)" for a b by (simp add: first_set_def)
  consider "f = ''otlpEndpoint''" | "f = ''otlpProtocol''" | "f = ''headers''"
    | "f \<noteq> ''otlpEndpoint''" "f \<noteq> ''otlpProtocol''" "f \<noteq> ''headers''" by blast
  then show "tracing_json (tracing_of c) f =
     documented_tracing
       (if oc_tracesEndpoint c \<noteq> [] then oc_tracesEndpoint c else oc_endpoint c)
       (if oc_tracesProtocol c \<noteq> [] then oc_tracesProtocol c else oc_protocol c)
       (if oc_tracesHeaders c \<noteq> [] then oc_tracesHeaders c else oc_headers c) f"
    by cases
      (simp_all only: tracing_json_def tracing_of_def documented_tracing_def s protocol_family headers_field
        agentgateway_tracing.simps fun_upd_apply, simp_all add: omit_empty_def)
qed

lemma documented_build:
  "buildTelemetryConfig c =
     (if oc_tracesEndpoint c = [] \<and> oc_endpoint c = [] then None
      else Some [''config'' \<mapsto> JMap [''tracing'' \<mapsto> JMap (documented_tracing
         (if oc_tracesEndpoint c \<noteq> [] then oc_tracesEndpoint c else oc_endpoint c)
         (if oc_tracesProtocol c \<noteq> [] then oc_tracesProtocol c else oc_protocol c)
         (if oc_tracesHeaders c \<noteq> [] then oc_tracesHeaders c else oc_headers c))]])"
proof (cases "oc_tracesEndpoint c = [] \<and> oc_endpoint c = []")
  case True
  then show ?thesis using build_none [of c] by simp
next
  case False
  then have "buildTelemetryConfig c = Some (raw_config_json \<lparr>arc_Config = Some \<lparr>ac_Tracing = Some (tracing_of c)\<rparr>\<rparr>)"
    by (intro build_some) auto
  with False show ?thesis
    by (simp only: tracing_documented raw_config_json_def config_json_def agentgateway_config.simps agentgateway_raw_config.simps
        option.map if_False)
qed

text \<open>
  C28: Telemetry is configured exactly when there is an endpoint; protocols and headers alone
  configure nothing.  Endpoint, protocol and headers each come from the variable for traces if it
  is set and else from the general one, and the configuration is the tracing section with that
  endpoint, the protocol cut down to grpc or http, the parsed headers and nothing else.
\<close>

theorem telemetry_exact:
  "buildTelemetryConfig c =
     (if oc_tracesEndpoint c = [] \<and> oc_endpoint c = [] then None
      else Some [''config'' \<mapsto> JMap [''tracing'' \<mapsto> JMap (documented_tracing
         (if oc_tracesEndpoint c \<noteq> [] then oc_tracesEndpoint c else oc_endpoint c)
         (if oc_tracesProtocol c \<noteq> [] then oc_tracesProtocol c else oc_protocol c)
         (if oc_tracesHeaders c \<noteq> [] then oc_tracesHeaders c else oc_headers c))]])"
  by (rule documented_build)

theorem telemetry_exact_witness:
  "map_option (\<lambda>m. json_get m [''config'', ''tracing'', ''otlpEndpoint''])
     (buildTelemetryConfig (no_otel\<lparr>oc_tracesEndpoint := ''http://traces'', oc_endpoint := ''http://all''\<rparr>)) = Some (Some (JStr ''http://traces''))"
  by (simp add: telemetry_exact no_otel_def documented_tracing_def)

text \<open>
  C27: The header list of the OTLP specification is read back as written: for keys and values of
  printable characters without the separators (a value may contain an equals sign), parsing
  the comma-separated list gives the map of its pairs, a later pair overriding an earlier one.
\<close>

theorem headers_roundtrip:
  assumes "ps \<noteq> []" and "\<forall>(k, v) \<in> set ps. header_key k \<and> header_value v"
    and "\<not> has_prefix (fst (hd ps)) ''{''"
  shows "parseHeaders (show_headers ps) = Some (map_of (rev ps))"
  by (rule parse_show_headers [OF assms])

theorem headers_roundtrip_witness:
  "parseHeaders ''authorization=Basic:dXNlcjpwdw==,x-tenant=a'' = Some [''x-tenant'' \<mapsto> ''a'', ''authorization'' \<mapsto> ''Basic:dXNlcjpwdw=='']"
proof -
  have s: "show_headers [(''authorization'', ''Basic:dXNlcjpwdw==''), (''x-tenant'', ''a'')] = ''authorization=Basic:dXNlcjpwdw==,x-tenant=a''"
    by (simp add: show_headers_def show_pair_def)
  show ?thesis
    using headers_roundtrip [of "[(''authorization'', ''Basic:dXNlcjpwdw==''), (''x-tenant'', ''a'')]"]
    unfolding s by (simp add: header_key_def header_value_def header_char_def has_prefix_def fun_upd_twist)
qed

text \<open>
  An OTLP variable that takes its value from elsewhere (\<open>valueFrom\<close>, so its \<open>value\<close> is empty)
  is lost: it is removed from the environment and configures nothing.
\<close>

theorem value_from_lost:
  assumes "ev_Name e \<in> set otel_variables" and "ev_Value e = []"
  shows "extractOTELEnvVars [e] = (no_otel, []) \<and> buildTelemetryConfig no_otel = None"
  using assms
  by (auto simp: extractOTELEnvVars_def extract_step_def otel_variables_def otel_names no_otel_def build_none)

theorem value_from_lost_witness:
  "extractOTELEnvVars [\<lparr>ev_Name = ''OTEL_EXPORTER_OTLP_ENDPOINT'', ev_Value = [], ev_ValueFrom = Some (JStr ''secret'')\<rparr>] = (no_otel, [])"
  using value_from_lost [of "\<lparr>ev_Name = ''OTEL_EXPORTER_OTLP_ENDPOINT'', ev_Value = [], ev_ValueFrom = Some (JStr ''secret'')\<rparr>"]
  by (simp add: otel_variables_def otel_names)

section \<open>Objects and ownership\<close>

text \<open>The variables of the OTLP exporter, by their names.\<close>

definition documented_variables :: "string list" where
  "documented_variables = map (\<lambda>n. ''OTEL_EXPORTER_OTLP_'' @ n)
     [''ENDPOINT'', ''PROTOCOL'', ''HEADERS'', ''TRACES_ENDPOINT'', ''TRACES_PROTOCOL'', ''TRACES_HEADERS'',
      ''METRICS_ENDPOINT'', ''METRICS_PROTOCOL'', ''METRICS_HEADERS'', ''LOGS_ENDPOINT'', ''LOGS_PROTOCOL'', ''LOGS_HEADERS'']"

lemma documented_names: "set otel_variables = set documented_variables"
  by (simp add: otel_variables_def documented_variables_def otel_names insert_commute)

text \<open>The telemetry that an environment asks for: the last value of a variable counts.\<close>

definition documented_telemetry :: "env_var list \<Rightarrow> json option" where
  "documented_telemetry env =
     (let value = (\<lambda>n. last_value env (''OTEL_EXPORTER_OTLP_'' @ n));
          wanted = (\<lambda>n. if value (''TRACES_'' @ n) \<noteq> [] then value (''TRACES_'' @ n) else value n)
      in if wanted ''ENDPOINT'' = [] then None
         else Some (JMap [''config'' \<mapsto> JMap [''tracing'' \<mapsto>
                JMap (documented_tracing (wanted ''ENDPOINT'') (wanted ''PROTOCOL'') (wanted ''HEADERS''))]]))"

lemma telemetry_documented: "map_option JMap (buildTelemetryConfig (otel_of env)) = documented_telemetry env"
  by (simp add: documented_build documented_telemetry_def otel_of_def otel_names Let_def)

lemma converted: "toUnstructuredSlice conv xs = Inr js \<longleftrightarrow> list_all2 (\<lambda>x j. conv x = Inr j) xs js"
proof (induction xs arbitrary: js)
  case (Cons x xs)
  show ?case by (auto simp: list_all2_Cons1 Cons.IH [symmetric] split: sum.splits)
qed auto

text \<open>
  C24: The parameters are written exactly and stably.  \<open>spec.env\<close> has the environment without the
  twelve OTLP variables, in order; \<open>spec.rawConfig\<close> the telemetry these ask for, or nothing;
  \<open>spec.deployment.spec\<close> the container with all \<open>envFrom\<close> sources; \<open>spec.service.spec\<close> the type
  ClusterIP.  The metadata is kept, and writing them a second time changes nothing.
\<close>

theorem parameters_exact:
  assumes "nested_lib lib" and "setAgentgatewayParametersSpec lib u tg = Inr u'"
  shows "\<exists>envs froms.
       list_all2 (\<lambda>v j. l_env_json lib v = Inr j) (filter (\<lambda>v. ev_Name v \<notin> set documented_variables) (tg_Env tg)) envs
     \<and> list_all2 (\<lambda>s j. l_env_from_json lib s = Inr j) (tg_EnvFrom tg) froms
     \<and> json_get (us_Object u') [''spec'', ''env''] = Some (JList envs)
     \<and> json_get (us_Object u') [''spec'', ''rawConfig''] = documented_telemetry (tg_Env tg)
     \<and> json_get (us_Object u') [''spec'', ''deployment'', ''spec''] =
         Some (JMap [''template'' \<mapsto> JMap [''spec'' \<mapsto> JMap [''containers'' \<mapsto>
           JList [JMap [''name'' \<mapsto> JStr ''agentgateway'', ''envFrom'' \<mapsto> JList froms]]]]])
     \<and> json_get (us_Object u') [''spec'', ''service'', ''spec''] = Some (JMap [''type'' \<mapsto> JStr ''ClusterIP''])
     \<and> us_Meta u' = us_Meta u \<and> setAgentgatewayParametersSpec lib u' tg = Inr u'"
proof -
  note ok = nested_lib.set_parameters_ok [OF assms]
  from ok(1) obtain envs froms where
    "list_all2 (\<lambda>v j. l_env_json lib v = Inr j) (filter (\<lambda>v. ev_Name v \<notin> set documented_variables) (tg_Env tg)) envs"
    "list_all2 (\<lambda>s j. l_env_from_json lib s = Inr j) (tg_EnvFrom tg) froms"
    "json_get (us_Object u') [''spec'', ''rawConfig''] = documented_telemetry (tg_Env tg)"
    "json_get (us_Object u') [''spec'', ''env''] = Some (JList envs)"
    "json_get (us_Object u') [''spec'', ''deployment'', ''spec''] = Some (deployment_spec_json froms)"
    "json_get (us_Object u') [''spec'', ''service'', ''spec''] = Some (jmap [(''type'', JStr ''ClusterIP'')])"
    unfolding parameters_match_def converted telemetry_documented documented_names by blast
  moreover have "deployment_spec_json froms = JMap [''template'' \<mapsto> JMap [''spec'' \<mapsto> JMap [''containers'' \<mapsto>
           JList [JMap [''name'' \<mapsto> JStr ''agentgateway'', ''envFrom'' \<mapsto> JList froms]]]]]"
    by (simp add: deployment_spec_json_def jmap_def fieldName_def fun_upd_twist)
  moreover have "jmap [(''type'', JStr ''ClusterIP'')] = JMap [''type'' \<mapsto> JStr ''ClusterIP'']" by (simp add: jmap_def)
  moreover have "us_Meta u' = us_Meta u" "setAgentgatewayParametersSpec lib u' tg = Inr u'"
    using ok(2) nested_lib.set_parameters_same [OF assms(1) ok(1)] by simp_all
  ultimately show ?thesis by auto
qed

theorem parameters_exact_witness:
  "\<exists>u'. setAgentgatewayParametersSpec ref_lib (newAgentgatewayParameters ''tools'' ''ns'') demo_tg = Inr u'
     \<and> json_get (us_Object u') [''spec'', ''rawConfig'', ''config'', ''tracing'', ''otlpEndpoint''] = Some (JStr ''http://otel:4317'')
     \<and> json_get (us_Object u') [''spec'', ''deployment'', ''spec'', ''template'', ''spec'', ''containers'']
         = Some (JList [JMap [''name'' \<mapsto> JStr ''agentgateway'', ''envFrom'' \<mapsto> JList []]])"
proof -
  obtain u' where u: "setAgentgatewayParametersSpec ref_lib (newAgentgatewayParameters ''tools'' ''ns'') demo_tg = Inr u'"
    "json_get (us_Object u') [''spec'', ''rawConfig'', ''config'', ''tracing'', ''otlpEndpoint''] = Some (JStr ''http://otel:4317'')"
    by (simp add: demo_tg_def mem_eval gateway_eval raw_config_json_def config_json_def tracing_json_def)
  have n: "tg_EnvFrom demo_tg = []" by (simp add: demo_tg_def)
  from parameters_exact [OF ref_nested.nested_lib_axioms u(1)] n
  have "json_get (us_Object u') [''spec'', ''deployment'', ''spec''] =
      Some (JMap [''template'' \<mapsto> JMap [''spec'' \<mapsto> JMap [''containers'' \<mapsto>
           JList [JMap [''name'' \<mapsto> JStr ''agentgateway'', ''envFrom'' \<mapsto> JList []]]]]])" by auto
  then have "json_get (us_Object u') [''spec'', ''deployment'', ''spec'', ''template'', ''spec'', ''containers'']
         = Some (JList [JMap [''name'' \<mapsto> JStr ''agentgateway'', ''envFrom'' \<mapsto> JList []]])"
    by (auto split: option.splits json.splits)
  with u show ?thesis by blast
qed

text \<open>
  A gateway is ours exactly when a class of our controller claims it, by its name or, for a
  gateway without a class name, by the default annotation; the only error is that the classes
  cannot be listed.
\<close>

theorem ownership_exact:
  assumes "kube_client cl at events"
  shows "case isToolGatewayOwnedByController cl tg w of
      Inr b \<Rightarrow> b = (\<exists>c. claims_gateway at w tg c)
    | Inl e \<Rightarrow> (\<exists>e'. c_list cl KToolGatewayClass None w = Inl e' \<and> e = Wrapf ''failed to list ToolGatewayClasses: '' e' [])"
  using kube_client.owned_iff [OF assms] kube_client.owned_error [OF assms] by (auto split: sum.split)

theorem ownership_exact_witness:
  "\<exists>c. claims_gateway mem_at tg_world demo_tg c"
proof -
  have "isToolGatewayOwnedByController mem_client demo_tg tg_world = Inr True"
    by (simp add: tg_world_def demo_tg_def demo_class_def guard_with_def mem_eval gateway_eval)
  with ownership_exact [OF mem.kube_client_axioms, where tg = demo_tg and w = tg_world] show ?thesis by simp
qed

text \<open>The adapter's configuration as its documentation has it: a field that is not set is left out.\<close>

definition documented_adapter :: "guard \<Rightarrow> string \<Rightarrow> json" where
  "documented_adapter g base =
     JMap [''provider'' \<mapsto> JStr ''presidio-api'', ''modes'' \<mapsto> JList (map JStr (g_Mode g)), ''presidio'' \<mapsto> JMap (\<lambda>f.
       if f = ''endpoint'' then Some (JStr base)
       else case g_Presidio g of
              None \<Rightarrow> None
            | Some p \<Rightarrow>
                if f = ''language'' \<and> pg_Language p \<noteq> [] then Some (JStr (pg_Language p))
                else if f = ''score_thresholds'' \<and> pg_ScoreThresholds p \<noteq> Map.empty
                  then Some (JMap (\<lambda>k. map_option JStr (pg_ScoreThresholds p k)))
                else if f = ''entity_actions'' \<and> pg_EntityActions p \<noteq> Map.empty
                  then Some (JMap (\<lambda>k. map_option JStr (pg_EntityActions p k)))
                else None)]"

definition adapter_supports :: "guard \<Rightarrow> guardrail_provider \<Rightarrow> string \<Rightarrow> bool" where
  "adapter_supports g p base =
     (gp_Type p = ''presidio-api'' \<and> gp_Presidio p = Some base \<and> base \<noteq> []
      \<and> g_Mode g \<noteq> [] \<and> set (g_Mode g) \<subseteq> {''pre_call'', ''post_call''})"

lemma valid_supports: "valid_guard g p \<longleftrightarrow> (\<exists>base. adapter_supports g p base)"
  by (auto simp: valid_guard_def adapter_supports_def providerTypePresidio_def GuardModePreCall_def GuardModePostCall_def)

lemma presidio_documented:
  "static_presidio_json (static_presidio_of base pg) = JMap (\<lambda>f.
       if f = ''endpoint'' then Some (JStr base)
       else case pg of
              None \<Rightarrow> None
            | Some p \<Rightarrow>
                if f = ''language'' \<and> pg_Language p \<noteq> [] then Some (JStr (pg_Language p))
                else if f = ''score_thresholds'' \<and> pg_ScoreThresholds p \<noteq> Map.empty
                  then Some (JMap (\<lambda>k. map_option JStr (pg_ScoreThresholds p k)))
                else if f = ''entity_actions'' \<and> pg_EntityActions p \<noteq> Map.empty
                  then Some (JMap (\<lambda>k. map_option JStr (pg_EntityActions p k)))
                else None)"
  by (cases pg) (simp_all add: static_presidio_json_def static_presidio_of_def json_string_map_def fun_eq_iff)

lemma config_documented:
  "gp_Presidio p = Some base \<Longrightarrow> guard_static_config g p = documented_adapter g base"
  by (simp add: guard_static_config_def static_config_json_def documented_adapter_def presidio_documented providerTypePresidio_def)

text \<open>
  C25: The static configuration of an adapter is rendered exactly for the guards it supports (a
  Presidio provider with a URL, and modes it knows), as the YAML of the provider, the modes and
  the guard's language, score thresholds and entity actions, with a hash of 64 hexadecimal digits
  of these bytes.  An error tells an unsupported provider type from an invalid configuration, the
  two that need a user's edit.
\<close>

theorem render_classified:
  "(renderStaticConfig lib g p = Inr (data, h) \<longleftrightarrow>
      (\<exists>base. adapter_supports g p base \<and> l_json_to_yaml lib (documented_adapter g base) = Inr data
            \<and> h = hex_encode (sum256 data) \<and> length h = 64))
   \<and> (case renderStaticConfig lib g p of
        Inr _ \<Rightarrow> True
      | Inl e \<Rightarrow> (errors_is e errUnsupportedProvider \<longleftrightarrow> gp_Type p \<noteq> ''presidio-api'')
          \<and> (errors_is e errInvalidConfig \<longleftrightarrow> gp_Type p = ''presidio-api'' \<and> \<not> (\<exists>base. adapter_supports g p base)))"
proof -
  have "renderStaticConfig lib g p = Inr (data, h) \<longleftrightarrow>
      (\<exists>base. adapter_supports g p base \<and> l_json_to_yaml lib (documented_adapter g base) = Inr data
            \<and> h = hex_encode (sum256 data) \<and> length h = 64)" (is "_ = ?R")
  proof
    assume r: "renderStaticConfig lib g p = Inr (data, h)"
    from render_ok(1) [OF r] obtain base where b: "adapter_supports g p base" unfolding valid_supports by blast
    then have "gp_Presidio p = Some base" by (simp add: adapter_supports_def)
    with render_ok(2,3) [OF r] b length_hex_sum256 show ?R by (auto simp: config_documented)
  next
    assume ?R
    then obtain base where b: "adapter_supports g p base" "l_json_to_yaml lib (documented_adapter g base) = Inr data"
      "h = hex_encode (sum256 data)" by blast
    then have "valid_guard g p" "gp_Presidio p = Some base" by (auto simp: valid_supports adapter_supports_def)
    with render_valid [of g p lib] b(2,3) show "renderStaticConfig lib g p = Inr (data, h)" by (simp add: config_documented)
  qed
  moreover have "case renderStaticConfig lib g p of
        Inr _ \<Rightarrow> True
      | Inl e \<Rightarrow> (errors_is e errUnsupportedProvider \<longleftrightarrow> gp_Type p \<noteq> ''presidio-api'')
          \<and> (errors_is e errInvalidConfig \<longleftrightarrow> gp_Type p = ''presidio-api'' \<and> \<not> (\<exists>base. adapter_supports g p base))"
    using render_error [of lib g p] by (auto simp: valid_supports providerTypePresidio_def split: sum.split)
  ultimately show ?thesis by blast
qed

definition german_guard :: guard where
  "german_guard = (guard_with ''True'')\<lparr>g_Presidio := Some \<lparr>pg_Language = ''de'', pg_ScoreThresholds = Map.empty, pg_EntityActions = Map.empty\<rparr>\<rparr>"

theorem render_classified_witness:
  "\<exists>data h. renderStaticConfig ref_lib german_guard the_provider = Inr (data, h)
     \<and> data = ''endpoint: http://p'' @ [CHR 0x0A] @ ''language: de'' @ [CHR 0x0A] @ ''provider: presidio-api'' @ [CHR 0x0A]"
proof -
  have "adapter_supports german_guard the_provider ''http://p''"
    by (simp add: adapter_supports_def german_guard_def guard_with_def the_provider_def)
  moreover have "l_json_to_yaml ref_lib (documented_adapter german_guard ''http://p'') =
      Inr (''endpoint: http://p'' @ [CHR 0x0A] @ ''language: de'' @ [CHR 0x0A] @ ''provider: presidio-api'' @ [CHR 0x0A])"
    by (simp add: documented_adapter_def german_guard_def guard_with_def ref_json_to_yaml_def yaml_line_def)
  ultimately show ?thesis
    using render_classified [of ref_lib german_guard the_provider] length_hex_sum256 by blast
qed
text \<open>
  C26: A route's gateway: an explicit reference is taken as it is, its namespace by default the
  route's; without one it is a stored gateway of the default namespace, and the error that
  there is none is only given when none is stored there.
\<close>

theorem resolve_exact:
  assumes "kube_client cl at events"
  shows "case resolveToolGatewayKey cl route w of
      Inr k \<Rightarrow>
        (case tr_ToolGatewayRef route of
           Some ref \<Rightarrow> k = (if ref_Namespace ref = [] then m_Namespace (tr_Meta route) else ref_Namespace ref, ref_Name ref)
         | None \<Rightarrow> fst k = defaultToolGatewayNamespace \<and> (\<exists>tg. at w (KToolGateway, k) = Some (OToolGateway tg)))
    | Inl e \<Rightarrow>
        tr_ToolGatewayRef route = None
        \<and> ((e = errNoDefaultToolGateway \<and> \<not> (\<exists>n tg. at w (KToolGateway, (defaultToolGatewayNamespace, n)) = Some (OToolGateway tg)))
           \<or> (\<exists>e'. c_list cl KToolGateway (Some defaultToolGatewayNamespace) w = Inl e'
                  \<and> e = Wrapf (''failed to list ToolGateways in namespace '' @ defaultToolGatewayNamespace @ '': '') e' []))"
proof (cases "resolveToolGatewayKey cl route w")
  case (Inr k)
  then show ?thesis using kube_client.resolve_default [OF assms Inr]
    by (auto simp: resolveToolGatewayKey_def split: option.split)
next
  case (Inl e)
  have n: "tr_ToolGatewayRef route = None"
    using Inl by (cases "tr_ToolGatewayRef route") (auto simp: resolveToolGatewayKey_def)
  show ?thesis
  proof (cases "e = errNoDefaultToolGateway")
    case True
    have "\<not> (\<exists>n tg. at w (KToolGateway, (defaultToolGatewayNamespace, n)) = Some (OToolGateway tg))"
    proof
      assume "\<exists>n tg. at w (KToolGateway, (defaultToolGatewayNamespace, n)) = Some (OToolGateway tg)"
      then obtain n tg where a: "at w (KToolGateway, (defaultToolGatewayNamespace, n)) = Some (OToolGateway tg)" by blast
      with kube_client.at_key [OF assms a] kube_client.resolve_no_default [OF assms Inl [unfolded True]]
      show False by (auto simp: key_simps) metis
    qed
    with Inl n True show ?thesis by simp
  next
    case False
    with Inl n show ?thesis
      by (auto simp: resolveToolGatewayKey_def kube_client.list_as_error [OF assms] split: sum.splits list.splits)
  qed
qed

definition plain_route :: tool_route where
  "plain_route =
     \<lparr>tr_Meta = new_meta ''search'' ''apps'', tr_ToolGatewayRef = None, tr_ToolServerRef = None, tr_External = Some ''https://mcp.example.com/x'',
      tr_ToolFilter = None, tr_Url = [], tr_Conditions = []\<rparr>"

theorem resolve_exact_witness:
  "\<not> (\<exists>n tg. mem_at tg_world (KToolGateway, (defaultToolGatewayNamespace, n)) = Some (OToolGateway tg))"
proof -
  have "resolveToolGatewayKey mem_client plain_route tg_world = Inl errNoDefaultToolGateway"
    by (simp add: resolveToolGatewayKey_def plain_route_def defaultToolGatewayNamespace_def tg_world_def demo_tg_def
        demo_class_def guard_with_def mem_eval)
  with resolve_exact [OF mem.kube_client_axioms, where route = plain_route and w = tg_world] show ?thesis
    by (simp add: errNoDefaultToolGateway_def)
qed

end
