(* ===== verification/GoUrl.thy ===== *)
theory GoUrl
  imports GoStd
begin

text \<open>
  \<open>net/url\<close>: \<open>url.Parse\<close> with the fields the operator reads (scheme, host, path) and the
  methods \<open>Hostname\<close> and \<open>Port\<close>.  The check that the text between square brackets is an
  IPv6 address (\<open>netip.ParseAddr\<close>) is the parameter \<open>ip6\<close>: \<open>None\<close> when it is one, else
  the message of the error.
\<close>

section \<open>Errors\<close>

datatype url_error =
    UrlCtl
  | UrlNoScheme
  | UrlColonInFirstSegment
  | UrlEscape string
  | UrlHostChar string
  | UrlHostPort string
  | UrlNoBracket
  | UrlBadIP string
  | UrlBadUserinfo

text \<open>The \<open>Error\<close> text; \<open>q\<close> is \<open>strconv.Quote\<close>.\<close>

fun url_error_text :: "(string \<Rightarrow> string) \<Rightarrow> url_error \<Rightarrow> string" where
  "url_error_text q UrlCtl = ''net/url: invalid control character in URL''"
| "url_error_text q UrlNoScheme = ''missing protocol scheme''"
| "url_error_text q UrlColonInFirstSegment = ''first path segment in URL cannot contain colon''"
| "url_error_text q (UrlEscape s) = ''invalid URL escape '' @ q s"
| "url_error_text q (UrlHostChar s) = ''invalid character '' @ q s @ '' in host name''"
| "url_error_text q (UrlHostPort s) = ''invalid port '' @ q s @ '' after host''"
| "url_error_text q UrlNoBracket = ''missing ']' in host''"
| "url_error_text q (UrlBadIP s) = ''invalid host: '' @ s"
| "url_error_text q UrlBadUserinfo = ''net/url: invalid userinfo''"

section \<open>Percent decoding\<close>

datatype url_mode = EncPath | EncHost | EncZone | EncUserPassword | EncFragment

definition is_alpha :: "char \<Rightarrow> bool" where
  "is_alpha c = (let n = of_char c :: nat in 97 \<le> n \<and> n \<le> 122 \<or> 65 \<le> n \<and> n \<le> 90)"

definition is_hex :: "char \<Rightarrow> bool" where
  "is_hex c = (let n = of_char c :: nat in is_digit c \<or> 97 \<le> n \<and> n \<le> 102 \<or> 65 \<le> n \<and> n \<le> 70)"

definition unhex :: "char \<Rightarrow> nat" where
  "unhex c = (let n = of_char c in if is_digit c then n - 48 else if 97 \<le> n then n - 87 else n - 55)"

text \<open>\<open>shouldEscape(c, encodeHost)\<close>, which is the same for \<open>encodeZone\<close>.\<close>

definition should_escape_host :: "char \<Rightarrow> bool" where
  "should_escape_host c =
     (\<not> (is_alpha c \<or> is_digit c \<or> c \<in> set (CHR 0x27 # CHR 0x22 # ''!$&()*+,;=:[]<>-_.~'')))"

fun go_unescape :: "url_mode \<Rightarrow> string \<Rightarrow> url_error + string" where
  "go_unescape m [] = Inr []"
| "go_unescape m (c # s) =
     (if c = CHR ''%'' then
        (case s of
           a # b # t \<Rightarrow>
             if \<not> (is_hex a \<and> is_hex b) then Inl (UrlEscape [c, a, b])
             else if m = EncHost \<and> unhex a < 8 \<and> [a, b] \<noteq> ''25'' then Inl (UrlEscape [c, a, b])
             else if m = EncZone \<and> [a, b] \<noteq> ''25'' \<and> 16 * unhex a + unhex b \<noteq> 32
                     \<and> should_escape_host (char_of (16 * unhex a + unhex b)) then Inl (UrlEscape [c, a, b])
             else (case go_unescape m t of
                     Inl e \<Rightarrow> Inl e
                   | Inr r \<Rightarrow> Inr (char_of (16 * unhex a + unhex b) # r))
         | _ \<Rightarrow> Inl (UrlEscape (c # s)))
      else if (m = EncHost \<or> m = EncZone) \<and> (of_char c :: nat) < 128 \<and> should_escape_host c
           then Inl (UrlHostChar [c])
      else (case go_unescape m s of Inl e \<Rightarrow> Inl e | Inr r \<Rightarrow> Inr (c # r)))"

section \<open>Authority\<close>

definition valid_optional_port :: "string \<Rightarrow> bool" where
  "valid_optional_port p = (case p of [] \<Rightarrow> True | c # ds \<Rightarrow> c = CHR '':'' \<and> list_all is_digit ds)"

text \<open>\<open>strings.LastIndex\<close> of a one-byte string: the text before and after it.\<close>

definition last_cut :: "char \<Rightarrow> string \<Rightarrow> (string \<times> string) option" where
  "last_cut c s =
     (if c \<in> set s
      then Some (rev (tl (dropWhile (\<lambda>x. x \<noteq> c) (rev s))), rev (takeWhile (\<lambda>x. x \<noteq> c) (rev s)))
      else None)"

fun find_zone :: "string \<Rightarrow> string \<times> string" where
  "find_zone [] = ([], [])"
| "find_zone (c # s) =
     (if has_prefix (c # s) ''%25'' then ([], c # s) else (c # fst (find_zone s), snd (find_zone s)))"

definition parse_host :: "(string \<Rightarrow> string option) \<Rightarrow> string \<Rightarrow> url_error + string" where
  "parse_host ip6 host =
     (case last_cut CHR ''['' host of
        Some (before, inner) \<Rightarrow>
          if before \<noteq> [] then Inl (UrlBadIP ''invalid IP-literal'')
          else (case last_cut CHR '']'' inner of
                  None \<Rightarrow> Inl UrlNoBracket
                | Some (hostname, colon_port) \<Rightarrow>
                    if \<not> valid_optional_port colon_port then Inl (UrlHostPort colon_port)
                    else (case go_unescape EncHost (fst (find_zone hostname)) of
                            Inl e \<Rightarrow> Inl e
                          | Inr h \<Rightarrow>
                              (case go_unescape EncZone (snd (find_zone hostname)) of
                                 Inl e \<Rightarrow> Inl e
                               | Inr z \<Rightarrow>
                                   (case ip6 (h @ z) of
                                      Some e \<Rightarrow> Inl (UrlBadIP e)
                                    | None \<Rightarrow> Inr (''['' @ h @ z @ '']'' @ colon_port)))))
      | None \<Rightarrow>
          if CHR '':'' \<in> set host \<and> \<not> valid_optional_port (dropWhile (\<lambda>x. x \<noteq> CHR '':'') host)
          then Inl (UrlHostPort (dropWhile (\<lambda>x. x \<noteq> CHR '':'') host))
          else go_unescape EncHost host)"

definition valid_userinfo :: "string \<Rightarrow> bool" where
  "valid_userinfo s =
     list_all (\<lambda>c. is_alpha c \<or> is_digit c \<or> c \<in> set (CHR 0x27 # ''-._:~!$&()*+,;=%@'')) s"

text \<open>The user information is checked and dropped: the operator never reads it.\<close>

definition check_userinfo :: "string \<Rightarrow> url_error option" where
  "check_userinfo u =
     (if \<not> valid_userinfo u then Some UrlBadUserinfo
      else (case go_unescape EncUserPassword (takeWhile (\<lambda>x. x \<noteq> CHR '':'') u) of
              Inl e \<Rightarrow> Some e
            | Inr _ \<Rightarrow>
                (case go_unescape EncUserPassword (tl (dropWhile (\<lambda>x. x \<noteq> CHR '':'') u)) of
                   Inl e \<Rightarrow> Some e
                 | Inr _ \<Rightarrow> None)))"

definition parse_authority :: "(string \<Rightarrow> string option) \<Rightarrow> string \<Rightarrow> url_error + string" where
  "parse_authority ip6 auth =
     (case last_cut CHR ''@'' auth of
        None \<Rightarrow> parse_host ip6 auth
      | Some (userinfo, h) \<Rightarrow>
          (case parse_host ip6 h of
             Inl e \<Rightarrow> Inl e
           | Inr host \<Rightarrow>
               (case check_userinfo userinfo of Some e \<Rightarrow> Inl e | None \<Rightarrow> Inr host)))"

section \<open>url.Parse\<close>

record go_url =
  u_Scheme :: string
  u_Host :: string
  u_Path :: string

definition to_lower :: "char \<Rightarrow> char" where
  "to_lower c = (let n = of_char c :: nat in if 65 \<le> n \<and> n \<le> 90 then char_of (n + 32) else c)"

text \<open>
  \<open>getScheme\<close>: the second argument is the scheme read so far.  The result is the scheme
  (empty when there is none) and the rest.
\<close>

fun get_scheme :: "string \<Rightarrow> string \<Rightarrow> string \<Rightarrow> url_error + string \<times> string" where
  "get_scheme raw acc [] = Inr ([], raw)"
| "get_scheme raw acc (c # s) =
     (if is_alpha c then get_scheme raw (acc @ [c]) s
      else if is_digit c \<or> c \<in> set ''+-.'' then
        (if acc = [] then Inr ([], raw) else get_scheme raw (acc @ [c]) s)
      else if c = CHR '':'' then (if acc = [] then Inl UrlNoScheme else Inr (acc, s))
      else Inr ([], raw))"

definition has_ctl :: "string \<Rightarrow> bool" where
  "has_ctl s = list_ex (\<lambda>c. (of_char c :: nat) < 32 \<or> (of_char c :: nat) = 127) s"

definition before_char :: "char \<Rightarrow> string \<Rightarrow> string" where
  "before_char c s = takeWhile (\<lambda>x. x \<noteq> c) s"

definition from_char :: "char \<Rightarrow> string \<Rightarrow> string" where
  "from_char c s = dropWhile (\<lambda>x. x \<noteq> c) s"

text \<open>
  \<open>parse\<close> after the fragment has been cut off.  The query (from the first question mark) is
  cut and dropped.  A URL with a scheme but no leading slash is opaque: no host, no path.
\<close>

definition parse_rest :: "(string \<Rightarrow> string option) \<Rightarrow> string \<Rightarrow> string \<Rightarrow> url_error + go_url" where
  "parse_rest ip6 scheme rest =
     (if \<not> has_prefix rest ''/'' \<and> scheme \<noteq> []
      then Inr \<lparr>u_Scheme = scheme, u_Host = [], u_Path = []\<rparr>
      else if \<not> has_prefix rest ''/'' \<and> CHR '':'' \<in> set (before_char CHR ''/'' rest)
      then Inl UrlColonInFirstSegment
      else if (scheme \<noteq> [] \<or> \<not> has_prefix rest ''///'') \<and> has_prefix rest ''//'' then
        (case parse_authority ip6 (before_char CHR ''/'' (drop 2 rest)) of
           Inl e \<Rightarrow> Inl e
         | Inr host \<Rightarrow>
             (case go_unescape EncPath (from_char CHR ''/'' (drop 2 rest)) of
                Inl e \<Rightarrow> Inl e
              | Inr p \<Rightarrow> Inr \<lparr>u_Scheme = scheme, u_Host = host, u_Path = p\<rparr>))
      else
        (case go_unescape EncPath rest of
           Inl e \<Rightarrow> Inl e
         | Inr p \<Rightarrow> Inr \<lparr>u_Scheme = scheme, u_Host = [], u_Path = p\<rparr>))"

definition parse_nofrag :: "(string \<Rightarrow> string option) \<Rightarrow> string \<Rightarrow> url_error + go_url" where
  "parse_nofrag ip6 raw =
     (if has_ctl raw then Inl UrlCtl
      else if raw = ''*'' then Inr \<lparr>u_Scheme = [], u_Host = [], u_Path = ''*''\<rparr>
      else (case get_scheme raw [] raw of
              Inl e \<Rightarrow> Inl e
            | Inr (scheme, rest) \<Rightarrow>
                parse_rest ip6 (map to_lower scheme) (before_char CHR ''?'' rest)))"

text \<open>
  \<open>url.Parse\<close>.  On failure the wrapped \<open>url.Error\<close> quotes the URL without its fragment, or
  the whole URL when it is the fragment that does not decode.
\<close>

definition url_parse :: "(string \<Rightarrow> string option) \<Rightarrow> string \<Rightarrow> string \<times> url_error + go_url" where
  "url_parse ip6 raw =
     (let u = before_char CHR ''#'' raw; frag = tl (from_char CHR ''#'' raw)
      in case parse_nofrag ip6 u of
           Inl e \<Rightarrow> Inl (u, e)
         | Inr url \<Rightarrow>
             if CHR ''#'' \<notin> set raw \<or> frag = [] then Inr url
             else (case go_unescape EncFragment frag of
                     Inl e \<Rightarrow> Inl (raw, e)
                   | Inr _ \<Rightarrow> Inr url))"

section \<open>Hostname and Port\<close>

definition split_host_port :: "string \<Rightarrow> string \<times> string" where
  "split_host_port hp =
     (let (host, port) =
            (case last_cut CHR '':'' hp of
               None \<Rightarrow> (hp, [])
             | Some (h, p) \<Rightarrow> if list_all is_digit p then (h, p) else (hp, []))
      in (if has_prefix host ''['' \<and> host \<noteq> [] \<and> last host = CHR '']'' then butlast (tl host) else host, port))"

definition url_hostname :: "go_url \<Rightarrow> string" where
  "url_hostname u = fst (split_host_port (u_Host u))"

definition url_port :: "go_url \<Rightarrow> string" where
  "url_port u = snd (split_host_port (u_Host u))"

end
