(* ===== verification/ToolRouteReconciler.thy ===== *)
theory ToolRouteReconciler
  imports ToolGatewayReconciler GoUrl ToolAuthz
begin

text \<open>
  \<open>toolroute_reconciler.go\<close>: a \<open>ToolRoute\<close> that targets a gateway of ours is reconciled into
  an \<open>AgentgatewayBackend\<close> for its upstream, an \<open>HTTPRoute\<close> and, when it has a tool filter, an
  \<open>AgentgatewayPolicy\<close>; the outcome is mirrored in its Ready condition.  Functions that share
  their name with one of the gateway controller have the prefix \<open>route_\<close>.
\<close>

section \<open>Constants\<close>

definition ToolRouteAgentgatewayControllerName :: string where
  "ToolRouteAgentgatewayControllerName = ''runtime.agentic-layer.ai/toolroute-agentgateway-controller''"

definition schemeHTTP :: string where "schemeHTTP = ''http''"
definition schemeHTTPS :: string where "schemeHTTPS = ''https''"

definition reasonToolRouteGatewayNotFound :: string where "reasonToolRouteGatewayNotFound = ''GatewayNotFound''"
definition reasonToolRouteUpstreamUnresolved :: string where "reasonToolRouteUpstreamUnresolved = ''UpstreamUnresolved''"
definition reasonToolRouteBackendFailed :: string where "reasonToolRouteBackendFailed = ''BackendReconciliationFailed''"
definition reasonToolRouteHTTPRouteFailed :: string where "reasonToolRouteHTTPRouteFailed = ''HTTPRouteReconciliationFailed''"
definition reasonToolRoutePolicyFailed :: string where "reasonToolRoutePolicyFailed = ''PolicyReconciliationFailed''"

lemmas route_reasons =
  reasonToolRouteGatewayNotFound_def reasonToolRouteUpstreamUnresolved_def reasonToolRouteBackendFailed_def
  reasonToolRouteHTTPRouteFailed_def reasonToolRoutePolicyFailed_def

section \<open>The upstream\<close>

text \<open>The text of \<open>strconv.Atoi\<close>'s error; the conversion fails only on syntax or range.\<close>

definition atoi_error_text :: "klib \<Rightarrow> string \<Rightarrow> num_error \<Rightarrow> string" where
  "atoi_error_text lib s e =
     ''strconv.Atoi: parsing '' @ l_quote lib s @ '': ''
     @ (case e of NumSyntax \<Rightarrow> ''invalid syntax'' | NumRange \<Rightarrow> ''value out of range'')"

definition upstream_port :: "klib \<Rightarrow> string \<Rightarrow> string \<Rightarrow> goerror + 32 word" where
  "upstream_port lib scheme portStr =
     (if portStr = [] then Inr (if scheme = schemeHTTPS then 443 else 80)
      else case go_atoi portStr of
        Inl convErr \<Rightarrow> Inl (Wrapf ''invalid external.url port: '' (Plain (atoi_error_text lib portStr convErr)) [])
      | Inr n \<Rightarrow>
          if n < 1 \<or> 65535 < n
          then Inl (Plain (''invalid external.url port '' @ int_to_dec n @ '': must be in range 1-65535''))
          else Inr (word_of_int n))"

definition external_upstream :: "klib \<Rightarrow> string \<Rightarrow> goerror + string \<times> 32 word \<times> string" where
  "external_upstream lib raw =
     (case url_parse (l_ip6 lib) raw of
        Inl (quoted, e) \<Rightarrow>
          Inl (Wrapf ''invalid external.url: ''
                 (Plain (''parse '' @ l_quote lib quoted @ '': '' @ url_error_text (l_quote lib) e)) [])
      | Inr u \<Rightarrow>
          if u_Scheme u \<noteq> schemeHTTP \<and> u_Scheme u \<noteq> schemeHTTPS
          then Inl (Plain (''invalid external.url scheme '' @ l_quote lib (u_Scheme u) @ '': must be http or https''))
          else if url_hostname u = [] then Inl (Plain ''invalid external.url: hostname is empty'')
          else (case upstream_port lib (u_Scheme u) (url_port u) of
                  Inl e \<Rightarrow> Inl e
                | Inr p \<Rightarrow> Inr (url_hostname u, p, if u_Path u = [] then ''/'' else u_Path u)))"

definition server_ref_key :: "tool_route \<Rightarrow> object_ref \<Rightarrow> nsname" where
  "server_ref_key route ref =
     (if ref_Namespace ref = [] then m_Namespace (tr_Meta route) else ref_Namespace ref, ref_Name ref)"

definition resolveRouteUpstream ::
  "klib \<Rightarrow> 'w client \<Rightarrow> tool_route \<Rightarrow> 'w \<Rightarrow> goerror + string \<times> 32 word \<times> string" where
  "resolveRouteUpstream lib cl route w =
     (case tr_ToolServerRef route of
        Some ref \<Rightarrow>
          (let k = server_ref_key route ref in
           case get_as as_tool_server cl (KToolServer, k) w of
             Inl e \<Rightarrow> Inl (Wrapf (''failed to resolve ToolServer '' @ fst k @ ''/'' @ snd k @ '': '') e [])
           | Inr ts \<Rightarrow>
               Inr (toolServerHost (m_Name (ts_Meta ts)) (m_Namespace (ts_Meta ts)), ts_Port ts,
                    if ts_Path ts = [] then ''/mcp'' else ts_Path ts))
      | None \<Rightarrow>
          (case tr_External route of
             Some raw \<Rightarrow> external_upstream lib raw
           | None \<Rightarrow> Inl (Plain ''upstream has neither toolServerRef nor external set'')))"

section \<open>Backend and HTTPRoute\<close>

definition route_key :: "tool_route \<Rightarrow> okey" where
  "route_key route = (KToolRoute, meta_key (tr_Meta route))"

definition route_object_name :: "tool_gateway \<Rightarrow> tool_route \<Rightarrow> string" where
  "route_object_name tg route = m_Name (tg_Meta tg) @ ''-'' @ m_Name (tr_Meta route)"

definition backend_mutate :: "klib \<Rightarrow> tool_route \<Rightarrow> string \<times> 32 word \<times> string \<Rightarrow> unstructured \<Rightarrow> goerror + unstructured" where
  "backend_mutate lib route up u =
     (case l_set_controller lib KToolRoute (tr_Meta route) (us_Meta u) of
        Inl e \<Rightarrow> Inl e
      | Inr m \<Rightarrow>
          (let (host, port, path) = up
           in setMCPTargets lib (u\<lparr>us_Meta := m\<rparr>) [buildMCPTarget ''mcp-target'' host port path]))"

definition ensureBackend ::
  "'w reconciler \<Rightarrow> tool_route \<Rightarrow> tool_gateway \<Rightarrow> string \<times> 32 word \<times> string \<Rightarrow> 'w \<Rightarrow> goerror option \<times> 'w" where
  "ensureBackend r route tg up w =
     (let backend = newAgentgatewayBackend (route_object_name tg route) (m_Namespace (tr_Meta route))
      in case c_create_or_patch (r_Client r) (OUnstructured backend)
                (on_unstructured (backend_mutate (r_Lib r) route up)) w of
           (Inl e, w') \<Rightarrow> (Some (Wrapf ''failed to ensure AgentgatewayBackend: '' e []), w')
         | (Inr op, w') \<Rightarrow>
             (None, emit_op r (route_key route) ''Backend'' ''AgentgatewayBackend'' (route_object_name tg route) op w'))"

definition http_route_mutate :: "klib \<Rightarrow> tool_route \<Rightarrow> tool_gateway \<Rightarrow> string \<Rightarrow> http_route \<Rightarrow> goerror + http_route" where
  "http_route_mutate lib route tg routePath hr =
     (case l_set_controller lib KToolRoute (tr_Meta route) (hr_Meta hr) of
        Inl e \<Rightarrow> Inl e
      | Inr m \<Rightarrow>
          Inr (hr\<lparr>hr_Meta := m,
                  hr_Spec := buildHTTPRouteSpec (m_Name (tg_Meta tg)) (m_Namespace (tg_Meta tg))
                               (route_object_name tg route) (m_Namespace (tr_Meta route)) routePath\<rparr>))"

definition empty_http_route_spec :: http_route_spec where
  "empty_http_route_spec = \<lparr>hs_ParentRefs = [], hs_Rules = []\<rparr>"

definition ensureHTTPRoute ::
  "'w reconciler \<Rightarrow> tool_route \<Rightarrow> tool_gateway \<Rightarrow> string \<Rightarrow> 'w \<Rightarrow> goerror option \<times> 'w" where
  "ensureHTTPRoute r route tg routePath w =
     (let hr = \<lparr>hr_Meta = new_meta (route_object_name tg route) (m_Namespace (tr_Meta route)), hr_Spec = empty_http_route_spec\<rparr>
      in case c_create_or_patch (r_Client r) (OHTTPRoute hr)
                (on_http_route (http_route_mutate (r_Lib r) route tg routePath)) w of
           (Inl e, w') \<Rightarrow> (Some (Wrapf ''failed to ensure HTTPRoute: '' e []), w')
         | (Inr op, w') \<Rightarrow>
             (None, emit_op r (route_key route) ''HTTPRoute'' ''HTTPRoute'' (route_object_name tg route) op w'))"

section \<open>The tool-filter policy\<close>

definition filter_policy_name :: "tool_gateway \<Rightarrow> tool_route \<Rightarrow> string" where
  "filter_policy_name tg route = m_Name (tg_Meta tg) @ ''-'' @ m_Name (tr_Meta route) @ ''-toolfilter''"

definition filter_target_json :: "tool_gateway \<Rightarrow> tool_route \<Rightarrow> json" where
  "filter_target_json tg route =
     jmap [(''group'', JStr ''gateway.networking.k8s.io''), (''kind'', JStr ''HTTPRoute''),
           (fieldName, JStr (route_object_name tg route))]"

definition authorization_json :: "string list \<Rightarrow> json" where
  "authorization_json rules =
     jmap [(''action'', JStr ''Allow''), (''policy'', jmap [(''matchExpressions'', JList (map JStr rules))])]"

definition filter_policy_mutate ::
  "klib \<Rightarrow> tool_route \<Rightarrow> tool_gateway \<Rightarrow> string list \<Rightarrow> unstructured \<Rightarrow> goerror + unstructured" where
  "filter_policy_mutate lib route tg rules u =
     (case l_set_controller lib KToolRoute (tr_Meta route) (us_Meta u) of
        Inl e \<Rightarrow> Inl e
      | Inr m \<Rightarrow>
          (case set_object lib (u\<lparr>us_Meta := m\<rparr>) [''spec'', ''targetRefs''] (JList [filter_target_json tg route]) of
             Inl e \<Rightarrow> Inl e
           | Inr u1 \<Rightarrow>
               set_object lib u1 [''spec'', ''backend'', ''mcp'', ''authorization''] (authorization_json rules)))"

definition ensurePolicy :: "'w reconciler \<Rightarrow> tool_route \<Rightarrow> tool_gateway \<Rightarrow> 'w \<Rightarrow> goerror option \<times> 'w" where
  "ensurePolicy r route tg w =
     (let policyName = filter_policy_name tg route;
          rules = buildMcpAuthorizationRules (tr_ToolFilter route);
          policy = newAgentgatewayPolicy policyName (m_Namespace (tr_Meta route))
      in if rules = []
         then (case c_delete (r_Client r) (key_of (OUnstructured policy)) w of
                 (None, w') \<Rightarrow>
                   (None, emitNormalEvent r (route_key route) ''PolicyDeleted'' ''DeletePolicy''
                            (''Deleted AgentgatewayPolicy '' @ policyName @ '' (tool filter cleared)'') w')
               | (Some e, w') \<Rightarrow>
                   if is_not_found e then (None, w')
                   else (Some (Wrapf ''failed to delete stale tool-filter policy: '' e []), w'))
         else (case c_create_or_patch (r_Client r) (OUnstructured policy)
                      (on_unstructured (filter_policy_mutate (r_Lib r) route tg rules)) w of
                 (Inl e, w') \<Rightarrow> (Some (Wrapf ''failed to ensure AgentgatewayPolicy: '' e []), w')
               | (Inr op, w') \<Rightarrow>
                   (None, emit_op r (route_key route) ''Policy'' ''AgentgatewayPolicy'' policyName op w')))"

section \<open>Reconciliation\<close>

definition route_path :: "tool_route \<Rightarrow> string" where
  "route_path route = ''/'' @ m_Namespace (tr_Meta route) @ ''/'' @ m_Name (tr_Meta route) @ ''/mcp''"

text \<open>The route path, the reason of a failure and the error.\<close>

definition reconcileToolRoute ::
  "'w reconciler \<Rightarrow> tool_route \<Rightarrow> tool_gateway \<Rightarrow> 'w \<Rightarrow> (string \<times> string \<times> goerror option) \<times> 'w" where
  "reconcileToolRoute r route tg w =
     (case resolveRouteUpstream (r_Lib r) (r_Client r) route w of
        Inl e \<Rightarrow> (([], reasonToolRouteUpstreamUnresolved, Some e), w)
      | Inr up \<Rightarrow>
          (case ensureBackend r route tg up w of
             (Some e, w1) \<Rightarrow> (([], reasonToolRouteBackendFailed, Some e), w1)
           | (None, w1) \<Rightarrow>
               (case ensureHTTPRoute r route tg (route_path route) w1 of
                  (Some e, w2) \<Rightarrow> (([], reasonToolRouteHTTPRouteFailed, Some e), w2)
                | (None, w2) \<Rightarrow>
                    (case ensurePolicy r route tg w2 of
                       (Some e, w3) \<Rightarrow> (([], reasonToolRoutePolicyFailed, Some e), w3)
                     | (None, w3) \<Rightarrow> ((route_path route, [], None), w3)))))"

section \<open>Status\<close>

definition patch_route :: "'w reconciler \<Rightarrow> tool_route \<Rightarrow> tool_route \<Rightarrow> 'w \<Rightarrow> goerror option \<times> 'w" where
  "patch_route r base new w =
     (case c_patch_status (r_Client r) (OToolRoute base) (OToolRoute new) w of
        (Some e, w') \<Rightarrow> (Some (Wrapf ''failed to patch ToolRoute status: '' e []), w')
      | (None, w') \<Rightarrow> (None, w'))"

definition route_url :: "tool_gateway \<Rightarrow> string \<Rightarrow> string" where
  "route_url tg routePath =
     ''http://'' @ m_Name (tg_Meta tg) @ ''.'' @ m_Namespace (tg_Meta tg) @ ''.svc.cluster.local'' @ routePath"

definition is_condition_true :: "klib \<Rightarrow> condition list \<Rightarrow> string \<Rightarrow> bool" where
  "is_condition_true lib cs t =
     (case l_find_condition lib cs t of None \<Rightarrow> False | Some c \<Rightarrow> cd_Status c = ConditionTrue)"

definition tr_ready :: "klib \<Rightarrow> tool_route \<Rightarrow> string \<Rightarrow> tool_route" where
  "tr_ready lib route gwURL =
     route\<lparr>tr_Url := gwURL,
           tr_Conditions := l_set_condition lib (tr_Conditions route)
             (ready_condition (tr_Meta route) ConditionTrue reasonReconciled (''ToolRoute is ready at '' @ gwURL))\<rparr>"

definition tr_not_ready :: "klib \<Rightarrow> tool_route \<Rightarrow> string \<Rightarrow> string \<Rightarrow> tool_route" where
  "tr_not_ready lib route reason message =
     route\<lparr>tr_Conditions := l_set_condition lib (tr_Conditions route)
             (ready_condition (tr_Meta route) ConditionFalse reason message)\<rparr>"

definition route_updateStatusReady ::
  "'w reconciler \<Rightarrow> tool_route \<Rightarrow> tool_gateway \<Rightarrow> string \<Rightarrow> 'w \<Rightarrow> goerror option \<times> 'w" where
  "route_updateStatusReady r route tg routePath w =
     (let wasReady = is_condition_true (r_Lib r) (tr_Conditions route) readyConditionType;
          gwURL = route_url tg routePath
      in case patch_route r route (tr_ready (r_Lib r) route gwURL) w of
           (Some e, w') \<Rightarrow> (Some e, w')
         | (None, w') \<Rightarrow>
             (None, if wasReady then w'
                    else emitNormalEvent r (route_key route) ''Ready'' ''Reconciled'' (''ToolRoute ready at '' @ gwURL) w'))"

definition route_updateStatusNotReady ::
  "'w reconciler \<Rightarrow> tool_route \<Rightarrow> string \<Rightarrow> string \<Rightarrow> 'w \<Rightarrow> goerror option \<times> 'w" where
  "route_updateStatusNotReady r route reason message w =
     patch_route r route (tr_not_ready (r_Lib r) route reason message) w"

definition ToolRoute_Reconcile :: "'w reconciler \<Rightarrow> nsname \<Rightarrow> 'w \<Rightarrow> goerror option \<times> 'w" where
  "ToolRoute_Reconcile r req w =
     (case get_as as_tool_route (r_Client r) (KToolRoute, req) w of
        Inl e \<Rightarrow> if is_not_found e then (None, w) else (Some e, w)
      | Inr route \<Rightarrow>
          (case resolveToolGatewayKey (r_Client r) route w of
             Inl e \<Rightarrow>
               if errors_is e errNoDefaultToolGateway
               then (let (statusErr, w') = route_updateStatusNotReady r route reasonToolRouteGatewayNotFound (error_text e) w
                     in (None, w'))
               else (Some e, w)
           | Inr gk \<Rightarrow>
               (case get_as as_tool_gateway (r_Client r) (KToolGateway, gk) w of
                  Inl e \<Rightarrow>
                    if \<not> is_not_found e then (Some e, w)
                    else (let msg = ''ToolGateway '' @ fst gk @ ''/'' @ snd gk @ '' not found'';
                              (statusErr, w') = route_updateStatusNotReady r route reasonToolRouteGatewayNotFound msg w
                          in (None, w'))
                | Inr tg \<Rightarrow>
                    (case isToolGatewayOwnedByController (r_Client r) tg w of
                       Inl e \<Rightarrow> (Some e, w)
                     | Inr False \<Rightarrow> (None, w)
                     | Inr True \<Rightarrow>
                         (case reconcileToolRoute r route tg w of
                            ((routePath, reason, Some e), w1) \<Rightarrow>
                              (let (statusErr, w2) = route_updateStatusNotReady r route reason (error_text e) w1
                               in (Some e, w2))
                          | ((routePath, reason, None), w1) \<Rightarrow>
                              route_updateStatusReady r route tg routePath w1)))))"

section \<open>Watches\<close>

definition gateway_ref_key :: "tool_route \<Rightarrow> object_ref \<Rightarrow> nsname" where
  "gateway_ref_key route ref =
     (if ref_Namespace ref = [] then m_Namespace (tr_Meta route) else ref_Namespace ref, ref_Name ref)"

definition findToolRoutesForToolGateway :: "'w reconciler \<Rightarrow> kobj \<Rightarrow> 'w \<Rightarrow> nsname list" where
  "findToolRoutesForToolGateway r obj w =
     (case obj of
        OToolGateway tg \<Rightarrow>
          (case list_as as_tool_route (r_Client r) KToolRoute None w of
             Inl e \<Rightarrow> []
           | Inr routes \<Rightarrow>
               map (\<lambda>route. meta_key (tr_Meta route))
                 (filter (\<lambda>route.
                    case tr_ToolGatewayRef route of
                      None \<Rightarrow> m_Namespace (tg_Meta tg) = defaultToolGatewayNamespace
                    | Some ref \<Rightarrow> ref_Name ref = m_Name (tg_Meta tg)
                                 \<and> fst (gateway_ref_key route ref) = m_Namespace (tg_Meta tg)) routes))
      | _ \<Rightarrow> [])"

definition findToolRoutesForToolServer :: "'w reconciler \<Rightarrow> kobj \<Rightarrow> 'w \<Rightarrow> nsname list" where
  "findToolRoutesForToolServer r obj w =
     (case obj of
        OToolServer ts \<Rightarrow>
          (case list_as as_tool_route (r_Client r) KToolRoute None w of
             Inl e \<Rightarrow> []
           | Inr routes \<Rightarrow>
               map (\<lambda>route. meta_key (tr_Meta route))
                 (filter (\<lambda>route.
                    case tr_ToolServerRef route of
                      None \<Rightarrow> False
                    | Some ref \<Rightarrow> ref_Name ref = m_Name (ts_Meta ts)
                                 \<and> fst (server_ref_key route ref) = m_Namespace (ts_Meta ts)) routes))
      | _ \<Rightarrow> [])"

definition ToolRoute_SetupWithManager :: "'w reconciler \<Rightarrow> 'w controller_setup" where
  "ToolRoute_SetupWithManager r =
     \<lparr>su_Name = ToolRouteAgentgatewayControllerName, su_For = KToolRoute, su_Owns = [KHTTPRoute],
      su_Watches = [(KToolGateway, findToolRoutesForToolGateway r),
                    (KToolServer, findToolRoutesForToolServer r)]\<rparr>"

section \<open>What a ready route has\<close>

definition route_object_key :: "tool_gateway \<Rightarrow> tool_route \<Rightarrow> nsname" where
  "route_object_key tg route = (m_Namespace (tr_Meta route), route_object_name tg route)"

definition filter_policy_key :: "tool_gateway \<Rightarrow> tool_route \<Rightarrow> nsname" where
  "filter_policy_key tg route = (m_Namespace (tr_Meta route), filter_policy_name tg route)"

definition route_keys :: "tool_gateway \<Rightarrow> tool_route \<Rightarrow> okey set" where
  "route_keys tg route =
     {(KBackend, route_object_key tg route), (KHTTPRoute, route_object_key tg route), (KPolicy, filter_policy_key tg route)}"

text \<open>The upstream a route asks for, read off the stored tool server or the URL.\<close>

definition upstream_wanted ::
  "klib \<Rightarrow> tool_route \<Rightarrow> (okey \<Rightarrow> kobj option) \<Rightarrow> string \<times> 32 word \<times> string \<Rightarrow> bool" where
  "upstream_wanted lib route store up =
     (case tr_ToolServerRef route of
        Some ref \<Rightarrow>
          (\<exists>ts. store (KToolServer, server_ref_key route ref) = Some (OToolServer ts)
              \<and> up = (ref_Name ref @ ''.'' @ fst (server_ref_key route ref) @ ''.svc.cluster.local'', ts_Port ts,
                      if ts_Path ts = [] then ''/mcp'' else ts_Path ts))
      | None \<Rightarrow> (\<exists>raw. tr_External route = Some raw \<and> external_upstream lib raw = Inr up))"

definition backend_spec :: "string \<times> 32 word \<times> string \<Rightarrow> json" where
  "backend_spec up =
     (let (host, port, path) = up
      in jmap [(''targets'', JList [buildMCPTarget ''mcp-target'' host port path]), (''failureMode'', JStr ''FailOpen'')])"

definition policy_in_place :: "tool_gateway \<Rightarrow> tool_route \<Rightarrow> (okey \<Rightarrow> kobj option) \<Rightarrow> bool" where
  "policy_in_place tg route store =
     (let rules = buildMcpAuthorizationRules (tr_ToolFilter route)
      in if rules = [] then store (KPolicy, filter_policy_key tg route) = None
         else (\<exists>p. store (KPolicy, filter_policy_key tg route) = Some (OUnstructured p)
                 \<and> controller_of (us_Meta p) = Some (KToolRoute, m_Name (tr_Meta route))
                 \<and> json_get (us_Object p) [''spec'', ''targetRefs''] = Some (JList [filter_target_json tg route])
                 \<and> json_get (us_Object p) [''spec'', ''backend'', ''mcp'', ''authorization''] = Some (authorization_json rules)))"

text \<open>
  The backend sends to the upstream, the HTTPRoute sends the route's path on the gateway to
  the backend, and the policy on the HTTPRoute carries the rules of the tool filter.
\<close>

definition route_serves ::
  "tool_gateway \<Rightarrow> tool_route \<Rightarrow> string \<times> 32 word \<times> string \<Rightarrow> (okey \<Rightarrow> kobj option) \<Rightarrow> bool" where
  "route_serves tg route up store =
     ((\<exists>b. store (KBackend, route_object_key tg route) = Some (OUnstructured b)
        \<and> controller_of (us_Meta b) = Some (KToolRoute, m_Name (tr_Meta route))
        \<and> json_get (us_Object b) [''spec'', ''mcp''] = Some (backend_spec up))
      \<and> (\<exists>h. store (KHTTPRoute, route_object_key tg route) = Some (OHTTPRoute h)
           \<and> controller_of (hr_Meta h) = Some (KToolRoute, m_Name (tr_Meta route))
           \<and> hr_Spec h = buildHTTPRouteSpec (m_Name (tg_Meta tg)) (m_Namespace (tg_Meta tg))
                            (route_object_name tg route) (m_Namespace (tr_Meta route)) (route_path route))
      \<and> policy_in_place tg route store)"

definition policy_fixed :: "klib \<Rightarrow> tool_gateway \<Rightarrow> tool_route \<Rightarrow> (okey \<Rightarrow> kobj option) \<Rightarrow> bool" where
  "policy_fixed lib tg route store =
     (let rules = buildMcpAuthorizationRules (tr_ToolFilter route)
      in if rules = [] then store (KPolicy, filter_policy_key tg route) = None
         else (\<exists>p. store (KPolicy, filter_policy_key tg route) = Some (OUnstructured p)
                 \<and> filter_policy_mutate lib route tg rules p = Inr p))"

definition route_settled ::
  "klib \<Rightarrow> tool_gateway \<Rightarrow> tool_route \<Rightarrow> string \<times> 32 word \<times> string \<Rightarrow> (okey \<Rightarrow> kobj option) \<Rightarrow> bool" where
  "route_settled lib tg route up store =
     ((\<exists>b. store (KBackend, route_object_key tg route) = Some (OUnstructured b) \<and> backend_mutate lib route up b = Inr b)
      \<and> (\<exists>h. store (KHTTPRoute, route_object_key tg route) = Some (OHTTPRoute h)
           \<and> http_route_mutate lib route tg (route_path route) h = Inr h)
      \<and> policy_fixed lib tg route store)"

section \<open>Each step\<close>

lemma http_route_mutate_ok:
  "http_route_mutate lib route tg path x = Inr y \<Longrightarrow>
   l_set_controller lib KToolRoute (tr_Meta route) (hr_Meta x) = Inr (hr_Meta y)
   \<and> hr_Spec y = buildHTTPRouteSpec (m_Name (tg_Meta tg)) (m_Namespace (tg_Meta tg))
                   (route_object_name tg route) (m_Namespace (tr_Meta route)) path"
  by (auto simp: http_route_mutate_def split: sum.splits)

context gateway_operator
begin

lemma backend_mutate_ok:
  assumes "backend_mutate (r_Lib r) route up x = Inr y"
  shows "l_set_controller (r_Lib r) KToolRoute (tr_Meta route) (us_Meta x) = Inr (us_Meta y)"
    "json_get (us_Object y) [''spec'', ''mcp''] = Some (backend_spec up)"
  using assms set_object_get [of _ "[''spec'', ''mcp'']"] set_object_frame [of _ "[''spec'', ''mcp'']"]
  by (auto simp: backend_mutate_def setMCPTargets_def backend_spec_def simp del: json_get.simps split: sum.splits prod.splits)

lemma filter_policy_mutate_ok:
  assumes "filter_policy_mutate (r_Lib r) route tg rules x = Inr y"
  shows "l_set_controller (r_Lib r) KToolRoute (tr_Meta route) (us_Meta x) = Inr (us_Meta y)"
    "json_get (us_Object y) [''spec'', ''targetRefs''] = Some (JList [filter_target_json tg route])"
    "json_get (us_Object y) [''spec'', ''backend'', ''mcp'', ''authorization''] = Some (authorization_json rules)"
proof -
  obtain m u1 where m: "l_set_controller (r_Lib r) KToolRoute (tr_Meta route) (us_Meta x) = Inr m"
    and 1: "set_object (r_Lib r) (x\<lparr>us_Meta := m\<rparr>) [''spec'', ''targetRefs''] (JList [filter_target_json tg route]) = Inr u1"
    and 2: "set_object (r_Lib r) u1 [''spec'', ''backend'', ''mcp'', ''authorization''] (authorization_json rules) = Inr y"
    using assms by (auto simp: filter_policy_mutate_def split: sum.splits)
  show "l_set_controller (r_Lib r) KToolRoute (tr_Meta route) (us_Meta x) = Inr (us_Meta y)"
    using m set_object_frame [OF 1] set_object_frame [OF 2] by simp
  show "json_get (us_Object y) [''spec'', ''targetRefs''] = Some (JList [filter_target_json tg route])"
    using set_object_get [OF 1] set_object_other [OF 2, of "[''spec'', ''targetRefs'']"] by (simp del: json_get.simps)
  show "json_get (us_Object y) [''spec'', ''backend'', ''mcp'', ''authorization''] = Some (authorization_json rules)"
    using set_object_get [OF 2] by simp
qed

lemma backend_mutator: "mutator (on_unstructured (backend_mutate (r_Lib r) route up))"
proof (rule mutator_unstructured)
  fix x y z
  assume f: "backend_mutate (r_Lib r) route up x = Inr y"
    and z: "z\<lparr>us_Meta := clear_server (us_Meta z)\<rparr> = y\<lparr>us_Meta := clear_server (us_Meta y)\<rparr>"
  note ok = backend_mutate_ok [OF f]
  have "clear_server (us_Meta z) = clear_server (us_Meta y)" "us_Object z = us_Object y"
    using arg_cong [OF z, of us_Meta] arg_cong [OF z, of us_Object] by simp_all
  then show "backend_mutate (r_Lib r) route up z = Inr z"
    using set_controller_stable [OF ok(1)] set_object_same [of z "[''spec'', ''mcp'']"] ok(2)
    by (simp add: backend_mutate_def setMCPTargets_def backend_spec_def split: prod.splits del: json_get.simps)
qed

lemma filter_policy_mutator: "mutator (on_unstructured (filter_policy_mutate (r_Lib r) route tg rules))"
proof (rule mutator_unstructured)
  fix x y z
  assume f: "filter_policy_mutate (r_Lib r) route tg rules x = Inr y"
    and z: "z\<lparr>us_Meta := clear_server (us_Meta z)\<rparr> = y\<lparr>us_Meta := clear_server (us_Meta y)\<rparr>"
  note ok = filter_policy_mutate_ok [OF f]
  have "clear_server (us_Meta z) = clear_server (us_Meta y)" "us_Object z = us_Object y"
    using arg_cong [OF z, of us_Meta] arg_cong [OF z, of us_Object] by simp_all
  then show "filter_policy_mutate (r_Lib r) route tg rules z = Inr z"
    using set_controller_stable [OF ok(1)] set_object_same [of z "[''spec'', ''targetRefs'']"]
      set_object_same [of z "[''spec'', ''backend'', ''mcp'', ''authorization'']"] ok(2,3)
    by (simp add: filter_policy_mutate_def del: json_get.simps)
qed

lemma http_route_mutator: "mutator (on_http_route (http_route_mutate (r_Lib r) route tg path))"
proof (rule mutator_http_route)
  fix x y z
  assume f: "http_route_mutate (r_Lib r) route tg path x = Inr y"
    and z: "z\<lparr>hr_Meta := clear_server (hr_Meta z)\<rparr> = y\<lparr>hr_Meta := clear_server (hr_Meta y)\<rparr>"
  have "clear_server (hr_Meta z) = clear_server (hr_Meta y)" "hr_Spec z = hr_Spec y"
    using arg_cong [OF z, of hr_Meta] arg_cong [OF z, of hr_Spec] by simp_all
  then show "http_route_mutate (r_Lib r) route tg path z = Inr z"
    using set_controller_stable [of KToolRoute "tr_Meta route" "hr_Meta x" "hr_Meta y" "hr_Meta z"] http_route_mutate_ok [OF f]
    by (cases z) (simp add: http_route_mutate_def)
qed

lemma policy_fixed_in_place: "policy_fixed (r_Lib r) tg route store \<Longrightarrow> policy_in_place tg route store"
  using filter_policy_mutate_ok set_controller_of
  by (fastforce simp: policy_fixed_def policy_in_place_def Let_def simp del: json_get.simps split: if_splits)

lemma route_settled_serves:
  assumes "route_settled (r_Lib r) tg route up store"
  shows "route_serves tg route up store"
proof -
  obtain b h where b: "store (KBackend, route_object_key tg route) = Some (OUnstructured b)" "backend_mutate (r_Lib r) route up b = Inr b"
    and h: "store (KHTTPRoute, route_object_key tg route) = Some (OHTTPRoute h)" "http_route_mutate (r_Lib r) route tg (route_path route) h = Inr h"
    and p: "policy_fixed (r_Lib r) tg route store"
    using assms unfolding route_settled_def by blast
  show ?thesis
    unfolding route_serves_def
    using b(1) h(1) backend_mutate_ok [OF b(2)] http_route_mutate_ok [OF h(2)] set_controller_of policy_fixed_in_place [OF p]
    by blast
qed

lemma unchanged_event [simp]: "unchanged_outside K at w (emitNormalEvent r k a b c w') = unchanged_outside K at w w'"
  by (simp add: unchanged_outside_def)

text \<open>The upstream is read, not written; a resolved one is the one asked for.\<close>

lemma resolve_wanted:
  assumes "resolveRouteUpstream (r_Lib r) (r_Client r) route w = Inr up"
  shows "upstream_wanted (r_Lib r) route (at w) up"
proof (cases "tr_ToolServerRef route")
  case (Some ref)
  with assms obtain ts where g: "get_as as_tool_server (r_Client r) (KToolServer, server_ref_key route ref) w = Inr ts"
    and up: "up = (toolServerHost (m_Name (ts_Meta ts)) (m_Namespace (ts_Meta ts)), ts_Port ts, if ts_Path ts = [] then ''/mcp'' else ts_Path ts)"
    by (auto simp: resolveRouteUpstream_def Let_def split: sum.splits)
  from get_as_some [OF g as_tool_server_iff] show ?thesis
    by (auto simp: upstream_wanted_def Some up key_simps toolServerHost_def server_ref_key_def split: if_splits)
qed (use assms in \<open>auto simp: resolveRouteUpstream_def upstream_wanted_def split: option.splits\<close>)

lemma ensureBackend_ok:
  assumes "ensureBackend r route tg up w = (None, w')"
  shows "\<exists>b. at w' (KBackend, route_object_key tg route) = Some (OUnstructured b) \<and> backend_mutate (r_Lib r) route up b = Inr b"
proof -
  obtain op w1 where c: "c_create_or_patch (r_Client r)
      (OUnstructured (newAgentgatewayBackend (route_object_name tg route) (m_Namespace (tr_Meta route))))
      (on_unstructured (backend_mutate (r_Lib r) route up)) w = (Inr op, w1)" and "at w' = at w1"
    using assms by (auto simp: ensureBackend_def split: prod.splits sum.splits)
  with cop_converges [OF backend_mutator c] on_unstructured_fix show ?thesis
    by (fastforce simp: route_object_key_def)
qed

lemma ensureHTTPRoute_ok:
  assumes "ensureHTTPRoute r route tg path w = (None, w')"
  shows "\<exists>h. at w' (KHTTPRoute, route_object_key tg route) = Some (OHTTPRoute h) \<and> http_route_mutate (r_Lib r) route tg path h = Inr h"
  using assms cop_converges [OF http_route_mutator] on_http_route_fix
  by (fastforce simp: ensureHTTPRoute_def key_of_def route_object_key_def Let_def split: prod.splits sum.splits)

lemma ensurePolicy_ok:
  assumes e: "ensurePolicy r route tg w = (None, w')"
  shows "policy_fixed (r_Lib r) tg route (at w')"
proof (cases "buildMcpAuthorizationRules (tr_ToolFilter route) = []")
  case True
  obtain dr w1 where d: "c_delete (r_Client r) (KPolicy, filter_policy_key tg route) w = (dr, w1)" by fastforce
  then have "case dr of None \<Rightarrow> True | Some e \<Rightarrow> is_not_found e" "at w' = at w1"
    using e True by (auto simp: ensurePolicy_def filter_policy_key_def Let_def split: option.splits if_splits)
  with delete_gone [OF d] True show ?thesis by (simp add: policy_fixed_def)
next
  case False
  let ?rules = "buildMcpAuthorizationRules (tr_ToolFilter route)"
  obtain op w1 where c: "c_create_or_patch (r_Client r)
      (OUnstructured (newAgentgatewayPolicy (filter_policy_name tg route) (m_Namespace (tr_Meta route))))
      (on_unstructured (filter_policy_mutate (r_Lib r) route tg ?rules)) w = (Inr op, w1)" and w': "at w' = at w1"
    using e False by (auto simp: ensurePolicy_def Let_def split: prod.splits sum.splits)
  with cop_converges [OF filter_policy_mutator c] on_unstructured_fix False show ?thesis
    by (fastforce simp: policy_fixed_def filter_policy_key_def)
qed

lemma ensureBackend_frame:
  "ensureBackend r route tg up w = (x, w') \<Longrightarrow> unchanged_outside {(KBackend, route_object_key tg route)} at w w'"
  by (auto simp: ensureBackend_def route_object_key_def
      split: prod.splits sum.splits
      dest!: cop_unchanged [where K = "{(KBackend, (m_Namespace (tr_Meta route), route_object_name tg route))}"])

lemma ensureHTTPRoute_frame:
  "ensureHTTPRoute r route tg path w = (x, w') \<Longrightarrow> unchanged_outside {(KHTTPRoute, route_object_key tg route)} at w w'"
  by (auto simp: ensureHTTPRoute_def key_of_def route_object_key_def Let_def
      split: prod.splits sum.splits
      dest!: cop_unchanged [where K = "{(KHTTPRoute, (m_Namespace (tr_Meta route), route_object_name tg route))}"])

lemma ensurePolicy_frame:
  "ensurePolicy r route tg w = (x, w') \<Longrightarrow> unchanged_outside {(KPolicy, filter_policy_key tg route)} at w w'"
  by (auto simp: ensurePolicy_def filter_policy_key_def Let_def
      split: prod.splits sum.splits option.splits if_splits
      dest!: cop_unchanged [where K = "{(KPolicy, (m_Namespace (tr_Meta route), filter_policy_name tg route))}"]
        delete_unchanged [where K = "{(KPolicy, (m_Namespace (tr_Meta route), filter_policy_name tg route))}"])

end

end
