(* ===== verification/RouteRuns.thy ===== *)
theory RouteRuns
  imports ToolRouteReconciler ComponentProperties
begin

text \<open>
  Whole runs of \<open>ToolRoute_Reconcile\<close>, in the locale of the gateway controllers' world: what
  each step leaves alone, which status a run writes and why, what a run is refused, what the
  second run does, and which routes the watches enqueue.
\<close>

section \<open>reconcileToolRoute\<close>

context gateway_operator
begin

lemma other_kinds [simp]:
  "(KToolRoute, k) \<notin> route_keys tg route" "(KToolGateway, k) \<notin> route_keys tg route" "(KToolServer, k) \<notin> route_keys tg route"
  "(KToolGatewayClass, k) \<notin> route_keys tg route"
  by (auto simp: route_keys_def KBackend_def KPolicy_def)

lemma route_kinds_neq [simp]: "KHTTPRoute \<noteq> KBackend" "KHTTPRoute \<noteq> KPolicy" "KBackend \<noteq> KHTTPRoute" "KPolicy \<noteq> KHTTPRoute"
  by simp_all

lemma reconcileToolRoute_frame:
  assumes "reconcileToolRoute r route tg w = (x, w')"
  shows "unchanged_outside (route_keys tg route) at w w'"
proof -
  have k: "{(KBackend, route_object_key tg route)} \<subseteq> route_keys tg route" "{(KHTTPRoute, route_object_key tg route)} \<subseteq> route_keys tg route"
    "{(KPolicy, filter_policy_key tg route)} \<subseteq> route_keys tg route" for tg route by (auto simp: route_keys_def)
  note m = unchanged_mono [OF ensureBackend_frame k(1)] unchanged_mono [OF ensureHTTPRoute_frame k(2)]
    unchanged_mono [OF ensurePolicy_frame k(3)]
  show ?thesis
    using assms
    by (auto simp: reconcileToolRoute_def split: prod.splits option.splits sum.splits dest!: m intro: unchanged_trans)
qed

lemma reconcileToolRoute_ok:
  assumes "reconcileToolRoute r route tg w = ((path, reason, None), w')"
  shows "path = route_path route"
    and "\<exists>up. resolveRouteUpstream (r_Lib r) (r_Client r) route w = Inr up \<and> route_settled (r_Lib r) tg route up (at w')"
proof -
  obtain up w1 w2 where up: "resolveRouteUpstream (r_Lib r) (r_Client r) route w = Inr up"
    and 1: "ensureBackend r route tg up w = (None, w1)" and 2: "ensureHTTPRoute r route tg (route_path route) w1 = (None, w2)"
    and 3: "ensurePolicy r route tg w2 = (None, w')"
    using assms by (auto simp: reconcileToolRoute_def split: prod.splits option.splits sum.splits)
  show "path = route_path route"
    using assms by (auto simp: reconcileToolRoute_def split: prod.splits option.splits sum.splits)
  have b: "at w' (KBackend, route_object_key tg route) = at w1 (KBackend, route_object_key tg route)"
    and h: "at w' (KHTTPRoute, route_object_key tg route) = at w2 (KHTTPRoute, route_object_key tg route)"
    using unchangedD [OF ensureHTTPRoute_frame [OF 2]] unchangedD [OF ensurePolicy_frame [OF 3]] by simp_all
  show "\<exists>up. resolveRouteUpstream (r_Lib r) (r_Client r) route w = Inr up \<and> route_settled (r_Lib r) tg route up (at w')"
    unfolding route_settled_def b h
    using up ensureBackend_ok [OF 1] ensureHTTPRoute_ok [OF 2] ensurePolicy_ok [OF 3] by blast
qed

text \<open>
  The phases of a failed run.  The ones before the failing one have succeeded, the objects of the
  later ones are as before.
\<close>

lemma reconcileToolRoute_phases:
  assumes "reconcileToolRoute r route tg w = ((path, reason, Some e), w')"
  obtains (upstream) "resolveRouteUpstream (r_Lib r) (r_Client r) route w = Inl e" "reason = ''UpstreamUnresolved''" "w' = w"
    | (backend) up where "resolveRouteUpstream (r_Lib r) (r_Client r) route w = Inr up"
        "ensureBackend r route tg up w = (Some e, w')" "reason = ''BackendReconciliationFailed''"
    | (http) up w1 where "resolveRouteUpstream (r_Lib r) (r_Client r) route w = Inr up" "ensureBackend r route tg up w = (None, w1)"
        "ensureHTTPRoute r route tg (route_path route) w1 = (Some e, w')" "reason = ''HTTPRouteReconciliationFailed''"
    | (policy) up w1 w2 where "resolveRouteUpstream (r_Lib r) (r_Client r) route w = Inr up" "ensureBackend r route tg up w = (None, w1)"
        "ensureHTTPRoute r route tg (route_path route) w1 = (None, w2)" "ensurePolicy r route tg w2 = (Some e, w')"
        "reason = ''PolicyReconciliationFailed''"
  using assms by (auto simp: reconcileToolRoute_def route_reasons split: prod.splits option.splits sum.splits)

lemma backend_written:
  assumes "ensureBackend r route tg up w = (None, w1)" "at w' (KBackend, route_object_key tg route) = at w1 (KBackend, route_object_key tg route)"
  shows "\<exists>b. at w' (KBackend, route_object_key tg route) = Some (OUnstructured b)
     \<and> json_get (us_Object b) [''spec'', ''mcp''] = Some (backend_spec up)"
  using ensureBackend_ok [OF assms(1)] assms(2) by (metis backend_mutate_ok(2))

lemma http_route_written:
  assumes "ensureHTTPRoute r route tg (route_path route) w = (None, w1)"
    "at w' (KHTTPRoute, route_object_key tg route) = at w1 (KHTTPRoute, route_object_key tg route)"
  shows "\<exists>h. at w' (KHTTPRoute, route_object_key tg route) = Some (OHTTPRoute h)
     \<and> hr_Spec h = buildHTTPRouteSpec (m_Name (tg_Meta tg)) (m_Namespace (tg_Meta tg))
                     (route_object_name tg route) (m_Namespace (tr_Meta route)) (route_path route)"
  using ensureHTTPRoute_ok [OF assms(1)] http_route_mutate_ok assms(2) by auto

lemma route_failed_phase:
  assumes run: "reconcileToolRoute r route tg w = ((path, reason, Some e), w1)" and self: "unchanged_outside {(KToolRoute, req)} at w1 w'"
  obtains (upstream) "reason = ''UpstreamUnresolved''" "resolveRouteUpstream (r_Lib r) (r_Client r) route w = Inl e"
      "unchanged_outside {(KToolRoute, req)} at w w'"
    | (backend) up where "reason = ''BackendReconciliationFailed''" "resolveRouteUpstream (r_Lib r) (r_Client r) route w = Inr up"
      "ensureBackend r route tg up w = (Some e, w1)"
      "unchanged_outside {(KToolRoute, req), (KBackend, route_object_key tg route)} at w w'"
    | (http) up v where "reason = ''HTTPRouteReconciliationFailed''" "resolveRouteUpstream (r_Lib r) (r_Client r) route w = Inr up"
      "ensureBackend r route tg up w = (None, v)" "ensureHTTPRoute r route tg (route_path route) v = (Some e, w1)"
      "unchanged_outside {(KToolRoute, req), (KBackend, route_object_key tg route), (KHTTPRoute, route_object_key tg route)} at w w'"
      "\<exists>b. at w' (KBackend, route_object_key tg route) = Some (OUnstructured b)
         \<and> json_get (us_Object b) [''spec'', ''mcp''] = Some (backend_spec up)"
    | (policy) up v v' where "reason = ''PolicyReconciliationFailed''" "resolveRouteUpstream (r_Lib r) (r_Client r) route w = Inr up"
      "ensureBackend r route tg up w = (None, v)" "ensureHTTPRoute r route tg (route_path route) v = (None, v')"
      "ensurePolicy r route tg v' = (Some e, w1)"
      "\<exists>b. at w' (KBackend, route_object_key tg route) = Some (OUnstructured b)
         \<and> json_get (us_Object b) [''spec'', ''mcp''] = Some (backend_spec up)"
      "\<exists>h. at w' (KHTTPRoute, route_object_key tg route) = Some (OHTTPRoute h)
         \<and> hr_Spec h = buildHTTPRouteSpec (m_Name (tg_Meta tg)) (m_Namespace (tg_Meta tg))
                         (route_object_name tg route) (m_Namespace (tr_Meta route)) (route_path route)"
proof -
  have other: "at w' k = at w1 k" if "fst k \<noteq> KToolRoute" for k
    using unchangedD [OF self, of k] that by (cases k) auto
  have two: "unchanged_outside (insert (KToolRoute, req) K) at w w'" if "unchanged_outside K at w w1" for K
    by (rule unchanged_trans [where w' = w1]) (rule unchanged_mono [OF that], blast, rule unchanged_mono [OF self], blast)
  from run show thesis
  proof (cases rule: reconcileToolRoute_phases)
    case upstream
    with self that(1) show thesis by simp
  next
    case (backend up)
    with two [OF ensureBackend_frame [OF backend(2)]] that(2) show thesis by blast
  next
    case (http up v)
    let ?K = "{(KBackend, route_object_key tg route), (KHTTPRoute, route_object_key tg route)}"
    have "unchanged_outside ?K at w w1"
      by (rule unchanged_trans [where w' = v])
        (rule unchanged_mono [OF ensureBackend_frame [OF http(2)]], blast,
         rule unchanged_mono [OF ensureHTTPRoute_frame [OF http(3)]], blast)
    moreover have "at w' (KBackend, route_object_key tg route) = at v (KBackend, route_object_key tg route)"
      using other unchangedD [OF ensureHTTPRoute_frame [OF http(3)]] by simp
    ultimately show thesis
      using that(3) [OF http(4,1,2,3) two backend_written [OF http(2)]] by blast
  next
    case (policy up v v')
    have b: "at w' (KBackend, route_object_key tg route) = at v (KBackend, route_object_key tg route)"
      using other unchangedD [OF ensureHTTPRoute_frame [OF policy(3)]] unchangedD [OF ensurePolicy_frame [OF policy(4)]] by simp
    have h: "at w' (KHTTPRoute, route_object_key tg route) = at v' (KHTTPRoute, route_object_key tg route)"
      using other unchangedD [OF ensurePolicy_frame [OF policy(4)]] by simp
    show thesis
      by (rule that(4) [OF policy(5,1-4) backend_written [OF policy(2) b] http_route_written [OF policy(3) h]])
  qed
qed

section \<open>The targeted gateway\<close>

end

definition route_targets :: "(okey \<Rightarrow> kobj option) \<Rightarrow> tool_route \<Rightarrow> tool_gateway \<Rightarrow> bool" where
  "route_targets store route tg =
     (case tr_ToolGatewayRef route of
        Some ref \<Rightarrow> store (KToolGateway, gateway_ref_key route ref) = Some (OToolGateway tg)
      | None \<Rightarrow> m_Namespace (tg_Meta tg) = defaultToolGatewayNamespace
                \<and> store (key_of (OToolGateway tg)) = Some (OToolGateway tg))"

definition route_gateway_missing :: "(okey \<Rightarrow> kobj option) \<Rightarrow> tool_route \<Rightarrow> bool" where
  "route_gateway_missing store route =
     (case tr_ToolGatewayRef route of
        Some ref \<Rightarrow> store (KToolGateway, gateway_ref_key route ref) = None
      | None \<Rightarrow> \<not> (\<exists>tg. m_Namespace (tg_Meta tg) = defaultToolGatewayNamespace
                      \<and> store (key_of (OToolGateway tg)) = Some (OToolGateway tg)))"

definition merged_tr :: "tool_route \<Rightarrow> tool_route \<Rightarrow> tool_route \<Rightarrow> tool_route" where
  "merged_tr base new s =
     s\<lparr>tr_Url := patch_field (tr_Url base) (tr_Url new) (tr_Url s),
       tr_Conditions := patch_field (tr_Conditions base) (tr_Conditions new) (tr_Conditions s)\<rparr>"

context gateway_operator
begin

lemma as_tool_gateway_error: "as_tool_gateway ob = Inl e \<Longrightarrow> e = decode_error"
  by (cases ob) simp_all

lemma resolve_ref: "tr_ToolGatewayRef route = Some ref \<Longrightarrow> resolveToolGatewayKey (r_Client r) route w = Inr (gateway_ref_key route ref)"
  by (simp add: resolveToolGatewayKey_def gateway_ref_key_def Let_def)

lemma resolve_targets:
  assumes k: "resolveToolGatewayKey (r_Client r) route w = Inr gk"
    and g: "get_as as_tool_gateway (r_Client r) (KToolGateway, gk) w = Inr tg"
  shows "route_targets (at w) route tg"
proof (cases "tr_ToolGatewayRef route")
  case (Some ref)
  with k g get_as_some(1) [OF g as_tool_gateway_iff] show ?thesis by (simp add: route_targets_def resolve_ref)
next
  case None
  with resolve_default [OF k] get_as_some [OF g as_tool_gateway_iff] show ?thesis
    by (auto simp: route_targets_def key_simps)
qed

lemma resolve_missing:
  "resolveToolGatewayKey (r_Client r) route w = Inl e \<Longrightarrow> errors_is e errNoDefaultToolGateway \<Longrightarrow> route_gateway_missing (at w) route"
  "resolveToolGatewayKey (r_Client r) route w = Inr gk \<Longrightarrow>
     get_as as_tool_gateway (r_Client r) (KToolGateway, gk) w = Inl e' \<Longrightarrow> is_not_found e' \<Longrightarrow> route_gateway_missing (at w) route"
proof -
  assume e: "resolveToolGatewayKey (r_Client r) route w = Inl e" "errors_is e errNoDefaultToolGateway"
  have "e = errNoDefaultToolGateway"
    using e list_foreign
    by (auto simp: resolveToolGatewayKey_def Let_def list_as_error errNoDefaultToolGateway_def foreign_error_def
        split: option.splits sum.splits list.splits)
  then show "route_gateway_missing (at w) route"
    using resolve_no_default [of route w] e(1) by (auto simp: route_gateway_missing_def)
next
  assume k: "resolveToolGatewayKey (r_Client r) route w = Inr gk"
    and g: "get_as as_tool_gateway (r_Client r) (KToolGateway, gk) w = Inl e'" "is_not_found e'"
  have n: "at w (KToolGateway, gk) = None"
    using get_as_missing [OF g(1) g(2)] as_tool_gateway_error by blast
  then show "route_gateway_missing (at w) route"
    using k resolve_default [OF k] by (cases "tr_ToolGatewayRef route") (auto simp: route_gateway_missing_def resolve_ref)
qed

section \<open>Runs\<close>

text \<open>
  A run does nothing, or reports that there is no gateway, or ran all phases for a gateway of
  ours.
\<close>

lemma route_run:
  assumes run: "ToolRoute_Reconcile r req w = (res, w')" and st: "at w (KToolRoute, req) = Some (OToolRoute route)"
  obtains (idle) "w' = w"
  | (missing) msg y where "route_gateway_missing (at w) route" "meta_key (tr_Meta route) = req" "res = None"
      "route_updateStatusNotReady r route reasonToolRouteGatewayNotFound msg w = (y, w')"
  | (ready) tg w1 where "route_targets (at w) route tg" "\<exists>c. claims_gateway at w tg c" "meta_key (tr_Meta route) = req"
      "reconcileToolRoute r route tg w = ((route_path route, [], None), w1)"
      "at w1 (KToolRoute, req) = Some (OToolRoute route)"
      "route_updateStatusReady r route tg (route_path route) w1 = (res, w')"
  | (failed) tg path reason e w1 y where "route_targets (at w) route tg" "\<exists>c. claims_gateway at w tg c" "meta_key (tr_Meta route) = req"
      "reconcileToolRoute r route tg w = ((path, reason, Some e), w1)"
      "at w1 (KToolRoute, req) = Some (OToolRoute route)"
      "route_updateStatusNotReady r route reason (error_text e) w1 = (y, w')" "res = Some e"
proof (cases "get_as as_tool_route (r_Client r) (KToolRoute, req) w")
  case (Inl e)
  then show thesis using idle run by (auto simp: ToolRoute_Reconcile_def split: if_splits)
next
  case (Inr x)
  from get_as_some [OF Inr as_tool_route_iff] st have x: "x = route" and key: "meta_key (tr_Meta route) = req"
    by (auto simp: key_of_def)
  note run' = run [unfolded ToolRoute_Reconcile_def Inr x sum.case]
  show thesis
  proof (cases "resolveToolGatewayKey (r_Client r) route w")
    case (Inl e)
    then show thesis
      using run' idle missing [OF resolve_missing(1) key, of e] by (auto split: if_splits prod.splits)
  next
    case k: (Inr gk)
    show thesis
    proof (cases "get_as as_tool_gateway (r_Client r) (KToolGateway, gk) w")
      case (Inl e)
      then show thesis
        using run' k idle missing [OF resolve_missing(2) key, of gk e] by (auto simp: Let_def split: if_splits prod.splits)
    next
      case g: (Inr tg)
      note t = resolve_targets [OF k g]
      show thesis
      proof (cases "isToolGatewayOwnedByController (r_Client r) tg w = Inr True")
        case False
        then show thesis using run' k g idle by (auto split: sum.splits bool.splits)
      next
        case True
        then have own: "\<exists>c. claims_gateway at w tg c" using owned_iff by blast
        obtain path reason z w1 where rt: "reconcileToolRoute r route tg w = ((path, reason, z), w1)" by (metis prod_cases3 surj_pair)
        have st1: "at w1 (KToolRoute, req) = Some (OToolRoute route)"
          using unchangedD [OF reconcileToolRoute_frame [OF rt] other_kinds(1)] st by simp
        show thesis
        proof (cases z)
          case None
          have "path = route_path route" "reason = []"
            using reconcileToolRoute_ok(1) rt None
            by (auto simp: reconcileToolRoute_def split: prod.splits option.splits sum.splits)
          with run' k g True rt None ready [OF t own key _ st1] show thesis by simp
        next
          case (Some e)
          with run' k g True rt failed [OF t own key _ st1] show thesis by (auto split: prod.splits)
        qed
      qed
    qed
  qed
qed

section \<open>Status patches\<close>

lemma patch_route_frame: "patch_route r b n w = (x, w') \<Longrightarrow> unchanged_outside {(KToolRoute, meta_key (tr_Meta n))} at w w'"
  by (auto simp: patch_route_def key_of_def split: prod.splits option.splits intro: patch_unchanged)

lemma patch_route_at:
  assumes "patch_route r b n w = (x, w')" and "at w (KToolRoute, meta_key (tr_Meta n)) = Some (OToolRoute s)"
  shows "x = None \<Longrightarrow> at w' (KToolRoute, meta_key (tr_Meta n)) = Some (OToolRoute (merged_tr b n s))"
    and "at w' (KToolRoute, meta_key (tr_Meta n)) \<in> {Some (OToolRoute s), Some (OToolRoute (merged_tr b n s))}"
proof -
  have k: "key_of (OToolRoute n) = (KToolRoute, meta_key (tr_Meta n))" by (simp add: key_of_def)
  have m: "merge_status (OToolRoute b) (OToolRoute n) (OToolRoute s) = OToolRoute (merged_tr b n s)"
    by (simp add: merge_status_def merged_tr_def)
  obtain y where p: "c_patch_status (r_Client r) (OToolRoute b) (OToolRoute n) w = (y, w')" and y: "x = None \<longleftrightarrow> y = None"
    using assms(1) by (auto simp: patch_route_def split: prod.splits option.splits)
  show 1: "x = None \<Longrightarrow> at w' (KToolRoute, meta_key (tr_Meta n)) = Some (OToolRoute (merged_tr b n s))"
    using patch_ok [of "OToolRoute b" "OToolRoute n" w w'] p y assms(2) by (auto simp: k m)
  show "at w' (KToolRoute, meta_key (tr_Meta n)) \<in> {Some (OToolRoute s), Some (OToolRoute (merged_tr b n s))}"
  proof (cases y)
    case (Some e)
    with patch_error [of "OToolRoute b" "OToolRoute n" w e w'] p assms(2) show ?thesis by (auto simp: k m)
  qed (use 1 y in simp)
qed

text \<open>The Ready status of a route: the patch, then the event on a transition.\<close>

lemma route_ready_patch:
  assumes "route_updateStatusReady r route tg path w = (x, w')"
  obtains w1 where "patch_route r route (tr_ready (r_Lib r) route (route_url tg path)) w = (x, w1)" "at w' = at w1"
    and "is_condition_true (r_Lib r) (tr_Conditions route) readyConditionType \<Longrightarrow> events w' = events w1"
proof -
  obtain y w1 where p: "patch_route r route (tr_ready (r_Lib r) route (route_url tg path)) w = (y, w1)" by fastforce
  from assms p that show thesis
    by (cases y) (auto simp: route_updateStatusReady_def Let_def split: if_splits)
qed

lemma not_ready_meta [simp]: "tr_Meta (tr_not_ready lib route reason m) = tr_Meta route" "tr_Meta (tr_ready lib route u) = tr_Meta route"
  by (simp_all add: tr_not_ready_def tr_ready_def)

lemma not_ready_written:
  assumes p: "route_updateStatusNotReady r route reason msg w = (y, w')" and key: "meta_key (tr_Meta route) = req"
    and st: "at w (KToolRoute, req) = Some (OToolRoute route)" and st': "at w' (KToolRoute, req) = Some (OToolRoute route')"
    and c: "l_find_condition (r_Lib r) (tr_Conditions route') readyConditionType = Some c"
    and new: "l_find_condition (r_Lib r) (tr_Conditions route) readyConditionType \<noteq> Some c"
  shows "cd_Status c = ConditionFalse" "cd_Reason c = reason" "cd_Message c = msg"
    "cd_ObservedGeneration c = m_Generation (tr_Meta route)" "tr_Url route' = tr_Url route"
    "unchanged_outside {(KToolRoute, req)} at w w'"
proof -
  note p' = p [unfolded route_updateStatusNotReady_def]
  from patch_route_at(2) [OF p'] st st' key c new
  have r': "route' = merged_tr route (tr_not_ready (r_Lib r) route reason msg) route" by auto
  then have "tr_Conditions route' = l_set_condition (r_Lib r) (tr_Conditions route) (ready_condition (tr_Meta route) ConditionFalse reason msg)"
    using c new by (auto simp: merged_tr_def patch_field_def tr_not_ready_def split: if_splits)
  with c found_ready show "cd_Status c = ConditionFalse" "cd_Reason c = reason" "cd_Message c = msg"
    "cd_ObservedGeneration c = m_Generation (tr_Meta route)" by simp_all
  show "tr_Url route' = tr_Url route" by (simp add: r' merged_tr_def patch_field_def tr_not_ready_def)
  show "unchanged_outside {(KToolRoute, req)} at w w'" using patch_route_frame [OF p'] key by simp
qed

lemma ready_written:
  assumes p: "route_updateStatusReady r route tg path w = (y, w')" and key: "meta_key (tr_Meta route) = req"
    and st: "at w (KToolRoute, req) = Some (OToolRoute route)" and st': "at w' (KToolRoute, req) = Some (OToolRoute route')"
    and c: "l_find_condition (r_Lib r) (tr_Conditions route') readyConditionType = Some c"
    and new: "l_find_condition (r_Lib r) (tr_Conditions route) readyConditionType \<noteq> Some c"
  shows "cd_Status c = ConditionTrue" "cd_Reason c = reasonReconciled"
    "cd_ObservedGeneration c = m_Generation (tr_Meta route)" "tr_Url route' = route_url tg path"
    "l_set_condition (r_Lib r) (tr_Conditions route') (ready_condition (tr_Meta route) ConditionTrue reasonReconciled
       (''ToolRoute is ready at '' @ route_url tg path)) = tr_Conditions route'"
proof -
  let ?n = "tr_ready (r_Lib r) route (route_url tg path)"
  obtain w1 where q: "patch_route r route ?n w = (y, w1)" and w1: "at w' = at w1" by (rule route_ready_patch [OF p])
  from patch_route_at(2) [OF q] st st' key c new w1
  have r': "route' = merged_tr route ?n route" by auto
  then have cs: "tr_Conditions route' = l_set_condition (r_Lib r) (tr_Conditions route)
      (ready_condition (tr_Meta route) ConditionTrue reasonReconciled (''ToolRoute is ready at '' @ route_url tg path))"
    using c new by (auto simp: merged_tr_def patch_field_def tr_ready_def split: if_splits)
  with c found_ready show "cd_Status c = ConditionTrue" "cd_Reason c = reasonReconciled"
    "cd_ObservedGeneration c = m_Generation (tr_Meta route)" by simp_all
  show "tr_Url route' = route_url tg path" by (simp add: r' merged_tr_def patch_field_def tr_ready_def)
  show "l_set_condition (r_Lib r) (tr_Conditions route') (ready_condition (tr_Meta route) ConditionTrue reasonReconciled
       (''ToolRoute is ready at '' @ route_url tg path)) = tr_Conditions route'"
    by (simp add: cs set_set)
qed

lemma ready_frame:
  assumes "route_updateStatusReady r route tg path w = (y, w')" "meta_key (tr_Meta route) = req"
  shows "unchanged_outside {(KToolRoute, req)} at w w'"
proof -
  obtain w1 where q: "patch_route r route (tr_ready (r_Lib r) route (route_url tg path)) w = (y, w1)" and "at w' = at w1"
    by (rule route_ready_patch [OF assms(1)])
  with patch_route_frame [OF q] assms(2) show ?thesis by (simp add: unchanged_outside_def)
qed

lemma not_ready_frame:
  assumes "route_updateStatusNotReady r route reason msg w = (y, w')" "meta_key (tr_Meta route) = req"
  shows "unchanged_outside {(KToolRoute, req)} at w w'"
  using patch_route_frame [OF assms(1) [unfolded route_updateStatusNotReady_def]] assms(2) by simp

text \<open>When the stored Ready condition changes, it is the outcome of this run.\<close>

lemma route_status_written:
  assumes run: "ToolRoute_Reconcile r req w = (res, w')" and st: "at w (KToolRoute, req) = Some (OToolRoute route)"
    and st': "at w' (KToolRoute, req) = Some (OToolRoute route')"
    and c: "l_find_condition (r_Lib r) (tr_Conditions route') readyConditionType = Some c"
    and new: "l_find_condition (r_Lib r) (tr_Conditions route) readyConditionType \<noteq> Some c"
  obtains (missing) "route_gateway_missing (at w) route" "res = None" "unchanged_outside {(KToolRoute, req)} at w w'"
      "cd_Status c = ConditionFalse" "cd_Reason c = reasonToolRouteGatewayNotFound"
      "cd_ObservedGeneration c = m_Generation (tr_Meta route)" "tr_Url route' = tr_Url route"
  | (ready) tg up w1 where "route_targets (at w) route tg" "\<exists>c. claims_gateway at w tg c"
      "resolveRouteUpstream (r_Lib r) (r_Client r) route w = Inr up" "route_settled (r_Lib r) tg route up (at w1)"
      "unchanged_outside (route_keys tg route) at w w1" "unchanged_outside {(KToolRoute, req)} at w1 w'"
      "cd_Status c = ConditionTrue" "cd_Reason c = reasonReconciled" "cd_ObservedGeneration c = m_Generation (tr_Meta route)"
      "tr_Url route' = route_url tg (route_path route)"
      "l_set_condition (r_Lib r) (tr_Conditions route') (ready_condition (tr_Meta route) ConditionTrue reasonReconciled
         (''ToolRoute is ready at '' @ route_url tg (route_path route))) = tr_Conditions route'"
  | (failed) tg path reason e w1 where "route_targets (at w) route tg" "\<exists>c. claims_gateway at w tg c"
      "reconcileToolRoute r route tg w = ((path, reason, Some e), w1)" "unchanged_outside {(KToolRoute, req)} at w1 w'"
      "cd_Status c = ConditionFalse" "cd_Reason c = reason" "cd_Message c = error_text e" "res = Some e"
      "cd_ObservedGeneration c = m_Generation (tr_Meta route)" "tr_Url route' = tr_Url route"
proof (cases rule: route_run [OF run st, case_names idle missing ready failed])
  case idle
  with st st' c new show thesis by simp
next
  case m: (missing msg y)
  note wr = not_ready_written [OF m(4,2) st st' c new]
  show thesis by (rule missing [OF m(1,3) wr(6,1,2,4,5)])
next
  case rd: (ready tg w1)
  note wr = ready_written [OF rd(6,3,5) st' c new]
  obtain up where up: "resolveRouteUpstream (r_Lib r) (r_Client r) route w = Inr up" "route_settled (r_Lib r) tg route up (at w1)"
    using reconcileToolRoute_ok(2) [OF rd(4)] by blast
  show thesis
    by (rule ready [OF rd(1,2) up reconcileToolRoute_frame [OF rd(4)] ready_frame [OF rd(6,3)] wr])
next
  case f: (failed tg path reason e w1 y)
  note wr = not_ready_written [OF f(6,3,5) st' c new]
  show thesis by (rule failed [OF f(1,2,4) wr(6,1,2,3) f(7) wr(4,5)])
qed

section \<open>Frames\<close>

lemma route_frame:
  assumes run: "ToolRoute_Reconcile r req w = (res, w')" and st: "at w (KToolRoute, req) = Some (OToolRoute route)"
    and ch: "at w' k \<noteq> at w k"
  shows "k = (KToolRoute, req) \<and> route_gateway_missing (at w) route
     \<or> (\<exists>tg c. route_targets (at w) route tg \<and> claims_gateway at w tg c \<and> k \<in> insert (KToolRoute, req) (route_keys tg route))"
proof (cases rule: route_run [OF run st, case_names idle missing ready failed])
  case (missing msg y)
  with unchangedD [OF not_ready_frame [OF missing(4,2)], of k] ch show ?thesis by auto
next
  case (ready tg w1)
  with unchangedD [OF ready_frame [OF ready(6,3)], of k] unchangedD [OF reconcileToolRoute_frame [OF ready(4)], of k] ch
  show ?thesis by (metis insertI1 insertI2 singletonD)
next
  case (failed tg path reason e w1 y)
  with unchangedD [OF not_ready_frame [OF failed(6,3)], of k] unchangedD [OF reconcileToolRoute_frame [OF failed(4)], of k] ch
  show ?thesis by (metis insertI1 insertI2 singletonD)
qed (use ch in simp)

lemma ensureBackend_refused:
  assumes "at w (KBackend, route_object_key tg route) = Some ob" "controller_of (meta_of ob) = Some c"
    "c \<noteq> (KToolRoute, m_Name (tr_Meta route))" and e: "ensureBackend r route tg up w = (x, w')"
  shows "at w' = at w" "x \<noteq> None"
proof -
  let ?ob = "OUnstructured (newAgentgatewayBackend (route_object_name tg route) (m_Namespace (tr_Meta route)))"
  obtain y w1 where c: "c_create_or_patch (r_Client r) ?ob (on_unstructured (backend_mutate (r_Lib r) route up)) w = (y, w1)" by fastforce
  have k: "at w (key_of ?ob) = Some ob" using assms(1) by (simp add: route_object_key_def)
  have f: "on_unstructured (backend_mutate (r_Lib r) route up) ob \<noteq> Inr z" for z
    using set_controller_refused [OF assms(2,3)]
    by (cases ob) (auto simp: on_unstructured_def backend_mutate_def split: sum.split)
  have "at w1 j = at w j" for j
    using cop_refuses(1) [OF c k f] k unchangedD [OF cop_unchanged [OF c, of "{key_of ?ob}"], of j] by (cases "j = key_of ?ob") auto
  with cop_refuses(2) [OF c k f] e c show "at w' = at w" "x \<noteq> None"
    by (auto simp: ensureBackend_def fun_eq_iff)
qed

text \<open>A route whose backend name is taken stops there: nothing but its status changes.\<close>

lemma route_refused:
  assumes run: "ToolRoute_Reconcile r req w = (res, w')" and st: "at w (KToolRoute, req) = Some (OToolRoute route)"
    and foreign: "\<And>tg. route_targets (at w) route tg \<Longrightarrow>
      \<exists>ob c. at w (KBackend, route_object_key tg route) = Some ob \<and> controller_of (meta_of ob) = Some c
           \<and> c \<noteq> (KToolRoute, m_Name (tr_Meta route))"
  shows "unchanged_outside {(KToolRoute, req)} at w w'"
proof (cases rule: route_run [OF run st, case_names idle missing ready failed])
  case (missing msg y)
  then show ?thesis using not_ready_frame by blast
next
  case (ready tg w1)
  obtain ob c where f: "at w (KBackend, route_object_key tg route) = Some ob" "controller_of (meta_of ob) = Some c"
    "c \<noteq> (KToolRoute, m_Name (tr_Meta route))" using foreign [OF ready(1)] by blast
  show ?thesis
    using ready(4)
    by (auto simp: reconcileToolRoute_def split: prod.splits option.splits sum.splits dest: ensureBackend_refused(2) [OF f])
next
  case (failed tg path reason e w1 y)
  obtain ob c where f: "at w (KBackend, route_object_key tg route) = Some ob" "controller_of (meta_of ob) = Some c"
    "c \<noteq> (KToolRoute, m_Name (tr_Meta route))" using foreign [OF failed(1)] by blast
  have "at w1 = at w"
    using failed(4)
    by (auto simp: reconcileToolRoute_def split: prod.splits option.splits sum.splits
        dest: ensureBackend_refused(1) [OF f] ensureBackend_refused(2) [OF f])
  then show ?thesis using not_ready_frame [OF failed(6,3)] by (simp add: unchanged_outside_def)
qed simp

section \<open>The second run\<close>

lemma ensureBackend_fix:
  assumes "ensureBackend r route tg up w = (None, w')" "at w (KBackend, route_object_key tg route) = Some (OUnstructured b)"
    "backend_mutate (r_Lib r) route up b = Inr b"
  shows "at w' = at w \<and> events w' = events w"
proof -
  let ?ob = "OUnstructured (newAgentgatewayBackend (route_object_name tg route) (m_Namespace (tr_Meta route)))"
  obtain op w1 where c: "c_create_or_patch (r_Client r) ?ob (on_unstructured (backend_mutate (r_Lib r) route up)) w = (Inr op, w1)"
    and w': "w' = emit_op r (route_key route) ''Backend'' ''AgentgatewayBackend'' (route_object_name tg route) op w1"
    using assms(1) by (auto simp: ensureBackend_def split: prod.splits sum.splits)
  have a: "at w (key_of ?ob) = Some (OUnstructured b)" using assms(2) by (simp add: route_object_key_def)
  have f: "on_unstructured (backend_mutate (r_Lib r) route up) (OUnstructured b) = Inr (OUnstructured b)"
    using assms(3) by (simp add: on_unstructured_def)
  show ?thesis using cop_settled [OF a f c] w' by simp
qed

lemma ensureHTTPRoute_fix:
  assumes "ensureHTTPRoute r route tg path w = (None, w')" "at w (KHTTPRoute, route_object_key tg route) = Some (OHTTPRoute h)"
    "http_route_mutate (r_Lib r) route tg path h = Inr h"
  shows "at w' = at w \<and> events w' = events w"
proof -
  let ?ob = "OHTTPRoute \<lparr>hr_Meta = new_meta (route_object_name tg route) (m_Namespace (tr_Meta route)), hr_Spec = empty_http_route_spec\<rparr>"
  obtain op w1 where c: "c_create_or_patch (r_Client r) ?ob (on_http_route (http_route_mutate (r_Lib r) route tg path)) w = (Inr op, w1)"
    and w': "w' = emit_op r (route_key route) ''HTTPRoute'' ''HTTPRoute'' (route_object_name tg route) op w1"
    using assms(1) by (auto simp: ensureHTTPRoute_def split: prod.splits sum.splits)
  have a: "at w (key_of ?ob) = Some (OHTTPRoute h)" using assms(2) by (simp add: key_of_def route_object_key_def)
  have f: "on_http_route (http_route_mutate (r_Lib r) route tg path) (OHTTPRoute h) = Inr (OHTTPRoute h)"
    using assms(3) by (simp add: on_http_route_def)
  show ?thesis using cop_settled [OF a f c] w' by simp
qed

lemma ensurePolicy_fix:
  assumes "ensurePolicy r route tg w = (None, w')" "policy_fixed (r_Lib r) tg route (at w)"
  shows "at w' = at w \<and> events w' = events w"
proof (cases "buildMcpAuthorizationRules (tr_ToolFilter route) = []")
  case True
  obtain dr w1 where d: "c_delete (r_Client r) (KPolicy, filter_policy_key tg route) w = (dr, w1)" by fastforce
  have "at w (KPolicy, filter_policy_key tg route) = None" using assms(2) True by (simp add: policy_fixed_def)
  note ab = delete_absent [OF d this]
  then have "w' = w1"
    using assms(1) d True by (auto simp: ensurePolicy_def filter_policy_key_def Let_def split: option.splits if_splits)
  with ab show ?thesis by simp
next
  case False
  let ?rules = "buildMcpAuthorizationRules (tr_ToolFilter route)"
  let ?ob = "OUnstructured (newAgentgatewayPolicy (filter_policy_name tg route) (m_Namespace (tr_Meta route)))"
  obtain op w1 where c: "c_create_or_patch (r_Client r) ?ob (on_unstructured (filter_policy_mutate (r_Lib r) route tg ?rules)) w = (Inr op, w1)"
    and w': "w' = emit_op r (route_key route) ''Policy'' ''AgentgatewayPolicy'' (filter_policy_name tg route) op w1"
    using assms(1) False by (auto simp: ensurePolicy_def Let_def split: prod.splits sum.splits)
  obtain p where p: "at w (key_of ?ob) = Some (OUnstructured p)" "filter_policy_mutate (r_Lib r) route tg ?rules p = Inr p"
    using assms(2) False by (auto simp: policy_fixed_def filter_policy_key_def Let_def)
  have "on_unstructured (filter_policy_mutate (r_Lib r) route tg ?rules) (OUnstructured p) = Inr (OUnstructured p)"
    using p(2) by (simp add: on_unstructured_def)
  then show ?thesis using cop_settled [OF p(1) _ c] w' by simp
qed

lemma reconcileToolRoute_fix:
  assumes "reconcileToolRoute r route tg w = ((path, reason, None), w')"
    and "resolveRouteUpstream (r_Lib r) (r_Client r) route w = Inr up" and "route_settled (r_Lib r) tg route up (at w)"
  shows "at w' = at w \<and> events w' = events w"
proof -
  obtain w1 w2 where 1: "ensureBackend r route tg up w = (None, w1)" and 2: "ensureHTTPRoute r route tg (route_path route) w1 = (None, w2)"
    and 3: "ensurePolicy r route tg w2 = (None, w')"
    using assms(1,2) by (auto simp: reconcileToolRoute_def split: prod.splits option.splits sum.splits)
  obtain b h where b: "at w (KBackend, route_object_key tg route) = Some (OUnstructured b)" "backend_mutate (r_Lib r) route up b = Inr b"
    and h: "at w (KHTTPRoute, route_object_key tg route) = Some (OHTTPRoute h)" "http_route_mutate (r_Lib r) route tg (route_path route) h = Inr h"
    and p: "policy_fixed (r_Lib r) tg route (at w)"
    using assms(3) unfolding route_settled_def by blast
  have w1: "at w1 = at w \<and> events w1 = events w" by (rule ensureBackend_fix [OF 1 b])
  with ensureHTTPRoute_fix [OF 2, of h] h have w2: "at w2 = at w1 \<and> events w2 = events w1" by simp
  with ensurePolicy_fix [OF 3] p w1 show ?thesis by simp
qed

lemma same_tr:
  assumes "tr_Meta a = tr_Meta b" "tr_ToolGatewayRef a = tr_ToolGatewayRef b" "tr_ToolServerRef a = tr_ToolServerRef b"
    "tr_External a = tr_External b" "tr_ToolFilter a = tr_ToolFilter b"
  shows "route_settled lib tg a up store = route_settled lib tg b up store" "route_path a = route_path b"
    "resolveRouteUpstream lib cl a w = resolveRouteUpstream lib cl b w"
    "upstream_wanted lib a store up = upstream_wanted lib b store up"
    "route_targets store a tg = route_targets store b tg"
proof -
  have k: "route_object_key tg a = route_object_key tg b" "filter_policy_key tg a = filter_policy_key tg b"
    "route_object_name tg a = route_object_name tg b" "server_ref_key a = server_ref_key b" "gateway_ref_key a = gateway_ref_key b"
    using assms(1) by (auto simp: route_object_key_def filter_policy_key_def filter_policy_name_def route_object_name_def
        server_ref_key_def gateway_ref_key_def fun_eq_iff)
  show path: "route_path a = route_path b" using assms(1) by (simp add: route_path_def)
  show "resolveRouteUpstream lib cl a w = resolveRouteUpstream lib cl b w"
    by (simp only: resolveRouteUpstream_def assms k)
  show "upstream_wanted lib a store up = upstream_wanted lib b store up"
    by (simp only: upstream_wanted_def assms k)
  show "route_targets store a tg = route_targets store b tg"
    by (simp only: route_targets_def assms k)
  have m: "backend_mutate lib a v u = backend_mutate lib b v u" "http_route_mutate lib a tg path h = http_route_mutate lib b tg path h"
    "filter_policy_mutate lib a tg rules u = filter_policy_mutate lib b tg rules u" for path rules u v h
    by (simp_all only: backend_mutate_def http_route_mutate_def filter_policy_mutate_def filter_target_json_def k assms)
  show "route_settled lib tg a up store = route_settled lib tg b up store"
    by (simp only: route_settled_def policy_fixed_def m k path assms)
qed

lemma route_store_cong:
  assumes "\<And>j. fst j \<noteq> KToolRoute \<Longrightarrow> s1 j = s2 j"
  shows "route_settled lib tg route up s1 = route_settled lib tg route up s2"
    "route_serves tg route up s1 = route_serves tg route up s2" "policy_in_place tg route s1 = policy_in_place tg route s2"
    "upstream_wanted lib route s1 up = upstream_wanted lib route s2 up"
    "route_targets s1 route tg = route_targets s2 route tg"
proof -
  have e: "s1 (KBackend, k) = s2 (KBackend, k)" "s1 (KHTTPRoute, k) = s2 (KHTTPRoute, k)" "s1 (KPolicy, k) = s2 (KPolicy, k)"
    "s1 (KToolServer, k) = s2 (KToolServer, k)" "s1 (KToolGateway, k) = s2 (KToolGateway, k)" for k
    by (rule assms; simp)+
  show "route_settled lib tg route up s1 = route_settled lib tg route up s2"
    "route_serves tg route up s1 = route_serves tg route up s2" "policy_in_place tg route s1 = policy_in_place tg route s2"
    "upstream_wanted lib route s1 up = upstream_wanted lib route s2 up"
    unfolding route_settled_def policy_fixed_def route_serves_def policy_in_place_def upstream_wanted_def e by (rule refl)+
  show "route_targets s1 route tg = route_targets s2 route tg"
    by (simp add: route_targets_def e key_of_def split: option.split)
qed

lemma upstream_frame:
  assumes "unchanged_outside (route_keys tg route) at w w1" "unchanged_outside {(KToolRoute, req)} at w1 w'"
  shows "at w' (KToolServer, k) = at w (KToolServer, k)" "at w' (KToolGateway, k) = at w (KToolGateway, k)"
  using unchangedD [OF assms(1)] unchangedD [OF assms(2)] by simp_all

lemma wanted_frame:
  assumes "unchanged_outside (route_keys tg route) at w w1" "unchanged_outside {(KToolRoute, req)} at w1 w'"
  shows "upstream_wanted lib rt (at w') up = upstream_wanted lib rt (at w) up"
  unfolding upstream_wanted_def upstream_frame(1) [OF assms] by (rule refl)

text \<open>A resolved upstream is unique, and found again in an unchanged cluster.\<close>

lemma wanted_unique: "upstream_wanted lib rt store up \<Longrightarrow> upstream_wanted lib rt store up' \<Longrightarrow> up = up'"
  by (auto simp: upstream_wanted_def split: option.splits)

lemma targets_unique_ref:
  "tr_ToolGatewayRef route \<noteq> None \<Longrightarrow> route_targets store route tg \<Longrightarrow> route_targets store route tg' \<Longrightarrow> tg = tg'"
  by (auto simp: route_targets_def split: option.splits)

lemma route_spec_kept:
  assumes run: "ToolRoute_Reconcile r req w = (res, w')" and st: "at w (KToolRoute, req) = Some (OToolRoute route)"
  shows "\<exists>u cs. at w' (KToolRoute, req) = Some (OToolRoute (route\<lparr>tr_Url := u, tr_Conditions := cs\<rparr>))"
proof -
  have same: "route\<lparr>tr_Url := tr_Url route, tr_Conditions := tr_Conditions route\<rparr> = route" by simp
  have m: "\<exists>u cs. merged_tr b n route = route\<lparr>tr_Url := u, tr_Conditions := cs\<rparr>" for b n by (auto simp: merged_tr_def)
  have nr: "\<exists>u cs. at w' (KToolRoute, req) = Some (OToolRoute (route\<lparr>tr_Url := u, tr_Conditions := cs\<rparr>))"
    if "route_updateStatusNotReady r route reason msg v = (y, w')" "meta_key (tr_Meta route) = req"
      "at v (KToolRoute, req) = Some (OToolRoute route)" for reason msg v y
  proof -
    have "at w' (KToolRoute, req) \<in> {Some (OToolRoute route), Some (OToolRoute (merged_tr route (tr_not_ready (r_Lib r) route reason msg) route))}"
      using patch_route_at(2) [OF that(1) [unfolded route_updateStatusNotReady_def], of route] that(2,3) by simp
    then show ?thesis using m same by (metis empty_iff insert_iff)
  qed
  show ?thesis
  proof (cases rule: route_run [OF run st, case_names idle missing ready failed])
    case idle
    with st same show ?thesis by metis
  next
    case (missing msg y)
    with nr st show ?thesis by blast
  next
    case (ready tg w1)
    obtain v where q: "patch_route r route (tr_ready (r_Lib r) route (route_url tg (route_path route))) w1 = (res, v)" and v: "at w' = at v"
      by (rule route_ready_patch [OF ready(6)])
    have "at w' (KToolRoute, req) \<in> {Some (OToolRoute route), Some (OToolRoute (merged_tr route (tr_ready (r_Lib r) route (route_url tg (route_path route))) route))}"
      using patch_route_at(2) [OF q, of route] ready(3,5) v by simp
    then show ?thesis using m same by (metis empty_iff insert_iff)
  next
    case (failed tg path reason e w1 y)
    with nr show ?thesis by blast
  qed
qed

lemma route_second_run:
  assumes run1: "ToolRoute_Reconcile r req w = (None, w1)"
    and st: "at w (KToolRoute, req) = Some (OToolRoute route)" and ref: "tr_ToolGatewayRef route \<noteq> None"
    and st1: "at w1 (KToolRoute, req) = Some (OToolRoute route1)"
    and c: "l_find_condition (r_Lib r) (tr_Conditions route1) readyConditionType = Some c"
    and new: "l_find_condition (r_Lib r) (tr_Conditions route) readyConditionType \<noteq> Some c"
    and ready: "cd_Status c = ConditionTrue"
    and run2: "ToolRoute_Reconcile r req w1 = (None, w2)"
  shows "at w2 k = at w1 k \<and> events w2 = events w1"
proof (cases rule: route_status_written [OF run1 st st1 c new, case_names missing ready failed])
  case rd: (ready tg up v)
  have same: "tr_Meta route1 = tr_Meta route" "tr_ToolGatewayRef route1 = tr_ToolGatewayRef route" "tr_ToolServerRef route1 = tr_ToolServerRef route"
    "tr_External route1 = tr_External route" "tr_ToolFilter route1 = tr_ToolFilter route"
    using route_spec_kept [OF run1 st] st1 by auto
  note s = same_tr [OF same]
  have "at w1 j = at v j" if "fst j \<noteq> KToolRoute" for j
    using unchangedD [OF rd(6), of j] that by (cases j) auto
  then have settled: "route_settled (r_Lib r) tg route1 up (at w1)" using rd(4) s(1) route_store_cong(1) by metis
  have targets: "route_targets (at w1) route1 tg"
    using rd(1) ref unfolding s(5) by (auto simp: route_targets_def upstream_frame(2) [OF rd(5,6)])
  have wanted: "upstream_wanted (r_Lib r) route1 (at w1) up"
    using resolve_wanted [OF rd(3)] by (simp add: s(4) wanted_frame [OF rd(5,6)])
  show ?thesis
  proof (cases rule: route_run [OF run2 st1, case_names idle missing ready failed])
    case (missing msg y)
    with targets same ref show ?thesis by (auto simp: route_gateway_missing_def route_targets_def)
  next
    case r2: (ready tg' w3)
    have tg': "tg' = tg" using targets_unique_ref r2(1) targets ref same(2) by metis
    obtain up' where up': "resolveRouteUpstream (r_Lib r) (r_Client r) route1 w1 = Inr up'"
      using reconcileToolRoute_ok(2) [OF r2(4)] by blast
    have "up' = up" by (rule wanted_unique [OF resolve_wanted [OF up'] wanted])
    with reconcileToolRoute_fix [OF r2(4) up'] settled tg' have w3: "at w3 = at w1 \<and> events w3 = events w1" by simp
    have true: "is_condition_true (r_Lib r) (tr_Conditions route1) readyConditionType"
      using c ready by (simp add: is_condition_true_def)
    let ?u = "route_url tg (route_path route1)"
    have n: "tr_ready (r_Lib r) route1 ?u = route1"
      using rd(10,11) same(1) s(2) by (simp add: tr_ready_def)
    obtain w4 where q: "patch_route r route1 route1 w3 = (None, w4)" and w4: "at w2 = at w4" "events w2 = events w4"
      using route_ready_patch [OF r2(6)] true n tg' by metis
    have m: "merged_tr route1 route1 route1 = route1" by (simp add: merged_tr_def patch_field_def)
    have "at w4 k = at w3 k"
      using patch_route_at(2) [OF q, of route1] r2(3,5) m unchangedD [OF patch_route_frame [OF q], of k]
      by (cases "k = (KToolRoute, req)") auto
    moreover have "events w4 = events w3"
      using q patch_log [of "OToolRoute route1" "OToolRoute route1" w3] by (auto simp: patch_route_def split: prod.splits option.splits)
    ultimately show ?thesis using w3 w4 by simp
  qed simp_all
qed (use ready in \<open>simp_all add: ConditionTrue_def ConditionFalse_def\<close>)

section \<open>Watches\<close>

lemma listed_routes:
  assumes "c_list (r_Client r) KToolRoute None w = Inr obs"
  shows "\<exists>routes. list_as as_tool_route (r_Client r) KToolRoute None w = Inr routes
           \<and> set routes = {route. at w (KToolRoute, meta_key (tr_Meta route)) = Some (OToolRoute route)}"
proof -
  obtain routes where l: "list_as as_tool_route (r_Client r) KToolRoute None w = Inr routes"
    using assms by (simp add: list_as_def)
  with list_as_set [OF l as_tool_route_iff] show ?thesis by (simp add: key_of_def)
qed

lemma stored_route_key: "at w (KToolRoute, k) = Some (OToolRoute route) \<Longrightarrow> meta_key (tr_Meta route) = k"
  using at_key by (fastforce simp: key_of_def)

lemma finds_routes_of_gateway:
  assumes "c_list (r_Client r) KToolRoute None w = Inr obs"
  shows "set (findToolRoutesForToolGateway r (OToolGateway tg) w) =
     {k. \<exists>route. at w (KToolRoute, k) = Some (OToolRoute route)
        \<and> (case tr_ToolGatewayRef route of
             Some ref \<Rightarrow> gateway_ref_key route ref = meta_key (tg_Meta tg)
           | None \<Rightarrow> m_Namespace (tg_Meta tg) = defaultToolGatewayNamespace)}"
proof -
  obtain routes where l: "list_as as_tool_route (r_Client r) KToolRoute None w = Inr routes"
    and s: "set routes = {route. at w (KToolRoute, meta_key (tr_Meta route)) = Some (OToolRoute route)}"
    using listed_routes [OF assms] by blast
  have p: "(case tr_ToolGatewayRef route of
      None \<Rightarrow> m_Namespace (tg_Meta tg) = defaultToolGatewayNamespace
    | Some ref \<Rightarrow> ref_Name ref = m_Name (tg_Meta tg) \<and> fst (gateway_ref_key route ref) = m_Namespace (tg_Meta tg))
    \<longleftrightarrow> (case tr_ToolGatewayRef route of
             Some ref \<Rightarrow> gateway_ref_key route ref = meta_key (tg_Meta tg)
           | None \<Rightarrow> m_Namespace (tg_Meta tg) = defaultToolGatewayNamespace)" for route
    by (auto simp: gateway_ref_key_def meta_key_def split: option.splits)
  show ?thesis
    unfolding findToolRoutesForToolGateway_def using stored_route_key by (force simp: l s p)
qed

lemma finds_routes_of_server:
  assumes "c_list (r_Client r) KToolRoute None w = Inr obs"
  shows "set (findToolRoutesForToolServer r (OToolServer ts) w) =
     {k. \<exists>route ref. at w (KToolRoute, k) = Some (OToolRoute route) \<and> tr_ToolServerRef route = Some ref
        \<and> server_ref_key route ref = meta_key (ts_Meta ts)}"
proof -
  obtain routes where l: "list_as as_tool_route (r_Client r) KToolRoute None w = Inr routes"
    and s: "set routes = {route. at w (KToolRoute, meta_key (tr_Meta route)) = Some (OToolRoute route)}"
    using listed_routes [OF assms] by blast
  have p: "(case tr_ToolServerRef route of
      None \<Rightarrow> False
    | Some ref \<Rightarrow> ref_Name ref = m_Name (ts_Meta ts) \<and> fst (server_ref_key route ref) = m_Namespace (ts_Meta ts))
    \<longleftrightarrow> (\<exists>ref. tr_ToolServerRef route = Some ref \<and> server_ref_key route ref = meta_key (ts_Meta ts))" for route
    by (auto simp: server_ref_key_def meta_key_def split: option.splits)
  show ?thesis
    unfolding findToolRoutesForToolServer_def using stored_route_key by (force simp: l s p)
qed

end

end
