(* ===== verification/Upstream.thy ===== *)
theory Upstream
  imports ToolRouteReconciler
begin

text \<open>
  External upstream URLs: what an accepted URL looks like (\<open>external_ok\<close>, \<open>upstream_port_ok\<close>),
  and the proof that a URL written out by \<open>show_url\<close> is read back by \<open>url_parse\<close> and the
  port validation of \<open>resolveRouteUpstream\<close>.
\<close>

section \<open>External upstreams\<close>

lemma upstream_port_ok:
  assumes "upstream_port lib scheme s = Inr p"
  shows "1 \<le> uint p" "uint p \<le> 65535" "s = [] \<Longrightarrow> p = (if scheme = schemeHTTPS then 443 else 80)"
    "s \<noteq> [] \<Longrightarrow> go_atoi s = Inr (uint p)"
proof -
  have w: "uint (word_of_int n :: 32 word) = n" if "1 \<le> n" "n \<le> 65535" for n :: int
    using that by (simp add: uint_word_of_int_eq take_bit_int_eq_self)
  show "1 \<le> uint p" "uint p \<le> 65535" "s = [] \<Longrightarrow> p = (if scheme = schemeHTTPS then 443 else 80)"
    "s \<noteq> [] \<Longrightarrow> go_atoi s = Inr (uint p)"
    using assms w by (auto simp: upstream_port_def split: if_splits sum.splits)
qed

lemma external_ok:
  assumes "external_upstream lib raw = Inr (h, p, path)"
  obtains u where "url_parse (l_ip6 lib) raw = Inr u" "u_Scheme u \<in> {schemeHTTP, schemeHTTPS}"
    "h = url_hostname u" "h \<noteq> []" "upstream_port lib (u_Scheme u) (url_port u) = Inr p"
    "path = (if u_Path u = [] then ''/'' else u_Path u)"
  using assms that
  by (fastforce simp: external_upstream_def split: sum.splits prod.splits if_splits)

subsection \<open>A URL that is written out is read back\<close>

definition host_char :: "char \<Rightarrow> bool" where
  "host_char c = (is_alpha c \<or> is_digit c \<or> c = CHR ''-'' \<or> c = CHR ''.'')"

definition path_char :: "char \<Rightarrow> bool" where
  "path_char c = (is_alpha c \<or> is_digit c \<or> c \<in> set ''-._~/'')"

definition show_url :: "string \<Rightarrow> string \<Rightarrow> nat \<Rightarrow> string \<Rightarrow> string" where
  "show_url scheme host port path = scheme @ ''://'' @ host @ '':'' @ nat_to_dec port @ path"

lemma not_host: "\<not> host_char CHR ''%''" "\<not> host_char CHR '':''" "\<not> host_char CHR ''/''" "\<not> host_char CHR ''@''"
    "\<not> host_char CHR ''[''" "\<not> host_char CHR ''#''" "\<not> host_char CHR ''?''"
  by (simp_all add: host_char_def is_alpha_def is_digit_def)

lemma not_path: "\<not> path_char CHR ''%''" "\<not> path_char CHR ''#''" "\<not> path_char CHR ''?''"
  by (simp_all add: path_char_def is_alpha_def is_digit_def)

lemma alnum_printable: "is_alpha c \<or> is_digit c \<Longrightarrow> 32 \<le> (of_char c :: nat) \<and> (of_char c :: nat) \<noteq> 127"
  by (auto simp: is_alpha_def is_digit_def Let_def)

lemma host_char_printable: "host_char c \<Longrightarrow> 32 \<le> (of_char c :: nat) \<and> (of_char c :: nat) \<noteq> 127"
  using alnum_printable [of c] by (auto simp: host_char_def)

lemma path_char_printable: "path_char c \<Longrightarrow> 32 \<le> (of_char c :: nat) \<and> (of_char c :: nat) \<noteq> 127"
  using alnum_printable [of c] by (auto simp: path_char_def)

lemma host_not_escaped: "host_char c \<Longrightarrow> \<not> should_escape_host c"
  by (auto simp: host_char_def should_escape_host_def)

lemma host_chars: "list_all host_char h \<Longrightarrow> x \<notin> Collect host_char \<Longrightarrow> x \<notin> set h"
  by (auto simp: list_all_iff)

lemma path_chars: "list_all path_char h \<Longrightarrow> x \<notin> Collect path_char \<Longrightarrow> x \<notin> set h"
  by (auto simp: list_all_iff)

lemma no_ctl: "list_all host_char h \<Longrightarrow> \<not> has_ctl h" "list_all path_char h \<Longrightarrow> \<not> has_ctl h"
  using host_char_printable path_char_printable by (fastforce simp: list_all_iff has_ctl_def list_ex_iff)+

lemma digit_host: "list_all is_digit s \<Longrightarrow> list_all host_char s"
  by (auto simp: list_all_iff host_char_def)

lemma go_unescape_plain:
  "CHR ''%'' \<notin> set s \<Longrightarrow> \<forall>c \<in> set s. \<not> should_escape_host c \<Longrightarrow> go_unescape m s = Inr s"
  "CHR ''%'' \<notin> set s \<Longrightarrow> go_unescape EncPath s = Inr s"
  by (induction s) auto

lemma last_cut_none: "c \<notin> set s \<Longrightarrow> last_cut c s = None"
  by (simp add: last_cut_def)

lemma last_cut_at: "c \<notin> set b \<Longrightarrow> last_cut c (a @ c # b) = Some (a, b)"
  by (simp add: last_cut_def takeWhile_stop dropWhile_stop)

lemma authority_chars:
  assumes "list_all host_char h" "list_all is_digit d"
  shows "x \<noteq> CHR '':'' \<Longrightarrow> \<not> host_char x \<Longrightarrow> x \<notin> set (h @ CHR '':'' # d)" "CHR '':'' \<notin> set h" "CHR '':'' \<notin> set d"
  using host_chars [OF assms(1)] host_chars [OF digit_host [OF assms(2)]] not_host by auto

lemma parse_authority_plain:
  assumes "list_all host_char h" "list_all is_digit d"
  shows "parse_authority ip6 (h @ CHR '':'' # d) = Inr (h @ CHR '':'' # d)"
proof -
  note ac = authority_chars [OF assms]
  have "last_cut CHR ''@'' (h @ CHR '':'' # d) = None"
    by (rule last_cut_none, rule ac(1)) (simp_all add: not_host)
  moreover have "last_cut CHR ''['' (h @ CHR '':'' # d) = None"
    by (rule last_cut_none, rule ac(1)) (simp_all add: not_host)
  moreover have "dropWhile (\<lambda>x. x \<noteq> CHR '':'') (h @ CHR '':'' # d) = CHR '':'' # d"
    by (rule dropWhile_stop [OF ac(2)])
  moreover have "go_unescape EncHost (h @ CHR '':'' # d) = Inr (h @ CHR '':'' # d)"
  proof (rule go_unescape_plain(1))
    show "CHR ''%'' \<notin> set (h @ CHR '':'' # d)" by (rule ac(1)) (simp_all add: not_host)
    have "\<not> should_escape_host CHR '':''" by (simp add: should_escape_host_def)
    then show "\<forall>c \<in> set (h @ CHR '':'' # d). \<not> should_escape_host c"
      using assms(1) digit_host [OF assms(2)] host_not_escaped by (auto simp: list_all_iff)
  qed
  ultimately show ?thesis
    using assms(2) by (simp add: parse_authority_def parse_host_def valid_optional_port_def)
qed

lemma before_char_stop: "x \<notin> set a \<Longrightarrow> before_char x (a @ x # b) = a"
  by (simp add: before_char_def takeWhile_stop)

lemma before_char_none: "x \<notin> set a \<Longrightarrow> before_char x a = a"
  by (simp add: before_char_def takeWhile_none)

lemma has_ctl_append: "has_ctl (a @ b) = (has_ctl a \<or> has_ctl b)"
  by (simp add: has_ctl_def)

lemma get_scheme_http:
  "scheme \<in> {schemeHTTP, schemeHTTPS} \<Longrightarrow> get_scheme raw [] (scheme @ CHR '':'' # x) = Inr (scheme, x)"
  by (auto simp: schemeHTTP_def schemeHTTPS_def is_alpha_def is_digit_def)

lemma lower_scheme: "scheme \<in> {schemeHTTP, schemeHTTPS} \<Longrightarrow> map to_lower scheme = scheme"
  by (auto simp: schemeHTTP_def schemeHTTPS_def to_lower_def)

lemma parse_rest_plain:
  assumes "scheme \<noteq> []" "list_all host_char h" "list_all is_digit d" "list_all path_char p"
  shows "parse_rest ip6 scheme (''//'' @ (h @ CHR '':'' # d) @ CHR ''/'' # p)
    = Inr \<lparr>u_Scheme = scheme, u_Host = h @ CHR '':'' # d, u_Path = CHR ''/'' # p\<rparr>"
proof -
  let ?a = "h @ CHR '':'' # d"
  have n: "CHR ''/'' \<notin> set ?a" by (rule authority_chars(1) [OF assms(2,3)]) (simp_all add: not_host)
  have "before_char CHR ''/'' (?a @ CHR ''/'' # p) = ?a" by (rule before_char_stop [OF n])
  moreover have "from_char CHR ''/'' (?a @ CHR ''/'' # p) = CHR ''/'' # p"
    unfolding from_char_def by (rule dropWhile_stop [OF n])
  moreover have "go_unescape EncPath (CHR ''/'' # p) = Inr (CHR ''/'' # p)"
    by (rule go_unescape_plain(2)) (use path_chars [OF assms(4)] not_path in auto)
  ultimately show ?thesis
    using assms(1) parse_authority_plain [OF assms(2,3), of ip6]
    by (simp add: parse_rest_def has_prefix_def)
qed

lemma url_parse_plain:
  assumes "scheme \<in> {schemeHTTP, schemeHTTPS}" "list_all host_char h" "list_all path_char p"
  shows "url_parse ip6 (show_url scheme h n (CHR ''/'' # p))
    = Inr \<lparr>u_Scheme = scheme, u_Host = h @ CHR '':'' # nat_to_dec n, u_Path = CHR ''/'' # p\<rparr>"
proof -
  let ?d = "nat_to_dec n" and ?raw = "show_url scheme h n (CHR ''/'' # p)"
  let ?rest = "''//'' @ (h @ CHR '':'' # nat_to_dec n) @ CHR ''/'' # p"
  have d: "list_all is_digit ?d" by (rule nat_to_dec_digits)
  note ac = authority_chars(1) [OF assms(2) d]
  have raw: "?raw = scheme @ CHR '':'' # ?rest" by (simp add: show_url_def)
  have s: "scheme \<noteq> []" "CHR ''#'' \<notin> set scheme" "\<not> has_ctl scheme"
    using assms(1) by (auto simp: schemeHTTP_def schemeHTTPS_def has_ctl_def)
  have "CHR ''#'' \<notin> set (h @ CHR '':'' # ?d)" "CHR ''#'' \<notin> set p"
    by (rule ac; simp add: not_host) (rule path_chars [OF assms(3)], simp add: not_path)
  then have hash: "CHR ''#'' \<notin> set ?raw" unfolding raw using s(2) by simp
  have "CHR ''?'' \<notin> set (h @ CHR '':'' # ?d)" "CHR ''?'' \<notin> set p"
    by (rule ac; simp add: not_host) (rule path_chars [OF assms(3)], simp add: not_path)
  then have query: "before_char CHR ''?'' ?rest = ?rest" by (intro before_char_none) simp
  have ctl: "\<not> has_ctl ?raw"
    unfolding raw using s(3) no_ctl(1) [OF assms(2)] no_ctl(1) [OF digit_host [OF d]] no_ctl(2) [OF assms(3)]
    by (simp add: has_ctl_def)
  have star: "?raw \<noteq> ''*''" unfolding raw using s(1) by (cases scheme) simp_all
  have g: "get_scheme ?raw [] ?raw = Inr (scheme, ?rest)"
    using get_scheme_http [OF assms(1), of ?raw ?rest] by (simp only: raw)
  have "parse_nofrag ip6 ?raw = Inr \<lparr>u_Scheme = scheme, u_Host = h @ CHR '':'' # ?d, u_Path = CHR ''/'' # p\<rparr>"
    unfolding parse_nofrag_def g
    using ctl star query lower_scheme [OF assms(1)] parse_rest_plain [OF s(1) assms(2) d assms(3), of ip6] by simp
  then show ?thesis using hash before_char_none [OF hash] by (simp add: url_parse_def Let_def)
qed

lemma split_host_port_plain:
  assumes "list_all host_char h" "list_all is_digit d"
  shows "split_host_port (h @ CHR '':'' # d) = (h, d)"
proof -
  have "last_cut CHR '':'' (h @ CHR '':'' # d) = Some (h, d)"
    by (rule last_cut_at [OF authority_chars(3) [OF assms]])
  moreover have "\<not> has_prefix h ''['' \<or> h = []"
    using assms(1) not_host(5) by (cases h) (auto simp: has_prefix_def)
  ultimately show ?thesis using assms(2) by (auto simp: split_host_port_def)
qed

lemma upstream_port_dec:
  assumes "1 \<le> n" "n \<le> 65535"
  shows "upstream_port lib scheme (nat_to_dec n) = Inr (word_of_nat n)"
proof -
  have "n < 2 ^ 63" using assms(2) by simp
  then show ?thesis using assms by (simp add: upstream_port_def go_atoi_dec)
qed

lemma external_show_url:
  assumes "scheme \<in> {schemeHTTP, schemeHTTPS}" "h \<noteq> []" "list_all host_char h" "list_all path_char p" "1 \<le> n" "n \<le> 65535"
  shows "external_upstream lib (show_url scheme h n (CHR ''/'' # p)) = Inr (h, word_of_nat n, CHR ''/'' # p)"
  using assms(1,2)
  by (auto simp: external_upstream_def url_parse_plain [OF assms(1,3,4)] url_hostname_def url_port_def
      split_host_port_plain [OF assms(3) nat_to_dec_digits] upstream_port_dec [OF assms(5,6)])

end
