(* ===== verification/RouteProperties.thy ===== *)
theory RouteProperties
  imports RouteRuns Upstream
begin

text \<open>
  What the route controller guarantees: a small cluster to run it on, and its properties.
\<close>

text \<open>The mutate functions of the route's objects keep the contract of a mutate function.\<close>

interpretation backend_mut: mutator "on_unstructured (backend_mutate ref_lib route up)" for route up
  using gateway_operator.backend_mutator [OF mem_gateway.gateway_operator_axioms] by (simp add: mem_reconciler_def)

interpretation http_route_mut: mutator "on_http_route (http_route_mutate ref_lib route tg path)" for route tg path
  using gateway_operator.http_route_mutator [OF mem_gateway.gateway_operator_axioms] by (simp add: mem_reconciler_def)

interpretation filter_policy_mut: mutator "on_unstructured (filter_policy_mutate ref_lib route tg rules)"
  for route tg rules
  using gateway_operator.filter_policy_mutator [OF mem_gateway.gateway_operator_axioms] by (simp add: mem_reconciler_def)

section \<open>A small cluster\<close>

definition demo_server :: tool_server where
  "demo_server = \<lparr>ts_Meta = new_meta ''search'' ''apps'', ts_Port = 8080, ts_Path = []\<rparr>"

definition demo_filter :: tool_filter where
  "demo_filter = \<lparr>tf_Allow = [''g*''], tf_Deny = [''g?x'']\<rparr>"

definition demo_route :: tool_route where
  "demo_route =
     \<lparr>tr_Meta = new_meta ''search'' ''apps'',
      tr_ToolGatewayRef = Some \<lparr>ref_Name = ''tools'', ref_Namespace = ''ns''\<rparr>,
      tr_ToolServerRef = Some \<lparr>ref_Name = ''search'', ref_Namespace = []\<rparr>, tr_External = None,
      tr_ToolFilter = Some demo_filter, tr_Url = [], tr_Conditions = []\<rparr>"

definition route_req :: nsname where "route_req = (''apps'', ''search'')"

definition route_world :: cluster where
  "route_world = mem_cluster [OToolGatewayClass demo_class, OToolGateway demo_tg, OToolServer demo_server, OToolRoute demo_route]"

definition route_after :: cluster where
  "route_after = snd (ToolRoute_Reconcile mem_reconciler route_req route_world)"

definition route_demo_url :: string where
  "route_demo_url = ''http://tools.ns.svc.cluster.local/apps/search/mcp''"

definition route_ready_cond :: condition where
  "route_ready_cond = \<lparr>cd_Type = ''Ready'', cd_Status = ''True'', cd_Reason = ''Reconciled'',
     cd_Message = ''ToolRoute is ready at '' @ route_demo_url, cd_ObservedGeneration = 0, cd_TransitionTime = 0\<rparr>"

definition route_stored :: tool_route where
  "route_stored = demo_route\<lparr>tr_Url := route_demo_url, tr_Conditions := [route_ready_cond]\<rparr>"

lemma demo_rules [simp]: "buildMcpAuthorizationRules (Some demo_filter) \<noteq> []"
  by (simp add: buildMcpAuthorizationRules_Nil_iff demo_filter_def)

lemmas route_eval =
  ToolRoute_Reconcile_def resolveToolGatewayKey_def isToolGatewayOwnedByController_def reconcileToolRoute_def
  resolveRouteUpstream_def server_ref_key_def toolServerHost_def ensureBackend_def ensureHTTPRoute_def ensurePolicy_def
  backend_mutate_def http_route_mutate_def filter_policy_mutate_def on_http_route_def on_unstructured_def
  setMCPTargets_def buildMCPTarget_def buildHTTPRouteSpec_def filter_target_json_def authorization_json_def
  route_object_name_def filter_policy_name_def route_path_def route_url_def route_key_def
  route_updateStatusReady_def route_updateStatusNotReady_def patch_route_def tr_ready_def tr_not_ready_def
  is_condition_true_def ready_condition_def reasonReconciled_def ConditionTrue_def ConditionFalse_def
  readyConditionType_def emit_op_def emitNormalEvent_def mem_event_def mem_reconciler_def
  ToolGatewayAgentgatewayControllerName_def Let_def route_reasons errNoDefaultToolGateway_def
  defaultToolGatewayNamespace_def resource_eval

lemma route_at: "mem_at route_world (KToolRoute, route_req) = Some (OToolRoute demo_route)"
  by (simp add: route_world_def route_req_def demo_route_def demo_tg_def demo_class_def demo_server_def mem_eval)

lemma route_run_demo:
  "ToolRoute_Reconcile mem_reconciler route_req route_world = (None, route_after)"
  "mem_at route_after (KToolRoute, route_req) = Some (OToolRoute route_stored)"
proof -
  have "fst (ToolRoute_Reconcile mem_reconciler route_req route_world) = None
     \<and> mem_at route_after (KToolRoute, route_req) = Some (OToolRoute route_stored)"
    by (simp add: route_after_def route_req_def route_world_def demo_route_def demo_tg_def demo_class_def demo_server_def
        route_stored_def route_demo_url_def route_ready_cond_def mem_eval route_eval)
  then show "ToolRoute_Reconcile mem_reconciler route_req route_world = (None, route_after)"
    "mem_at route_after (KToolRoute, route_req) = Some (OToolRoute route_stored)"
    by (simp_all add: route_after_def prod_eq_iff)
qed

lemma route_ready_facts:
  "l_find_condition (r_Lib mem_reconciler) (tr_Conditions route_stored) readyConditionType = Some route_ready_cond"
  "l_find_condition (r_Lib mem_reconciler) (tr_Conditions demo_route) readyConditionType \<noteq> Some route_ready_cond"
  "cd_Status route_ready_cond = ConditionTrue"
  by (simp_all add: mem_reconciler_def ref_find_condition_def readyConditionType_def route_ready_cond_def route_stored_def
      demo_route_def ConditionTrue_def)

lemma demo_target: "route_targets (mem_at w) demo_route tg \<longleftrightarrow> mem_at w (KToolGateway, tg_req) = Some (OToolGateway tg)"
  by (simp add: route_targets_def demo_route_def gateway_ref_key_def tg_req_def)

section \<open>Properties\<close>

text \<open>
  C2: A \<open>ToolRoute\<close> is only turned Ready when its traffic is wired as it asks.  Whenever a
  reconcile writes Ready=True, the route targets a stored gateway that a class of ours claims,
  the backend sends to the upstream the route asks for, the HTTPRoute sends the route's path
  on that gateway to the backend, and the tool filter is in place: its policy carries the
  rules and is attached to the HTTPRoute, or, without a filter, there is none.  All three are
  controlled by the route, and the URL is the one of the path on the gateway.
\<close>

theorem route_ready_serves:
  assumes "gateway_operator r at events"
    and "ToolRoute_Reconcile r req w = (res, w')"
    and "at w (KToolRoute, req) = Some (OToolRoute route)" "at w' (KToolRoute, req) = Some (OToolRoute route')"
    and "l_find_condition (r_Lib r) (tr_Conditions route') readyConditionType = Some c"
    and "l_find_condition (r_Lib r) (tr_Conditions route) readyConditionType \<noteq> Some c"
    and "cd_Status c = ConditionTrue"
  shows "\<exists>tg up. route_targets (at w) route tg \<and> (\<exists>cls. claims_gateway at w tg cls)
     \<and> upstream_wanted (r_Lib r) route (at w') up \<and> route_serves tg route up (at w')
     \<and> tr_Url route' = route_url tg (route_path route) \<and> cd_ObservedGeneration c = m_Generation (tr_Meta route)"
proof (cases rule: gateway_operator.route_status_written [OF assms(1-6), case_names missing ready failed])
  case (ready tg up w1)
  have "at w' j = at w1 j" if "fst j \<noteq> KToolRoute" for j
    using unchangedD [OF ready(6), of j] that by (cases j) auto
  then have "route_serves tg route up (at w')"
    using gateway_operator.route_settled_serves [OF assms(1) ready(4)] gateway_operator.route_store_cong(2) [OF assms(1)] by metis
  moreover have "upstream_wanted (r_Lib r) route (at w') up"
    using gateway_operator.resolve_wanted [OF assms(1) ready(3)] gateway_operator.wanted_frame [OF assms(1) ready(5,6)] by metis
  ultimately show ?thesis using ready by blast
qed (use assms(7) in \<open>simp_all add: ConditionTrue_def ConditionFalse_def\<close>)

theorem route_ready_serves_witness:
  "\<exists>up. upstream_wanted ref_lib demo_route (mem_at route_after) up \<and> route_serves demo_tg demo_route up (mem_at route_after)"
proof -
  have g: "mem_at route_world (KToolGateway, tg_req) = Some (OToolGateway demo_tg)"
    by (simp add: route_world_def tg_req_def demo_tg_def demo_class_def mem_eval)
  show ?thesis
    using route_ready_serves [OF mem_gateway.gateway_operator_axioms route_run_demo(1) route_at route_run_demo(2) route_ready_facts] g
    by (auto simp: demo_target mem_reconciler_def)
qed

text \<open>
  C10: End to end, the stored policy enforces the tool filter.  After a reconcile that turned
  the route Ready, what an engine that conforms to the fragment of \<open>CelReading\<close> admits by the
  expressions read back from the cluster (every tool, when no policy is stored) is exactly
  what the route's filter allows.
\<close>

definition stored_rules :: "(okey \<Rightarrow> kobj option) \<Rightarrow> okey \<Rightarrow> string list" where
  "stored_rules store k =
     (case store k of
        Some (OUnstructured p) \<Rightarrow>
          (case json_get (us_Object p) [''spec'', ''backend'', ''mcp'', ''authorization'', ''policy'', ''matchExpressions''] of
             Some (JList js) \<Rightarrow> List.map_filter (\<lambda>j. case j of JStr s \<Rightarrow> Some s | _ \<Rightarrow> None) js
           | _ \<Rightarrow> [])
      | _ \<Rightarrow> [])"

lemma map_filter_strings: "List.map_filter (\<lambda>j. case j of JStr s \<Rightarrow> Some s | _ \<Rightarrow> None) (map JStr xs) = xs"
  by (induction xs) (simp_all add: List.map_filter_simps)

lemma in_place_rules:
  assumes "policy_in_place tg route store"
  shows "stored_rules store (KPolicy, filter_policy_key tg route) = buildMcpAuthorizationRules (tr_ToolFilter route)"
proof (cases "buildMcpAuthorizationRules (tr_ToolFilter route) = []")
  case True
  with assms show ?thesis by (simp add: policy_in_place_def stored_rules_def)
next
  case False
  let ?rules = "buildMcpAuthorizationRules (tr_ToolFilter route)"
  from assms False obtain p where p: "store (KPolicy, filter_policy_key tg route) = Some (OUnstructured p)"
    "json_get (us_Object p) [''spec'', ''backend'', ''mcp'', ''authorization''] = Some (authorization_json ?rules)"
    by (auto simp: policy_in_place_def Let_def)
  have "json_get (us_Object p) [''spec'', ''backend'', ''mcp'', ''authorization'', ''policy'', ''matchExpressions''] = Some (JList (map JStr ?rules))"
    using p(2) by (auto simp: authorization_json_def jmap_def split: option.splits json.splits)
  with p(1) show ?thesis by (simp add: stored_rules_def map_filter_strings del: json_get.simps)
qed

theorem route_enforces_filter:
  assumes "gateway_operator r at events" and "cel_engine accepts re2"
    and "ToolRoute_Reconcile r req w = (res, w')"
    and "at w (KToolRoute, req) = Some (OToolRoute route)" "at w' (KToolRoute, req) = Some (OToolRoute route')"
    and "l_find_condition (r_Lib r) (tr_Conditions route') readyConditionType = Some c"
    and "l_find_condition (r_Lib r) (tr_Conditions route) readyConditionType \<noteq> Some c"
    and "cd_Status c = ConditionTrue"
    and "clean_filter (tr_ToolFilter route)" "clean_name tool"
  shows "\<exists>tg. route_targets (at w) route tg
     \<and> rules_admit accepts (stored_rules (at w') (KPolicy, filter_policy_key tg route)) tool = tool_allowed (tr_ToolFilter route) tool"
proof (cases rule: gateway_operator.route_status_written [OF assms(1,3-7), case_names missing ready failed])
  case (ready tg up w1)
  have "at w' j = at w1 j" if "fst j \<noteq> KToolRoute" for j
    using unchangedD [OF ready(6), of j] that by (cases j) auto
  then have "policy_in_place tg route (at w')"
    using gateway_operator.route_settled_serves [OF assms(1) ready(4)] gateway_operator.route_store_cong(3) [OF assms(1)]
    unfolding route_serves_def by metis
  then show ?thesis
    using ready(1) cel_engine.rules_admit_filter [OF assms(2,9,10)] in_place_rules by metis
qed (use assms(8) in \<open>simp_all add: ConditionTrue_def ConditionFalse_def\<close>)

theorem route_enforces_filter_witness:
  "\<not> rules_admit ref_accepts (stored_rules (mem_at route_after) (KPolicy, filter_policy_key demo_tg demo_route)) ''gxx''"
proof -
  have g: "mem_at route_world (KToolGateway, tg_req) = Some (OToolGateway demo_tg)"
    by (simp add: route_world_def tg_req_def demo_tg_def demo_class_def mem_eval)
  have f: "tr_ToolFilter demo_route = Some demo_filter" by (simp add: demo_route_def)
  have c: "clean_filter (tr_ToolFilter demo_route)" "clean_name ''gxx''" and d: "\<not> tool_allowed (Some demo_filter) ''gxx''"
    by (simp_all add: f demo_filter_def ascii_eval)
  show ?thesis
    using route_enforces_filter [OF mem_gateway.gateway_operator_axioms ref_cel.cel_engine_axioms route_run_demo(1) route_at route_run_demo(2) route_ready_facts c] g d
    by (auto simp: demo_target f)
qed

text \<open>
  C16: A Ready condition of a route that turns False names the phase that failed: resolving the
  upstream, the backend, the HTTPRoute or the policy returned the very error that the reconcile
  returns and whose text the condition carries, and the phases before it succeeded.  The objects
  of these earlier phases are in place, those of the later ones as before.  GatewayNotFound is
  written exactly when the target gateway is not stored; only then is no error returned.
\<close>

theorem route_status_explains:
  assumes "gateway_operator r at events"
    and "ToolRoute_Reconcile r req w = (res, w')"
    and "at w (KToolRoute, req) = Some (OToolRoute route)" "at w' (KToolRoute, req) = Some (OToolRoute route')"
    and "l_find_condition (r_Lib r) (tr_Conditions route') readyConditionType = Some c"
    and "l_find_condition (r_Lib r) (tr_Conditions route) readyConditionType \<noteq> Some c"
    and "cd_Status c \<noteq> ConditionTrue"
  shows "tr_Url route' = tr_Url route
     \<and> (cd_Reason c = ''GatewayNotFound'' \<and> res = None \<and> route_gateway_missing (at w) route
          \<and> unchanged_outside {(KToolRoute, req)} at w w'
       \<or> (\<exists>e tg w1. res = Some e \<and> cd_Message c = error_text e \<and> route_targets (at w) route tg
           \<and> unchanged_outside {(KToolRoute, req)} at w1 w'
           \<and> (cd_Reason c = ''UpstreamUnresolved''
                \<and> resolveRouteUpstream (r_Lib r) (r_Client r) route w = Inl e
                \<and> unchanged_outside {(KToolRoute, req)} at w w'
            \<or> cd_Reason c = ''BackendReconciliationFailed''
                \<and> (\<exists>up. resolveRouteUpstream (r_Lib r) (r_Client r) route w = Inr up
                      \<and> ensureBackend r route tg up w = (Some e, w1))
                \<and> unchanged_outside {(KToolRoute, req), (KBackend, route_object_key tg route)} at w w'
            \<or> cd_Reason c = ''HTTPRouteReconciliationFailed''
                \<and> (\<exists>up v. upstream_wanted (r_Lib r) route (at w) up \<and> ensureBackend r route tg up w = (None, v)
                      \<and> ensureHTTPRoute r route tg (route_path route) v = (Some e, w1)
                      \<and> (\<exists>b. at w' (KBackend, route_object_key tg route) = Some (OUnstructured b)
                            \<and> json_get (us_Object b) [''spec'', ''mcp''] = Some (backend_spec up)))
                \<and> unchanged_outside {(KToolRoute, req), (KBackend, route_object_key tg route), (KHTTPRoute, route_object_key tg route)} at w w'
            \<or> cd_Reason c = ''PolicyReconciliationFailed''
                \<and> (\<exists>up v v'. upstream_wanted (r_Lib r) route (at w) up \<and> ensureBackend r route tg up w = (None, v)
                      \<and> ensureHTTPRoute r route tg (route_path route) v = (None, v') \<and> ensurePolicy r route tg v' = (Some e, w1)
                      \<and> (\<exists>b. at w' (KBackend, route_object_key tg route) = Some (OUnstructured b)
                            \<and> json_get (us_Object b) [''spec'', ''mcp''] = Some (backend_spec up)))
                \<and> (\<exists>h. at w' (KHTTPRoute, route_object_key tg route) = Some (OHTTPRoute h)
                      \<and> hr_Spec h = buildHTTPRouteSpec (m_Name (tg_Meta tg)) (m_Namespace (tg_Meta tg))
                            (route_object_name tg route) (m_Namespace (tr_Meta route)) (route_path route)))))"
proof (cases rule: gateway_operator.route_status_written [OF assms(1-6), case_names missing ready failed])
  case (failed tg path reason e w1)
  note wanted = gateway_operator.resolve_wanted [OF assms(1)]
  show ?thesis
    by (cases rule: gateway_operator.route_failed_phase [OF assms(1) failed(3,4)])
      (insert failed(1,4,6,7,8,10) wanted, blast+)
next
  case missing
  then show ?thesis by (simp add: route_reasons)
qed (use assms(7) in simp)

definition orphan_route_world :: cluster where
  "orphan_route_world = mem_cluster [OToolRoute demo_route]"

definition orphan_cond :: condition where
  "orphan_cond = \<lparr>cd_Type = ''Ready'', cd_Status = ''False'', cd_Reason = ''GatewayNotFound'',
     cd_Message = ''ToolGateway ns/tools not found'', cd_ObservedGeneration = 0, cd_TransitionTime = 0\<rparr>"

lemma orphan_run: "mem_at (snd (ToolRoute_Reconcile mem_reconciler route_req orphan_route_world)) (KToolRoute, route_req)
   = Some (OToolRoute (demo_route\<lparr>tr_Conditions := [orphan_cond]\<rparr>))"
  by (simp add: route_req_def orphan_route_world_def demo_route_def orphan_cond_def mem_eval route_eval)

lemma orphan_facts:
  "mem_at orphan_route_world (KToolRoute, route_req) = Some (OToolRoute demo_route)"
  "l_find_condition (r_Lib mem_reconciler) (tr_Conditions (demo_route\<lparr>tr_Conditions := [orphan_cond]\<rparr>)) readyConditionType = Some orphan_cond"
  "l_find_condition (r_Lib mem_reconciler) (tr_Conditions demo_route) readyConditionType \<noteq> Some orphan_cond"
  "cd_Status orphan_cond \<noteq> ConditionTrue"
  by (simp_all add: orphan_route_world_def route_req_def mem_reconciler_def ref_find_condition_def readyConditionType_def orphan_cond_def
      demo_route_def ConditionTrue_def mem_eval)

theorem route_status_explains_witness:
  "route_gateway_missing (mem_at orphan_route_world) demo_route"
  using route_status_explains [OF mem_gateway.gateway_operator_axioms surjective_pairing orphan_facts(1) orphan_run orphan_facts(2-4)]
  by (auto simp: orphan_cond_def)

text \<open>
  On a server that stores what it is sent, reconciling a route is idempotent and silent: for a
  route with an explicit gateway, after a reconcile that turned it Ready, another one that returns
  without an error changes no object and records no event.
\<close>

theorem route_idempotent:
  assumes "gateway_operator r at events"
    and "ToolRoute_Reconcile r req w = (None, w1)"
    and "at w (KToolRoute, req) = Some (OToolRoute route)" "tr_ToolGatewayRef route \<noteq> None"
    and "at w1 (KToolRoute, req) = Some (OToolRoute route1)"
    and "l_find_condition (r_Lib r) (tr_Conditions route1) readyConditionType = Some c"
    and "l_find_condition (r_Lib r) (tr_Conditions route) readyConditionType \<noteq> Some c"
    and "cd_Status c = ConditionTrue"
    and "ToolRoute_Reconcile r req w1 = (None, w2)"
  shows "at w2 k = at w1 k \<and> events w2 = events w1"
  by (rule gateway_operator.route_second_run [OF assms])

lemma route_run_again:
  "ToolRoute_Reconcile mem_reconciler route_req route_after = (None, snd (ToolRoute_Reconcile mem_reconciler route_req route_after))"
proof -
  have "fst (ToolRoute_Reconcile mem_reconciler route_req route_after) = None"
    by (simp add: route_after_def route_req_def route_world_def demo_route_def demo_tg_def demo_class_def demo_server_def
        mem_eval route_eval)
  then show ?thesis by (simp add: prod_eq_iff)
qed

theorem route_idempotent_witness:
  "k_Events (snd (ToolRoute_Reconcile mem_reconciler route_req route_after)) = k_Events route_after"
proof -
  have "tr_ToolGatewayRef demo_route \<noteq> None" by (simp add: demo_route_def)
  then show ?thesis
    using route_idempotent [OF mem_gateway.gateway_operator_axioms route_run_demo(1) route_at _ route_run_demo(2) route_ready_facts route_run_again]
    by simp
qed

text \<open>
  C19: A reconcile of a route only changes what is the route's: its own status, and, for a
  target gateway that a class of ours claims, the three objects under the route's names.  A
  route of another implementation's gateway is left entirely alone.
\<close>

theorem route_changes_own:
  assumes "gateway_operator r at events"
    and "ToolRoute_Reconcile r req w = (res, w')"
    and "at w (KToolRoute, req) = Some (OToolRoute route)" and "at w' k \<noteq> at w k"
  shows "k = (KToolRoute, req) \<and> route_gateway_missing (at w) route
     \<or> (\<exists>tg c. route_targets (at w) route tg \<and> claims_gateway at w tg c \<and> k \<in> insert (KToolRoute, req) (route_keys tg route))"
  by (rule gateway_operator.route_frame [OF assms])

theorem route_changes_own_witness:
  "\<exists>tg c. route_targets (mem_at route_world) demo_route tg \<and> claims_gateway mem_at route_world tg c"
proof -
  have g: "mem_at route_world (KToolGateway, tg_req) = Some (OToolGateway demo_tg)"
    by (simp add: route_world_def tg_req_def demo_tg_def demo_class_def mem_eval)
  have "mem_at route_after (KToolRoute, route_req) \<noteq> mem_at route_world (KToolRoute, route_req)"
    by (simp add: route_at route_run_demo(2) route_stored_def) (simp add: demo_route_def)
  moreover have "\<not> route_gateway_missing (mem_at route_world) demo_route"
    using g by (simp add: route_gateway_missing_def demo_route_def gateway_ref_key_def tg_req_def)
  ultimately show ?thesis
    using route_changes_own [OF mem_gateway.gateway_operator_axioms route_run_demo(1) route_at] by blast
qed
text \<open>
  C20: Two routes whose names collide do not damage each other.  The objects of a route are
  named \<open><gateway>-<route>\<close>, so a gateway \<open>a\<close> with a route \<open>b-c\<close> and a gateway \<open>a-b\<close> with a route
  \<open>c\<close> in one namespace share them.  A route whose backend name is taken by an object of another
  controller changes nothing but its own status: in particular it neither overwrites nor
  deletes the policy that enforces the other route's filter.
\<close>

theorem route_keeps_foreign:
  assumes "gateway_operator r at events"
    and "ToolRoute_Reconcile r req w = (res, w')"
    and "at w (KToolRoute, req) = Some (OToolRoute route)"
    and "\<And>tg. route_targets (at w) route tg \<Longrightarrow>
      \<exists>ob c. at w (KBackend, route_object_key tg route) = Some ob \<and> controller_of (meta_of ob) = Some c
           \<and> c \<noteq> (KToolRoute, m_Name (tr_Meta route))"
    and "k \<noteq> (KToolRoute, req)"
  shows "at w' k = at w k"
proof -
  have "unchanged_outside {(KToolRoute, req)} at w w'" by (rule gateway_operator.route_refused [OF assms(1-4)])
  from unchangedD [OF this] assms(5) show ?thesis by simp
qed

definition taken_backend :: unstructured where
  "taken_backend = (newAgentgatewayBackend ''tools-search'' ''apps'')\<lparr>us_Meta := (new_meta ''tools-search'' ''apps'')
     \<lparr>m_Owners := [\<lparr>or_Kind = KToolRoute, or_Name = ''other'', or_Uid = ''u'', or_Controller = True\<rparr>]\<rparr>\<rparr>"

definition taken_policy :: unstructured where
  "taken_policy = newAgentgatewayPolicy ''tools-search-toolfilter'' ''apps''"

definition open_route :: tool_route where "open_route = demo_route\<lparr>tr_ToolFilter := None\<rparr>"

definition taken_world :: cluster where
  "taken_world = mem_cluster [OToolGatewayClass demo_class, OToolGateway demo_tg, OToolServer demo_server, OToolRoute open_route,
     OUnstructured taken_backend, OUnstructured taken_policy]"

lemma taken_keys:
  "key_of (OUnstructured taken_backend) = (KBackend, (''apps'', ''tools-search''))"
  "key_of (OUnstructured taken_policy) = (KPolicy, (''apps'', ''tools-search-toolfilter''))"
  by (simp_all add: taken_backend_def taken_policy_def key_simps new_meta_def newAgentgatewayBackend_def
      newAgentgatewayPolicy_def KBackend_def KPolicy_def)

lemma demo_keys:
  "key_of (OToolRoute open_route) = (KToolRoute, route_req)"
  "key_of (OToolGateway demo_tg) = (KToolGateway, tg_req)"
  "key_of (OToolServer demo_server) = (KToolServer, (''apps'', ''search''))"
  "key_of (OToolGatewayClass demo_class) = (KToolGatewayClass, ([], ''agentgateway''))"
  by (simp_all add: open_route_def demo_route_def route_req_def demo_tg_def demo_server_def
      demo_class_def tg_req_def key_simps new_meta_def)

lemma taken_at:
  "mem_at taken_world (KToolRoute, route_req) = Some (OToolRoute open_route)"
  "mem_at taken_world (KToolGateway, tg_req) = Some (OToolGateway demo_tg)"
  "mem_at taken_world (KBackend, (''apps'', ''tools-search'')) = Some (OUnstructured taken_backend)"
  "mem_at taken_world (KPolicy, (''apps'', ''tools-search-toolfilter'')) = Some (OUnstructured taken_policy)"
  by (simp_all add: taken_world_def taken_keys demo_keys mem_cluster_def mem_at_def)

theorem route_keeps_foreign_witness:
  "mem_at (snd (ToolRoute_Reconcile mem_reconciler route_req taken_world)) (KPolicy, (''apps'', ''tools-search-toolfilter''))
   = Some (OUnstructured taken_policy)"
proof -
  have t: "route_targets (mem_at taken_world) open_route tg \<Longrightarrow> tg = demo_tg" for tg
    using taken_at(2) by (simp add: route_targets_def open_route_def demo_route_def gateway_ref_key_def tg_req_def)
  have k: "route_object_key demo_tg open_route = (''apps'', ''tools-search'')"
    by (simp add: route_object_key_def route_object_name_def open_route_def demo_route_def demo_tg_def new_meta_def)
  have c: "controller_of (us_Meta taken_backend) = Some (KToolRoute, ''other'')"
    by (simp add: taken_backend_def controller_of_def)
  have n: "m_Name (tr_Meta open_route) = ''search''" by (simp add: open_route_def demo_route_def new_meta_def)
  have f: "\<exists>ob c. mem_at taken_world (KBackend, route_object_key tg open_route) = Some ob \<and> controller_of (meta_of ob) = Some c
           \<and> c \<noteq> (KToolRoute, m_Name (tr_Meta open_route))" if "route_targets (mem_at taken_world) open_route tg" for tg
    using taken_at(3) c n k t [OF that] by simp
  have "(KPolicy, (''apps'', ''tools-search-toolfilter'')) \<noteq> (KToolRoute, route_req)" by (simp add: route_req_def)
  from route_keeps_foreign [OF mem_gateway.gateway_operator_axioms surjective_pairing taken_at(1) f this]
  show ?thesis using taken_at(4) by simp
qed

text \<open>
  C31: A resolved external upstream is well formed: the scheme is http or https, host and path
  are not empty, and the port is between 1 and 65535, kept exactly in 32 bits: the one written
  in the URL, or the scheme's default.
\<close>

theorem upstream_bounds:
  assumes "external_upstream lib raw = Inr (host, port, path)"
  shows "\<exists>u. url_parse (l_ip6 lib) raw = Inr u \<and> u_Scheme u \<in> {schemeHTTP, schemeHTTPS}
     \<and> host = url_hostname u \<and> host \<noteq> [] \<and> path \<noteq> [] \<and> 1 \<le> uint port \<and> uint port \<le> 65535
     \<and> (if url_port u = [] then port = (if u_Scheme u = schemeHTTPS then 443 else 80)
        else go_atoi (url_port u) = Inr (uint port))"
proof -
  obtain u where u: "url_parse (l_ip6 lib) raw = Inr u" "u_Scheme u \<in> {schemeHTTP, schemeHTTPS}" "host = url_hostname u" "host \<noteq> []"
    "upstream_port lib (u_Scheme u) (url_port u) = Inr port" "path = (if u_Path u = [] then ''/'' else u_Path u)"
    by (rule external_ok [OF assms])
  have "path \<noteq> []" using u(6) by simp
  with u(1-4) upstream_port_ok [OF u(5)] show ?thesis by (intro exI [of _ u]) (simp split: if_splits)
qed

theorem upstream_bounds_witness:
  "1 \<le> uint (8443 :: 32 word) \<and> uint (8443 :: 32 word) \<le> 65535"
proof -
  have "external_upstream ref_lib (show_url schemeHTTPS ''a.b'' 8443 ''/x'') = Inr (''a.b'', 8443, ''/x'')"
    using external_show_url [of schemeHTTPS "''a.b''" "''x''" 8443 ref_lib]
    by (simp add: host_char_def path_char_def is_alpha_def is_digit_def)
  from upstream_bounds [OF this] show ?thesis by blast
qed

text \<open>
  C32: A URL that is written out is read back: for a scheme http or https, a host of letters,
  digits, dashes and dots, a port from 1 to 65535 and a path of unreserved characters, the
  upstream of the printed URL is that host, port and path, whatever the IPv6 parser does.
\<close>

theorem upstream_roundtrip:
  assumes "scheme \<in> {schemeHTTP, schemeHTTPS}" "host \<noteq> []" "list_all host_char host" "list_all path_char path"
    and "1 \<le> port" "port \<le> 65535"
  shows "external_upstream lib (show_url scheme host port (CHR ''/'' # path)) = Inr (host, word_of_nat port, CHR ''/'' # path)"
  by (rule external_show_url [OF assms])

theorem upstream_roundtrip_witness:
  "external_upstream ref_lib ''http://mcp:80/sse'' = Inr (''mcp'', 80, ''/sse'')"
proof -
  have "show_url schemeHTTP ''mcp'' 80 ''/sse'' = ''http://mcp:80/sse''"
    by code_simp
  then show ?thesis
    using upstream_roundtrip [of schemeHTTP "''mcp''" "''sse''" 80 ref_lib]
    by (simp add: host_char_def path_char_def is_alpha_def is_digit_def)
qed

text \<open>
  The gateway watch is exact and misses no route: when the routes can be listed, an event
  on a \<open>ToolGateway\<close> enqueues precisely the routes that name it, an omitted namespace read as
  the route's, and those without a reference if it lives in the default namespace; so every
  route that targets the gateway is among them.
\<close>

theorem route_gateway_watch_exact:
  assumes "gateway_operator r at events" and "c_list (r_Client r) KToolRoute None w = Inr obs"
  shows "\<exists>f. (KToolGateway, f) \<in> set (su_Watches (ToolRoute_SetupWithManager r))
     \<and> set (f (OToolGateway tg) w) =
         {k. \<exists>route. at w (KToolRoute, k) = Some (OToolRoute route)
            \<and> (case tr_ToolGatewayRef route of
                 Some ref \<Rightarrow> gateway_ref_key route ref = meta_key (tg_Meta tg)
               | None \<Rightarrow> m_Namespace (tg_Meta tg) = defaultToolGatewayNamespace)}"
  using gateway_operator.finds_routes_of_gateway [OF assms] by (auto simp: ToolRoute_SetupWithManager_def)

theorem route_gateway_watch_exact_witness:
  "route_req \<in> set (findToolRoutesForToolGateway mem_reconciler (OToolGateway demo_tg) route_world)"
proof -
  have l: "c_list (r_Client mem_reconciler) KToolRoute None route_world = Inr [OToolRoute demo_route]"
    by (simp add: mem_reconciler_def route_world_def demo_route_def demo_tg_def demo_class_def demo_server_def mem_eval)
  show ?thesis
    using route_gateway_watch_exact [OF mem_gateway.gateway_operator_axioms l, of demo_tg]
    by (auto simp: ToolRoute_SetupWithManager_def route_at)
      (simp_all add: demo_route_def demo_tg_def gateway_ref_key_def meta_key_def new_meta_def)
qed

text \<open>
  The server watch is exact: an event on a \<open>ToolServer\<close> enqueues precisely the routes
  whose upstream it is, so a changed port or path reaches their backends.
\<close>

theorem route_server_watch_exact:
  assumes "gateway_operator r at events" and "c_list (r_Client r) KToolRoute None w = Inr obs"
  shows "\<exists>f. (KToolServer, f) \<in> set (su_Watches (ToolRoute_SetupWithManager r))
     \<and> set (f (OToolServer ts) w) =
         {k. \<exists>route ref. at w (KToolRoute, k) = Some (OToolRoute route) \<and> tr_ToolServerRef route = Some ref
            \<and> server_ref_key route ref = meta_key (ts_Meta ts)}"
  using gateway_operator.finds_routes_of_server [OF assms] by (auto simp: ToolRoute_SetupWithManager_def)

theorem route_server_watch_exact_witness:
  "route_req \<in> set (findToolRoutesForToolServer mem_reconciler (OToolServer demo_server) route_world)"
proof -
  have l: "c_list (r_Client mem_reconciler) KToolRoute None route_world = Inr [OToolRoute demo_route]"
    by (simp add: mem_reconciler_def route_world_def demo_route_def demo_tg_def demo_class_def demo_server_def mem_eval)
  have "tr_ToolServerRef demo_route = Some \<lparr>ref_Name = ''search'', ref_Namespace = []\<rparr>"
    "server_ref_key demo_route \<lparr>ref_Name = ''search'', ref_Namespace = []\<rparr> = meta_key (ts_Meta demo_server)"
    by (simp_all add: demo_route_def demo_server_def server_ref_key_def new_meta_def meta_key_def)
  then show ?thesis
    using route_server_watch_exact [OF mem_gateway.gateway_operator_axioms l, of demo_server] route_at
    by (auto simp: ToolRoute_SetupWithManager_def)
qed

section \<open>Behaviour worth knowing\<close>








text \<open>
  A route that is pointed at another gateway leaves its old objects behind: the HTTPRoute
  on the former gateway stays, with its backend, so the tools remain reachable there.
\<close>

definition tg_two :: tool_gateway where
  "tg_two = demo_tg\<lparr>tg_Meta := new_meta ''other'' ''ns''\<rparr>"

definition moved_route :: tool_route where
  "moved_route = demo_route\<lparr>tr_ToolGatewayRef := Some \<lparr>ref_Name = ''other'', ref_Namespace = ''ns''\<rparr>\<rparr>"

definition moved_world :: cluster where
  "moved_world = put_obj (OToolRoute moved_route) (put_obj (OToolGateway tg_two) route_after)"

theorem route_move_leaves_old:
  "let w' = snd (ToolRoute_Reconcile mem_reconciler route_req moved_world) in
     (\<exists>h. mem_at w' (KHTTPRoute, (''apps'', ''tools-search'')) = Some (OHTTPRoute h)
        \<and> hs_ParentRefs (hr_Spec h) = [\<lparr>pa_Name = ''tools'', pa_Namespace = Some ''ns''\<rparr>])
     \<and> (\<exists>h. mem_at w' (KHTTPRoute, (''apps'', ''other-search'')) = Some (OHTTPRoute h)
        \<and> hs_ParentRefs (hr_Spec h) = [\<lparr>pa_Name = ''other'', pa_Namespace = Some ''ns''\<rparr>])"
  by (simp add: moved_world_def moved_route_def tg_two_def route_after_def route_req_def route_world_def demo_route_def demo_tg_def
      demo_class_def demo_server_def mem_eval route_eval)

text \<open>
  When the gateway of a route does not exist and the status patch is rejected, the
  reconcile returns no error: the route keeps its old status, and nothing retries.
\<close>

definition lost_status_world :: cluster where
  "lost_status_world = orphan_route_world\<lparr>k_Faults := [(CallPatchStatus (KToolRoute, route_req), Conflict, ''busy'')]\<rparr>"

theorem route_gateway_status_lost:
  "ToolRoute_Reconcile mem_reconciler route_req lost_status_world = (None, lost_status_world)"
  by (simp add: lost_status_world_def orphan_route_world_def route_req_def demo_route_def mem_eval route_eval)

text \<open>
  A route does not watch the backend and the policy it owns: of the objects it creates
  only the HTTPRoute is registered, so a deleted tool-filter policy is not restored by an
  event on it.
\<close>

theorem route_policy_not_watched:
  "KPolicy \<notin> set (su_Owns (ToolRoute_SetupWithManager r)) \<and> KBackend \<notin> set (su_Owns (ToolRoute_SetupWithManager r))
   \<and> KPolicy \<notin> fst ` set (su_Watches (ToolRoute_SetupWithManager r)) \<and> KBackend \<notin> fst ` set (su_Watches (ToolRoute_SetupWithManager r))
   \<and> KHTTPRoute \<in> set (su_Owns (ToolRoute_SetupWithManager r))"
  by (simp add: ToolRoute_SetupWithManager_def KPolicy_def KBackend_def)

end
