(* ===== verification/OperatorSystem.thy ===== *)
theory OperatorSystem
  imports GuardProperties RouteRuns
begin

text \<open>
  The three controllers together: a step of the system is a run of one of them, on any request,
  or an edit of another client, which cannot write the status of the operator's resources.
  Every reachable state has truthful statuses.  A run is one step: the controllers run
  concurrently, but the calls of two runs are not interleaved here: that is \<open>Workers\<close>.
\<close>

section \<open>Steps\<close>

text \<open>A run of one of the three controllers, on any request.\<close>

inductive controller_step :: "'w reconciler \<Rightarrow> 'w guard_reconciler \<Rightarrow> 'w \<Rightarrow> 'w \<Rightarrow> bool" for r gr where
  reconcile_guard: "Guard_Reconcile gr req w = (res, w') \<Longrightarrow> controller_step r gr w w'"
| reconcile_gateway: "ToolGateway_Reconcile r req w = (res, w') \<Longrightarrow> controller_step r gr w w'"
| reconcile_route: "ToolRoute_Reconcile r req w = (res, w') \<Longrightarrow> controller_step r gr w w'"

text \<open>
  The status is a subresource: other clients create, change and delete objects at will, but a
  write of theirs keeps the status, and a new object has none.
\<close>

definition other_client :: "('w \<Rightarrow> okey \<Rightarrow> kobj option) \<Rightarrow> 'w \<Rightarrow> 'w \<Rightarrow> bool" where
  "other_client at w w' =
     (\<forall>k ob'. at w' k = Some ob' \<longrightarrow>
        status_of ob' = (case at w k of Some ob \<Rightarrow> status_of ob | None \<Rightarrow> ([], [])))"

inductive system_step ::
  "'w reconciler \<Rightarrow> 'w guard_reconciler \<Rightarrow> ('w \<Rightarrow> okey \<Rightarrow> kobj option) \<Rightarrow> 'w \<Rightarrow> 'w \<Rightarrow> bool" for r gr at where
  controller: "controller_step r gr w w' \<Longrightarrow> system_step r gr at w w'"
| other: "other_client at w w' \<Longrightarrow> system_step r gr at w w'"

inductive_cases controller_stepE: "controller_step r gr w w'"
inductive_cases system_stepE: "system_step r gr at w w'"

section \<open>What a status may say\<close>

text \<open>
  A Ready gateway or route has the URL of its own name and does not contradict itself; the
  reason of a guard is one of the controller's, and \<open>Reconciled\<close> exactly when it is Ready.
\<close>

fun status_ok :: "klib \<Rightarrow> kobj \<Rightarrow> bool" where
  "status_ok lib (OToolGateway tg) =
     (status_consistent lib (tg_Conditions tg)
      \<and> (\<forall>c. l_find_condition lib (tg_Conditions tg) readyConditionType = Some c \<and> cd_Status c = ConditionTrue \<longrightarrow>
            tg_Url tg = gateway_url tg))"
| "status_ok lib (OToolRoute rt) =
     (\<forall>c. l_find_condition lib (tr_Conditions rt) readyConditionType = Some c \<and> cd_Status c = ConditionTrue \<longrightarrow>
        (\<exists>tg. tr_Url rt = route_url tg (route_path rt)))"
| "status_ok lib (OGuard g) =
     (\<forall>c. l_find_condition lib (g_Conditions g) guardReadyType = Some c \<longrightarrow>
        (cd_Status c = ConditionTrue \<longleftrightarrow> cd_Reason c = guardReasonReconciled)
        \<and> (cd_Status c = ConditionTrue \<or> isTerminalReason (cd_Reason c) \<or> cd_Reason c = guardReasonReconcileFailed))"
| "status_ok lib _ = True"

definition statuses_ok :: "klib \<Rightarrow> ('w \<Rightarrow> okey \<Rightarrow> kobj option) \<Rightarrow> 'w \<Rightarrow> bool" where
  "statuses_ok lib at w = (\<forall>k ob. at w k = Some ob \<longrightarrow> status_ok lib ob)"

lemma status_ok_kind: "kind_of ob \<notin> {KToolGateway, KToolRoute, KGuard} \<Longrightarrow> status_ok lib ob"
  by (cases ob) simp_all

lemma stored_kinds:
  "kind_of ob = KToolGateway \<Longrightarrow> \<exists>tg. ob = OToolGateway tg"
  "kind_of ob = KToolRoute \<Longrightarrow> \<exists>rt. ob = OToolRoute rt"
  "kind_of ob = KGuard \<Longrightarrow> \<exists>g. ob = OGuard g"
  by (cases ob; simp)+

context kube_client
begin

lemma get_as_none: "at w k = None \<Longrightarrow> \<exists>e. get_as dec cl k w = Inl e"
  using get_none [of w k] by (auto simp: get_as_def)

lemma stored_kind: "at w (kd, k) = Some ob \<Longrightarrow> kind_of ob = kd"
  by (drule at_key) (simp add: key_of_def)

end

section \<open>The operator\<close>

text \<open>The three controllers on one cluster, with one set of helper packages.\<close>

locale tool_operator = gateway_operator r at events + guards: guard_operator gr at events
  for r :: "'w reconciler" and gr :: "'w guard_reconciler"
    and at :: "'w \<Rightarrow> okey \<Rightarrow> kobj option" and events :: "'w \<Rightarrow> kevent list" +
  assumes shared_lib: "r_Lib gr = r_Lib r"
begin

text \<open>A run on a request without an object does nothing.\<close>

lemma absent_guard: "Guard_Reconcile gr req w = (x, w') \<Longrightarrow> at w (KGuard, req) = None \<Longrightarrow> w' = w"
  using guards.get_as_none [of w "(KGuard, req)" as_guard] by (auto simp: Guard_Reconcile_def split: if_splits)

lemma absent_gateway: "ToolGateway_Reconcile r req w = (x, w') \<Longrightarrow> at w (KToolGateway, req) = None \<Longrightarrow> w' = w"
  using get_as_none [of w "(KToolGateway, req)" as_tool_gateway] by (auto simp: ToolGateway_Reconcile_def split: if_splits)

lemma absent_route: "ToolRoute_Reconcile r req w = (x, w') \<Longrightarrow> at w (KToolRoute, req) = None \<Longrightarrow> w' = w"
  using get_as_none [of w "(KToolRoute, req)" as_tool_route] by (auto simp: ToolRoute_Reconcile_def split: if_splits)

text \<open>Every run is on a stored object, or idle.\<close>

lemma controller_cases:
  assumes "controller_step r gr w w'"
  obtains (idle) "w' = w"
  | (guard) req g res where "Guard_Reconcile gr req w = (res, w')" "at w (KGuard, req) = Some (OGuard g)"
  | (gateway) req tg res where "ToolGateway_Reconcile r req w = (res, w')" "at w (KToolGateway, req) = Some (OToolGateway tg)"
  | (route) req rt res where "ToolRoute_Reconcile r req w = (res, w')" "at w (KToolRoute, req) = Some (OToolRoute rt)"
  using assms
proof (cases rule: controller_stepE [consumes 1, case_names reconcile_guard reconcile_gateway reconcile_route])
  case (reconcile_guard req res)
  show thesis
  proof (cases "at w (KGuard, req)")
    case None
    then show thesis using idle absent_guard [OF reconcile_guard] by simp
  next
    case (Some ob)
    then show thesis using guard [OF reconcile_guard] stored_kinds(3) [OF stored_kind] by blast
  qed
next
  case (reconcile_gateway req res)
  show thesis
  proof (cases "at w (KToolGateway, req)")
    case None
    then show thesis using idle absent_gateway [OF reconcile_gateway] by simp
  next
    case (Some ob)
    then show thesis using gateway [OF reconcile_gateway] stored_kinds(1) [OF stored_kind] by blast
  qed
next
  case (reconcile_route req res)
  show thesis
  proof (cases "at w (KToolRoute, req)")
    case None
    then show thesis using idle absent_route [OF reconcile_route] by simp
  next
    case (Some ob)
    then show thesis using route [OF reconcile_route] stored_kinds(2) [OF stored_kind] by blast
  qed
qed

text \<open>The kinds a run can change.\<close>

lemma guard_kinds:
  assumes "Guard_Reconcile gr req w = (res, w')" "at w (KGuard, req) = Some (OGuard g)"
    and "fst k \<notin> {KConfigMap, KDeployment, KService}" "k \<noteq> (KGuard, req)"
  shows "at w' k = at w k"
  using unchangedD [OF guards.guard_frame [OF assms(1,2)], of k] assms(3,4) by (cases k) (auto simp: adapter_keys_def)

lemma gateway_kinds:
  assumes "ToolGateway_Reconcile r req w = (res, w')" "at w (KToolGateway, req) = Some (OToolGateway tg)"
    and "fst k \<notin> {KGateway, KParameters, KPolicy}" "k \<noteq> (KToolGateway, req)"
  shows "at w' k = at w k"
  using gateway_frame [OF assms(1,2), of k] assms(3,4) by (cases k) (auto simp: gateway_keys_def)

lemma route_kinds:
  assumes "ToolRoute_Reconcile r req w = (res, w')" "at w (KToolRoute, req) = Some (OToolRoute rt)"
    and "fst k \<notin> {KBackend, KHTTPRoute, KPolicy}" "k \<noteq> (KToolRoute, req)"
  shows "at w' k = at w k"
  using route_frame [OF assms(1,2), of k] assms(3,4) by (cases k) (auto simp: route_keys_def)

end

section \<open>Every status is kept truthful\<close>

context tool_operator
begin

lemma guard_step_status:
  assumes run: "Guard_Reconcile gr req w = (res, w')" and st: "at w (KGuard, req) = Some (OGuard g)"
    and ok: "status_ok (r_Lib r) (OGuard g)" and st': "at w' (KGuard, req) = Some (OGuard g')"
  shows "status_ok (r_Lib r) (OGuard g')"
proof -
  have "(cd_Status c = ConditionTrue \<longleftrightarrow> cd_Reason c = guardReasonReconciled)
      \<and> (cd_Status c = ConditionTrue \<or> isTerminalReason (cd_Reason c) \<or> cd_Reason c = guardReasonReconcileFailed)"
    if c: "l_find_condition (r_Lib r) (g_Conditions g') guardReadyType = Some c" for c
  proof (cases "l_find_condition (r_Lib r) (g_Conditions g) guardReadyType = Some c")
    case False
    show ?thesis
    proof (cases rule: guards.guard_status_written [OF run st st', unfolded shared_lib, OF c False, case_names ready failed])
      case (failed reason msg e w1)
      have "isTerminalReason reason \<or> reason = guardReasonReconcileFailed"
        using guards.reconcileGuard_failed [OF failed(1)] by blast
      then have "reason \<noteq> guardReasonReconciled" by (auto simp: isTerminalReason_def guard_reasons)
      with failed(2,3) show ?thesis
        using \<open>isTerminalReason reason \<or> reason = guardReasonReconcileFailed\<close> by (auto simp: ConditionTrue_def ConditionFalse_def)
    qed simp
  qed (use ok in auto)
  then show ?thesis by auto
qed

lemma gateway_url_written:
  assumes run: "ToolGateway_Reconcile r req w = (res, w')" and st: "at w (KToolGateway, req) = Some (OToolGateway tg)"
    and st': "at w' (KToolGateway, req) = Some (OToolGateway tg')"
  shows "tg_Url tg' = tg_Url tg \<or> tg_Url tg' = gateway_url tg"
proof (cases rule: gateway_run [OF run st, case_names idle ready failed])
  case (ready reason w1)
  let ?b = "clear_unsupported (r_Lib r) tg"
  have "patch_tg r ?b (tg_ready (r_Lib r) ?b) w1 = (res, w')" using ready(5) by (simp add: updateStatusReady_def)
  from patch_tg_at(2) [OF this] ready(2,4) st' show ?thesis
    by (auto simp: tg_ready_def clear_unsupported_def merged_tg_def patch_field_def gateway_url_def split: if_splits)
next
  case (failed reason e u w1 y)
  have "tg_Meta u = tg_Meta tg" using reconcileToolGateway_error(1) [OF failed(3)] by auto
  moreover have "patch_tg r u (tg_not_ready (r_Lib r) u reason (error_text e)) w1 = (y, w')"
    using failed(5) by (simp add: updateStatusNotReady_def)
  ultimately show ?thesis
    using patch_tg_at(2) [of u "tg_not_ready (r_Lib r) u reason (error_text e)" w1 y w' tg] failed(2,4) st'
    by (auto simp: tg_not_ready_def merged_tg_def patch_field_def)
qed (use st st' in simp)

lemma gateway_step_status:
  assumes run: "ToolGateway_Reconcile r req w = (res, w')" and st: "at w (KToolGateway, req) = Some (OToolGateway tg)"
    and ok: "status_ok (r_Lib r) (OToolGateway tg)" and st': "at w' (KToolGateway, req) = Some (OToolGateway tg')"
  shows "status_ok (r_Lib r) (OToolGateway tg')"
proof -
  have url: "gateway_url tg' = gateway_url tg"
    using gateway_spec_kept [OF run st] st' by (auto simp: gateway_url_def)
  have "tg_Url tg' = gateway_url tg"
    if c: "l_find_condition (r_Lib r) (tg_Conditions tg') readyConditionType = Some c" "cd_Status c = ConditionTrue" for c
  proof (cases "l_find_condition (r_Lib r) (tg_Conditions tg) readyConditionType = Some c")
    case True
    with ok c(2) gateway_url_written [OF run st st'] show ?thesis by auto
  next
    case False
    show ?thesis
      by (cases rule: gateway_status_written [OF run st st' c(1) False, case_names ready failed])
        (use c(2) in \<open>simp_all add: ConditionTrue_def ConditionFalse_def\<close>)
  qed
  with url gateway_status_invariant [OF run st] ok st' show ?thesis by auto
qed

lemma route_url_written:
  assumes run: "ToolRoute_Reconcile r req w = (res, w')" and st: "at w (KToolRoute, req) = Some (OToolRoute rt)"
    and st': "at w' (KToolRoute, req) = Some (OToolRoute rt')"
  shows "tr_Url rt' = tr_Url rt \<or> (\<exists>tg. tr_Url rt' = route_url tg (route_path rt))"
proof -
  have nr: ?thesis if "route_updateStatusNotReady r rt reason msg v = (y, w')" "meta_key (tr_Meta rt) = req"
      "at v (KToolRoute, req) = Some (OToolRoute rt)" for reason msg v y
    using patch_route_at(2) [OF that(1) [unfolded route_updateStatusNotReady_def], of rt] that(2,3) st'
    by (auto simp: tr_not_ready_def merged_tr_def patch_field_def)
  show ?thesis
  proof (cases rule: route_run [OF run st, case_names idle missing ready failed])
    case (missing msg y)
    with nr st show ?thesis by blast
  next
    case (ready tg w1)
    obtain v where q: "patch_route r rt (tr_ready (r_Lib r) rt (route_url tg (route_path rt))) w1 = (res, v)" and v: "at w' = at v"
      by (rule route_ready_patch [OF ready(6)])
    from patch_route_at(2) [OF q, of rt] ready(3,5) v st' show ?thesis
      by (auto simp: tr_ready_def merged_tr_def patch_field_def split: if_splits)
  next
    case (failed tg path reason e w1 y)
    with nr show ?thesis by blast
  qed (use st st' in simp)
qed

lemma route_step_status:
  assumes run: "ToolRoute_Reconcile r req w = (res, w')" and st: "at w (KToolRoute, req) = Some (OToolRoute rt)"
    and ok: "status_ok (r_Lib r) (OToolRoute rt)" and st': "at w' (KToolRoute, req) = Some (OToolRoute rt')"
  shows "status_ok (r_Lib r) (OToolRoute rt')"
proof -
  have path: "route_path rt' = route_path rt"
    using route_spec_kept [OF run st] st' by (auto simp: route_path_def)
  have "\<exists>tg. tr_Url rt' = route_url tg (route_path rt)"
    if c: "l_find_condition (r_Lib r) (tr_Conditions rt') readyConditionType = Some c" "cd_Status c = ConditionTrue" for c
  proof (cases "l_find_condition (r_Lib r) (tr_Conditions rt) readyConditionType = Some c")
    case True
    then have "\<exists>tg. tr_Url rt = route_url tg (route_path rt)" using ok c(2) by simp
    with route_url_written [OF run st st'] show ?thesis by auto
  next
    case False
    show ?thesis
      by (cases rule: route_status_written [OF run st st' c(1) False, case_names missing ready failed])
        (use c(2) in \<open>auto simp: ConditionTrue_def ConditionFalse_def\<close>)
  qed
  with path show ?thesis by simp
qed

lemma controller_status:
  assumes step: "controller_step r gr w w'" and ok: "statuses_ok (r_Lib r) at w"
  shows "statuses_ok (r_Lib r) at w'"
  unfolding statuses_ok_def
proof (intro allI impI)
  fix k ob
  assume ob: "at w' k = Some ob"
  have old: "status_ok (r_Lib r) ob" if "at w' k = at w k" using ok ob that unfolding statuses_ok_def by metis
  show "status_ok (r_Lib r) ob"
  proof (cases "fst k \<in> {KToolGateway, KToolRoute, KGuard}")
    case False
    then show ?thesis using status_ok_kind stored_kind [of w' "fst k" "snd k"] ob by simp
  next
    case True
    show ?thesis
    proof (cases rule: controller_cases [OF step, case_names idle guard gateway route])
      case idle
      then show ?thesis using old by simp
    next
      case (guard req g res)
      show ?thesis
      proof (cases "k = (KGuard, req)")
        case k: True
        obtain g' where g': "ob = OGuard g'" using stored_kinds(3) [OF stored_kind] ob k by blast
        have "status_ok (r_Lib r) (OGuard g)" using ok guard(2) by (simp only: statuses_ok_def)
        from guard_step_status [OF guard this] ob show ?thesis by (simp only: k g')
      next
        case False
        with guard_kinds [OF guard _ False] True old show ?thesis by auto
      qed
    next
      case (gateway req tg res)
      show ?thesis
      proof (cases "k = (KToolGateway, req)")
        case k: True
        obtain tg' where tg': "ob = OToolGateway tg'" using stored_kinds(1) [OF stored_kind] ob k by blast
        have "status_ok (r_Lib r) (OToolGateway tg)" using ok gateway(2) by (simp only: statuses_ok_def)
        from gateway_step_status [OF gateway this] ob show ?thesis by (simp only: k tg')
      next
        case False
        with gateway_kinds [OF gateway _ False] True old show ?thesis by (auto simp: KParameters_def KPolicy_def)
      qed
    next
      case (route req rt res)
      show ?thesis
      proof (cases "k = (KToolRoute, req)")
        case k: True
        obtain rt' where rt': "ob = OToolRoute rt'" using stored_kinds(2) [OF stored_kind] ob k by blast
        have "status_ok (r_Lib r) (OToolRoute rt)" using ok route(2) by (simp only: statuses_ok_def)
        from route_step_status [OF route this] ob show ?thesis by (simp only: k rt')
      next
        case False
        with route_kinds [OF route _ False] True old show ?thesis by (auto simp: KBackend_def KPolicy_def)
      qed
    qed
  qed
qed

text \<open>The status says the same of an object of the same name.\<close>

lemma status_ok_cong:
  assumes "status_of a = status_of b" "key_of a = key_of b"
  shows "status_ok lib a = status_ok lib b"
  using assms
  by (cases a; cases b)
    (auto simp: key_simps gateway_url_def route_path_def)

lemma status_ok_new:
  assumes "status_of a = ([], [])"
  shows "status_ok (r_Lib r) a"
  using assms find_nil by (cases a) (simp_all add: status_consistent_def)

lemma other_status:
  assumes "other_client at w w'" and ok: "statuses_ok (r_Lib r) at w"
  shows "statuses_ok (r_Lib r) at w'"
  unfolding statuses_ok_def
proof (intro allI impI)
  fix k ob'
  assume ob': "at w' k = Some ob'"
  with assms(1) have s: "status_of ob' = (case at w k of Some ob \<Rightarrow> status_of ob | None \<Rightarrow> ([], []))"
    unfolding other_client_def by blast
  show "status_ok (r_Lib r) ob'"
  proof (cases "at w k")
    case None
    with s status_ok_new show ?thesis by simp
  next
    case (Some ob)
    with ok have "status_ok (r_Lib r) ob" unfolding statuses_ok_def by metis
    with s Some status_ok_cong [of ob' ob] at_key [OF ob'] at_key [OF Some] show ?thesis by simp
  qed
qed

lemma system_status:
  assumes "(system_step r gr at)\<^sup>*\<^sup>* w w'" and "statuses_ok (r_Lib r) at w"
  shows "statuses_ok (r_Lib r) at w'"
  using assms
proof (induction rule: rtranclp_induct)
  case (step v v')
  from step.hyps(2) show ?case
    by (cases rule: system_stepE) (use step controller_status other_status in blast)+
qed simp

end

end
