(* ===== verification/RouteStability.thy ===== *)
theory RouteStability
  imports OperatorSystem
begin

text \<open>
  No interference: a run of any controller, complete or cut short by an error of the API server,
  keeps the objects of a route that is in place.
\<close>

section \<open>A write keeps what is in place\<close>

context gateway_operator
begin

lemma ensureBackend_keeps:
  assumes e: "ensureBackend r route tg up w = (x, w')"
    and b: "at w (KBackend, route_object_key tg route) = Some (OUnstructured b)" "backend_mutate (r_Lib r) route up b = Inr b"
  shows "\<exists>b. at w' (KBackend, route_object_key tg route) = Some (OUnstructured b) \<and> backend_mutate (r_Lib r) route up b = Inr b"
proof -
  let ?ob = "OUnstructured (newAgentgatewayBackend (route_object_name tg route) (m_Namespace (tr_Meta route)))"
  obtain y w1 where c: "c_create_or_patch (r_Client r) ?ob (on_unstructured (backend_mutate (r_Lib r) route up)) w = (y, w1)" by fastforce
  have w': "at w' = at w1" using e c by (cases y) (auto simp: ensureBackend_def)
  have k: "key_of ?ob = (KBackend, route_object_key tg route)" by (simp add: route_object_key_def)
  have "on_unstructured (backend_mutate (r_Lib r) route up) (OUnstructured b) = Inr (OUnstructured b)"
    using b(2) by (simp add: on_unstructured_def)
  from cop_keeps [OF backend_mutator c _ this] b(1) k w' on_unstructured_fix show ?thesis by fastforce
qed

lemma ensureHTTPRoute_keeps:
  assumes e: "ensureHTTPRoute r route tg path w = (x, w')"
    and h: "at w (KHTTPRoute, route_object_key tg route) = Some (OHTTPRoute h)" "http_route_mutate (r_Lib r) route tg path h = Inr h"
  shows "\<exists>h. at w' (KHTTPRoute, route_object_key tg route) = Some (OHTTPRoute h) \<and> http_route_mutate (r_Lib r) route tg path h = Inr h"
proof -
  let ?ob = "OHTTPRoute \<lparr>hr_Meta = new_meta (route_object_name tg route) (m_Namespace (tr_Meta route)), hr_Spec = empty_http_route_spec\<rparr>"
  obtain y w1 where c: "c_create_or_patch (r_Client r) ?ob (on_http_route (http_route_mutate (r_Lib r) route tg path)) w = (y, w1)" by fastforce
  have w': "at w' = at w1" using e c by (cases y) (auto simp: ensureHTTPRoute_def)
  have k: "key_of ?ob = (KHTTPRoute, route_object_key tg route)" by (simp add: key_of_def route_object_key_def)
  have "on_http_route (http_route_mutate (r_Lib r) route tg path) (OHTTPRoute h) = Inr (OHTTPRoute h)"
    using h(2) by (simp add: on_http_route_def)
  from cop_keeps [OF http_route_mutator c _ this] h(1) k w' on_http_route_fix show ?thesis by fastforce
qed

lemma ensurePolicy_keeps:
  assumes e: "ensurePolicy r route tg w = (x, w')" and p: "policy_fixed (r_Lib r) tg route (at w)"
  shows "policy_fixed (r_Lib r) tg route (at w')"
proof (cases "buildMcpAuthorizationRules (tr_ToolFilter route) = []")
  case True
  obtain dr w1 where d: "c_delete (r_Client r) (KPolicy, filter_policy_key tg route) w = (dr, w1)" by fastforce
  have "at w (KPolicy, filter_policy_key tg route) = None" using p True by (simp add: policy_fixed_def)
  note ab = delete_absent [OF d this]
  have "at w' = at w1"
    using e d True by (auto simp: ensurePolicy_def filter_policy_key_def Let_def split: option.splits if_splits)
  with ab p show ?thesis by simp
next
  case False
  let ?rules = "buildMcpAuthorizationRules (tr_ToolFilter route)"
  let ?ob = "OUnstructured (newAgentgatewayPolicy (filter_policy_name tg route) (m_Namespace (tr_Meta route)))"
  obtain y w1 where c: "c_create_or_patch (r_Client r) ?ob (on_unstructured (filter_policy_mutate (r_Lib r) route tg ?rules)) w = (y, w1)"
    by fastforce
  have w': "at w' = at w1" using e c False by (cases y) (auto simp: ensurePolicy_def Let_def)
  have k: "key_of ?ob = (KPolicy, filter_policy_key tg route)" by (simp add: filter_policy_key_def)
  obtain q where q: "at w (KPolicy, filter_policy_key tg route) = Some (OUnstructured q)" "filter_policy_mutate (r_Lib r) route tg ?rules q = Inr q"
    using p False by (auto simp: policy_fixed_def Let_def)
  have "on_unstructured (filter_policy_mutate (r_Lib r) route tg ?rules) (OUnstructured q) = Inr (OUnstructured q)"
    using q(2) by (simp add: on_unstructured_def)
  from cop_keeps [OF filter_policy_mutator c _ this] q(1) k w' on_unstructured_fix False show ?thesis
    by (fastforce simp: policy_fixed_def Let_def)
qed

lemma policy_fixed_frame:
  assumes "at w' (KPolicy, filter_policy_key tg route) = at w (KPolicy, filter_policy_key tg route)"
  shows "policy_fixed lib tg route (at w') = policy_fixed lib tg route (at w)"
  using assms by (simp add: policy_fixed_def Let_def)

lemma route_settled_frame:
  assumes "\<And>k. k \<in> route_keys tg route \<Longrightarrow> at w' k = at w k"
  shows "route_settled lib tg route up (at w') = route_settled lib tg route up (at w)"
proof -
  have e: "at w' (KBackend, route_object_key tg route) = at w (KBackend, route_object_key tg route)"
    "at w' (KHTTPRoute, route_object_key tg route) = at w (KHTTPRoute, route_object_key tg route)"
    "at w' (KPolicy, filter_policy_key tg route) = at w (KPolicy, filter_policy_key tg route)"
    by (rule assms; simp add: route_keys_def)+
  show ?thesis unfolding route_settled_def policy_fixed_def e by (rule refl)
qed

text \<open>A run of the route itself, complete or cut short by an error, keeps its objects.\<close>

lemma reconcileToolRoute_keeps:
  assumes run: "reconcileToolRoute r route tg w = (out, w')" and s: "route_settled (r_Lib r) tg route up (at w)"
    and up: "upstream_wanted (r_Lib r) route (at w) up"
  shows "route_settled (r_Lib r) tg route up (at w')"
proof (cases "resolveRouteUpstream (r_Lib r) (r_Client r) route w")
  case (Inl e)
  with run s show ?thesis by (auto simp: reconcileToolRoute_def)
next
  case (Inr up')
  from wanted_unique [OF up resolve_wanted [OF Inr]] Inr have Inr: "resolveRouteUpstream (r_Lib r) (r_Client r) route w = Inr up" by simp
  have b: "route_settled (r_Lib r) tg route up (at w1)" if "ensureBackend r route tg up w = (x, w1)" for x w1
    using s ensureBackend_keeps [OF that] unchangedD [OF ensureBackend_frame [OF that]]
    unfolding route_settled_def by (metis policy_fixed_frame prod.inject route_kinds_neq(1) kinds_distinct(5) singletonD)
  have h: "route_settled (r_Lib r) tg route up (at w2)"
    if "ensureHTTPRoute r route tg (route_path route) w1 = (x, w2)" "route_settled (r_Lib r) tg route up (at w1)" for x w1 w2
    using that(2) ensureHTTPRoute_keeps [OF that(1)] unchangedD [OF ensureHTTPRoute_frame [OF that(1)]]
    unfolding route_settled_def by (metis policy_fixed_frame prod.inject route_kinds_neq singletonD)
  have p: "route_settled (r_Lib r) tg route up (at w3)"
    if "ensurePolicy r route tg w2 = (x, w3)" "route_settled (r_Lib r) tg route up (at w2)" for x w2 w3
    using that(2) ensurePolicy_keeps [OF that(1)] unchangedD [OF ensurePolicy_frame [OF that(1)]]
    unfolding route_settled_def by (metis prod.inject route_kinds_neq kinds_distinct(2) singletonD)
  show ?thesis
    using run Inr by (auto simp: reconcileToolRoute_def split: prod.splits option.splits dest: b h p)
qed

lemma reconcileToolRoute_blocked:
  assumes "at w (KBackend, route_object_key tg route) = Some ob" "controller_of (meta_of ob) = Some c"
    "c \<noteq> (KToolRoute, m_Name (tr_Meta route))" and run: "reconcileToolRoute r route tg w = ((path, reason, x), w')"
  shows "at w' = at w" "x \<noteq> None"
  using run
  by (auto simp: reconcileToolRoute_def split: prod.splits option.splits sum.splits
      dest: ensureBackend_refused(1) [OF assms(1-3)] ensureBackend_refused(2) [OF assms(1-3)])

end

section \<open>No controller damages a route that is in place\<close>

definition route_names :: "tool_route \<Rightarrow> tool_gateway \<Rightarrow> bool" where
  "route_names route tg =
     (case tr_ToolGatewayRef route of
        Some ref \<Rightarrow> gateway_ref_key route ref = meta_key (tg_Meta tg)
      | None \<Rightarrow> m_Namespace (tg_Meta tg) = defaultToolGatewayNamespace)"

text \<open>Other clients leave the route, the tool servers and the kinds of its objects alone.\<close>

definition hands_off :: "('w \<Rightarrow> okey \<Rightarrow> kobj option) \<Rightarrow> nsname \<Rightarrow> 'w \<Rightarrow> 'w \<Rightarrow> bool" where
  "hands_off at req w w' =
     (\<forall>k. fst k \<in> {KToolServer, KBackend, KHTTPRoute, KPolicy} \<or> k = (KToolRoute, req) \<longrightarrow> at w' k = at w k)"

definition route_in_place ::
  "klib \<Rightarrow> nsname \<Rightarrow> tool_gateway \<Rightarrow> tool_route \<Rightarrow> string \<times> 32 word \<times> string \<Rightarrow> (okey \<Rightarrow> kobj option) \<Rightarrow> bool" where
  "route_in_place lib req tg route up store =
     ((\<exists>u cs. store (KToolRoute, req) = Some (OToolRoute (route\<lparr>tr_Url := u, tr_Conditions := cs\<rparr>)))
      \<and> upstream_wanted lib route store up \<and> route_settled lib tg route up store)"

lemma filter_policy_suffix: "filter_policy_name tg route = route_object_name tg route @ ''-toolfilter''"
  by (simp add: filter_policy_name_def route_object_name_def)

lemma filter_not_guardrail: "filter_policy_name tg route \<noteq> guardrail_name tg'"
  by (auto simp: filter_policy_suffix guardrail_name_def dest: arg_cong [where f = last])

lemma route_keys_meet:
  assumes "k \<in> route_keys tg route" "k \<in> route_keys tg' route'"
  shows "route_object_key tg route = route_object_key tg' route'"
  using assms by (auto simp: route_keys_def filter_policy_key_def filter_policy_suffix route_object_key_def)

lemma route_settled_name:
  assumes "meta_key (tg_Meta a) = meta_key (tg_Meta b)"
  shows "route_settled lib a route up store = route_settled lib b route up store"
proof -
  have m: "m_Name (tg_Meta a) = m_Name (tg_Meta b)" "m_Namespace (tg_Meta a) = m_Namespace (tg_Meta b)"
    using assms by (simp_all add: meta_key_def)
  then have k: "route_object_key a route = route_object_key b route" "filter_policy_key a route = filter_policy_key b route"
    "route_object_name a route = route_object_name b route"
    by (simp_all add: route_object_key_def filter_policy_key_def filter_policy_name_def route_object_name_def)
  have f: "http_route_mutate lib route a path h = http_route_mutate lib route b path h"
    "filter_policy_mutate lib route a rules u = filter_policy_mutate lib route b rules u" for path h rules u
    by (simp_all only: http_route_mutate_def filter_policy_mutate_def filter_target_json_def k m)
  show ?thesis by (simp only: route_settled_def policy_fixed_def k f)
qed

context gateway_operator
begin

text \<open>The upstream does not depend on the status of the route.\<close>

lemma in_place_status:
  "route_settled lib tg (route\<lparr>tr_Url := u, tr_Conditions := cs\<rparr>) up store = route_settled lib tg route up store"
  "upstream_wanted lib (route\<lparr>tr_Url := u, tr_Conditions := cs\<rparr>) store up = upstream_wanted lib route store up"
  by (rule same_tr; simp)+


lemma targets_names: "route_targets (at w) route tg \<Longrightarrow> route_names route tg"
  by (cases "tr_ToolGatewayRef route") (auto simp: route_targets_def route_names_def key_of_def dest: at_key)

lemma settled_controller:
  assumes "route_settled (r_Lib r) tg route up (at w)"
  shows "\<exists>b. at w (KBackend, route_object_key tg route) = Some (OUnstructured b)
     \<and> controller_of (us_Meta b) = Some (KToolRoute, m_Name (tr_Meta route))"
  using assms set_controller_of backend_mutate_ok(1) unfolding route_settled_def by blast

text \<open>Whatever route is reconciled, and however its run ends, the objects stay as they are.\<close>

lemma reconcile_any_keeps:
  assumes st: "at w (KToolRoute, req) = Some (OToolRoute (route\<lparr>tr_Url := u, tr_Conditions := cs\<rparr>))"
    and st2: "at w (KToolRoute, req2) = Some (OToolRoute route2)"
    and names: "route_names route tg" "route_names route2 tg2"
    and up: "upstream_wanted (r_Lib r) route (at w) up" and s: "route_settled (r_Lib r) tg route up (at w)"
    and run: "reconcileToolRoute r route2 tg2 w = (out, w')"
  shows "route_settled (r_Lib r) tg route up (at w')"
proof (cases "route_object_key tg2 route2 = route_object_key tg route")
  case False
  then have "k \<in> route_keys tg route \<Longrightarrow> k \<notin> route_keys tg2 route2" for k using route_keys_meet by metis
  with unchangedD [OF reconcileToolRoute_frame [OF run]] s show ?thesis using route_settled_frame by metis
next
  case same: True
  have ns: "m_Namespace (tr_Meta route2) = m_Namespace (tr_Meta route)" using same by (simp add: route_object_key_def)
  have req: "req = meta_key (tr_Meta route)" "req2 = meta_key (tr_Meta route2)"
    using at_key [OF st] at_key [OF st2] by (simp_all add: key_of_def)
  show ?thesis
  proof (cases "m_Name (tr_Meta route2) = m_Name (tr_Meta route)")
    case True
    then have "req2 = req" using ns req by (simp add: meta_key_def)
    then have r2: "route2 = route\<lparr>tr_Url := u, tr_Conditions := cs\<rparr>" using st st2 by simp
    have "m_Name (tg_Meta tg2) = m_Name (tg_Meta tg)" using same by (simp add: route_object_key_def route_object_name_def r2)
    then have tg2: "meta_key (tg_Meta tg2) = meta_key (tg_Meta tg)"
      using names by (auto simp: route_names_def r2 meta_key_def gateway_ref_key_def split: option.splits if_splits)
    have "route_settled (r_Lib r) tg2 route2 up (at w)" "upstream_wanted (r_Lib r) route2 (at w) up"
      using s up unfolding r2 in_place_status route_settled_name [OF tg2] by simp_all
    from reconcileToolRoute_keeps [OF run this] show ?thesis
      unfolding r2 in_place_status route_settled_name [OF tg2] .
  next
    case False
    obtain b where b: "at w (KBackend, route_object_key tg2 route2) = Some (OUnstructured b)"
      "controller_of (us_Meta b) = Some (KToolRoute, m_Name (tr_Meta route))"
      using settled_controller [OF s] same by auto
    obtain path reason x where out: "out = (path, reason, x)" by (cases out)
    have "at w' = at w"
      by (rule reconcileToolRoute_blocked(1) [OF b(1) _ _ run [unfolded out]]) (use b(2) False in auto)
    with s show ?thesis by simp
  qed
qed

lemma route_run_keeps:
  assumes run: "ToolRoute_Reconcile r req2 w = (res, w')" and st2: "at w (KToolRoute, req2) = Some (OToolRoute route2)"
    and p: "route_in_place (r_Lib r) req tg route up (at w)" and names: "route_names route tg"
  shows "route_in_place (r_Lib r) req tg route up (at w')"
proof -
  obtain u cs where st: "at w (KToolRoute, req) = Some (OToolRoute (route\<lparr>tr_Url := u, tr_Conditions := cs\<rparr>))"
    and up: "upstream_wanted (r_Lib r) route (at w) up" and s: "route_settled (r_Lib r) tg route up (at w)"
    using p unfolding route_in_place_def by blast
  have route: "\<exists>u cs. at w' (KToolRoute, req) = Some (OToolRoute (route\<lparr>tr_Url := u, tr_Conditions := cs\<rparr>))"
  proof (cases "req2 = req")
    case True
    obtain u2 cs2 where "at w' (KToolRoute, req2) = Some (OToolRoute (route2\<lparr>tr_Url := u2, tr_Conditions := cs2\<rparr>))"
      using route_spec_kept [OF run st2] by blast
    then have "at w' (KToolRoute, req) = Some (OToolRoute (route\<lparr>tr_Url := u2, tr_Conditions := cs2\<rparr>))"
      using True st st2 by auto
    then show ?thesis by blast
  next
    case False
    then have "at w' (KToolRoute, req) = at w (KToolRoute, req)" using route_frame [OF run st2, of "(KToolRoute, req)"] by auto
    with st show ?thesis by auto
  qed
  have ts: "at w' (KToolServer, k) = at w (KToolServer, k)" for k using route_frame [OF run st2, of "(KToolServer, k)"] by auto
  have wanted: "upstream_wanted (r_Lib r) route (at w') up" using up unfolding upstream_wanted_def ts .
  have nr: "route_settled (r_Lib r) tg route up (at w1) \<Longrightarrow> unchanged_outside {(KToolRoute, req2)} at w1 w' \<Longrightarrow>
    route_settled (r_Lib r) tg route up (at w')" for w1
    using route_settled_frame [of tg route w' w1] unchangedD [of "{(KToolRoute, req2)}" at w1 w'] other_kinds(1) by (metis singletonD)
  have "route_settled (r_Lib r) tg route up (at w')"
  proof (cases rule: route_run [OF run st2, case_names idle missing ready failed])
    case idle
    with s show ?thesis by simp
  next
    case (missing msg y)
    with nr s not_ready_frame [OF missing(4,2)] show ?thesis by blast
  next
    case (ready tg2 w1)
    with nr reconcile_any_keeps [OF st st2 names(1) targets_names [OF ready(1)] up s ready(4)] ready_frame [OF ready(6,3)]
    show ?thesis by blast
  next
    case (failed tg2 path reason e w1 y)
    with nr reconcile_any_keeps [OF st st2 names(1) targets_names [OF failed(1)] up s failed(4)] not_ready_frame [OF failed(6,3)]
    show ?thesis by blast
  qed
  with route wanted show ?thesis by (simp add: route_in_place_def)
qed

end

lemma in_place_frame:
  assumes "route_in_place lib req tg route up s1" and "s2 (KToolRoute, req) = s1 (KToolRoute, req)"
    and "\<And>k. s2 (KToolServer, k) = s1 (KToolServer, k)" "\<And>k. s2 (KBackend, k) = s1 (KBackend, k)"
    "\<And>k. s2 (KHTTPRoute, k) = s1 (KHTTPRoute, k)"
    and "s2 (KPolicy, filter_policy_key tg route) = s1 (KPolicy, filter_policy_key tg route)"
  shows "route_in_place lib req tg route up s2"
  using assms(1) unfolding route_in_place_def route_settled_def policy_fixed_def upstream_wanted_def assms(2-6) .

context tool_operator
begin

lemma controller_keeps_route:
  assumes "controller_step r gr w w'" and p: "route_in_place (r_Lib r) req tg route up (at w)" and names: "route_names route tg"
  shows "route_in_place (r_Lib r) req tg route up (at w')"
proof (cases rule: controller_cases [OF assms(1), case_names idle guard gateway route])
  case idle
  with p show ?thesis by simp
next
  case (guard req2 g res)
  show ?thesis
    by (rule in_place_frame [OF p]; rule guard_kinds [OF guard]; simp add: KBackend_def KPolicy_def)
next
  case (gateway req2 tg2 res)
  have "(KPolicy, filter_policy_key tg route) \<notin> insert (KToolGateway, req2) (gateway_keys tg2)"
    using filter_not_guardrail by (auto simp: gateway_keys_def guardrail_key_def filter_policy_key_def)
  with gateway_frame [OF gateway] have policy: "at w' (KPolicy, filter_policy_key tg route) = at w (KPolicy, filter_policy_key tg route)"
    by blast
  have e: "at w' k = at w k" if "fst k \<in> {KToolServer, KBackend, KHTTPRoute} \<or> k = (KToolRoute, req)" for k
    by (rule gateway_kinds [OF gateway]) (use that in \<open>auto simp: KBackend_def KParameters_def KPolicy_def\<close>)
  show ?thesis by (rule in_place_frame [OF p]; (rule policy)?; (rule e)?; simp)
next
  case (route req2 route2 res)
  show ?thesis by (rule route_run_keeps [OF route p names])
qed

lemma route_stays:
  assumes "(\<lambda>v v'. controller_step r gr v v' \<or> hands_off at req v v')\<^sup>*\<^sup>* w w'"
    and "route_in_place (r_Lib r) req tg route up (at w)" and "route_names route tg"
  shows "route_in_place (r_Lib r) req tg route up (at w')"
  using assms(1,2)
proof (induction rule: rtranclp_induct)
  case (step v v')
  from step.hyps(2) show ?case
  proof
    assume "controller_step r gr v v'"
    from controller_keeps_route [OF this step.IH [OF step.prems] assms(3)] show ?thesis .
  next
    assume h: "hands_off at req v v'"
    then have e: "at v' k = at v k" if "fst k \<in> {KToolServer, KBackend, KHTTPRoute, KPolicy} \<or> k = (KToolRoute, req)" for k
      using that unfolding hands_off_def by blast
    show ?thesis by (rule in_place_frame [OF step.IH [OF step.prems]]; rule e; simp)
  qed
qed simp

text \<open>A route that has been turned Ready is in place.\<close>

lemma ready_in_place:
  assumes "ToolRoute_Reconcile r req w = (res, w1)" "at w (KToolRoute, req) = Some (OToolRoute route)"
    and "at w1 (KToolRoute, req) = Some (OToolRoute route1)"
    and "l_find_condition (r_Lib r) (tr_Conditions route1) readyConditionType = Some c" "cd_Status c = ConditionTrue"
    and "l_find_condition (r_Lib r) (tr_Conditions route) readyConditionType \<noteq> Some c"
  obtains tg up where "route_targets (at w) route tg" "upstream_wanted (r_Lib r) route (at w) up"
    "route_in_place (r_Lib r) req tg route up (at w1)"
proof (cases rule: route_status_written [OF assms(1,2,3,4,6), case_names missing ready failed])
  case (ready tg up v)
  have "at w1 j = at v j" if "fst j \<noteq> KToolRoute" for j
    using unchangedD [OF ready(6), of j] that by (cases j) auto
  then have "route_settled (r_Lib r) tg route up (at w1)" using ready(4) route_store_cong(1) by metis
  with route_spec_kept [OF assms(1,2)] resolve_wanted [OF ready(3)] wanted_frame [OF ready(5,6)]
  have "route_in_place (r_Lib r) req tg route up (at w1)" by (simp add: route_in_place_def)
  with ready(1) resolve_wanted [OF ready(3)] show thesis by (rule that)
qed (use assms(5) in \<open>simp_all add: ConditionTrue_def ConditionFalse_def\<close>)

lemma ready_stays:
  assumes "ToolRoute_Reconcile r req w = (res, w1)" "at w (KToolRoute, req) = Some (OToolRoute route)"
    and "at w1 (KToolRoute, req) = Some (OToolRoute route1)"
    and "l_find_condition (r_Lib r) (tr_Conditions route1) readyConditionType = Some c" "cd_Status c = ConditionTrue"
    and "l_find_condition (r_Lib r) (tr_Conditions route) readyConditionType \<noteq> Some c"
    and steps: "(\<lambda>v v'. controller_step r gr v v' \<or> hands_off at req v v')\<^sup>*\<^sup>* w1 w2"
  shows "\<exists>tg up. route_targets (at w) route tg \<and> upstream_wanted (r_Lib r) route (at w) up \<and> route_serves tg route up (at w2)"
proof -
  obtain tg up where p: "route_targets (at w) route tg" "upstream_wanted (r_Lib r) route (at w) up"
    "route_in_place (r_Lib r) req tg route up (at w1)" by (rule ready_in_place [OF assms(1-6)])
  from route_stays [OF steps p(3) targets_names [OF p(1)]] have "route_settled (r_Lib r) tg route up (at w2)"
    by (simp add: route_in_place_def)
  with p(1,2) route_settled_serves show ?thesis by blast
qed

end

end
