(* ===== verification/Liveness.thy ===== *)
theory Liveness
  imports RouteStability
begin

text \<open>
  What the operator reaches when the API server answers: the locale of a healthy client, the
  creation of fresh objects, and the runs that turn a guard, a gateway and a route Ready.
\<close>

section \<open>A healthy API server\<close>

text \<open>
  In a healthy world every call is answered: reads find what is stored, a write whose mutate
  function succeeds is accepted, a status patch of a stored object too, and the world stays
  healthy.
\<close>

locale healthy_client = kube_client cl at events
  for cl :: "'w client" and at :: "'w \<Rightarrow> okey \<Rightarrow> kobj option" and events :: "'w \<Rightarrow> kevent list" +
  fixes healthy :: "'w \<Rightarrow> bool"
  assumes healthy_get: "healthy w \<Longrightarrow> at w k = Some ob \<Longrightarrow> c_get cl k w = Inr ob"
    and healthy_list: "healthy w \<Longrightarrow> \<exists>obs. c_list cl kd ns w = Inr obs"
    and healthy_cop: "healthy w \<Longrightarrow> f (case at w (key_of ob) of None \<Rightarrow> ob | Some o0 \<Rightarrow> o0) = Inr ob' \<Longrightarrow>
      key_of ob' = key_of ob \<Longrightarrow> \<exists>op w'. c_create_or_patch cl ob f w = (Inr op, w') \<and> healthy w'"
    and healthy_delete: "healthy w \<Longrightarrow> \<exists>x w'. c_delete cl k w = (x, w') \<and> healthy w' \<and> (\<forall>e. x = Some e \<longrightarrow> is_not_found e)"
    and healthy_patch: "healthy w \<Longrightarrow> at w (key_of n) \<noteq> None \<Longrightarrow> \<exists>w'. c_patch_status cl b n w = (None, w') \<and> healthy w'"
    and healthy_event: "healthy w \<Longrightarrow> healthy (c_event cl ev w)"
begin

lemma healthy_get_as: "healthy w \<Longrightarrow> at w k = Some ob \<Longrightarrow> dec ob = Inr a \<Longrightarrow> get_as dec cl k w = Inr a"
  using healthy_get by (simp add: get_as_def)

lemma healthy_list_as: "healthy w \<Longrightarrow> \<exists>xs. list_as dec cl kd ns w = Inr xs"
  using healthy_list [of w kd ns] by (auto simp: list_as_def)

lemma healthy_owned:
  assumes "healthy w" "claims_gateway at w tg c"
  shows "isToolGatewayOwnedByController cl tg w = Inr True"
proof (cases "isToolGatewayOwnedByController cl tg w")
  case (Inl e)
  with owned_error [OF Inl] healthy_list [OF assms(1), of KToolGatewayClass None] show ?thesis by auto
next
  case (Inr b)
  with owned_iff [OF Inr] assms(2) show ?thesis by auto
qed

end

lemma mem_fault_none [simp]: "k_Faults w = [] \<Longrightarrow> fault c w = None"
  by (simp add: fault_def)

interpretation mem_healthy: healthy_client mem_client mem_at k_Events "\<lambda>w. k_Faults w = []"
proof (unfold_locales, goal_cases)
  case (1 w k ob)
  then show ?case by (simp add: mem_get_def)
next
  case (2 w kd ns)
  then show ?case by (simp add: mem_list_def)
next
  case (3 w f ob ob')
  then show ?case by (auto simp: mem_create_or_patch_def put_obj_def split: option.splits)
next
  case (4 w k)
  then show ?case by (auto simp: mem_delete_def del_obj_def not_found_def split: option.splits)
next
  case (5 w n b)
  then show ?case by (auto simp: mem_patch_status_def put_obj_def)
next
  case (6 w ev)
  then show ?case by (simp add: mem_event_def)
qed

section \<open>Setting nested fields of fresh objects\<close>

lemma json_get_empty [simp]: "q \<noteq> [] \<Longrightarrow> json_get Map.empty q = None"
  by (cases q) simp_all

definition absent_or_map :: "json option \<Rightarrow> bool" where
  "absent_or_map v = (\<forall>x. v = Some x \<longrightarrow> (\<exists>m. x = JMap m))"

lemma absent_or_map_None [simp]: "absent_or_map None"
  by (simp add: absent_or_map_def)

lemma parent_map: "json_get m (a # q) = Some v \<Longrightarrow> q \<noteq> [] \<Longrightarrow> absent_or_map (json_get m [a])"
  by (cases q) (auto simp: absent_or_map_def split: option.splits json.splits)

lemma json_get_prefix: "json_get m [a] = None \<Longrightarrow> json_get m (a # q) = None"
  by (cases q) (auto split: option.splits)

context nested_lib
begin

lemma set_free_at:
  assumes "p \<noteq> []" "\<And>n. 0 < n \<Longrightarrow> n < length p \<Longrightarrow> absent_or_map (json_get m (take n p))"
  shows "\<exists>m'. l_set_nested lib m p v = Inr m'"
proof (rule set_free [OF assms(1)])
  fix q :: "string list"
  assume q: "q \<noteq> []" "q \<noteq> p" "take (length q) p = q"
  then have "length q \<noteq> length p" by auto
  with q(3) have "length q < length p" by (metis length_take min_def nat_less_le nat_le_linear)
  with assms(2) [of "length q"] q show "case json_get m q of None \<Rightarrow> True | Some v \<Rightarrow> \<exists>m. v = JMap m"
    by (auto simp: absent_or_map_def split: option.split)
qed

lemma set_object_free:
  assumes "p \<noteq> []" "\<And>n. 0 < n \<Longrightarrow> n < length p \<Longrightarrow> absent_or_map (json_get (us_Object u) (take n p))"
  shows "\<exists>u'. set_object lib u p v = Inr u'"
proof -
  obtain m' where "l_set_nested lib (us_Object u) p v = Inr m'" using set_free_at [OF assms] by blast
  then show ?thesis by (simp add: set_object_def)
qed

lemma set_object_empty:
  assumes "us_Object u = Map.empty" "p \<noteq> []"
  shows "\<exists>u'. set_object lib u p v = Inr u'"
  by (rule set_object_free [OF assms(2)]) (use assms in auto)

end

section \<open>Creating an object\<close>

locale healthy_world =
  operator r at events + healthy_client "r_Client r" at events healthy
  for r :: "('w, 'm) reconciler_scheme" and at :: "'w \<Rightarrow> okey \<Rightarrow> kobj option" and events :: "'w \<Rightarrow> kevent list"
    and healthy :: "'w \<Rightarrow> bool"
begin

lemma emit_healthy [simp]: "healthy w \<Longrightarrow> healthy (emitNormalEvent r k a b c w)" "healthy w \<Longrightarrow> healthy (emit_op r k a b c op w)"
  by (auto simp: emitNormalEvent_def emit_op_def healthy_event split: op_result.split)

lemma fresh_controller:
  obtains m' where "l_set_controller (r_Lib r) k om (new_meta n (m_Namespace om)) = Inr m'" "meta_key m' = (m_Namespace om, n)"
proof -
  obtain m' where m: "l_set_controller (r_Lib r) k om (new_meta n (m_Namespace om)) = Inr m'"
    using set_controller_free [of "new_meta n (m_Namespace om)" k om] by (auto simp: controller_of_def new_meta_def)
  with set_controller_key [OF m] that show thesis by simp
qed

text \<open>A create with a mutate function that succeeds on the fresh object.\<close>

lemma cop_fresh:
  assumes "healthy w" "at w (key_of ob) = None" "f ob = Inr ob'" "key_of ob' = key_of ob"
  shows "\<exists>op w'. c_create_or_patch (r_Client r) ob f w = (Inr op, w') \<and> healthy w'"
  using healthy_cop [of w f ob ob'] assms by auto

end

locale healthy_gateway = gateway_operator r at events + healthy_world r at events healthy
  for r :: "'w reconciler" and at :: "'w \<Rightarrow> okey \<Rightarrow> kobj option" and events :: "'w \<Rightarrow> kevent list" and healthy :: "'w \<Rightarrow> bool"

locale healthy_guard = guard_operator r at events + healthy_world r at events healthy
  for r :: "'w guard_reconciler" and at :: "'w \<Rightarrow> okey \<Rightarrow> kobj option" and events :: "'w \<Rightarrow> kevent list"
    and healthy :: "'w \<Rightarrow> bool"

section \<open>A route becomes Ready\<close>

context healthy_gateway
begin

lemma ensureBackend_live:
  assumes "healthy w" "at w (KBackend, route_object_key tg route) = None"
  obtains w' where "ensureBackend r route tg up w = (None, w')" "healthy w'"
proof -
  let ?u = "newAgentgatewayBackend (route_object_name tg route) (m_Namespace (tr_Meta route))"
  obtain m where m: "l_set_controller (r_Lib r) KToolRoute (tr_Meta route) (us_Meta ?u) = Inr m"
      "meta_key m = (m_Namespace (tr_Meta route), route_object_name tg route)"
    unfolding newAgentgatewayBackend_def by (rule fresh_controller) simp
  obtain host port path where up: "up = (host, port, path)" by (cases up)
  have "us_Object (?u\<lparr>us_Meta := m\<rparr>) = Map.empty" by (simp add: newAgentgatewayBackend_def)
  from set_object_empty [OF this, of "[''spec'', ''mcp'']"]
  obtain u' where u': "set_object (r_Lib r) (?u\<lparr>us_Meta := m\<rparr>) [''spec'', ''mcp'']
      (jmap [(''targets'', JList [buildMCPTarget ''mcp-target'' host port path]), (''failureMode'', JStr ''FailOpen'')]) = Inr u'"
    by blast
  have f: "on_unstructured (backend_mutate (r_Lib r) route up) (OUnstructured ?u) = Inr (OUnstructured u')"
    using m(1) u' by (simp add: on_unstructured_def backend_mutate_def setMCPTargets_def up)
  have k: "key_of (OUnstructured u') = key_of (OUnstructured ?u)"
    using set_object_frame [OF u'] m(2) by (simp add: key_of_def newAgentgatewayBackend_def)
  have "at w (key_of (OUnstructured ?u)) = None" using assms(2) by (simp add: route_object_key_def)
  from cop_fresh [OF assms(1) this, where f = "on_unstructured (backend_mutate (r_Lib r) route up)"] f k
  obtain op w' where "c_create_or_patch (r_Client r) (OUnstructured ?u) (on_unstructured (backend_mutate (r_Lib r) route up)) w = (Inr op, w')"
      "healthy w'" by blast
  with that show thesis by (simp add: ensureBackend_def)
qed

lemma ensureHTTPRoute_live:
  assumes "healthy w" "at w (KHTTPRoute, route_object_key tg route) = None"
  obtains w' where "ensureHTTPRoute r route tg path w = (None, w')" "healthy w'"
proof -
  let ?h = "\<lparr>hr_Meta = new_meta (route_object_name tg route) (m_Namespace (tr_Meta route)), hr_Spec = empty_http_route_spec\<rparr>"
  obtain m where m: "l_set_controller (r_Lib r) KToolRoute (tr_Meta route) (hr_Meta ?h) = Inr m"
      "meta_key m = (m_Namespace (tr_Meta route), route_object_name tg route)"
    using fresh_controller [of KToolRoute "tr_Meta route" "route_object_name tg route"] by auto
  obtain h' where f: "on_http_route (http_route_mutate (r_Lib r) route tg path) (OHTTPRoute ?h) = Inr (OHTTPRoute h')" "hr_Meta h' = m"
    using m(1) by (simp add: on_http_route_def http_route_mutate_def)
  have k: "key_of (OHTTPRoute h') = key_of (OHTTPRoute ?h)" using f(2) m(2) by (simp add: key_of_def)
  have "at w (key_of (OHTTPRoute ?h)) = None" using assms(2) by (simp add: route_object_key_def key_of_def)
  from cop_fresh [OF assms(1) this, where f = "on_http_route (http_route_mutate (r_Lib r) route tg path)"] f(1) k
  obtain op w' where "c_create_or_patch (r_Client r) (OHTTPRoute ?h) (on_http_route (http_route_mutate (r_Lib r) route tg path)) w = (Inr op, w')"
      "healthy w'" by blast
  with that show thesis by (simp add: ensureHTTPRoute_def)
qed

lemma filter_policy_fresh:
  assumes "us_Object u = Map.empty" "l_set_controller (r_Lib r) KToolRoute (tr_Meta route) (us_Meta u) = Inr m"
  obtains u' where "filter_policy_mutate (r_Lib r) route tg rules u = Inr u'" "us_Meta u' = m" "us_Kind u' = us_Kind u" "us_ApiVersion u' = us_ApiVersion u"
proof -
  obtain u1 where u1: "set_object (r_Lib r) (u\<lparr>us_Meta := m\<rparr>) [''spec'', ''targetRefs''] (JList [filter_target_json tg route]) = Inr u1"
    using set_object_empty [of "u\<lparr>us_Meta := m\<rparr>" "[''spec'', ''targetRefs'']"] assms(1) by auto
  have g: "json_get (us_Object u1) [''spec'', ''targetRefs''] = Some (JList [filter_target_json tg route])"
    by (rule set_object_get [OF u1]) simp
  have 1: "absent_or_map (json_get (us_Object u1) [''spec''])" by (rule parent_map [OF g]) simp
  have o: "json_get (us_Object u1) (''spec'' # ''backend'' # q) = None" for q
    using set_object_other [OF u1, of "''spec'' # ''backend'' # q"] assms(1) by (simp del: json_get.simps)
  have "absent_or_map (json_get (us_Object u1) (take n [''spec'', ''backend'', ''mcp'', ''authorization'']))"
    if "0 < n" "n < 4" for n :: nat
  proof -
    have "n = 1 \<or> n = 2 \<or> n = 3" using that by linarith
    with 1 o show ?thesis by (auto simp: eval_nat_numeral simp del: json_get.simps)
  qed
  then obtain u2 where u2: "set_object (r_Lib r) u1 [''spec'', ''backend'', ''mcp'', ''authorization''] (authorization_json rules) = Inr u2"
    using set_object_free [of "[''spec'', ''backend'', ''mcp'', ''authorization'']" u1 "authorization_json rules"] by auto
  show thesis
    by (rule that [of u2]) (use assms(2) u1 u2 set_object_frame [OF u1] set_object_frame [OF u2] in \<open>simp_all add: filter_policy_mutate_def\<close>)
qed

lemma ensurePolicy_live:
  assumes "healthy w" "at w (KPolicy, filter_policy_key tg route) = None"
  obtains w' where "ensurePolicy r route tg w = (None, w')" "healthy w'"
proof (cases "buildMcpAuthorizationRules (tr_ToolFilter route) = []")
  case True
  obtain x w' where "c_delete (r_Client r) (KPolicy, filter_policy_key tg route) w = (x, w')" "healthy w'" "\<forall>e. x = Some e \<longrightarrow> is_not_found e"
    using healthy_delete [OF assms(1)] by blast
  with True that show thesis by (cases x) (auto simp: ensurePolicy_def filter_policy_key_def)
next
  case False
  let ?rules = "buildMcpAuthorizationRules (tr_ToolFilter route)"
  let ?u = "newAgentgatewayPolicy (filter_policy_name tg route) (m_Namespace (tr_Meta route))"
  obtain m where m: "l_set_controller (r_Lib r) KToolRoute (tr_Meta route) (us_Meta ?u) = Inr m"
      "meta_key m = (m_Namespace (tr_Meta route), filter_policy_name tg route)"
    unfolding newAgentgatewayPolicy_def by (rule fresh_controller) simp
  obtain u' where u': "filter_policy_mutate (r_Lib r) route tg ?rules ?u = Inr u'" "us_Meta u' = m" "us_Kind u' = us_Kind ?u"
      "us_ApiVersion u' = us_ApiVersion ?u"
    by (rule filter_policy_fresh [OF _ m(1)]) (simp add: newAgentgatewayPolicy_def)
  have f: "on_unstructured (filter_policy_mutate (r_Lib r) route tg ?rules) (OUnstructured ?u) = Inr (OUnstructured u')"
    using u'(1) by (simp add: on_unstructured_def)
  have k: "key_of (OUnstructured u') = key_of (OUnstructured ?u)"
    using u'(2-) m(2) by (simp add: key_of_def newAgentgatewayPolicy_def)
  have "at w (key_of (OUnstructured ?u)) = None" using assms(2) by (simp add: filter_policy_key_def)
  from cop_fresh [OF assms(1) this, where f = "on_unstructured (filter_policy_mutate (r_Lib r) route tg ?rules)"] f k
  obtain op w' where "c_create_or_patch (r_Client r) (OUnstructured ?u) (on_unstructured (filter_policy_mutate (r_Lib r) route tg ?rules)) w = (Inr op, w')"
      "healthy w'" by blast
  with that False show thesis by (simp add: ensurePolicy_def)
qed

end

context healthy_gateway
begin

lemma resolve_live:
  assumes "healthy w" "upstream_wanted (r_Lib r) route (at w) up"
  shows "resolveRouteUpstream (r_Lib r) (r_Client r) route w = Inr up"
proof (cases "tr_ToolServerRef route")
  case (Some ref)
  then obtain ts where ts: "at w (KToolServer, server_ref_key route ref) = Some (OToolServer ts)"
    and up: "up = (ref_Name ref @ ''.'' @ fst (server_ref_key route ref) @ ''.svc.cluster.local'', ts_Port ts,
                   if ts_Path ts = [] then ''/mcp'' else ts_Path ts)"
    using assms(2) by (auto simp: upstream_wanted_def)
  have "m_Name (ts_Meta ts) = ref_Name ref" "m_Namespace (ts_Meta ts) = fst (server_ref_key route ref)"
    using at_key [OF ts] by (auto simp: key_simps server_ref_key_def)
  with healthy_get_as [OF assms(1) ts, of as_tool_server ts] up Some show ?thesis
    by (simp add: resolveRouteUpstream_def toolServerHost_def Let_def)
qed (use assms(2) in \<open>auto simp: resolveRouteUpstream_def upstream_wanted_def\<close>)

lemma reconcileToolRoute_live:
  assumes "healthy w" "upstream_wanted (r_Lib r) route (at w) up" and free: "\<And>k. k \<in> route_keys tg route \<Longrightarrow> at w k = None"
  obtains w' where "reconcileToolRoute r route tg w = ((route_path route, [], None), w')" "healthy w'"
proof -
  have b: "at w (KBackend, route_object_key tg route) = None" and h: "at w (KHTTPRoute, route_object_key tg route) = None"
    and p: "at w (KPolicy, filter_policy_key tg route) = None"
    by (rule free; simp add: route_keys_def)+
  obtain w1 where w1: "ensureBackend r route tg up w = (None, w1)" "healthy w1" by (rule ensureBackend_live [OF assms(1) b])
  have h1: "at w1 (KHTTPRoute, route_object_key tg route) = None" and p1: "at w1 (KPolicy, filter_policy_key tg route) = None"
    using unchangedD [OF ensureBackend_frame [OF w1(1)]] h p by simp_all
  obtain w2 where w2: "ensureHTTPRoute r route tg (route_path route) w1 = (None, w2)" "healthy w2"
    by (rule ensureHTTPRoute_live [OF w1(2) h1])
  have p2: "at w2 (KPolicy, filter_policy_key tg route) = None"
    using unchangedD [OF ensureHTTPRoute_frame [OF w2(1)]] p1 by simp
  obtain w3 where w3: "ensurePolicy r route tg w2 = (None, w3)" "healthy w3" by (rule ensurePolicy_live [OF w2(2) p2])
  show thesis
    by (rule that [OF _ w3(2)]) (simp add: reconcileToolRoute_def resolve_live [OF assms(1,2)] w1 w2 w3)
qed

text \<open>A status patch on a stored object lands.\<close>

lemma patch_route_live:
  assumes "healthy w" "at w (KToolRoute, meta_key (tr_Meta n)) = Some (OToolRoute s)"
  obtains w' where "patch_route r b n w = (None, w')" "healthy w'"
proof -
  have "at w (key_of (OToolRoute n)) \<noteq> None" using assms(2) by (simp add: key_of_def)
  from healthy_patch [OF assms(1) this] obtain w' where
    "c_patch_status (r_Client r) (OToolRoute b) (OToolRoute n) w = (None, w')" "healthy w'" by blast
  with that show thesis by (simp add: patch_route_def)
qed

lemma tr_ready_found:
  "\<exists>c. l_find_condition (r_Lib r) (tr_Conditions (tr_ready (r_Lib r) route u)) readyConditionType = Some c
     \<and> cd_Status c = ConditionTrue \<and> cd_Reason c = reasonReconciled \<and> cd_ObservedGeneration c = m_Generation (tr_Meta route)"
  using find_set [of "tr_Conditions route" "ready_condition (tr_Meta route) ConditionTrue reasonReconciled (''ToolRoute is ready at '' @ u)"] same_ready
  by (fastforce simp: tr_ready_def)

lemma merged_ready:
  "tr_Conditions (merged_tr route (tr_ready lib route u) route) = tr_Conditions (tr_ready lib route u)"
  "tr_Url (merged_tr route (tr_ready lib route u) route) = u"
  by (simp_all add: merged_tr_def patch_field_def tr_ready_def)

lemma route_live:
  assumes w: "healthy w" and st: "at w (KToolRoute, req) = Some (OToolRoute route)"
    and ref: "tr_ToolGatewayRef route = Some ref" and tg: "at w (KToolGateway, gateway_ref_key route ref) = Some (OToolGateway tg)"
    and own: "claims_gateway at w tg cls" and up: "upstream_wanted (r_Lib r) route (at w) up"
    and free: "\<And>k. k \<in> route_keys tg route \<Longrightarrow> at w k = None"
  obtains w' route' c where "ToolRoute_Reconcile r req w = (None, w')" "healthy w'"
    "at w' (KToolRoute, req) = Some (OToolRoute route')"
    "route' = merged_tr route (tr_ready (r_Lib r) route (route_url tg (route_path route))) route"
    "l_find_condition (r_Lib r) (tr_Conditions route') readyConditionType = Some c" "cd_Status c = ConditionTrue"
    "route_settled (r_Lib r) tg route up (at w')"
proof -
  have req: "meta_key (tr_Meta route) = req" using at_key [OF st] by (simp add: key_of_def)
  obtain w1 where w1: "reconcileToolRoute r route tg w = ((route_path route, [], None), w1)" "healthy w1"
    by (rule reconcileToolRoute_live [OF w up free])
  have st1: "at w1 (KToolRoute, req) = Some (OToolRoute route)"
    using unchangedD [OF reconcileToolRoute_frame [OF w1(1)]] st by simp
  let ?n = "tr_ready (r_Lib r) route (route_url tg (route_path route))"
  have "at w1 (KToolRoute, meta_key (tr_Meta ?n)) = Some (OToolRoute route)" using st1 req by simp
  note at1 = this
  obtain w2 where w2: "patch_route r route ?n w1 = (None, w2)" "healthy w2" by (rule patch_route_live [OF w1(2) at1])
  have st2: "at w2 (KToolRoute, req) = Some (OToolRoute (merged_tr route ?n route))"
    using patch_route_at(1) [OF w2(1) at1] req by simp
  obtain w3 where w3: "route_updateStatusReady r route tg (route_path route) w1 = (None, w3)" "at w3 = at w2" "healthy w3"
    using w2 by (simp add: route_updateStatusReady_def Let_def)
  have run: "ToolRoute_Reconcile r req w = (None, w3)"
    using healthy_get_as [OF w st, of as_tool_route route] healthy_get_as [OF w tg, of as_tool_gateway tg]
      healthy_owned [OF w own] w1(1) w3(1)
    by (simp add: ToolRoute_Reconcile_def resolve_ref [OF ref])
  obtain up' where up': "resolveRouteUpstream (r_Lib r) (r_Client r) route w = Inr up'" "route_settled (r_Lib r) tg route up' (at w1)"
    using reconcileToolRoute_ok(2) [OF w1(1)] by blast
  have "up' = up" using up'(1) resolve_live [OF w up] by simp
  moreover have "route_settled (r_Lib r) tg route up' (at w2) = route_settled (r_Lib r) tg route up' (at w1)"
    by (rule route_store_cong(1)) (use unchangedD [OF patch_route_frame [OF w2(1)]] in \<open>auto simp: split_beta\<close>)
  ultimately have settled: "route_settled (r_Lib r) tg route up (at w3)" using up'(2) w3(2) by simp
  obtain c where c: "l_find_condition (r_Lib r) (tr_Conditions ?n) readyConditionType = Some c" "cd_Status c = ConditionTrue"
    using tr_ready_found by blast
  show thesis
    by (rule that [OF run w3(3), of "merged_tr route ?n route" c]) (use st2 w3(2) c settled in \<open>simp_all add: merged_ready\<close>)
qed

end

section \<open>A gateway becomes Ready\<close>

context nested_lib
begin

lemma set_second:
  assumes "absent_or_map (json_get (us_Object u) [a])"
  shows "\<exists>u'. set_object lib u [a, b] v = Inr u'"
proof (rule set_object_free)
  fix n :: nat
  assume "0 < n" "n < length [a, b]"
  then have "n = 1" by simp
  with assms show "absent_or_map (json_get (us_Object u) (take n [a, b]))" by (simp del: json_get.simps)
qed simp

lemma set_third:
  assumes "absent_or_map (json_get (us_Object u) [a])" "absent_or_map (json_get (us_Object u) [a, b])"
  shows "\<exists>u'. set_object lib u [a, b, c] v = Inr u'"
proof (rule set_object_free)
  fix n :: nat
  assume "0 < n" "n < length [a, b, c]"
  then have "n = 1 \<or> n = 2" by simp linarith
  with assms show "absent_or_map (json_get (us_Object u) (take n [a, b, c]))" by (auto simp: eval_nat_numeral simp del: json_get.simps)
qed simp

text \<open>On fresh parameters nothing but the conversion of the environment can fail.\<close>

lemma set_parameters_fresh:
  assumes u: "us_Object u = Map.empty"
    and envs: "toUnstructuredSlice (l_env_json lib) (filter (\<lambda>e. ev_Name e \<notin> set otel_variables) (tg_Env tg)) = Inr envs"
    and froms: "toUnstructuredSlice (l_env_from_json lib) (tg_EnvFrom tg) = Inr froms"
  obtains u' where "setAgentgatewayParametersSpec lib u tg = Inr u'"
proof -
  obtain p1 where 1: "set_raw_config lib u (buildTelemetryConfig (otel_of (tg_Env tg))) = Inr p1"
    and m1: "absent_or_map (json_get (us_Object p1) [''spec''])" "\<And>a q. a \<noteq> ''rawConfig'' \<Longrightarrow> json_get (us_Object p1) (''spec'' # a # q) = None"
  proof (cases "buildTelemetryConfig (otel_of (tg_Env tg))")
    case None
    have "l_remove_nested lib (us_Object u) [''spec'', ''rawConfig''] = us_Object u"
      by (rule remove_absent) (simp_all add: u)
    with None u show thesis by (intro that [of u]) (simp_all add: set_raw_config_def)
  next
    case (Some c)
    obtain p1 where p1: "set_object lib u [''spec'', ''rawConfig''] (JMap c) = Inr p1"
      using set_object_empty [OF u, of "[''spec'', ''rawConfig'']"] by blast
    show thesis
    proof (rule that [of p1])
      show "set_raw_config lib u (buildTelemetryConfig (otel_of (tg_Env tg))) = Inr p1"
        by (simp add: Some set_raw_config_def set_wrapped_ok p1)
      show "absent_or_map (json_get (us_Object p1) [''spec''])"
        by (rule parent_map [OF set_object_get [OF p1]]) simp_all
      show "json_get (us_Object p1) (''spec'' # a # q) = None" if "a \<noteq> ''rawConfig''" for a q
        using set_object_other [OF p1, of "''spec'' # a # q"] u that by (auto simp del: json_get.simps)
    qed
  qed
  obtain p2 where 2: "set_object lib p1 [''spec'', ''env''] (JList envs) = Inr p2" using set_second [OF m1(1)] by blast
  have m2: "absent_or_map (json_get (us_Object p2) [''spec''])" by (rule parent_map [OF set_object_get [OF 2]]) simp_all
  have o2: "json_get (us_Object p2) (''spec'' # a # q) = None" if "a \<notin> {''rawConfig'', ''env''}" for a q
    using set_object_other [OF 2, of "''spec'' # a # q"] m1(2) [of a q] that by (auto simp del: json_get.simps)
  have "json_get (us_Object p2) [''spec'', ''deployment''] = None" by (rule o2) simp
  then obtain p3 where 3: "set_object lib p2 [''spec'', ''deployment'', ''spec''] (deployment_spec_json froms) = Inr p3"
    using set_third [OF m2] by fastforce
  have m3: "absent_or_map (json_get (us_Object p3) [''spec''])" by (rule parent_map [OF set_object_get [OF 3]]) simp_all
  have "json_get (us_Object p3) [''spec'', ''service''] = json_get (us_Object p2) [''spec'', ''service'']"
    by (rule set_object_other [OF 3]) simp_all
  also have "\<dots> = None" by (rule o2) simp
  finally obtain u' where 4: "set_object lib p3 [''spec'', ''service'', ''spec''] (jmap [(''type'', JStr ''ClusterIP'')]) = Inr u'"
    using set_third [OF m3] by fastforce
  show thesis
    by (rule that [of u']) (simp add: setAgentgatewayParametersSpec_def extract_eq set_wrapped_ok [THEN iffD2] 1 2 3 4 envs froms)
qed

end

text \<open>A gateway has no guard, or one that is Ready.\<close>

definition guards_ready :: "klib \<Rightarrow> tool_gateway \<Rightarrow> (okey \<Rightarrow> kobj option) \<Rightarrow> bool" where
  "guards_ready lib tg store =
     (tg_Guardrails tg = [] \<or> (\<exists>ref. tg_Guardrails tg = [ref] \<and> guard_is_ready lib (store (KGuard, guard_ref_key tg ref))))"

context healthy_gateway
begin

lemma ensureGateway_live:
  assumes "healthy w" "at w (KGateway, tg_name_key tg) = None"
  obtains w' where "ensureGateway r tg w = (None, w')" "healthy w'"
proof -
  let ?g = "\<lparr>gw_Meta = new_meta (m_Name (tg_Meta tg)) (m_Namespace (tg_Meta tg)), gw_Spec = empty_gateway_spec\<rparr>"
  obtain m where m: "l_set_controller (r_Lib r) KToolGateway (tg_Meta tg) (gw_Meta ?g) = Inr m" "meta_key m = meta_key (tg_Meta tg)"
    using fresh_controller [of KToolGateway "tg_Meta tg" "m_Name (tg_Meta tg)"] by (auto simp: meta_key_def)
  obtain g' where f: "on_gateway (gateway_mutate (r_Lib r) tg) (OGateway ?g) = Inr (OGateway g')" "gw_Meta g' = m"
    using m(1) by (simp add: on_gateway_def gateway_mutate_def)
  have k: "key_of (OGateway g') = key_of (OGateway ?g)" using f(2) m(2) by (simp add: key_simps new_meta_def)
  have "at w (key_of (OGateway ?g)) = None" using assms(2) by (simp add: tg_name_key_def key_simps new_meta_def)
  from cop_fresh [OF assms(1) this, where f = "on_gateway (gateway_mutate (r_Lib r) tg)"] f(1) k
  obtain op w' where "c_create_or_patch (r_Client r) (OGateway ?g) (on_gateway (gateway_mutate (r_Lib r) tg)) w = (Inr op, w')"
      "healthy w'" by blast
  with that show thesis by (simp add: ensureGateway_def)
qed

lemma ensureParameters_live:
  assumes "healthy w" "at w (KParameters, tg_name_key tg) = None"
    and envs: "toUnstructuredSlice (l_env_json (r_Lib r)) (filter (\<lambda>e. ev_Name e \<notin> set otel_variables) (tg_Env tg)) = Inr envs"
    and froms: "toUnstructuredSlice (l_env_from_json (r_Lib r)) (tg_EnvFrom tg) = Inr froms"
  obtains w' where "ensureAgentgatewayParameters r tg w = (None, w')" "healthy w'"
proof -
  let ?u = "newAgentgatewayParameters (m_Name (tg_Meta tg)) (m_Namespace (tg_Meta tg))"
  obtain m where m: "l_set_controller (r_Lib r) KToolGateway (tg_Meta tg) (us_Meta ?u) = Inr m" "meta_key m = meta_key (tg_Meta tg)"
    using fresh_controller [of KToolGateway "tg_Meta tg" "m_Name (tg_Meta tg)"] by (auto simp: meta_key_def newAgentgatewayParameters_def)
  have "us_Object (?u\<lparr>us_Meta := m\<rparr>) = Map.empty" by (simp add: newAgentgatewayParameters_def)
  from set_parameters_fresh [OF this envs froms]
  obtain u' where u': "setAgentgatewayParametersSpec (r_Lib r) (?u\<lparr>us_Meta := m\<rparr>) tg = Inr u'" by blast
  have f: "on_unstructured (params_mutate (r_Lib r) tg) (OUnstructured ?u) = Inr (OUnstructured u')"
    using m(1) u' by (simp add: on_unstructured_def params_mutate_def)
  have k: "key_of (OUnstructured u') = key_of (OUnstructured ?u)"
    using set_parameters_ok(2) [OF u'] m(2) by (simp add: key_of_def newAgentgatewayParameters_def meta_key_def new_meta_def)
  have "at w (key_of (OUnstructured ?u)) = None" using assms(2) by (simp add: tg_name_key_def meta_key_def)
  from cop_fresh [OF assms(1) this, where f = "on_unstructured (params_mutate (r_Lib r) tg)"] f k
  obtain op w' where "c_create_or_patch (r_Client r) (OUnstructured ?u) (on_unstructured (params_mutate (r_Lib r) tg)) w = (Inr op, w')"
      "healthy w'" by blast
  with that show thesis by (simp add: ensureAgentgatewayParameters_def)
qed

lemma guard_check_live:
  assumes "healthy w" "guard_is_ready (r_Lib r) (at w (KGuard, gk))"
  shows "guard_check r gk w = None"
proof -
  obtain g c where g: "at w (KGuard, gk) = Some (OGuard g)"
    and c: "l_find_condition (r_Lib r) (g_Conditions g) ''Ready'' = Some c" "cd_Status c = ConditionTrue"
    using assms(2) by (auto simp: guard_is_ready_def)
  from healthy_get_as [OF assms(1) g, of as_guard g] c show ?thesis by (simp add: guard_check_def)
qed

lemma ensureGuardrails_live:
  assumes "healthy w" "at w (KPolicy, guardrail_key tg) = None" and "guards_ready (r_Lib r) tg (at w)"
  obtains w' where "ensureGuardrails r tg w = (None, clear_unsupported (r_Lib r) tg, w')" "healthy w'"
proof (cases "tg_Guardrails tg")
  case Nil
  let ?k = "key_of (OUnstructured (newAgentgatewayPolicy (guardrail_name tg) (m_Namespace (tg_Meta tg))))"
  obtain x w' where "c_delete (r_Client r) ?k w = (x, w')" "healthy w'" "\<forall>e. x = Some e \<longrightarrow> is_not_found e"
    using healthy_delete [OF assms(1)] by blast
  with Nil that show thesis by (cases x) (auto simp: ensureGuardrails_def)
next
  case (Cons ref refs)
  then have ref: "tg_Guardrails tg = [ref]" and ready: "guard_is_ready (r_Lib r) (at w (KGuard, guard_ref_key tg ref))"
    using assms(3) by (auto simp: guards_ready_def)
  let ?gk = "guard_ref_key tg ref"
  let ?u = "newAgentgatewayPolicy (guardrail_name tg) (m_Namespace (tg_Meta tg))"
  obtain m where m: "l_set_controller (r_Lib r) KToolGateway (tg_Meta tg) (us_Meta ?u) = Inr m" "meta_key m = guardrail_key tg"
    using fresh_controller [of KToolGateway "tg_Meta tg" "guardrail_name tg"] by (auto simp: guardrail_key_def newAgentgatewayPolicy_def)
  have "us_Object (?u\<lparr>us_Meta := m\<rparr>) = Map.empty" by (simp add: newAgentgatewayPolicy_def)
  from set_object_empty [OF this, of "[''spec'']"]
  obtain u' where u': "set_object (r_Lib r) (?u\<lparr>us_Meta := m\<rparr>) [''spec'']
      (buildGuardrailPolicySpec (m_Name (tg_Meta tg)) (snd ?gk) (fst ?gk)) = Inr u'" by blast
  have f: "on_unstructured (guardrail_mutate (r_Lib r) tg ?gk) (OUnstructured ?u) = Inr (OUnstructured u')"
    using m(1) u' by (simp add: on_unstructured_def guardrail_mutate_def)
  have k: "key_of (OUnstructured u') = key_of (OUnstructured ?u)"
    using set_object_frame [OF u'] m(2) by (simp add: key_of_def newAgentgatewayPolicy_def guardrail_key_def)
  have "at w (key_of (OUnstructured ?u)) = None" using assms(2) by (simp add: guardrail_key_def)
  from cop_fresh [OF assms(1) this, where f = "on_unstructured (guardrail_mutate (r_Lib r) tg ?gk)"] f k
  obtain op w' where "c_create_or_patch (r_Client r) (OUnstructured ?u) (on_unstructured (guardrail_mutate (r_Lib r) tg ?gk)) w = (Inr op, w')"
      "healthy w'" by blast
  with that ref guard_check_live [OF assms(1) ready] show thesis by (simp add: ensureGuardrails_def Let_def)
qed

lemma gateway_live:
  assumes w: "healthy w" and st: "at w (KToolGateway, req) = Some (OToolGateway tg)" and own: "claims_gateway at w tg cls"
    and free: "\<And>k. k \<in> gateway_keys tg \<Longrightarrow> at w k = None" and guards: "guards_ready (r_Lib r) tg (at w)"
    and envs: "toUnstructuredSlice (l_env_json (r_Lib r)) (filter (\<lambda>e. ev_Name e \<notin> set otel_variables) (tg_Env tg)) = Inr envs"
    and froms: "toUnstructuredSlice (l_env_from_json (r_Lib r)) (tg_EnvFrom tg) = Inr froms"
  obtains w' tg' c where "ToolGateway_Reconcile r req w = (None, w')" "healthy w'"
    "at w' (KToolGateway, req) = Some (OToolGateway tg')"
    "tg' = merged_tg (clear_unsupported (r_Lib r) tg) (tg_ready (r_Lib r) (clear_unsupported (r_Lib r) tg)) tg"
    "l_find_condition (r_Lib r) (tg_Conditions tg') readyConditionType = Some c" "cd_Status c = ConditionTrue"
    "gateway_settled (r_Lib r) tg (at w')"
proof -
  have req: "meta_key (tg_Meta tg) = req" using at_key [OF st] by (simp add: key_of_def)
  have p: "at w (KParameters, tg_name_key tg) = None" and g: "at w (KGateway, tg_name_key tg) = None"
    and q: "at w (KPolicy, guardrail_key tg) = None" by (rule free; simp add: gateway_keys_def)+
  obtain w1 where w1: "ensureAgentgatewayParameters r tg w = (None, w1)" "healthy w1" by (rule ensureParameters_live [OF w p envs froms])
  note f1 = unchangedD [OF ensureParameters_frame [OF w1(1)]]
  have "at w1 (KGateway, tg_name_key tg) = None" using f1 g by simp
  then obtain w2 where w2: "ensureGateway r tg w1 = (None, w2)" "healthy w2" by (rule ensureGateway_live [OF w1(2)])
  note f2 = unchangedD [OF ensureGateway_frame [OF w2(1)]]
  have q2: "at w2 (KPolicy, guardrail_key tg) = None" using f1 f2 q by simp
  have "at w2 (KGuard, k) = at w (KGuard, k)" for k using f1 f2 by (simp add: KParameters_def)
  then have "guards_ready (r_Lib r) tg (at w2)" using guards by (simp add: guards_ready_def)
  with q2 obtain w3 where w3: "ensureGuardrails r tg w2 = (None, clear_unsupported (r_Lib r) tg, w3)" "healthy w3"
    by (rule ensureGuardrails_live [OF w2(2)])
  let ?b = "clear_unsupported (r_Lib r) tg"
  let ?n = "tg_ready (r_Lib r) ?b"
  have rt: "reconcileToolGateway r tg w = (([], None), ?b, w3)" by (simp add: reconcileToolGateway_def w1 w2 w3)
  have st3: "at w3 (KToolGateway, meta_key (tg_Meta ?n)) = Some (OToolGateway tg)"
    using unchangedD [OF reconcileToolGateway_frame [OF rt] KGuard_keys(2)] st req by (simp add: tg_ready_def clear_unsupported_def)
  have "at w3 (key_of (OToolGateway ?n)) \<noteq> None" using st3 by (simp add: key_of_def)
  from healthy_patch [OF w3(2) this, of "OToolGateway ?b"] obtain w4 where
    w4: "patch_tg r ?b ?n w3 = (None, w4)" "healthy w4" by (auto simp: patch_tg_def)
  have run: "ToolGateway_Reconcile r req w = (None, w4)"
    using healthy_get_as [OF w st, of as_tool_gateway tg] healthy_owned [OF w own] rt w4(1)
    by (simp add: ToolGateway_Reconcile_def updateStatusReady_def)
  have st4: "at w4 (KToolGateway, req) = Some (OToolGateway (merged_tg ?b ?n tg))"
    using patch_tg_at(1) [OF w4(1) st3] req by (simp add: tg_ready_def clear_unsupported_def)
  obtain c where c: "l_find_condition (r_Lib r) (tg_Conditions ?n) readyConditionType = Some c" "cd_Status c = ConditionTrue"
    using find_set [of "tg_Conditions ?b" "ready_condition (tg_Meta tg) ConditionTrue reasonReconciled ''Gateway and its backing resources are configured''"]
      same_ready by (fastforce simp: tg_ready_def clear_unsupported_def)
  have "l_find_condition (r_Lib r) (tg_Conditions (merged_tg ?b ?n tg)) readyConditionType = Some c"
  proof (cases "tg_Conditions ?b = tg_Conditions ?n")
    case True
    then have "tg_Conditions (merged_tg ?b ?n tg) = tg_Conditions tg" by (simp add: merged_tg_def patch_field_def)
    moreover have "l_find_condition (r_Lib r) (tg_Conditions ?b) readyConditionType = l_find_condition (r_Lib r) (tg_Conditions tg) readyConditionType"
      by (simp add: clear_unsupported_def find_remove_other)
    ultimately show ?thesis using c(1) True by simp
  qed (use c(1) in \<open>simp add: merged_tg_def patch_field_def\<close>)
  moreover have "gateway_settled (r_Lib r) tg (at w4) = gateway_settled (r_Lib r) tg (at w3)"
    by (rule store_cong(1)) (use unchangedD [OF patch_tg_frame [OF w4(1)]] in \<open>auto simp: split_beta\<close>)
  moreover have "gateway_settled (r_Lib r) tg (at w3)" using reconcileToolGateway_ok(2) [OF rt] .
  ultimately show thesis using that [OF run w4(2) st4 refl _ c(2)] by simp
qed

end

section \<open>A guard becomes Ready\<close>

context healthy_guard
begin

lemma fresh_adapter:
  obtains m where "l_set_controller (r_Lib r) KGuard (g_Meta g) (new_meta (adapterName g) (m_Namespace (g_Meta g))) = Inr m"
    "meta_key m = adapter_key g"
  by (rule fresh_controller [of KGuard "g_Meta g" "adapterName g"]) (simp add: adapter_key_def)

lemma ensureConfigMap_live:
  assumes "healthy w" "at w (KConfigMap, adapter_key g) = None"
  obtains w' where "ensureConfigMap r g data w = (None, w')" "healthy w'"
proof -
  let ?c = "\<lparr>cm_Meta = new_meta (adapterName g) (m_Namespace (g_Meta g)), cm_Data = None\<rparr>"
  obtain m where m: "l_set_controller (r_Lib r) KGuard (g_Meta g) (cm_Meta ?c) = Inr m" "meta_key m = adapter_key g"
    using fresh_adapter [of g] by auto
  obtain c' where f: "on_config_map (config_map_mutate (r_Lib r) g data) (OConfigMap ?c) = Inr (OConfigMap c')" "cm_Meta c' = m"
    using m(1) by (simp add: on_config_map_def config_map_mutate_def)
  have k: "key_of (OConfigMap c') = key_of (OConfigMap ?c)" using f(2) m(2) by (simp add: key_of_def adapter_key_def)
  have "at w (key_of (OConfigMap ?c)) = None" using assms(2) by (simp add: key_of_def adapter_key_def)
  from cop_fresh [OF assms(1) this, where f = "on_config_map (config_map_mutate (r_Lib r) g data)"] f(1) k
  obtain op w' where "c_create_or_patch (r_Client r) (OConfigMap ?c) (on_config_map (config_map_mutate (r_Lib r) g data)) w = (Inr op, w')"
      "healthy w'" by blast
  with that show thesis by (simp add: ensureConfigMap_def)
qed

lemma ensureDeployment_live:
  assumes "healthy w" "at w (KDeployment, adapter_key g) = None"
  obtains w' where "ensureDeployment r g h w = (None, w')" "healthy w'"
proof -
  let ?d = "\<lparr>dp_Meta = new_meta (adapterName g) (m_Namespace (g_Meta g)), dp_Replicas = None, dp_Selector = None,
      dp_TemplateLabels = None, dp_TemplateAnnotations = None, dp_PodSpec = empty_pod_spec\<rparr>"
  let ?f = "on_deployment (deployment_mutate (r_Lib r) (r_AdapterImage r) g h)"
  obtain m where m: "l_set_controller (r_Lib r) KGuard (g_Meta g) (dp_Meta ?d) = Inr m" "meta_key m = adapter_key g"
    using fresh_adapter [of g] by auto
  obtain d' where f: "?f (ODeployment ?d) = Inr (ODeployment d')" "dp_Meta d' = m"
    using m(1) by (simp add: on_deployment_def deployment_mutate_def Let_def)
  have k: "key_of (ODeployment d') = key_of (ODeployment ?d)" using f(2) m(2) by (simp add: key_of_def adapter_key_def)
  have "at w (key_of (ODeployment ?d)) = None" using assms(2) by (simp add: key_of_def adapter_key_def)
  from cop_fresh [OF assms(1) this, where f = ?f] f(1) k
  obtain op w' where "c_create_or_patch (r_Client r) (ODeployment ?d) ?f w = (Inr op, w')" "healthy w'" by blast
  with that show thesis by (simp add: ensureDeployment_def)
qed

lemma ensureService_live:
  assumes "healthy w" "at w (KService, adapter_key g) = None"
  obtains w' where "ensureService r g w = (None, w')" "healthy w'"
proof -
  let ?s = "\<lparr>sv_Meta = new_meta (adapterName g) (m_Namespace (g_Meta g)), sv_Selector = None, sv_Ports = []\<rparr>"
  let ?f = "on_service (service_mutate (r_Lib r) g)"
  obtain m where m: "l_set_controller (r_Lib r) KGuard (g_Meta g) (sv_Meta ?s) = Inr m" "meta_key m = adapter_key g"
    using fresh_adapter [of g] by auto
  obtain s' where f: "?f (OService ?s) = Inr (OService s')" "sv_Meta s' = m"
    using m(1) by (simp add: on_service_def service_mutate_def)
  have k: "key_of (OService s') = key_of (OService ?s)" using f(2) m(2) by (simp add: key_of_def adapter_key_def)
  have "at w (key_of (OService ?s)) = None" using assms(2) by (simp add: key_of_def adapter_key_def)
  from cop_fresh [OF assms(1) this, where f = ?f] f(1) k
  obtain op w' where "c_create_or_patch (r_Client r) (OService ?s) ?f w = (Inr op, w')" "healthy w'" by blast
  with that show thesis by (simp add: ensureService_def)
qed

lemma guard_live:
  assumes w: "healthy w" and st: "at w (KGuard, req) = Some (OGuard g)" and img: "r_AdapterImage r \<noteq> []"
    and p: "at w (KGuardrailProvider, provider_key g) = Some (OGuardrailProvider p)" and valid: "valid_guard g p"
    and yaml: "l_json_to_yaml (r_Lib r) (guard_static_config g p) = Inr data"
    and free: "\<And>k. k \<in> adapter_keys g \<Longrightarrow> at w k = None"
  obtains w' g' c where "Guard_Reconcile r req w = (None, w')" "healthy w'" "at w' (KGuard, req) = Some (OGuard g')"
    "g' = set_guard_ready (r_Lib r) g ConditionTrue guardReasonReconciled ''Adapter resources reconciled''"
    "l_find_condition (r_Lib r) (g_Conditions g') guardReadyType = Some c" "cd_Status c = ConditionTrue"
    "adapter_settled (r_Lib r) (r_AdapterImage r) g data (at w')"
proof -
  have req: "meta_key (g_Meta g) = req" using at_key [OF st] by (simp add: key_of_def)
  have c: "at w (KConfigMap, adapter_key g) = None" and d: "at w (KDeployment, adapter_key g) = None"
    and s: "at w (KService, adapter_key g) = None" by (rule free; simp add: adapter_keys_def)+
  obtain w1 where w1: "ensureConfigMap r g data w = (None, w1)" "healthy w1" by (rule ensureConfigMap_live [OF w c])
  note f1 = unchangedD [OF ensureConfigMap_frame [OF w1(1)]]
  have d1: "at w1 (KDeployment, adapter_key g) = None" using f1 d by simp
  obtain w2 where w2: "ensureDeployment r g (hex_encode (sum256 data)) w1 = (None, w2)" "healthy w2"
    by (rule ensureDeployment_live [OF w1(2) d1])
  note f2 = unchangedD [OF ensureDeployment_frame [OF w2(1)]]
  have s2: "at w2 (KService, adapter_key g) = None" using f1 f2 s by simp
  obtain w3 where w3: "ensureService r g w2 = (None, w3)" "healthy w3" by (rule ensureService_live [OF w2(2) s2])
  have "fetchProvider r g w = Inr p" using healthy_get_as [OF w p, of as_provider p] by (simp add: fetchProvider_def)
  then have rg: "reconcileGuard r g w = (([], [], None), w3)"
    using img render_valid [OF valid, of "r_Lib r"] yaml by (simp add: reconcileGuard_def w1 w2 w3)
  have st3: "at w3 (KGuard, meta_key (g_Meta g)) = Some (OGuard g)"
    using unchangedD [OF reconcileGuard_frame [OF rg] guard_not_adapter] st req by simp
  let ?n = "set_guard_ready (r_Lib r) g ConditionTrue guardReasonReconciled ''Adapter resources reconciled''"
  have "at w3 (key_of (OGuard ?n)) \<noteq> None" using st3 by (simp add: key_of_def set_guard_ready_def)
  from healthy_patch [OF w3(2) this, of "OGuard g"] obtain w4 where
    w4: "setReadyCondition r g ConditionTrue guardReasonReconciled ''Adapter resources reconciled'' w3 = (None, w4)" "healthy w4"
    by (auto simp: setReadyCondition_def)
  have run: "Guard_Reconcile r req w = (None, w4)"
    using healthy_get_as [OF w st, of as_guard g] rg w4(1) by (simp add: Guard_Reconcile_def)
  have st4: "at w4 (KGuard, req) = Some (OGuard ?n)" using setReady_at(1) [OF w4(1) st3] req by simp
  obtain cnd where cnd: "l_find_condition (r_Lib r) (g_Conditions ?n) guardReadyType = Some cnd" "cd_Status cnd = ConditionTrue"
    using find_guard_ready by blast
  obtain p' data' where s': "fetchProvider r g w = Inr p'" "l_json_to_yaml (r_Lib r) (guard_static_config g p') = Inr data'"
      "adapter_settled (r_Lib r) (r_AdapterImage r) g data' (at w3)"
    using reconcileGuard_ok [OF rg] by metis
  have "data' = data" using s'(1,2) \<open>fetchProvider r g w = Inr p\<close> yaml by simp
  moreover have "adapter_settled (r_Lib r) (r_AdapterImage r) g data' (at w4)"
    using s'(3) unchangedD [OF setReady_frame [OF w4(1)]] by (simp add: adapter_settled_def)
  ultimately show thesis using that [OF run w4(2) st4 refl cnd] by simp
qed

end

section \<open>From the user's objects to a served route\<close>

text \<open>
  What a user applies: a valid guard with its provider, a gateway of our class protected by the
  guard, a route on the gateway with a resolvable upstream; no object has the name of one that
  the controllers will create, and the library converts what it is given.
\<close>

definition applied ::
  "klib \<Rightarrow> ('w \<Rightarrow> okey \<Rightarrow> kobj option) \<Rightarrow> 'w \<Rightarrow> guard \<Rightarrow> tool_gateway \<Rightarrow> tool_route \<Rightarrow> string \<times> 32 word \<times> string \<Rightarrow> bool" where
  "applied lib at w g tg rt up =
     (at w (key_of (OGuard g)) = Some (OGuard g)
      \<and> (\<exists>p data. at w (KGuardrailProvider, provider_key g) = Some (OGuardrailProvider p) \<and> valid_guard g p
           \<and> l_json_to_yaml lib (guard_static_config g p) = Inr data)
      \<and> at w (key_of (OToolGateway tg)) = Some (OToolGateway tg) \<and> (\<exists>c. claims_gateway at w tg c)
      \<and> (\<exists>ref. tg_Guardrails tg = [ref] \<and> guard_ref_key tg ref = meta_key (g_Meta g))
      \<and> (\<exists>envs. toUnstructuredSlice (l_env_json lib) (filter (\<lambda>e. ev_Name e \<notin> set otel_variables) (tg_Env tg)) = Inr envs)
      \<and> (\<exists>froms. toUnstructuredSlice (l_env_from_json lib) (tg_EnvFrom tg) = Inr froms)
      \<and> at w (key_of (OToolRoute rt)) = Some (OToolRoute rt)
      \<and> (\<exists>ref. tr_ToolGatewayRef rt = Some ref \<and> gateway_ref_key rt ref = meta_key (tg_Meta tg))
      \<and> upstream_wanted lib rt (at w) up
      \<and> (\<forall>k \<in> adapter_keys g \<union> gateway_keys tg \<union> route_keys tg rt. at w k = None))"

locale healthy_tool_operator =
  healthy_gateway r at events healthy + guards: healthy_guard gr at events healthy + tool_operator r gr at events
  for r :: "'w reconciler" and gr :: "'w guard_reconciler"
    and at :: "'w \<Rightarrow> okey \<Rightarrow> kobj option" and events :: "'w \<Rightarrow> kevent list" and healthy :: "'w \<Rightarrow> bool"
begin

lemma route_keys_meta: "tg_Meta a = tg_Meta b \<Longrightarrow> route_keys a rt = route_keys b rt"
  by (simp add: route_keys_def route_object_key_def filter_policy_key_def route_object_name_def filter_policy_name_def)

text \<open>The guard, then the gateway: what the route finds.\<close>

lemma converges_gateway:
  assumes w: "healthy w" and img: "r_AdapterImage gr \<noteq> []" and a: "applied (r_Lib r) at w g tg rt up"
  obtains w1 w2 p data g' tg' cls where "Guard_Reconcile gr (meta_key (g_Meta g)) w = (None, w1)"
    "ToolGateway_Reconcile r (meta_key (tg_Meta tg)) w1 = (None, w2)" "healthy w1" "healthy w2"
    "\<forall>kd k. kd \<in> {KGuardrailProvider, KToolServer, KToolGatewayClass, KToolRoute} \<longrightarrow> at w2 (kd, k) = at w (kd, k)"
    "at w (KGuardrailProvider, provider_key g) = Some (OGuardrailProvider p)" "valid_guard g p"
    "l_json_to_yaml (r_Lib r) (guard_static_config g p) = Inr data"
    "at w2 (KGuard, meta_key (g_Meta g)) = Some (OGuard g')"
    "g' = set_guard_ready (r_Lib r) g ConditionTrue guardReasonReconciled ''Adapter resources reconciled''"
    "guard_is_ready (r_Lib r) (at w2 (KGuard, meta_key (g_Meta g)))" "adapter_settled (r_Lib r) (r_AdapterImage gr) g data (at w2)"
    "at w2 (KToolGateway, meta_key (tg_Meta tg)) = Some (OToolGateway tg')"
    "tg' = merged_tg (clear_unsupported (r_Lib r) tg) (tg_ready (r_Lib r) (clear_unsupported (r_Lib r) tg)) tg"
    "is_condition_true (r_Lib r) (tg_Conditions tg') readyConditionType" "gateway_settled (r_Lib r) tg (at w2)"
    "claims_gateway at w2 tg' cls" "\<forall>k. k \<in> route_keys tg rt \<longrightarrow> at w2 k = None"
proof -
  obtain p data cls ref envs froms where g: "at w (KGuard, meta_key (g_Meta g)) = Some (OGuard g)"
    and p: "at w (KGuardrailProvider, provider_key g) = Some (OGuardrailProvider p)" "valid_guard g p"
      "l_json_to_yaml (r_Lib r) (guard_static_config g p) = Inr data"
    and tg: "at w (KToolGateway, meta_key (tg_Meta tg)) = Some (OToolGateway tg)" and cls: "claims_gateway at w tg cls"
    and ref: "tg_Guardrails tg = [ref]" "guard_ref_key tg ref = meta_key (g_Meta g)"
    and envs: "toUnstructuredSlice (l_env_json (r_Lib r)) (filter (\<lambda>e. ev_Name e \<notin> set otel_variables) (tg_Env tg)) = Inr envs"
    and froms: "toUnstructuredSlice (l_env_from_json (r_Lib r)) (tg_EnvFrom tg) = Inr froms"
    and free: "\<And>k. k \<in> adapter_keys g \<union> gateway_keys tg \<union> route_keys tg rt \<Longrightarrow> at w k = None"
    using a unfolding applied_def key_of_def kind_of.simps meta_of.simps by blast
  have fg: "\<And>k. k \<in> adapter_keys g \<Longrightarrow> at w k = None" by (rule free) simp
  obtain w1 g' c1 where w1: "Guard_Reconcile gr (meta_key (g_Meta g)) w = (None, w1)" "healthy w1"
    and g1: "at w1 (KGuard, meta_key (g_Meta g)) = Some (OGuard g')"
    and g': "g' = set_guard_ready (r_Lib r) g ConditionTrue guardReasonReconciled ''Adapter resources reconciled''"
    and c1: "l_find_condition (r_Lib r) (g_Conditions g') guardReadyType = Some c1" "cd_Status c1 = ConditionTrue"
    and ad1: "adapter_settled (r_Lib r) (r_AdapterImage gr) g data (at w1)"
    by (rule guards.guard_live [OF w g img p(1,2) _ fg, unfolded shared_lib, OF p(3)])
  note k1 = guard_kinds [OF w1(1) g]
  have cls1: "claims_gateway at w1 tg cls" using cls k1 by (simp add: claims_gateway_def key_of_def)
  have tg1: "at w1 (KToolGateway, meta_key (tg_Meta tg)) = Some (OToolGateway tg)" using tg k1 by simp
  have free1: "at w1 k = None" if "k \<in> gateway_keys tg \<union> route_keys tg rt" for k
    using k1 [of k] free [of k] that by (auto simp: gateway_keys_def route_keys_def KParameters_def KPolicy_def KBackend_def)
  have ready1: "guard_is_ready (r_Lib r) (at w1 (KGuard, meta_key (g_Meta g)))"
    using g1 c1 by (simp add: guard_is_ready_def guardReadyType_def)
  then have guards1: "guards_ready (r_Lib r) tg (at w1)" using ref by (simp add: guards_ready_def)
  obtain w2 tg' c2 where w2: "ToolGateway_Reconcile r (meta_key (tg_Meta tg)) w1 = (None, w2)" "healthy w2"
    and tg2: "at w2 (KToolGateway, meta_key (tg_Meta tg)) = Some (OToolGateway tg')"
    and tg': "tg' = merged_tg (clear_unsupported (r_Lib r) tg) (tg_ready (r_Lib r) (clear_unsupported (r_Lib r) tg)) tg"
    and c2: "l_find_condition (r_Lib r) (tg_Conditions tg') readyConditionType = Some c2" "cd_Status c2 = ConditionTrue"
    and gs2: "gateway_settled (r_Lib r) tg (at w2)"
    by (rule gateway_live [OF w1(2) tg1 cls1 free1 guards1 envs froms]) simp_all
  note k2 = gateway_kinds [OF w2(1) tg1, unfolded KParameters_def KPolicy_def]
  have free2: "at w2 k = None" if "k \<in> route_keys tg rt" for k
  proof -
    have "k \<notin> insert (KToolGateway, meta_key (tg_Meta tg)) (gateway_keys tg)"
      using that filter_not_guardrail [of tg rt tg]
      by (auto simp: gateway_keys_def route_keys_def guardrail_key_def filter_policy_key_def KBackend_def KPolicy_def KParameters_def)
    then have "at w2 k = at w1 k" using gateway_frame [OF w2(1) tg1, of k] by blast
    with free1 that show ?thesis by simp
  qed
  have cls2: "claims_gateway at w2 tg' cls" using cls1 k2 by (simp add: claims_gateway_def key_of_def tg' merged_tg_def)
  have frame: "at w2 (kd, k) = at w (kd, k)" if "kd \<in> {KGuardrailProvider, KToolServer, KToolGatewayClass, KToolRoute}" for kd k
    using that k1 [of "(kd, k)"] k2 [of "(kd, k)"] by (elim insertE; simp)
  have guard: "at w2 (KGuard, meta_key (g_Meta g)) = Some (OGuard g')" "guard_is_ready (r_Lib r) (at w2 (KGuard, meta_key (g_Meta g)))"
    "adapter_settled (r_Lib r) (r_AdapterImage gr) g data (at w2)"
    using g1 ready1 ad1 k2 by (simp_all add: adapter_settled_def)
  show thesis
    by (rule that [OF w1(1) w2(1) w1(2) w2(2) _ p guard(1) g' guard(2,3) tg2 tg' _ gs2 cls2])
      (use c2 frame free2 in \<open>simp_all add: is_condition_true_def\<close>)
qed

text \<open>Guard, gateway and route reconciled in this order all end Ready.\<close>

lemma converges:
  assumes w: "healthy w" and img: "r_AdapterImage gr \<noteq> []" and a: "applied (r_Lib r) at w g tg rt up"
  obtains w1 w2 w3 p data g' tg' rt' where "Guard_Reconcile gr (meta_key (g_Meta g)) w = (None, w1)"
    "ToolGateway_Reconcile r (meta_key (tg_Meta tg)) w1 = (None, w2)"
    "ToolRoute_Reconcile r (meta_key (tr_Meta rt)) w2 = (None, w3)"
    "healthy w1" "healthy w2" "healthy w3" "\<forall>k. at w3 (KGuardrailProvider, k) = at w (KGuardrailProvider, k)"
    "\<forall>k. at w3 (KToolServer, k) = at w (KToolServer, k)"
    "\<forall>k. at w3 (KToolGatewayClass, k) = at w (KToolGatewayClass, k)"
    "at w (KGuardrailProvider, provider_key g) = Some (OGuardrailProvider p)" "valid_guard g p"
    "l_json_to_yaml (r_Lib r) (guard_static_config g p) = Inr data"
    "at w3 (KGuard, meta_key (g_Meta g)) = Some (OGuard g')"
    "g' = set_guard_ready (r_Lib r) g ConditionTrue guardReasonReconciled ''Adapter resources reconciled''"
    "guard_is_ready (r_Lib r) (at w3 (KGuard, meta_key (g_Meta g)))" "adapter_settled (r_Lib r) (r_AdapterImage gr) g data (at w3)"
    "at w3 (KToolGateway, meta_key (tg_Meta tg)) = Some (OToolGateway tg')"
    "tg' = merged_tg (clear_unsupported (r_Lib r) tg) (tg_ready (r_Lib r) (clear_unsupported (r_Lib r) tg)) tg"
    "is_condition_true (r_Lib r) (tg_Conditions tg') readyConditionType" "gateway_settled (r_Lib r) tg (at w3)"
    "at w3 (KToolRoute, meta_key (tr_Meta rt)) = Some (OToolRoute rt')"
    "rt' = merged_tr rt (tr_ready (r_Lib r) rt (route_url tg (route_path rt))) rt"
    "is_condition_true (r_Lib r) (tr_Conditions rt') readyConditionType" "route_settled (r_Lib r) tg rt up (at w3)"
proof -
  obtain w1 w2 p data g' tg' cls where w1: "Guard_Reconcile gr (meta_key (g_Meta g)) w = (None, w1)"
    and w2: "ToolGateway_Reconcile r (meta_key (tg_Meta tg)) w1 = (None, w2)" and ok: "healthy w1" "healthy w2"
    and frame: "\<forall>kd k. kd \<in> {KGuardrailProvider, KToolServer, KToolGatewayClass, KToolRoute} \<longrightarrow> at w2 (kd, k) = at w (kd, k)"
    and p: "at w (KGuardrailProvider, provider_key g) = Some (OGuardrailProvider p)" "valid_guard g p"
      "l_json_to_yaml (r_Lib r) (guard_static_config g p) = Inr data"
    and g2: "at w2 (KGuard, meta_key (g_Meta g)) = Some (OGuard g')"
      "g' = set_guard_ready (r_Lib r) g ConditionTrue guardReasonReconciled ''Adapter resources reconciled''"
    and gr2: "guard_is_ready (r_Lib r) (at w2 (KGuard, meta_key (g_Meta g)))" and ad2: "adapter_settled (r_Lib r) (r_AdapterImage gr) g data (at w2)"
    and tg2: "at w2 (KToolGateway, meta_key (tg_Meta tg)) = Some (OToolGateway tg')"
      "tg' = merged_tg (clear_unsupported (r_Lib r) tg) (tg_ready (r_Lib r) (clear_unsupported (r_Lib r) tg)) tg"
      "is_condition_true (r_Lib r) (tg_Conditions tg') readyConditionType" and gs2: "gateway_settled (r_Lib r) tg (at w2)"
    and cls2: "claims_gateway at w2 tg' cls" and free: "\<forall>k. k \<in> route_keys tg rt \<longrightarrow> at w2 k = None"
    by (rule converges_gateway [OF w img a])
  obtain ref tref where ref: "tg_Guardrails tg = [ref]" and rt: "at w (KToolRoute, meta_key (tr_Meta rt)) = Some (OToolRoute rt)"
    and tref: "tr_ToolGatewayRef rt = Some tref" "gateway_ref_key rt tref = meta_key (tg_Meta tg)"
    and up: "upstream_wanted (r_Lib r) rt (at w) up"
    using a unfolding applied_def key_of_def kind_of.simps meta_of.simps by blast
  have tg': "tg_Meta tg' = tg_Meta tg" by (simp add: tg2(2) merged_tg_def)
  have rt2: "at w2 (KToolRoute, meta_key (tr_Meta rt)) = Some (OToolRoute rt)"
    using rt frame [rule_format, of KToolRoute] by simp
  have ts: "at w2 (KToolServer, k) = at w (KToolServer, k)" for k using frame [rule_format, of KToolServer] by simp
  have up2: "upstream_wanted (r_Lib r) rt (at w2) up" using up unfolding upstream_wanted_def ts .
  have free2: "at w2 k = None" if "k \<in> route_keys tg' rt" for k
    using that free [rule_format, of k] route_keys_meta [OF tg'] by simp
  have tg2': "at w2 (KToolGateway, gateway_ref_key rt tref) = Some (OToolGateway tg')" using tg2(1) tref(2) by simp
  obtain w3 rt' c3 where w3: "ToolRoute_Reconcile r (meta_key (tr_Meta rt)) w2 = (None, w3)" and ok3: "healthy w3"
    and rt3: "at w3 (KToolRoute, meta_key (tr_Meta rt)) = Some (OToolRoute rt')"
      "rt' = merged_tr rt (tr_ready (r_Lib r) rt (route_url tg' (route_path rt))) rt"
      "l_find_condition (r_Lib r) (tr_Conditions rt') readyConditionType = Some c3" "cd_Status c3 = ConditionTrue"
    and rs3: "route_settled (r_Lib r) tg' rt up (at w3)"
    by (rule route_live [OF ok(2) rt2 tref(1) tg2' cls2 up2 free2])
  note k3 = route_kinds [OF w3 rt2, unfolded KBackend_def KPolicy_def]
  have "(KPolicy, guardrail_key tg) \<notin> insert (KToolRoute, meta_key (tr_Meta rt)) (route_keys t rt)" for t
    using filter_not_guardrail [of t rt tg, THEN not_sym] by (simp add: route_keys_def guardrail_key_def filter_policy_key_def)
  with route_frame [OF w3 rt2, of "(KPolicy, guardrail_key tg)"]
  have "at w3 (KPolicy, guardrail_key tg) = at w2 (KPolicy, guardrail_key tg)" by blast
  then have gs3: "gateway_settled (r_Lib r) tg (at w3)"
    using gs2 k3 ref by (simp add: gateway_settled_def KParameters_def KPolicy_def)
  have rest: "at w3 (KGuard, meta_key (g_Meta g)) = Some (OGuard g')" "guard_is_ready (r_Lib r) (at w3 (KGuard, meta_key (g_Meta g)))"
    "adapter_settled (r_Lib r) (r_AdapterImage gr) g data (at w3)" "at w3 (KToolGateway, meta_key (tg_Meta tg)) = Some (OToolGateway tg')"
    using g2 gr2 ad2 tg2(1) k3 by (simp_all add: adapter_settled_def)
  have same: "at w3 (kd, k) = at w (kd, k)" if "kd \<in> {KGuardrailProvider, KToolServer, KToolGatewayClass}" for kd k
    using that frame [rule_format, of kd k] k3 [of "(kd, k)"] by (elim insertE; simp)
  have url: "route_url tg' u = route_url tg u" for u by (simp add: route_url_def tg')
  have rs: "route_settled (r_Lib r) tg rt up (at w3)" using rs3 route_settled_name [of tg' tg] tg' by simp
  show thesis
    by (rule that [OF w1 w2 w3 ok ok3 _ _ _ p rest(1) g2(2) rest(2,3,4) tg2(2,3) gs3 rt3(1) rt3(2) [unfolded url] _ rs])
      (use same rt3(3,4) in \<open>simp_all add: is_condition_true_def\<close>)
qed

lemma converges_serves:
  assumes "healthy w" and "r_AdapterImage gr \<noteq> []" and "applied (r_Lib r) at w g tg rt up"
  shows "\<exists>w1 w2 w3 p data. Guard_Reconcile gr (meta_key (g_Meta g)) w = (None, w1)
     \<and> ToolGateway_Reconcile r (meta_key (tg_Meta tg)) w1 = (None, w2)
     \<and> ToolRoute_Reconcile r (meta_key (tr_Meta rt)) w2 = (None, w3)
     \<and> at w (KGuardrailProvider, provider_key g) = Some (OGuardrailProvider p)
     \<and> l_json_to_yaml (r_Lib r) (guard_static_config g p) = Inr data
     \<and> guard_is_ready (r_Lib r) (at w3 (KGuard, meta_key (g_Meta g)))
     \<and> is_condition_true (r_Lib r) (conditions_of (the (at w3 (KToolGateway, meta_key (tg_Meta tg))))) readyConditionType
     \<and> is_condition_true (r_Lib r) (conditions_of (the (at w3 (KToolRoute, meta_key (tr_Meta rt))))) readyConditionType
     \<and> adapter_serves (r_AdapterImage gr) g data (at w3) \<and> gateway_serves (r_Lib r) tg (at w3) \<and> route_serves tg rt up (at w3)"
proof (rule converges [OF assms])
  fix w1 w2 w3 g' tg' rt' p data
  assume *: "at w3 (KToolGateway, meta_key (tg_Meta tg)) = Some (OToolGateway tg')"
    "is_condition_true (r_Lib r) (tg_Conditions tg') readyConditionType"
    "at w3 (KToolRoute, meta_key (tr_Meta rt)) = Some (OToolRoute rt')"
    "is_condition_true (r_Lib r) (tr_Conditions rt') readyConditionType"
  assume "adapter_settled (r_Lib r) (r_AdapterImage gr) g data (at w3)" "gateway_settled (r_Lib r) tg (at w3)"
    "route_settled (r_Lib r) tg rt up (at w3)"
  then have "adapter_serves (r_AdapterImage gr) g data (at w3) \<and> gateway_serves (r_Lib r) tg (at w3) \<and> route_serves tg rt up (at w3)"
    using guards.settled_serves settled_serves route_settled_serves shared_lib by metis
  moreover assume "Guard_Reconcile gr (meta_key (g_Meta g)) w = (None, w1)"
     "ToolGateway_Reconcile r (meta_key (tg_Meta tg)) w1 = (None, w2)" "ToolRoute_Reconcile r (meta_key (tr_Meta rt)) w2 = (None, w3)"
     "at w (KGuardrailProvider, provider_key g) = Some (OGuardrailProvider p)"
     "l_json_to_yaml (r_Lib r) (guard_static_config g p) = Inr data" "guard_is_ready (r_Lib r) (at w3 (KGuard, meta_key (g_Meta g)))"
  ultimately show ?thesis using * by auto
qed

end

end
