(* ===== verification/SystemProperties.thy ===== *)
theory SystemProperties
  imports Liveness RouteProperties
begin

text \<open>
  The properties of the operator as a whole, and the interpretation of its locales on the
  reference cluster.
\<close>

section \<open>The operator on the reference cluster\<close>

interpretation mem_tool_operator: tool_operator mem_reconciler "mem_guard_reconciler img" mem_at k_Events for img
  unfolding tool_operator_def tool_operator_axioms_def
  using mem_gateway.gateway_operator_axioms mem_guard.guard_operator_axioms
  by (simp add: mem_reconciler_def mem_guard_reconciler_def)

lemma mem_healthy_world: "healthy_world r mem_at k_Events (\<lambda>w. k_Faults w = [])"
  if "operator r mem_at k_Events" "r_Client r = mem_client"
  unfolding healthy_world_def using that mem_healthy.healthy_client_axioms by simp

interpretation mem_healthy_operator:
  healthy_tool_operator mem_reconciler "mem_guard_reconciler img" mem_at k_Events "\<lambda>w. k_Faults w = []" for img
proof -
  have "operator (mem_guard_reconciler img) mem_at k_Events"
    using mem_guard.guard_operator_axioms unfolding guard_operator_def .
  then have g: "healthy_world (mem_guard_reconciler img) mem_at k_Events (\<lambda>w. k_Faults w = [])"
    by (rule mem_healthy_world) (simp add: mem_guard_reconciler_def)
  have r: "healthy_world mem_reconciler mem_at k_Events (\<lambda>w. k_Faults w = [])"
    by (rule mem_healthy_world [OF mem_rec.operator_axioms]) (simp add: mem_reconciler_def)
  show "healthy_tool_operator mem_reconciler (mem_guard_reconciler img) mem_at k_Events (\<lambda>w. k_Faults w = [])"
    unfolding healthy_tool_operator_def healthy_gateway_def healthy_guard_def
    using g r mem_gateway.gateway_operator_axioms mem_guard.guard_operator_axioms mem_tool_operator.tool_operator_axioms by blast
qed

lemma mem_at_mem: "mem_at w k = Some ob \<Longrightarrow> ob \<in> set (k_Objects w)"
  by (auto simp: mem_at_def find_Some_iff)

lemma mem_statuses_ok: "list_all (status_ok lib) (k_Objects w) \<Longrightarrow> statuses_ok lib mem_at w"
  by (auto simp: statuses_ok_def list_all_iff dest: mem_at_mem)

section \<open>Properties\<close>

text \<open>
  The statuses stay well formed in every reachable state, whatever the order of the runs of the
  three controllers, the failures of the API server and the edits of other clients in between: a
  Ready gateway or route has the URL of its own name, a Ready gateway does not also say that its
  guardrails are unsupported, and a guard has one of the documented reasons, \<open>Reconciled\<close>
  exactly when it is Ready.  That a Ready status is also true of the cluster is what the
  properties of the single controllers, of their calls and of their queues say.
\<close>

theorem system_status_well_formed:
  assumes "tool_operator r gr at events" and "(system_step r gr at)\<^sup>*\<^sup>* w w'" and "statuses_ok (r_Lib r) at w"
  shows "statuses_ok (r_Lib r) at w'"
  by (rule tool_operator.system_status [OF assms])

theorem system_status_well_formed_witness:
  "statuses_ok ref_lib mem_at (snd (Guard_Reconcile (mem_guard_reconciler ''img'') tg_req route_after))"
proof -
  let ?w = "snd (Guard_Reconcile (mem_guard_reconciler ''img'') tg_req route_after)"
  have "system_step mem_reconciler (mem_guard_reconciler ''img'') mem_at route_world route_after"
    by (rule controller [OF reconcile_route [OF route_run_demo(1)]])
  moreover have "system_step mem_reconciler (mem_guard_reconciler ''img'') mem_at route_after ?w"
    by (rule controller [OF reconcile_guard [OF surjective_pairing]])
  ultimately have steps: "(system_step mem_reconciler (mem_guard_reconciler ''img'') mem_at)\<^sup>*\<^sup>* route_world ?w" by simp
  have "statuses_ok (r_Lib mem_reconciler) mem_at route_world"
    by (rule mem_statuses_ok)
      (simp add: route_world_def mem_cluster_def demo_tg_def demo_route_def demo_class_def demo_server_def status_consistent_def
        mem_reconciler_def ref_find_condition_def)
  from system_status_well_formed [OF mem_tool_operator.tool_operator_axioms steps this] show ?thesis by (simp add: mem_reconciler_def)
qed

text \<open>
  C6: Once a route has been turned Ready, its traffic stays wired.  No run of a controller, for
  whichever object and with whichever failures, takes away or rewrites its backend, its
  HTTPRoute or its tool-filter policy, even for routes and gateways whose object names collide
  with its own, as long as other clients leave these kinds, the tool servers and the route alone.
\<close>

theorem system_route_keeps_serving:
  assumes "tool_operator r gr at events"
    and "ToolRoute_Reconcile r req w = (res, w1)"
    and "at w (KToolRoute, req) = Some (OToolRoute route)"
    and "at w1 (KToolRoute, req) = Some (OToolRoute route1)"
    and "l_find_condition (r_Lib r) (tr_Conditions route1) readyConditionType = Some c" "cd_Status c = ConditionTrue"
    and "l_find_condition (r_Lib r) (tr_Conditions route) readyConditionType \<noteq> Some c"
    and "(\<lambda>v v'. controller_step r gr v v' \<or> hands_off at req v v')\<^sup>*\<^sup>* w1 w2"
  shows "\<exists>tg up. route_targets (at w) route tg \<and> upstream_wanted (r_Lib r) route (at w) up
     \<and> route_serves tg route up (at w2)"
  by (rule tool_operator.ready_stays [OF assms])

theorem system_route_keeps_serving_witness:
  "\<exists>up. route_serves demo_tg demo_route up
     (mem_at (snd (ToolGateway_Reconcile mem_reconciler tg_req (snd (ToolRoute_Reconcile mem_reconciler route_req route_after)))))"
proof -
  let ?v = "snd (ToolRoute_Reconcile mem_reconciler route_req route_after)"
  let ?w = "snd (ToolGateway_Reconcile mem_reconciler tg_req ?v)"
  let ?step = "\<lambda>v v'. controller_step mem_reconciler (mem_guard_reconciler ''img'') v v' \<or> hands_off mem_at route_req v v'"
  have 1: "?step route_after ?v" by (rule disjI1, rule reconcile_route [OF surjective_pairing])
  have 2: "?step ?v ?w" by (rule disjI1, rule reconcile_gateway [OF surjective_pairing])
  have steps: "?step\<^sup>*\<^sup>* route_after ?w"
    by (rule converse_rtranclp_into_rtranclp [of ?step, OF 1]) (rule r_into_rtranclp [of ?step, OF 2])
  have g: "mem_at route_world (KToolGateway, tg_req) = Some (OToolGateway demo_tg)"
    by (simp add: route_world_def tg_req_def demo_tg_def demo_class_def mem_eval)
  show ?thesis
    using system_route_keeps_serving [OF mem_tool_operator.tool_operator_axioms route_run_demo(1) route_at route_run_demo(2)
        route_ready_facts(1,3,2) steps] g
    by (auto simp: demo_target)
qed

text \<open>
  C11: The operator reaches its goal.  When a user has applied a valid guard with its provider, a
  gateway of our class that the guard protects and a route on it with a resolvable upstream, no
  other object has the names the controllers use and the API server answers, then a run for the
  guard, one for the gateway and one for the route all succeed and leave all three Ready: the
  adapter runs with the guard's configuration, the gateway sends its traffic through it, and the
  route is served with its filter.
\<close>

theorem operator_converges:
  assumes "healthy_tool_operator r gr at events healthy" and "healthy w" and "r_AdapterImage gr \<noteq> []"
    and "applied (r_Lib r) at w g tg rt up"
  shows "\<exists>w1 w2 w3 p data. Guard_Reconcile gr (meta_key (g_Meta g)) w = (None, w1)
     \<and> ToolGateway_Reconcile r (meta_key (tg_Meta tg)) w1 = (None, w2)
     \<and> ToolRoute_Reconcile r (meta_key (tr_Meta rt)) w2 = (None, w3)
     \<and> at w (KGuardrailProvider, provider_key g) = Some (OGuardrailProvider p)
     \<and> l_json_to_yaml (r_Lib r) (guard_static_config g p) = Inr data
     \<and> guard_is_ready (r_Lib r) (at w3 (KGuard, meta_key (g_Meta g)))
     \<and> is_condition_true (r_Lib r) (conditions_of (the (at w3 (KToolGateway, meta_key (tg_Meta tg))))) readyConditionType
     \<and> is_condition_true (r_Lib r) (conditions_of (the (at w3 (KToolRoute, meta_key (tr_Meta rt))))) readyConditionType
     \<and> adapter_serves (r_AdapterImage gr) g data (at w3) \<and> gateway_serves (r_Lib r) tg (at w3) \<and> route_serves tg rt up (at w3)"
  by (rule healthy_tool_operator.converges_serves [OF assms])

definition applied_world :: cluster where
  "applied_world = mem_cluster [OToolGatewayClass demo_class, OGuardrailProvider demo_provider, OGuard demo_guard, OToolGateway demo_tg,
     OToolServer demo_server, OToolRoute demo_route]"

lemma applied_keys:
  "key_of (OToolGatewayClass demo_class) = (KToolGatewayClass, ([], ''agentgateway''))"
  "key_of (OGuardrailProvider demo_provider) = (KGuardrailProvider, (''ns'', ''presidio''))"
  "key_of (OGuard demo_guard) = (KGuard, (''ns'', ''pii''))"
  "key_of (OToolGateway demo_tg) = (KToolGateway, (''ns'', ''tools''))"
  "key_of (OToolServer demo_server) = (KToolServer, (''apps'', ''search''))"
  "key_of (OToolRoute demo_route) = (KToolRoute, (''apps'', ''search''))"
  by (simp_all add: key_simps new_meta_def demo_class_def demo_provider_def demo_guard_def demo_tg_def demo_server_def
      demo_route_def)

lemma applied_at:
  "mem_at applied_world k =
     (if k = (KToolGatewayClass, ([], ''agentgateway'')) then Some (OToolGatewayClass demo_class)
      else if k = (KGuardrailProvider, (''ns'', ''presidio'')) then Some (OGuardrailProvider demo_provider)
      else if k = (KGuard, (''ns'', ''pii'')) then Some (OGuard demo_guard)
      else if k = (KToolGateway, (''ns'', ''tools'')) then Some (OToolGateway demo_tg)
      else if k = (KToolServer, (''apps'', ''search'')) then Some (OToolServer demo_server)
      else if k = (KToolRoute, (''apps'', ''search'')) then Some (OToolRoute demo_route) else None)"
  by (simp add: mem_at_def applied_world_def mem_cluster_def applied_keys)

lemma applied_demo:
  "applied ref_lib mem_at applied_world demo_guard demo_tg demo_route (''search.apps.svc.cluster.local'', 8080, ''/mcp'')"
proof -
  have "valid_guard demo_guard demo_provider"
    by (simp add: valid_guard_def demo_guard_def demo_provider_def providerTypePresidio_def GuardModePreCall_def)
  moreover have "\<exists>data. l_json_to_yaml ref_lib (guard_static_config demo_guard demo_provider) = Inr data"
    by (simp add: ref_json_to_yaml_def guard_static_config_def static_config_json_def)
  moreover have "claims_gateway mem_at applied_world demo_tg demo_class"
    by (simp add: claims_gateway_def applied_keys applied_at) (simp add: demo_class_def demo_tg_def new_meta_def)
  moreover have "guard_ref_key demo_tg \<lparr>ref_Name = ''pii'', ref_Namespace = []\<rparr> = meta_key (g_Meta demo_guard)"
    "tg_Guardrails demo_tg = [\<lparr>ref_Name = ''pii'', ref_Namespace = []\<rparr>]"
    by (simp_all add: guard_ref_key_def demo_tg_def demo_guard_def new_meta_def meta_key_def)
  moreover have "provider_key demo_guard = (''ns'', ''presidio'')"
    by (simp add: provider_key_def demo_guard_def new_meta_def)
  moreover have "\<exists>envs. toUnstructuredSlice (l_env_json ref_lib) (filter (\<lambda>e. ev_Name e \<notin> set otel_variables) (tg_Env demo_tg)) = Inr envs"
    "\<exists>froms. toUnstructuredSlice (l_env_from_json ref_lib) (tg_EnvFrom demo_tg) = Inr froms"
    by (simp_all add: demo_tg_def ref_env_json_def otel_variables_def split: option.split)
  moreover have "tr_ToolGatewayRef demo_route = Some \<lparr>ref_Name = ''tools'', ref_Namespace = ''ns''\<rparr>"
    "gateway_ref_key demo_route \<lparr>ref_Name = ''tools'', ref_Namespace = ''ns''\<rparr> = meta_key (tg_Meta demo_tg)"
    by (simp_all add: demo_route_def gateway_ref_key_def demo_tg_def new_meta_def meta_key_def)
  moreover have "upstream_wanted ref_lib demo_route (mem_at applied_world) (''search.apps.svc.cluster.local'', 8080, ''/mcp'')"
    by (simp add: upstream_wanted_def demo_route_def server_ref_key_def applied_at new_meta_def) (simp add: demo_server_def)
  moreover have "mem_at applied_world k = None" if "k \<in> adapter_keys demo_guard \<union> gateway_keys demo_tg \<union> route_keys demo_tg demo_route" for k
    using that by (auto simp: adapter_keys_def gateway_keys_def route_keys_def applied_at KParameters_def KPolicy_def KBackend_def)
  moreover have "mem_at applied_world (key_of (OGuard demo_guard)) = Some (OGuard demo_guard)"
    "mem_at applied_world (key_of (OToolGateway demo_tg)) = Some (OToolGateway demo_tg)"
    "mem_at applied_world (key_of (OToolRoute demo_route)) = Some (OToolRoute demo_route)"
    "mem_at applied_world (KGuardrailProvider, (''ns'', ''presidio'')) = Some (OGuardrailProvider demo_provider)"
    by (simp_all add: applied_keys applied_at)
  ultimately show ?thesis unfolding applied_def by auto
qed

theorem operator_converges_witness:
  "\<exists>w3 data. l_json_to_yaml ref_lib (guard_static_config demo_guard demo_provider) = Inr data
     \<and> adapter_serves ''img'' demo_guard data (mem_at w3) \<and> gateway_serves ref_lib demo_tg (mem_at w3)
     \<and> route_serves demo_tg demo_route (''search.apps.svc.cluster.local'', 8080, ''/mcp'') (mem_at w3)"
proof -
  have s: "r_Lib mem_reconciler = ref_lib" "r_AdapterImage (mem_guard_reconciler ''img'') = ''img''"
    by (simp_all add: mem_reconciler_def mem_guard_reconciler_def)
  have w: "k_Faults applied_world = []" by (simp add: applied_world_def mem_cluster_def)
  have img: "r_AdapterImage (mem_guard_reconciler ''img'') \<noteq> []" by (simp add: s)
  have a: "applied (r_Lib mem_reconciler) mem_at applied_world demo_guard demo_tg demo_route
      (''search.apps.svc.cluster.local'', 8080, ''/mcp'')" using applied_demo s(1) by simp
  obtain w3 p data where "mem_at applied_world (KGuardrailProvider, provider_key demo_guard) = Some (OGuardrailProvider p)"
    "l_json_to_yaml ref_lib (guard_static_config demo_guard p) = Inr data"
    "adapter_serves ''img'' demo_guard data (mem_at w3)" "gateway_serves ref_lib demo_tg (mem_at w3)"
    "route_serves demo_tg demo_route (''search.apps.svc.cluster.local'', 8080, ''/mcp'') (mem_at w3)"
    using operator_converges [OF mem_healthy_operator.healthy_tool_operator_axioms w img a] unfolding s by blast
  moreover have "provider_key demo_guard = (''ns'', ''presidio'')"
    by (simp add: provider_key_def demo_guard_def new_meta_def)
  ultimately show ?thesis by (auto simp: applied_at)
qed

end
