(* ===== verification/Manager.thy ===== *)
theory Manager
  imports GuardReconciler ToolRouteReconciler
begin

text \<open>
  \<open>cmd/main.go\<close>: the flags and how the \<open>flag\<close> package reads them, the TLS options of the
  webhook and the metrics server, and the calls that set up the manager and its controllers.
\<close>

section \<open>The flag package\<close>

text \<open>
  \<open>flag.Parse\<close> with \<open>ExitOnError\<close>: the flags of \<open>main\<close> and those that the imported packages
  register (the parameter: whether a flag is boolean, and which values it accepts).
\<close>

record flags =
  fl_MetricsAddr :: string
  fl_AdapterImage :: string
  fl_ProbeAddr :: string
  fl_LeaderElect :: bool
  fl_SecureMetrics :: bool
  fl_WebhookCertPath :: string
  fl_WebhookCertName :: string
  fl_WebhookCertKey :: string
  fl_MetricsCertPath :: string
  fl_MetricsCertName :: string
  fl_MetricsCertKey :: string
  fl_EnableHTTP2 :: bool

definition default_flags :: flags where
  "default_flags =
     \<lparr>fl_MetricsAddr = ''0'', fl_AdapterImage = [], fl_ProbeAddr = '':8081'', fl_LeaderElect = False, fl_SecureMetrics = True,
      fl_WebhookCertPath = [], fl_WebhookCertName = ''tls.crt'', fl_WebhookCertKey = ''tls.key'',
      fl_MetricsCertPath = [], fl_MetricsCertName = ''tls.crt'', fl_MetricsCertKey = ''tls.key'', fl_EnableHTTP2 = False\<rparr>"

text \<open>A flag variable is a string or a bool.\<close>

datatype flag_var =
    StringVar "string \<Rightarrow> flags \<Rightarrow> flags"
  | BoolVar "bool \<Rightarrow> flags \<Rightarrow> flags"

definition flag_table :: "(string \<times> flag_var) list" where
  "flag_table =
     [(''metrics-bind-address'', StringVar (\<lambda>v f. f\<lparr>fl_MetricsAddr := v\<rparr>)),
      (''guardrail-adapter-image'', StringVar (\<lambda>v f. f\<lparr>fl_AdapterImage := v\<rparr>)),
      (''health-probe-bind-address'', StringVar (\<lambda>v f. f\<lparr>fl_ProbeAddr := v\<rparr>)),
      (''leader-elect'', BoolVar (\<lambda>b f. f\<lparr>fl_LeaderElect := b\<rparr>)),
      (''metrics-secure'', BoolVar (\<lambda>b f. f\<lparr>fl_SecureMetrics := b\<rparr>)),
      (''webhook-cert-path'', StringVar (\<lambda>v f. f\<lparr>fl_WebhookCertPath := v\<rparr>)),
      (''webhook-cert-name'', StringVar (\<lambda>v f. f\<lparr>fl_WebhookCertName := v\<rparr>)),
      (''webhook-cert-key'', StringVar (\<lambda>v f. f\<lparr>fl_WebhookCertKey := v\<rparr>)),
      (''metrics-cert-path'', StringVar (\<lambda>v f. f\<lparr>fl_MetricsCertPath := v\<rparr>)),
      (''metrics-cert-name'', StringVar (\<lambda>v f. f\<lparr>fl_MetricsCertName := v\<rparr>)),
      (''metrics-cert-key'', StringVar (\<lambda>v f. f\<lparr>fl_MetricsCertKey := v\<rparr>)),
      (''enable-http2'', BoolVar (\<lambda>b f. f\<lparr>fl_EnableHTTP2 := b\<rparr>))]"

type_synonym other_flags = "string \<Rightarrow> (bool \<times> (string \<Rightarrow> bool)) option"

text \<open>\<open>strconv.ParseBool\<close>.\<close>

definition parse_bool :: "string \<Rightarrow> bool option" where
  "parse_bool s =
     (if s \<in> {''1'', ''t'', ''T'', ''true'', ''TRUE'', ''True''} then Some True
      else if s \<in> {''0'', ''f'', ''F'', ''false'', ''FALSE'', ''False''} then Some False else None)"

text \<open>One argument: not a flag, the terminator, bad syntax, or a name with an optional value.\<close>

datatype flag_arg = NotFlag | Terminator | BadSyntax | FlagArg string "string option"

definition split_value :: "string \<Rightarrow> string \<times> string option" where
  "split_value s =
     (case dropWhile (\<lambda>c. c \<noteq> CHR ''='') s of [] \<Rightarrow> (s, None) | _ # v \<Rightarrow> (takeWhile (\<lambda>c. c \<noteq> CHR ''='') s, Some v))"

definition flag_arg :: "string \<Rightarrow> flag_arg" where
  "flag_arg s =
     (if length s < 2 \<or> hd s \<noteq> CHR ''-'' then NotFlag
      else if s = ''--'' then Terminator
      else let name = (if s ! 1 = CHR ''-'' then drop 2 s else tl s)
           in if name = [] \<or> hd name = CHR ''-'' \<or> hd name = CHR ''='' then BadSyntax
              else let (n, v) = split_value name in FlagArg n v)"

datatype parse_result = Parsed flags | ExitWith nat

text \<open>Setting a known flag; \<open>None\<close> is a value it does not accept.\<close>

definition set_flag :: "other_flags \<Rightarrow> string \<Rightarrow> string \<Rightarrow> flags \<Rightarrow> flags option" where
  "set_flag other name v f =
     (case map_of flag_table name of
        Some (StringVar put) \<Rightarrow> Some (put v f)
      | Some (BoolVar put) \<Rightarrow> map_option (\<lambda>b. put b f) (parse_bool v)
      | None \<Rightarrow> (case other name of Some (_, ok) \<Rightarrow> if ok v then Some f else None | None \<Rightarrow> None))"

definition is_bool_flag :: "other_flags \<Rightarrow> string \<Rightarrow> bool option" where
  "is_bool_flag other name =
     (case map_of flag_table name of
        Some (StringVar _) \<Rightarrow> Some False
      | Some (BoolVar _) \<Rightarrow> Some True
      | None \<Rightarrow> map_option fst (other name))"

fun parse_flags :: "other_flags \<Rightarrow> string list \<Rightarrow> flags \<Rightarrow> parse_result" where
  "parse_flags other [] f = Parsed f"
| "parse_flags other (s # args) f =
     (case flag_arg s of
        NotFlag \<Rightarrow> Parsed f
      | Terminator \<Rightarrow> Parsed f
      | BadSyntax \<Rightarrow> ExitWith 2
      | FlagArg name val \<Rightarrow>
          (case is_bool_flag other name of
             None \<Rightarrow> ExitWith (if name = ''help'' \<or> name = ''h'' then 0 else 2)
           | Some True \<Rightarrow>
               (case set_flag other name (case val of Some v \<Rightarrow> v | None \<Rightarrow> ''true'') f of
                  None \<Rightarrow> ExitWith 2
                | Some f' \<Rightarrow> parse_flags other args f')
           | Some False \<Rightarrow>
               (case val of
                  Some v \<Rightarrow> (case set_flag other name v f of None \<Rightarrow> ExitWith 2 | Some f' \<Rightarrow> parse_flags other args f')
                | None \<Rightarrow>
                    (case args of
                       [] \<Rightarrow> ExitWith 2
                     | v # rest \<Rightarrow> (case set_flag other name v f of None \<Rightarrow> ExitWith 2 | Some f' \<Rightarrow> parse_flags other rest f')))))"

section \<open>TLS options\<close>

text \<open>
  Two servers share the slice \<open>tlsOpts\<close> and append to it, so the slices are modelled with
  their backing arrays: a slice is an array of the heap, a length and a capacity, \<open>append\<close>
  writes in place while there is capacity and else copies, and the capacity a copy gets is the
  runtime's choice (\<open>grow\<close>, at least what is needed).
\<close>

datatype tls_opt = DisableHTTP2 | GetCertificate string string

record slice =
  sl_Array :: nat
  sl_Len :: nat
  sl_Cap :: nat

type_synonym heap = "tls_opt list list"

definition nil_slice :: slice where "nil_slice = \<lparr>sl_Array = 0, sl_Len = 0, sl_Cap = 0\<rparr>"

definition slice_list :: "heap \<Rightarrow> slice \<Rightarrow> tls_opt list" where
  "slice_list h s = (if sl_Cap s = 0 then [] else take (sl_Len s) (h ! sl_Array s))"

definition append_slice :: "(nat \<Rightarrow> nat) \<Rightarrow> heap \<Rightarrow> slice \<Rightarrow> tls_opt \<Rightarrow> heap \<times> slice" where
  "append_slice grow h s x =
     (if sl_Len s < sl_Cap s
      then (h[sl_Array s := take (sl_Len s) (h ! sl_Array s) @ [x] @ drop (sl_Len s + 1) (h ! sl_Array s)], s\<lparr>sl_Len := sl_Len s + 1\<rparr>)
      else (h @ [slice_list h s @ [x]], \<lparr>sl_Array = length h, sl_Len = sl_Len s + 1, sl_Cap = grow (sl_Len s + 1)\<rparr>))"

text \<open>
  \<open>filepath.Join\<close>: the non-empty elements with a slash between, and \<open>filepath.Clean\<close> of that.
  The path elements are kept on a stack, the last one first.
\<close>

fun clean_step :: "bool \<Rightarrow> string list \<Rightarrow> string \<Rightarrow> string list" where
  "clean_step rooted stack c =
     (if c = [] \<or> c = ''.'' then stack
      else if c = ''..''
           then (case stack of
                   [] \<Rightarrow> if rooted then [] else [c]
                 | p # ps \<Rightarrow> if p = ''..'' then c # stack else ps)
           else c # stack)"

definition path_clean :: "string \<Rightarrow> string" where
  "path_clean s =
     (if s = [] then ''.''
      else let rooted = (hd s = CHR ''/'');
               body = strings_join ''/'' (rev (foldl (clean_step rooted) [] (strings_split (CHR ''/'') s)));
               out = (if rooted then ''/'' else []) @ body
           in if out = [] then ''.'' else out)"

definition path_join :: "string \<Rightarrow> string \<Rightarrow> string" where
  "path_join a b =
     (case filter (\<lambda>x. x \<noteq> []) [a, b] of [] \<Rightarrow> [] | xs \<Rightarrow> path_clean (strings_join ''/'' xs))"

text \<open>The certificate and key file of the watchers.\<close>

definition webhook_watcher :: "flags \<Rightarrow> string \<times> string" where
  "webhook_watcher f =
     (path_join (fl_WebhookCertPath f) (fl_WebhookCertName f), path_join (fl_WebhookCertPath f) (fl_WebhookCertKey f))"

definition metrics_watcher :: "flags \<Rightarrow> string \<times> string" where
  "metrics_watcher f =
     (path_join (fl_MetricsCertPath f) (fl_MetricsCertName f), path_join (fl_MetricsCertPath f) (fl_MetricsCertKey f))"

text \<open>The slices handed to the webhook server and to the metrics server, and the final heap.\<close>

definition tls_options :: "(nat \<Rightarrow> nat) \<Rightarrow> flags \<Rightarrow> heap \<times> slice \<times> slice" where
  "tls_options grow f =
     (let (h1, tlsOpts) = (if \<not> fl_EnableHTTP2 f then append_slice grow [] nil_slice DisableHTTP2 else ([], nil_slice));
          (h2, webhookTLSOpts) =
            (if fl_WebhookCertPath f \<noteq> []
             then append_slice grow h1 tlsOpts (GetCertificate (fst (webhook_watcher f)) (snd (webhook_watcher f)))
             else (h1, tlsOpts));
          (h3, metricsTLSOpts) =
            (if fl_MetricsCertPath f \<noteq> []
             then append_slice grow h2 tlsOpts (GetCertificate (fst (metrics_watcher f)) (snd (metrics_watcher f)))
             else (h2, tlsOpts))
      in (h3, webhookTLSOpts, metricsTLSOpts))"

section \<open>The manager\<close>

text \<open>
  What \<open>main\<close> asks of controller-runtime, in order.  Each call may fail; the process then exits
  with 1 (\<open>GetConfigOrDie\<close> does so itself).
\<close>

record manager_options =
  mo_MetricsAddr :: string
  mo_SecureServing :: bool
  mo_AuthFilter :: bool
  mo_MetricsTLS :: "tls_opt list"
  mo_WebhookTLS :: "tls_opt list"
  mo_ProbeAddr :: string
  mo_LeaderElection :: bool
  mo_LeaderElectionID :: string

datatype setup_call =
    NewCertWatcher string string
  | GetConfig
  | NewManager manager_options
  | SetupController string string
  | AddCertWatcher string string
  | AddHealthz string
  | AddReadyz string
  | StartManager

definition manager_opts :: "(nat \<Rightarrow> nat) \<Rightarrow> flags \<Rightarrow> manager_options" where
  "manager_opts grow f =
     (let (h, webhookTLSOpts, metricsTLSOpts) = tls_options grow f
      in \<lparr>mo_MetricsAddr = fl_MetricsAddr f, mo_SecureServing = fl_SecureMetrics f, mo_AuthFilter = fl_SecureMetrics f,
          mo_MetricsTLS = slice_list h metricsTLSOpts, mo_WebhookTLS = slice_list h webhookTLSOpts,
          mo_ProbeAddr = fl_ProbeAddr f, mo_LeaderElection = fl_LeaderElect f,
          mo_LeaderElectionID = ''2763874c.agentic-layer.ai''\<rparr>)"

text \<open>The reconcilers that \<open>main\<close> builds on the manager's client.\<close>

definition main_reconciler :: "'w client \<Rightarrow> klib \<Rightarrow> 'w reconciler" where
  "main_reconciler cl lib = \<lparr>r_Client = cl, r_Lib = lib, r_Recorder = True\<rparr>"

definition main_guard_reconciler :: "'w client \<Rightarrow> klib \<Rightarrow> flags \<Rightarrow> 'w guard_reconciler" where
  "main_guard_reconciler cl lib f =
     \<lparr>r_Client = cl, r_Lib = lib, r_Recorder = True, r_AdapterImage = fl_AdapterImage f\<rparr>"

definition main_controllers :: "'w client \<Rightarrow> klib \<Rightarrow> flags \<Rightarrow> setup_call list" where
  "main_controllers cl lib f =
     [SetupController (su_Name (ToolGateway_SetupWithManager (main_reconciler cl lib))) ''tool-gateway-agentgateway-controller'',
      SetupController (su_Name (ToolRoute_SetupWithManager (main_reconciler cl lib))) ''toolroute-agentgateway-controller'',
      SetupController (su_Name (Guard_SetupWithManager (main_guard_reconciler cl lib f))) ''guard-adapter-controller'']"

definition main_calls :: "(nat \<Rightarrow> nat) \<Rightarrow> 'w client \<Rightarrow> klib \<Rightarrow> flags \<Rightarrow> setup_call list" where
  "main_calls grow cl lib f =
     (if fl_WebhookCertPath f \<noteq> [] then [NewCertWatcher (fst (webhook_watcher f)) (snd (webhook_watcher f))] else [])
     @ (if fl_MetricsCertPath f \<noteq> [] then [NewCertWatcher (fst (metrics_watcher f)) (snd (metrics_watcher f))] else [])
     @ [GetConfig, NewManager (manager_opts grow f)]
     @ main_controllers cl lib f
     @ (if fl_MetricsCertPath f \<noteq> [] then [AddCertWatcher (fst (metrics_watcher f)) (snd (metrics_watcher f))] else [])
     @ (if fl_WebhookCertPath f \<noteq> [] then [AddCertWatcher (fst (webhook_watcher f)) (snd (webhook_watcher f))] else [])
     @ [AddHealthz ''healthz'', AddReadyz ''readyz'', StartManager]"

text \<open>The exit code and the calls made; \<open>main\<close> ends with 0 when the manager stops without error.\<close>

fun run_calls :: "(setup_call \<Rightarrow> bool) \<Rightarrow> setup_call list \<Rightarrow> nat \<times> setup_call list" where
  "run_calls fails [] = (0, [])"
| "run_calls fails (c # cs) =
     (if fails c then (1, [c]) else (let (code, tr) = run_calls fails cs in (code, c # tr)))"

definition main_run ::
  "(nat \<Rightarrow> nat) \<Rightarrow> 'w client \<Rightarrow> klib \<Rightarrow> other_flags \<Rightarrow> (setup_call \<Rightarrow> bool) \<Rightarrow> string list \<Rightarrow> nat \<times> setup_call list" where
  "main_run grow cl lib other fails args =
     (case parse_flags other args default_flags of
        ExitWith n \<Rightarrow> (n, [])
      | Parsed f \<Rightarrow> run_calls fails (main_calls grow cl lib f))"

end
