(* ===== verification/ManagerProperties.thy ===== *)
theory ManagerProperties
  imports Manager KubeMemory
begin

text \<open>
  What \<open>main\<close> guarantees: flags are read as written, the two servers are set up as asked, and
  the manager only starts when everything before it has succeeded.
\<close>

section \<open>Flags that were written are read\<close>

definition bool_text :: "bool \<Rightarrow> string" where "bool_text b = (if b then ''true'' else ''false'')"

definition flag_pairs :: "flags \<Rightarrow> (string \<times> string) list" where
  "flag_pairs f =
     [(''metrics-bind-address'', fl_MetricsAddr f), (''guardrail-adapter-image'', fl_AdapterImage f),
      (''health-probe-bind-address'', fl_ProbeAddr f), (''leader-elect'', bool_text (fl_LeaderElect f)),
      (''metrics-secure'', bool_text (fl_SecureMetrics f)), (''webhook-cert-path'', fl_WebhookCertPath f),
      (''webhook-cert-name'', fl_WebhookCertName f), (''webhook-cert-key'', fl_WebhookCertKey f),
      (''metrics-cert-path'', fl_MetricsCertPath f), (''metrics-cert-name'', fl_MetricsCertName f),
      (''metrics-cert-key'', fl_MetricsCertKey f), (''enable-http2'', bool_text (fl_EnableHTTP2 f))]"

definition flag_args :: "flags \<Rightarrow> string list" where
  "flag_args f = map (\<lambda>(n, v). ''--'' @ n @ ''='' @ v) (flag_pairs f)"

lemma split_value_app: "CHR ''='' \<notin> set n \<Longrightarrow> split_value (n @ CHR ''='' # v) = (n, Some v)"
  by (simp add: split_value_def takeWhile_stop dropWhile_stop)

lemma flag_arg_long:
  assumes "n \<noteq> []" "hd n \<noteq> CHR ''-''" "CHR ''='' \<notin> set n"
  shows "flag_arg (CHR ''-'' # CHR ''-'' # n @ CHR ''='' # v) = FlagArg n (Some v)"
  using assms split_value_app [of n v] by (cases n) (auto simp: flag_arg_def Let_def)

lemma parse_bool_text [simp]: "parse_bool (bool_text b) = Some b"
  by (simp add: parse_bool_def bool_text_def)

lemma parse_flag:
  assumes "n \<noteq> []" "hd n \<noteq> CHR ''-''" "CHR ''='' \<notin> set n"
    and "is_bool_flag other n = Some b" "set_flag other n v f = Some f'"
  shows "parse_flags other ((''--'' @ n @ ''='' @ v) # args) f = parse_flags other args f'"
  using assms flag_arg_long [of n v] by (cases b) simp_all

fun set_flags :: "other_flags \<Rightarrow> (string \<times> string) list \<Rightarrow> flags \<Rightarrow> flags option" where
  "set_flags other [] f = Some f"
| "set_flags other ((n, v) # ps) f = (case set_flag other n v f of None \<Rightarrow> None | Some f' \<Rightarrow> set_flags other ps f')"

definition flag_name :: "string \<Rightarrow> bool" where
  "flag_name n = (n \<noteq> [] \<and> hd n \<noteq> CHR ''-'' \<and> CHR ''='' \<notin> set n)"

lemma parse_pairs:
  assumes "\<And>n v. (n, v) \<in> set ps \<Longrightarrow> flag_name n \<and> is_bool_flag other n \<noteq> None" and "set_flags other ps f = Some f'"
  shows "parse_flags other (map (\<lambda>(n, v). ''--'' @ n @ ''='' @ v) ps) f = Parsed f'"
  using assms
proof (induction ps arbitrary: f)
  case (Cons p ps)
  obtain n v where p: "p = (n, v)" by fastforce
  from Cons.prems(2) p obtain f1 where f1: "set_flag other n v f = Some f1" "set_flags other ps f1 = Some f'"
    by (auto split: option.splits)
  obtain b where b: "is_bool_flag other n = Some b" using Cons.prems(1) [of n v] p by auto
  have n: "n \<noteq> []" "hd n \<noteq> CHR ''-''" "CHR ''='' \<notin> set n" using Cons.prems(1) [of n v] p by (simp_all add: flag_name_def)
  have "parse_flags other (map (\<lambda>(n, v). ''--'' @ n @ ''='' @ v) ps) f1 = Parsed f'"
    by (rule Cons.IH [OF Cons.prems(1) f1(2)]) (rule list.set_intros(2))
  then show ?case unfolding p list.map prod.case parse_flag [OF n b f1(1)] .
qed simp

lemma flag_table_names: "list_all flag_name (map fst flag_table)"
  by (simp add: flag_table_def flag_name_def)

lemma flag_known: "n \<in> set (map fst flag_table) \<Longrightarrow> is_bool_flag other n \<noteq> None"
  by (auto simp: is_bool_flag_def map_of_eq_None_iff image_iff split: option.split flag_var.split)

lemma flag_pairs_names: "map fst (flag_pairs f) = map fst flag_table"
  by (simp add: flag_pairs_def flag_table_def)

lemma set_flag_pairs: "set_flags other (flag_pairs f) g = Some f"
  by (cases f) (simp add: flag_pairs_def set_flag_def flag_table_def)

lemma parse_flag_args: "parse_flags other (flag_args f) g = Parsed f"
  unfolding flag_args_def
proof (rule parse_pairs [OF _ set_flag_pairs])
  fix n v
  assume "(n, v) \<in> set (flag_pairs f)"
  then have "n \<in> set (map fst flag_table)" unfolding flag_pairs_names [of f, symmetric] by force
  with flag_known flag_table_names show "flag_name n \<and> is_bool_flag other n \<noteq> None"
    unfolding list_all_iff by blast
qed

section \<open>Setup runs to the end or exits\<close>

lemma run_calls_prefix:
  assumes "run_calls fails cs = (code, tr)"
  shows "(code = 0 \<and> tr = cs \<and> (\<forall>c \<in> set cs. \<not> fails c))
     \<or> (code = 1 \<and> (\<exists>c rest. fails c \<and> cs = tr @ rest \<and> last tr = c \<and> tr \<noteq> [] \<and> (\<forall>d \<in> set (butlast tr). \<not> fails d)))"
  using assms
proof (induction cs arbitrary: code tr)
  case (Cons c cs)
  show ?case
  proof (cases "fails c")
    case False
    then obtain tr' where tr': "run_calls fails cs = (code, tr')" "tr = c # tr'" using Cons.prems by (auto split: prod.splits)
    from Cons.IH [OF tr'(1)] tr'(2) False show ?thesis by auto
  qed (use Cons.prems in auto)
qed simp

text \<open>The manager is the last call, and is started once.\<close>

lemma main_calls_last: "\<exists>pre. main_calls grow cl lib f = pre @ [StartManager] \<and> StartManager \<notin> set pre"
  by (intro exI [of _ "butlast (main_calls grow cl lib f)"]) (auto simp: main_calls_def main_controllers_def)

lemma run_started:
  assumes "run_calls fails (main_calls grow cl lib f) = (code, tr)" "StartManager \<in> set tr"
  shows "tr = main_calls grow cl lib f" "\<forall>c \<in> set tr. c \<noteq> StartManager \<longrightarrow> \<not> fails c"
proof -
  obtain pre where pre: "main_calls grow cl lib f = pre @ [StartManager]" "StartManager \<notin> set pre" using main_calls_last by blast
  note cases = run_calls_prefix [OF assms(1)]
  show tr: "tr = main_calls grow cl lib f"
  proof (cases "code = 0")
    case False
    with cases obtain rest where e: "pre @ [StartManager] = tr @ rest" using pre(1) by auto
    with assms(2) pre(2) have "rest = []" by (cases rest rule: rev_cases) auto
    with e pre(1) show ?thesis by simp
  qed (use cases in auto)
  show "\<forall>c \<in> set tr. c \<noteq> StartManager \<longrightarrow> \<not> fails c"
    using cases tr pre by (auto simp: butlast_append)
qed

section \<open>What is set up\<close>

text \<open>The files of the two certificate watchers, and how often a call that concerns them is made.\<close>

definition cert_files :: "flags \<Rightarrow> (string \<times> string) list" where
  "cert_files f =
     (if fl_WebhookCertPath f = [] then []
      else [(path_join (fl_WebhookCertPath f) (fl_WebhookCertName f), path_join (fl_WebhookCertPath f) (fl_WebhookCertKey f))])
     @ (if fl_MetricsCertPath f = [] then []
        else [(path_join (fl_MetricsCertPath f) (fl_MetricsCertName f), path_join (fl_MetricsCertPath f) (fl_MetricsCertKey f))])"

definition operator_controllers :: "(string \<times> string) list" where
  "operator_controllers =
     [(''runtime.agentic-layer.ai/tool-gateway-agentgateway-controller'', ''tool-gateway-agentgateway-controller''),
      (''runtime.agentic-layer.ai/toolroute-agentgateway-controller'', ''toolroute-agentgateway-controller''),
      (''runtime.agentic-layer.ai/guard-adapter-controller'', ''guard-adapter-controller'')]"

lemma count_append [simp]: "count_list (xs @ ys) x = count_list xs x + count_list ys x"
  by (induction xs) simp_all

lemma controllers_counts [simp]:
  "count_list (main_controllers cl lib f) (SetupController n s) = count_list operator_controllers (n, s)"
  "count_list (main_controllers cl lib f) (NewCertWatcher a b) = 0" "count_list (main_controllers cl lib f) (AddCertWatcher a b) = 0"
  "count_list (main_controllers cl lib f) (AddHealthz n) = 0" "count_list (main_controllers cl lib f) (AddReadyz n) = 0"
  "count_list (main_controllers cl lib f) GetConfig = 0"
proof -
  have "main_controllers cl lib f = map (\<lambda>(n, s). SetupController n s) operator_controllers"
    by (simp add: main_controllers_def operator_controllers_def ToolGateway_SetupWithManager_def ToolRoute_SetupWithManager_def
        Guard_SetupWithManager_def ToolGatewayAgentgatewayControllerName_def ToolRouteAgentgatewayControllerName_def
        GuardAdapterControllerName_def)
  moreover have "count_list (map (\<lambda>(n, s). SetupController n s) ps) (SetupController n s) = count_list ps (n, s)" for ps
    by (induction ps) auto
  ultimately show "count_list (main_controllers cl lib f) (SetupController n s) = count_list operator_controllers (n, s)" by simp
qed (simp_all add: main_controllers_def)

lemma main_counts:
  "count_list (main_calls grow cl lib f) (NewCertWatcher a b) = count_list (cert_files f) (a, b)"
  "count_list (main_calls grow cl lib f) (AddCertWatcher a b) = count_list (cert_files f) (a, b)"
  "count_list (main_calls grow cl lib f) (SetupController n s) = count_list operator_controllers (n, s)"
  "count_list (main_calls grow cl lib f) (AddHealthz n) = (if n = ''healthz'' then 1 else 0)"
  "count_list (main_calls grow cl lib f) (AddReadyz n) = (if n = ''readyz'' then 1 else 0)"
  "count_list (main_calls grow cl lib f) GetConfig = 1"
  by (auto simp: main_calls_def cert_files_def webhook_watcher_def metrics_watcher_def)

text \<open>The manager is created once, after its certificates and before everything that is added to it; it is started last.\<close>

fun before_manager :: "setup_call \<Rightarrow> bool" where
  "before_manager (NewCertWatcher a b) = True"
| "before_manager GetConfig = True"
| "before_manager _ = False"

fun on_manager :: "setup_call \<Rightarrow> bool" where
  "on_manager (SetupController n s) = True"
| "on_manager (AddCertWatcher a b) = True"
| "on_manager (AddHealthz n) = True"
| "on_manager (AddReadyz n) = True"
| "on_manager _ = False"

lemma main_order:
  "\<exists>pre post. main_calls grow cl lib f = pre @ [NewManager (manager_opts grow f)] @ post @ [StartManager]
     \<and> list_all before_manager pre \<and> list_all on_manager post"
proof -
  let ?pre = "(if fl_WebhookCertPath f \<noteq> [] then [NewCertWatcher (fst (webhook_watcher f)) (snd (webhook_watcher f))] else [])
     @ (if fl_MetricsCertPath f \<noteq> [] then [NewCertWatcher (fst (metrics_watcher f)) (snd (metrics_watcher f))] else []) @ [GetConfig]"
  let ?post = "main_controllers cl lib f
     @ (if fl_MetricsCertPath f \<noteq> [] then [AddCertWatcher (fst (metrics_watcher f)) (snd (metrics_watcher f))] else [])
     @ (if fl_WebhookCertPath f \<noteq> [] then [AddCertWatcher (fst (webhook_watcher f)) (snd (webhook_watcher f))] else [])
     @ [AddHealthz ''healthz'', AddReadyz ''readyz'']"
  have "main_calls grow cl lib f = ?pre @ [NewManager (manager_opts grow f)] @ ?post @ [StartManager]"
    by (simp add: main_calls_def)
  moreover have "list_all before_manager ?pre" "list_all on_manager ?post"
    by (simp_all add: main_controllers_def)
  ultimately show ?thesis by blast
qed

lemma run_failed: "run_calls fails cs = (code, tr) \<Longrightarrow> c \<in> set tr \<Longrightarrow> fails c \<Longrightarrow> code = 1 \<and> c = last tr"
  by (induction cs arbitrary: code tr) (auto split: if_splits prod.splits)

section \<open>The options of the two servers\<close>

lemma append_new:
  "sl_Len s = sl_Cap s \<Longrightarrow> append_slice grow h s x = (h @ [slice_list h s @ [x]], \<lparr>sl_Array = length h, sl_Len = sl_Len s + 1, sl_Cap = grow (sl_Len s + 1)\<rparr>)"
  by (simp add: append_slice_def)

text \<open>
  When the runtime gives a slice of one element no spare capacity, as it does for a slice of
  function values, each \<open>append\<close> copies, and the two servers do not share options.
\<close>

definition http2_opts :: "flags \<Rightarrow> tls_opt list" where
  "http2_opts f = (if fl_EnableHTTP2 f then [] else [DisableHTTP2])"

lemma tls_options_exact:
  assumes g: "grow 1 = 1" "\<And>n. n \<le> grow n" and t: "tls_options grow f = (h, ws, ms)"
  shows "slice_list h ws = http2_opts f @ (if fl_WebhookCertPath f \<noteq> [] then [GetCertificate (fst (webhook_watcher f)) (snd (webhook_watcher f))] else [])"
    and "slice_list h ms = http2_opts f @ (if fl_MetricsCertPath f \<noteq> [] then [GetCertificate (fst (metrics_watcher f)) (snd (metrics_watcher f))] else [])"
proof -
  have "grow 2 \<noteq> 0" using g(2) [of 2] by simp
  then show "slice_list h ws = http2_opts f @ (if fl_WebhookCertPath f \<noteq> [] then [GetCertificate (fst (webhook_watcher f)) (snd (webhook_watcher f))] else [])"
    "slice_list h ms = http2_opts f @ (if fl_MetricsCertPath f \<noteq> [] then [GetCertificate (fst (metrics_watcher f)) (snd (metrics_watcher f))] else [])"
    using t g(1)
    by (auto simp: tls_options_def append_slice_def slice_list_def nil_slice_def http2_opts_def numeral_2_eq_2 split: if_splits)
qed

text \<open>With spare capacity the second append would overwrite the first: the servers would share one certificate.\<close>

definition both_certs :: flags where
  "both_certs = default_flags\<lparr>fl_WebhookCertPath := ''/w'', fl_MetricsCertPath := ''/m''\<rparr>"

lemma tls_options_shared:
  "(case tls_options (\<lambda>n. 2 * n) both_certs of (h, ws, ms) \<Rightarrow> slice_list h ws = slice_list h ms)"
  by (simp add: tls_options_def append_slice_def slice_list_def nil_slice_def both_certs_def default_flags_def)

section \<open>Properties\<close>

text \<open>
  C38: The operator only runs complete.  When the manager is started, which is the last call, it has
  been created once, before everything that is added to it, and exactly this has been added,
  each once and without an error: the three controllers, the watchers of the certificates that
  the flags name (which have been created before the manager), and the two health checks.  A call
  that fails ends the process with exit code 1 before anything else is called.
\<close>

theorem main_starts_complete:
  assumes "main_run grow cl lib other fails args = (code, tr)"
  shows "(StartManager \<in> set tr \<longrightarrow>
       (\<exists>f. parse_flags other args default_flags = Parsed f
          \<and> (\<exists>pre post. tr = pre @ [NewManager (manager_opts grow f)] @ post @ [StartManager]
               \<and> list_all before_manager pre \<and> list_all on_manager post)
          \<and> (\<forall>a b. count_list tr (NewCertWatcher a b) = count_list (cert_files f) (a, b)
                 \<and> count_list tr (AddCertWatcher a b) = count_list (cert_files f) (a, b))
          \<and> (\<forall>n s. count_list tr (SetupController n s) = count_list operator_controllers (n, s))
          \<and> (\<forall>n. count_list tr (AddHealthz n) = (if n = ''healthz'' then 1 else 0)
               \<and> count_list tr (AddReadyz n) = (if n = ''readyz'' then 1 else 0))
          \<and> count_list tr GetConfig = 1)
       \<and> (\<forall>c \<in> set tr. c \<noteq> StartManager \<longrightarrow> \<not> fails c))
     \<and> (\<forall>c \<in> set tr. fails c \<longrightarrow> code = 1 \<and> c = last tr)"
proof (cases "parse_flags other args default_flags")
  case (ExitWith n)
  with assms show ?thesis by (simp add: main_run_def)
next
  case (Parsed f)
  with assms have r: "run_calls fails (main_calls grow cl lib f) = (code, tr)" by (simp add: main_run_def)
  have fails: "\<forall>c \<in> set tr. fails c \<longrightarrow> code = 1 \<and> c = last tr" using run_failed [OF r] by blast
  show ?thesis
  proof (cases "StartManager \<in> set tr")
    case True
    note tr = run_started [OF r True]
    have "\<exists>pre post. tr = pre @ [NewManager (manager_opts grow f)] @ post @ [StartManager]
               \<and> list_all before_manager pre \<and> list_all on_manager post"
      unfolding tr(1) by (rule main_order)
    with Parsed fails tr(2) show ?thesis by (simp add: tr(1) main_counts)
  qed (use fails in simp)
qed

theorem main_starts_complete_witness:
  "count_list (snd (main_run (\<lambda>n. n) mem_client ref_lib (\<lambda>_. None) (\<lambda>_. False) [''--webhook-cert-path=/w'']))
     (AddCertWatcher ''/w/tls.crt'' ''/w/tls.key'') = 1"
proof -
  let ?f = "default_flags\<lparr>fl_WebhookCertPath := ''/w''\<rparr>"
  obtain code tr where r: "main_run (\<lambda>n. n) mem_client ref_lib (\<lambda>_. None) (\<lambda>_. False) [''--webhook-cert-path=/w''] = (code, tr)" by fastforce
  have f: "parse_flags (\<lambda>_. None) [''--webhook-cert-path=/w''] default_flags = Parsed ?f"
    by (simp add: flag_arg_def split_value_def is_bool_flag_def set_flag_def flag_table_def)
  have "run_calls (\<lambda>_. False) cs = (0, cs)" for cs by (induction cs) simp_all
  with f r have "StartManager \<in> set tr" by (auto simp: main_run_def main_calls_def)
  with main_starts_complete [OF r] f have "count_list tr (AddCertWatcher a b) = count_list (cert_files ?f) (a, b)" for a b by auto
  moreover have "cert_files ?f = [(''/w/tls.crt'', ''/w/tls.key'')]"
    by code_simp
  ultimately show ?thesis using r by simp
qed

text \<open>
  C39: The servers are set up as the flags ask.  HTTP/2 is disabled on both unless it is
  enabled, the metrics endpoint is behind authentication and authorization exactly when it is
  served securely, and each server has its own certificate: although the two slices of options
  grow from a shared one, neither append overwrites the other's, provided the runtime gives a
  slice of one element no spare capacity.
\<close>

theorem main_servers_secured:
  assumes "grow 1 = 1" and "\<And>n. n \<le> grow n" and "NewManager o' \<in> set (main_calls grow cl lib f)"
  shows "mo_SecureServing o' = fl_SecureMetrics f \<and> mo_AuthFilter o' = fl_SecureMetrics f
     \<and> (\<not> fl_EnableHTTP2 f \<longrightarrow> DisableHTTP2 \<in> set (mo_MetricsTLS o') \<and> DisableHTTP2 \<in> set (mo_WebhookTLS o'))
     \<and> (fl_EnableHTTP2 f \<longrightarrow> DisableHTTP2 \<notin> set (mo_MetricsTLS o') \<and> DisableHTTP2 \<notin> set (mo_WebhookTLS o'))
     \<and> (\<forall>a b. GetCertificate a b \<in> set (mo_MetricsTLS o') \<longleftrightarrow> fl_MetricsCertPath f \<noteq> [] \<and> (a, b) = metrics_watcher f)
     \<and> (\<forall>a b. GetCertificate a b \<in> set (mo_WebhookTLS o') \<longleftrightarrow> fl_WebhookCertPath f \<noteq> [] \<and> (a, b) = webhook_watcher f)"
proof -
  have o': "o' = manager_opts grow f"
    using assms(3) by (auto simp: main_calls_def main_controllers_def split: if_splits)
  obtain h ws ms where t: "tls_options grow f = (h, ws, ms)" by (cases "tls_options grow f")
  have m: "mo_MetricsTLS o' = slice_list h ms" "mo_WebhookTLS o' = slice_list h ws"
    "mo_SecureServing o' = fl_SecureMetrics f" "mo_AuthFilter o' = fl_SecureMetrics f"
    by (simp_all add: o' manager_opts_def t)
  show ?thesis
    unfolding m tls_options_exact [OF assms(1,2) t]
    by (auto simp: http2_opts_def prod_eq_iff)
qed

theorem main_servers_secured_witness:
  "DisableHTTP2 \<in> set (mo_WebhookTLS (manager_opts (\<lambda>n. n) both_certs))
   \<and> GetCertificate (fst (webhook_watcher both_certs)) (snd (webhook_watcher both_certs)) \<in> set (mo_WebhookTLS (manager_opts (\<lambda>n. n) both_certs))"
proof -
  have m: "NewManager (manager_opts (\<lambda>n. n) both_certs) \<in> set (main_calls (\<lambda>n. n) mem_client ref_lib both_certs)"
    by (simp add: main_calls_def)
  have "fl_WebhookCertPath both_certs \<noteq> []" "\<not> fl_EnableHTTP2 both_certs" by (simp_all add: both_certs_def default_flags_def)
  with main_servers_secured [OF _ _ m] show ?thesis by simp
qed

text \<open>
  C40: The flags are read as they are written: the command line \<open>--name=value\<close> of all twelve
  flags, with any values, sets exactly these values, whatever flags the imported packages
  register.
\<close>

theorem main_flags_roundtrip:
  "parse_flags other (flag_args f) default_flags = Parsed f"
  by (rule parse_flag_args)

end
