(* ===== verification/ApiPrograms.thy ===== *)
theory ApiPrograms
  imports KubeClient
begin

text \<open>
  A run as the sequence of its API calls.  A program is the tree of what a run does next, given
  the answers so far; it makes one call at a time, so that runs can be interleaved.  \<open>run\<close>
  executes a program without interruption, \<open>next_call\<close> one call of it.  \<open>sat\<close> is its correctness
  under interference, in the rely-guarantee style: an invariant that holds between any two
  calls whatever the environment does, and what holds at the end.
\<close>

section \<open>Programs\<close>

datatype 'a prog =
  Return 'a
| Get okey "goerror + kobj \<Rightarrow> 'a prog"
| ListKind kind "string option" "goerror + kobj list \<Rightarrow> 'a prog"
| CreateOrPatch kobj "kobj \<Rightarrow> goerror + kobj" "goerror + op_result \<Rightarrow> 'a prog"
| Delete okey "goerror option \<Rightarrow> 'a prog"
| PatchStatus kobj kobj "goerror option \<Rightarrow> 'a prog"
| Event kevent "unit \<Rightarrow> 'a prog"

primrec and_then :: "'a prog \<Rightarrow> ('a \<Rightarrow> 'b prog) \<Rightarrow> 'b prog" where
  "and_then (Return a) f = f a"
| "and_then (Get k c) f = Get k (\<lambda>x. and_then (c x) f)"
| "and_then (ListKind kd ns c) f = ListKind kd ns (\<lambda>x. and_then (c x) f)"
| "and_then (CreateOrPatch ob m c) f = CreateOrPatch ob m (\<lambda>x. and_then (c x) f)"
| "and_then (Delete k c) f = Delete k (\<lambda>x. and_then (c x) f)"
| "and_then (PatchStatus b n c) f = PatchStatus b n (\<lambda>x. and_then (c x) f)"
| "and_then (Event ev c) f = Event ev (\<lambda>x. and_then (c x) f)"

lemma and_then_assoc [simp]: "and_then (and_then p f) g = and_then p (\<lambda>a. and_then (f a) g)"
  by (induction p) simp_all

text \<open>Decoding reads.\<close>

definition get_prog :: "(kobj \<Rightarrow> goerror + 'a) \<Rightarrow> okey \<Rightarrow> (goerror + 'a) prog" where
  "get_prog dec k = Get k (\<lambda>x. Return (case x of Inl e \<Rightarrow> Inl e | Inr ob \<Rightarrow> dec ob))"

definition list_prog :: "(kobj \<Rightarrow> goerror + 'a) \<Rightarrow> kind \<Rightarrow> string option \<Rightarrow> (goerror + 'a list) prog" where
  "list_prog dec kd ns =
     ListKind kd ns (\<lambda>x. Return (case x of
         Inl e \<Rightarrow> Inl e
       | Inr obs \<Rightarrow> Inr (List.map_filter (\<lambda>ob. case dec ob of Inl _ \<Rightarrow> None | Inr a \<Rightarrow> Some a) obs)))"

section \<open>Execution\<close>

text \<open>The next call of a program; a finished one stays as it is.\<close>

fun next_call :: "'w client \<Rightarrow> 'a prog \<Rightarrow> 'w \<Rightarrow> 'a prog \<times> 'w" where
  "next_call cl (Return a) w = (Return a, w)"
| "next_call cl (Get k c) w = (c (c_get cl k w), w)"
| "next_call cl (ListKind kd ns c) w = (c (c_list cl kd ns w), w)"
| "next_call cl (CreateOrPatch ob m c) w = (case c_create_or_patch cl ob m w of (x, w') \<Rightarrow> (c x, w'))"
| "next_call cl (Delete k c) w = (case c_delete cl k w of (x, w') \<Rightarrow> (c x, w'))"
| "next_call cl (PatchStatus b n c) w = (case c_patch_status cl b n w of (x, w') \<Rightarrow> (c x, w'))"
| "next_call cl (Event ev c) w = (c (), c_event cl ev w)"

definition finished :: "'a prog \<Rightarrow> bool" where
  "finished p = (case p of Return _ \<Rightarrow> True | _ \<Rightarrow> False)"

primrec run :: "'w client \<Rightarrow> 'a prog \<Rightarrow> 'w \<Rightarrow> 'a \<times> 'w" where
  "run cl (Return a) = (\<lambda>w. (a, w))"
| "run cl (Get k c) = (\<lambda>w. run cl (c (c_get cl k w)) w)"
| "run cl (ListKind kd ns c) = (\<lambda>w. run cl (c (c_list cl kd ns w)) w)"
| "run cl (CreateOrPatch ob m c) = (\<lambda>w. case c_create_or_patch cl ob m w of (x, w') \<Rightarrow> run cl (c x) w')"
| "run cl (Delete k c) = (\<lambda>w. case c_delete cl k w of (x, w') \<Rightarrow> run cl (c x) w')"
| "run cl (PatchStatus b n c) = (\<lambda>w. case c_patch_status cl b n w of (x, w') \<Rightarrow> run cl (c x) w')"
| "run cl (Event ev c) = (\<lambda>w. run cl (c ()) (c_event cl ev w))"

lemma run_and_then [simp]: "run cl (and_then p f) w = (case run cl p w of (a, w') \<Rightarrow> run cl (f a) w')"
  by (induction p arbitrary: w) (simp_all split: prod.split)

lemma run_get [simp]: "run cl (get_prog dec k) w = (get_as dec cl k w, w)"
  by (simp add: get_prog_def get_as_def split: sum.split)

lemma run_list [simp]: "run cl (list_prog dec kd ns) w = (list_as dec cl kd ns w, w)"
  by (simp add: list_prog_def list_as_def split: sum.split)

text \<open>Running a program is making its calls one by one.\<close>

lemma run_next: "run cl p w = (case next_call cl p w of (p', w') \<Rightarrow> run cl p' w')"
  by (cases p) (simp_all split: prod.split)

section \<open>The length of a run\<close>

text \<open>At most \<open>n\<close> calls, whatever the answers.\<close>

primrec within :: "'a prog \<Rightarrow> nat \<Rightarrow> bool" where
  "within (Return a) = (\<lambda>n. True)"
| "within (Get k c) = (\<lambda>n. case n of 0 \<Rightarrow> False | Suc i \<Rightarrow> \<forall>x. within (c x) i)"
| "within (ListKind kd ns c) = (\<lambda>n. case n of 0 \<Rightarrow> False | Suc i \<Rightarrow> \<forall>x. within (c x) i)"
| "within (CreateOrPatch ob m c) = (\<lambda>n. case n of 0 \<Rightarrow> False | Suc i \<Rightarrow> \<forall>x. within (c x) i)"
| "within (Delete k c) = (\<lambda>n. case n of 0 \<Rightarrow> False | Suc i \<Rightarrow> \<forall>x. within (c x) i)"
| "within (PatchStatus b n c) = (\<lambda>m. case m of 0 \<Rightarrow> False | Suc i \<Rightarrow> \<forall>x. within (c x) i)"
| "within (Event ev c) = (\<lambda>n. case n of 0 \<Rightarrow> False | Suc i \<Rightarrow> \<forall>x. within (c x) i)"

lemma within_Suc: "within p n \<Longrightarrow> within p (Suc n)"
  by (induction p arbitrary: n) (auto split: nat.splits)

lemma within_mono:
  assumes "within p m" "m \<le> n"
  shows "within p n"
  using assms(2,1) by (induction rule: dec_induct) (auto intro: within_Suc)

lemma within_and_then:
  assumes "within p m" and f: "\<And>a. within (f a) n"
  shows "within (and_then p f) (m + n)"
  using assms(1)
proof (induction p arbitrary: m)
  case (Return a)
  with f show ?case using within_mono by (metis and_then.simps(1) le_add2)
qed (auto split: nat.splits)

lemma within_then: "within p m \<Longrightarrow> m \<le> n \<Longrightarrow> (\<And>a. within (f a) (n - m)) \<Longrightarrow> within (and_then p f) n"
  using within_and_then [of p m f "n - m"] by simp

lemma within_reads [simp]: "within (get_prog dec k) n = (0 < n)" "within (list_prog dec kd ns) n = (0 < n)"
  by (auto simp: get_prog_def list_prog_def split: nat.split)

lemma within_next: "within p n \<Longrightarrow> \<not> finished p \<Longrightarrow> next_call cl p w = (p', w') \<Longrightarrow> 0 < n \<and> within p' (n - 1)"
  by (cases p) (auto simp: finished_def split: prod.splits nat.splits)

text \<open>\<open>n\<close> calls of a program, with the environment in between.\<close>

inductive makes :: "'w client \<Rightarrow> ('w \<Rightarrow> 'w \<Rightarrow> bool) \<Rightarrow> nat \<Rightarrow> 'a prog \<Rightarrow> 'w \<Rightarrow> 'a prog \<Rightarrow> 'w \<Rightarrow> bool" for cl E where
  none: "makes cl E 0 p w p w"
| environment: "makes cl E n p w p' w' \<Longrightarrow> E w' w'' \<Longrightarrow> makes cl E n p w p' w''"
| own: "makes cl E n p w p' w' \<Longrightarrow> \<not> finished p' \<Longrightarrow> next_call cl p' w' = (p'', w'') \<Longrightarrow> makes cl E (Suc n) p w p'' w''"

lemma makes_within: "makes cl E n p w p' w' \<Longrightarrow> within p m \<Longrightarrow> n \<le> m \<and> within p' (m - n)"
proof (induction rule: makes.induct)
  case (own n p w p' w' p'' w'')
  with within_next [of p' "m - n" cl w' p'' w''] show ?case by auto
qed simp_all

section \<open>What a program may write\<close>

primrec writes_in :: "okey set \<Rightarrow> 'a prog \<Rightarrow> bool" where
  "writes_in K (Return a) = True"
| "writes_in K (Get k c) = (\<forall>x. writes_in K (c x))"
| "writes_in K (ListKind kd ns c) = (\<forall>x. writes_in K (c x))"
| "writes_in K (CreateOrPatch ob m c) = (key_of ob \<in> K \<and> (\<forall>x. writes_in K (c x)))"
| "writes_in K (Delete k c) = (k \<in> K \<and> (\<forall>x. writes_in K (c x)))"
| "writes_in K (PatchStatus b n c) = (key_of n \<in> K \<and> (\<forall>x. writes_in K (c x)))"
| "writes_in K (Event ev c) = (\<forall>x. writes_in K (c x))"

lemma writes_and_then: "writes_in K p \<Longrightarrow> (\<And>a. writes_in K (f a)) \<Longrightarrow> writes_in K (and_then p f)"
  by (induction p) auto

lemma writes_reads [simp]: "writes_in K (get_prog dec k)" "writes_in K (list_prog dec kd ns)"
  by (simp_all add: get_prog_def list_prog_def)

lemma writes_next: "writes_in K p \<Longrightarrow> next_call cl p w = (p', w') \<Longrightarrow> writes_in K p'"
  by (cases p) (auto split: prod.splits)

context kube_client
begin

lemma next_unchanged: "writes_in K p \<Longrightarrow> next_call cl p w = (p', w') \<Longrightarrow> unchanged_outside K at w w'"
  by (cases p) (auto split: prod.splits intro: cop_unchanged delete_unchanged patch_unchanged)

end

section \<open>Correctness under interference\<close>

text \<open>
  \<open>E\<close> is what the environment may do between two calls, any number of times; \<open>I\<close> holds all
  along and \<open>Q\<close> at the end, for the answers the client gives to the program.
\<close>

primrec sat :: "'w client \<Rightarrow> ('w \<Rightarrow> 'w \<Rightarrow> bool) \<Rightarrow> ('w \<Rightarrow> bool) \<Rightarrow> 'a prog \<Rightarrow> ('a \<Rightarrow> 'w \<Rightarrow> bool) \<Rightarrow> 'w \<Rightarrow> bool" where
  "sat cl E I (Return a) = (\<lambda>Q w. \<forall>v. E w v \<longrightarrow> I v \<and> Q a v)"
| "sat cl E I (Get k c) = (\<lambda>Q w. \<forall>v. E w v \<longrightarrow> I v \<and> sat cl E I (c (c_get cl k v)) Q v)"
| "sat cl E I (ListKind kd ns c) = (\<lambda>Q w. \<forall>v. E w v \<longrightarrow> I v \<and> sat cl E I (c (c_list cl kd ns v)) Q v)"
| "sat cl E I (CreateOrPatch ob m c) = (\<lambda>Q w. \<forall>v. E w v \<longrightarrow> I v \<and>
     (case c_create_or_patch cl ob m v of (x, v') \<Rightarrow> sat cl E I (c x) Q v'))"
| "sat cl E I (Delete k c) = (\<lambda>Q w. \<forall>v. E w v \<longrightarrow> I v \<and> (case c_delete cl k v of (x, v') \<Rightarrow> sat cl E I (c x) Q v'))"
| "sat cl E I (PatchStatus b n c) = (\<lambda>Q w. \<forall>v. E w v \<longrightarrow> I v \<and>
     (case c_patch_status cl b n v of (x, v') \<Rightarrow> sat cl E I (c x) Q v'))"
| "sat cl E I (Event ev c) = (\<lambda>Q w. \<forall>v. E w v \<longrightarrow> I v \<and> sat cl E I (c ()) Q (c_event cl ev v))"

locale interference =
  fixes cl :: "'w client" and E :: "'w \<Rightarrow> 'w \<Rightarrow> bool"
  assumes E_refl: "E w w" and E_trans: "E w v \<Longrightarrow> E v u \<Longrightarrow> E w u"
begin

lemma sat_environment: "sat cl E I p Q w \<Longrightarrow> E w v \<Longrightarrow> sat cl E I p Q v"
  by (cases p) (auto dest: E_trans)

lemma sat_invariant: "sat cl E I p Q w \<Longrightarrow> I w"
  using E_refl [of w] by (cases p) auto

lemma sat_own: "sat cl E I p Q w \<Longrightarrow> next_call cl p w = (p', w') \<Longrightarrow> sat cl E I p' Q w'"
  using E_refl [of w] by (cases p) (auto split: prod.splits)

lemma sat_end: "sat cl E I (Return a) Q w \<Longrightarrow> Q a w"
  using E_refl by simp

lemma sat_makes: "makes cl E n p w p' w' \<Longrightarrow> sat cl E I p Q w \<Longrightarrow> sat cl E I p' Q w'"
  by (induction rule: makes.induct) (auto intro: sat_environment sat_own)

lemma sat_weaken: "sat cl E I p Q w \<Longrightarrow> (\<And>a v. Q a v \<Longrightarrow> I v \<Longrightarrow> Q' a v) \<Longrightarrow> sat cl E I p Q' w"
  by (induction p arbitrary: w) (auto split: prod.splits)

lemma sat_and_then:
  "sat cl E I p (\<lambda>a v. sat cl E I (f a) Q v) w \<Longrightarrow> sat cl E I (and_then p f) Q w"
proof (induction p arbitrary: w)
  case (Return a)
  then show ?case using E_refl by simp
qed (auto split: prod.splits)

end

section \<open>Other clients\<close>

text \<open>
  What other clients do between two calls.  They leave the objects of \<open>K\<close> alone.  Of the
  resources of the kind \<open>kd\<close> they may create new ones, which have no status, and edit others: an
  edit keeps the status, which is a subresource, and moves the generation on.  Everything else
  is theirs.
\<close>

definition user_edit :: "kobj option \<Rightarrow> kobj option \<Rightarrow> bool" where
  "user_edit o1 o2 =
     (case o1 of
        None \<Rightarrow> (case o2 of None \<Rightarrow> True | Some b \<Rightarrow> status_of b = ([], []))
      | Some a \<Rightarrow>
          (case o2 of
             None \<Rightarrow> False
           | Some b \<Rightarrow> b = a \<or> status_of b = status_of a \<and> m_Generation (meta_of a) < m_Generation (meta_of b)))"

definition edits :: "okey set \<Rightarrow> kind \<Rightarrow> (okey \<Rightarrow> kobj option) \<Rightarrow> (okey \<Rightarrow> kobj option) \<Rightarrow> bool" where
  "edits K kd s s' = ((\<forall>k \<in> K. s' k = s k) \<and> (\<forall>k. user_edit (s (kd, k)) (s' (kd, k))))"

lemma user_edit_refl [simp]: "user_edit x x"
  by (cases x) (simp_all add: user_edit_def)

lemma user_edit_trans: "user_edit x y \<Longrightarrow> user_edit y z \<Longrightarrow> user_edit x z"
  by (auto simp: user_edit_def split: option.splits)

lemma user_edit_none: "user_edit None (Some b) \<Longrightarrow> status_of b = ([], [])"
  by (simp add: user_edit_def)

lemma user_edit_some:
  assumes "user_edit (Some a) y"
  obtains (same) "y = Some a"
  | (later) b where "y = Some b" "status_of b = status_of a" "m_Generation (meta_of a) < m_Generation (meta_of b)"
  using assms by (auto simp: user_edit_def split: option.splits)

lemma edits_refl [simp]: "edits K kd s s"
  by (simp add: edits_def)

lemma edits_trans: "edits K kd s s' \<Longrightarrow> edits K kd s' s'' \<Longrightarrow> edits K kd s s''"
  unfolding edits_def using user_edit_trans by metis

lemma editsD: "edits K kd s s' \<Longrightarrow> k \<in> K \<Longrightarrow> s' k = s k" "edits K kd s s' \<Longrightarrow> user_edit (s (kd, j)) (s' (kd, j))"
  unfolding edits_def by blast+

lemma unchanged_edits:
  assumes "unchanged_outside A at w w'" "A \<inter> K = {}" "\<And>k. (kd, k) \<notin> A"
  shows "edits K kd (at w) (at w')"
proof -
  have "at w' k = at w k" if "k \<in> K" for k by (rule unchangedD [OF assms(1)]) (use assms(2) that in blast)
  moreover have "at w' (kd, k) = at w (kd, k)" for k by (rule unchangedD [OF assms(1)]) (rule assms(3))
  ultimately show ?thesis by (simp add: edits_def)
qed

text \<open>Assertions on the stored objects that other clients cannot make false.\<close>

definition stable :: "okey set \<Rightarrow> kind \<Rightarrow> ((okey \<Rightarrow> kobj option) \<Rightarrow> bool) \<Rightarrow> bool" where
  "stable K kd F = (\<forall>s s'. edits K kd s s' \<longrightarrow> F s \<longrightarrow> F s')"

abbreviation meets ::
  "'w client \<Rightarrow> ('w \<Rightarrow> okey \<Rightarrow> kobj option) \<Rightarrow> okey set \<Rightarrow> kind \<Rightarrow> ((okey \<Rightarrow> kobj option) \<Rightarrow> bool) \<Rightarrow> 'a prog \<Rightarrow>
   ('a \<Rightarrow> (okey \<Rightarrow> kobj option) \<Rightarrow> bool) \<Rightarrow> 'w \<Rightarrow> bool" where
  "meets cl at K kd I p Q w \<equiv> sat cl (\<lambda>v v'. edits K kd (at v) (at v')) (\<lambda>v. I (at v)) p (\<lambda>a v. Q a (at v)) w"

lemma stableD: "stable K kd F \<Longrightarrow> F (at w) \<Longrightarrow> edits K kd (at w) (at w') \<Longrightarrow> F (at w')"
  unfolding stable_def by blast

lemma stable_conj [intro]: "stable K kd F \<Longrightarrow> stable K kd G \<Longrightarrow> stable K kd (\<lambda>s. F s \<and> G s)"
  unfolding stable_def by blast

lemma stable_at [intro]: "k \<in> K \<Longrightarrow> stable K kd (\<lambda>s. s k = x)"
  unfolding stable_def edits_def by simp

lemma stable_const [intro]: "stable K kd (\<lambda>s. b)"
  unfolding stable_def by simp

text \<open>Assertions that only speak of objects in \<open>K\<close>.\<close>

lemma stable_reads: "(\<And>s s'. (\<And>k. k \<in> K \<Longrightarrow> s' k = s k) \<Longrightarrow> F s' = F s) \<Longrightarrow> stable K kd F"
  unfolding stable_def edits_def by blast

lemma edits_interference: "interference (\<lambda>v v'. edits K kd (at v) (at v'))"
  by unfold_locales (auto intro: edits_trans)

sublocale kube_client \<subseteq> shared: interference cl "\<lambda>v v'. edits K kd (at v) (at v')" for K kd
  by unfold_locales (auto intro: edits_trans)

context kube_client
begin

lemma event_same [simp]: "at (c_event cl ev w) = at w"
  by (rule ext) (rule event_at)

lemma meets_return: "F (at w) \<Longrightarrow> stable K kd F \<Longrightarrow> (\<And>s. F s \<Longrightarrow> I s \<and> Q a s) \<Longrightarrow> meets cl at K kd I (Return a) Q w"
  using stableD [of K kd F at w] by simp

lemma meets_get:
  assumes "F (at w)" "stable K kd F" "\<And>s. F s \<Longrightarrow> I s"
    and "\<And>v. F (at v) \<Longrightarrow> meets cl at K kd I (f (get_as dec cl k v)) Q v"
  shows "meets cl at K kd I (and_then (get_prog dec k) f) Q w"
  using assms(3,4) stableD [OF assms(2), of at w] assms(1) by (simp add: get_prog_def get_as_def)

lemma meets_list:
  assumes "F (at w)" "stable K kd F" "\<And>s. F s \<Longrightarrow> I s"
    and "\<And>v. F (at v) \<Longrightarrow> meets cl at K kd I (f (list_as dec cl kd2 ns v)) Q v"
  shows "meets cl at K kd I (and_then (list_prog dec kd2 ns) f) Q w"
  using assms(3,4) stableD [OF assms(2), of at w] assms(1) by (simp add: list_prog_def list_as_def)

lemma meets_cop:
  assumes "F (at w)" "stable K kd F" "\<And>s. F s \<Longrightarrow> I s"
    and "\<And>v x v'. F (at v) \<Longrightarrow> c_create_or_patch cl ob m v = (x, v') \<Longrightarrow> meets cl at K kd I (c x) Q v'"
  shows "meets cl at K kd I (CreateOrPatch ob m c) Q w"
  using assms(3,4) stableD [OF assms(2), of at w] assms(1) by (fastforce split: prod.split)

lemma meets_delete:
  assumes "F (at w)" "stable K kd F" "\<And>s. F s \<Longrightarrow> I s"
    and "\<And>v x v'. F (at v) \<Longrightarrow> c_delete cl k v = (x, v') \<Longrightarrow> meets cl at K kd I (c x) Q v'"
  shows "meets cl at K kd I (Delete k c) Q w"
  using assms(3,4) stableD [OF assms(2), of at w] assms(1) by (fastforce split: prod.split)

lemma meets_patch:
  assumes "F (at w)" "stable K kd F" "\<And>s. F s \<Longrightarrow> I s"
    and "\<And>v x v'. F (at v) \<Longrightarrow> c_patch_status cl b n v = (x, v') \<Longrightarrow> meets cl at K kd I (c x) Q v'"
  shows "meets cl at K kd I (PatchStatus b n c) Q w"
  using assms(3,4) stableD [OF assms(2), of at w] assms(1) by (fastforce split: prod.split)

lemma meets_event:
  assumes "F (at w)" "stable K kd F" "\<And>s. F s \<Longrightarrow> I s"
    and "\<And>v. F (at v) \<Longrightarrow> meets cl at K kd I (c ()) Q v"
  shows "meets cl at K kd I (Event ev c) Q w"
  using assms(3,4) stableD [OF assms(2), of at w] assms(1) by simp

lemmas meets_then = shared.sat_and_then
lemmas meets_weaken = shared.sat_weaken

end

end
