(* ===== verification/ReconcilePrograms.thy ===== *)
theory ReconcilePrograms
  imports ApiPrograms ToolRouteReconciler
begin

text \<open>
  The three reconcilers as programs: the same code as in \<open>GuardReconciler\<close>,
  \<open>ToolGatewayReconciler\<close> and \<open>ToolRouteReconciler\<close>, one API call at a time.  Each program is
  shown to run as the function it stands for, to write only the objects of its controller, and
  to end after a bounded number of calls.
\<close>

section \<open>Guards\<close>

text \<open>A \<open>CreateOrPatch\<close> with its error wrapped.\<close>

definition write_prog :: "string \<Rightarrow> kobj \<Rightarrow> (kobj \<Rightarrow> goerror + kobj) \<Rightarrow> goerror option prog" where
  "write_prog failure ob m =
     CreateOrPatch ob m (\<lambda>x. Return (case x of Inl e \<Rightarrow> Some (Wrapf failure e []) | Inr op \<Rightarrow> None))"

definition ensureConfigMap_prog :: "klib \<Rightarrow> guard \<Rightarrow> string \<Rightarrow> goerror option prog" where
  "ensureConfigMap_prog lib g configYAML =
     write_prog ''failed to ensure ConfigMap: ''
       (OConfigMap \<lparr>cm_Meta = new_meta (adapterName g) (m_Namespace (g_Meta g)), cm_Data = None\<rparr>)
       (on_config_map (config_map_mutate lib g configYAML))"

definition ensureDeployment_prog :: "klib \<Rightarrow> string \<Rightarrow> guard \<Rightarrow> string \<Rightarrow> goerror option prog" where
  "ensureDeployment_prog lib img g configHash =
     write_prog ''failed to ensure Deployment: ''
       (ODeployment \<lparr>dp_Meta = new_meta (adapterName g) (m_Namespace (g_Meta g)), dp_Replicas = None,
         dp_Selector = None, dp_TemplateLabels = None, dp_TemplateAnnotations = None, dp_PodSpec = empty_pod_spec\<rparr>)
       (on_deployment (deployment_mutate lib img g configHash))"

definition ensureService_prog :: "klib \<Rightarrow> guard \<Rightarrow> goerror option prog" where
  "ensureService_prog lib g =
     write_prog ''failed to ensure Service: ''
       (OService \<lparr>sv_Meta = new_meta (adapterName g) (m_Namespace (g_Meta g)), sv_Selector = None, sv_Ports = []\<rparr>)
       (on_service (service_mutate lib g))"

definition setReadyCondition_prog :: "klib \<Rightarrow> guard \<Rightarrow> string \<Rightarrow> string \<Rightarrow> string \<Rightarrow> goerror option prog" where
  "setReadyCondition_prog lib g status reason message =
     PatchStatus (OGuard g) (OGuard (set_guard_ready lib g status reason message))
       (\<lambda>x. Return (map_option (\<lambda>e. Wrapf ''failed to patch Guard status: '' e []) x))"

definition guard_error :: "string \<Rightarrow> goerror \<Rightarrow> (string \<times> string \<times> goerror option) prog" where
  "guard_error reason e = Return (reason, error_text e, Some e)"

text \<open>The steps on the three objects, in their order; the first error ends them.\<close>

definition adapter_prog :: "klib \<Rightarrow> string \<Rightarrow> guard \<Rightarrow> string \<Rightarrow> string \<Rightarrow> (string \<times> string \<times> goerror option) prog" where
  "adapter_prog lib img g configYAML configHash =
     and_then (ensureConfigMap_prog lib g configYAML) (\<lambda>x. case x of
       Some e \<Rightarrow> guard_error guardReasonReconcileFailed e
     | None \<Rightarrow> and_then (ensureDeployment_prog lib img g configHash) (\<lambda>x. case x of
         Some e \<Rightarrow> guard_error guardReasonReconcileFailed e
       | None \<Rightarrow> and_then (ensureService_prog lib g) (\<lambda>x. case x of
           Some e \<Rightarrow> guard_error guardReasonReconcileFailed e
         | None \<Rightarrow> Return ([], [], None))))"

definition reconcileGuard_prog :: "klib \<Rightarrow> string \<Rightarrow> guard \<Rightarrow> (string \<times> string \<times> goerror option) prog" where
  "reconcileGuard_prog lib img g =
     (if img = []
      then Return (guardReasonAdapterNotConfigured, ''--guardrail-adapter-image flag is not set on the operator'',
                   Some (Plain ''adapter image not configured''))
      else and_then (get_prog as_provider (KGuardrailProvider, provider_key g)) (\<lambda>x. case x of
        Inl e \<Rightarrow>
          if is_not_found e then guard_error guardReasonProviderNotFound e
          else guard_error guardReasonReconcileFailed e
      | Inr provider \<Rightarrow>
          (case renderStaticConfig lib g provider of
             Inl e \<Rightarrow>
               if errors_is e errUnsupportedProvider then guard_error guardReasonUnsupportedProviderType e
               else if errors_is e errInvalidConfig then guard_error guardReasonInvalidConfig e
               else guard_error guardReasonReconcileFailed e
           | Inr (configYAML, configHash) \<Rightarrow> adapter_prog lib img g configYAML configHash)))"

definition Guard_Reconcile_prog :: "klib \<Rightarrow> string \<Rightarrow> nsname \<Rightarrow> goerror option prog" where
  "Guard_Reconcile_prog lib img req =
     and_then (get_prog as_guard (KGuard, req)) (\<lambda>x. case x of
       Inl e \<Rightarrow> Return (if is_not_found e then None else Some e)
     | Inr g \<Rightarrow> and_then (reconcileGuard_prog lib img g) (\<lambda>(reason, msg, err). case err of
         Some e \<Rightarrow> and_then (setReadyCondition_prog lib g ConditionFalse reason msg)
                     (\<lambda>statusErr. Return (if isTerminalReason reason then None else Some e))
       | None \<Rightarrow> setReadyCondition_prog lib g ConditionTrue guardReasonReconciled ''Adapter resources reconciled''))"

section \<open>Gateways\<close>

definition emit_prog :: "bool \<Rightarrow> okey \<Rightarrow> string \<Rightarrow> string \<Rightarrow> string \<Rightarrow> unit prog" where
  "emit_prog recorder regarding reason action note =
     (if \<not> recorder then Return ()
      else Event \<lparr>en_Regarding = regarding, en_Reason = reason, en_Action = action, en_Note = note\<rparr> Return)"

definition emit_op_prog :: "bool \<Rightarrow> okey \<Rightarrow> string \<Rightarrow> string \<Rightarrow> string \<Rightarrow> op_result \<Rightarrow> unit prog" where
  "emit_op_prog recorder regarding what label name op =
     (case op of
        OpCreated \<Rightarrow> emit_prog recorder regarding (what @ ''Created'') (''Create'' @ what) (''Created '' @ label @ '' '' @ name)
      | OpUpdated \<Rightarrow> emit_prog recorder regarding (what @ ''Updated'') (''Update'' @ what) (''Updated '' @ label @ '' '' @ name)
      | _ \<Rightarrow> Return ())"

text \<open>A \<open>CreateOrPatch\<close> with its error wrapped and its event.\<close>

definition ensure_prog ::
  "bool \<Rightarrow> okey \<Rightarrow> string \<Rightarrow> string \<Rightarrow> string \<Rightarrow> string \<Rightarrow> kobj \<Rightarrow> (kobj \<Rightarrow> goerror + kobj) \<Rightarrow> goerror option prog" where
  "ensure_prog recorder regarding what label name failure ob f =
     CreateOrPatch ob f (\<lambda>x. case x of
       Inl e \<Rightarrow> Return (Some (Wrapf failure e []))
     | Inr op \<Rightarrow> and_then (emit_op_prog recorder regarding what label name op) (\<lambda>_. Return None))"

definition ensureGateway_prog :: "klib \<Rightarrow> bool \<Rightarrow> tool_gateway \<Rightarrow> goerror option prog" where
  "ensureGateway_prog lib recorder tg =
     ensure_prog recorder (tg_key tg) ''Gateway'' ''Gateway'' (m_Name (tg_Meta tg)) ''failed to create or update Gateway: ''
       (OGateway \<lparr>gw_Meta = new_meta (m_Name (tg_Meta tg)) (m_Namespace (tg_Meta tg)), gw_Spec = empty_gateway_spec\<rparr>)
       (on_gateway (gateway_mutate lib tg))"

definition ensureAgentgatewayParameters_prog :: "klib \<Rightarrow> bool \<Rightarrow> tool_gateway \<Rightarrow> goerror option prog" where
  "ensureAgentgatewayParameters_prog lib recorder tg =
     ensure_prog recorder (tg_key tg) ''AgentgatewayParameters'' ''AgentgatewayParameters'' (m_Name (tg_Meta tg))
       ''failed to create or update AgentgatewayParameters: ''
       (OUnstructured (newAgentgatewayParameters (m_Name (tg_Meta tg)) (m_Namespace (tg_Meta tg))))
       (on_unstructured (params_mutate lib tg))"

definition guard_check_prog :: "klib \<Rightarrow> nsname \<Rightarrow> goerror option prog" where
  "guard_check_prog lib gk =
     (let path = fst gk @ ''/'' @ snd gk in
      and_then (get_prog as_guard (KGuard, gk)) (\<lambda>x. Return (case x of
        Inl e \<Rightarrow>
          if is_not_found e then Some (Wrapf [] errGuardNotFound ('': '' @ path))
          else Some (Wrapf (''failed to get guard '' @ path @ '': '') e [])
      | Inr g \<Rightarrow>
          (case l_find_condition lib (g_Conditions g) ''Ready'' of
             None \<Rightarrow> Some (Wrapf [] errGuardNotReady ('': '' @ path @ '' has no Ready condition yet''))
           | Some cond \<Rightarrow>
               if cd_Status cond \<noteq> ConditionTrue
               then Some (Wrapf [] errGuardNotReady
                      ('': '' @ path @ '': '' @ cd_Reason cond @ '' '' @ em_dash @ '' '' @ cd_Message cond))
               else None))))"

definition ensureGuardrails_prog :: "klib \<Rightarrow> bool \<Rightarrow> tool_gateway \<Rightarrow> (goerror option \<times> tool_gateway) prog" where
  "ensureGuardrails_prog lib recorder tg =
     (let policy = newAgentgatewayPolicy (guardrail_name tg) (m_Namespace (tg_Meta tg)) in
      case tg_Guardrails tg of
        [] \<Rightarrow> Delete (key_of (OUnstructured policy)) (\<lambda>x. Return (case x of
            Some e \<Rightarrow>
              if is_not_found e then (None, clear_unsupported lib tg)
              else (Some (Wrapf ''failed to delete guardrail policy: '' e []), tg)
          | None \<Rightarrow> (None, clear_unsupported lib tg)))
      | _ # _ # _ \<Rightarrow>
          Return (Some (Plain ''multiple guards not supported''),
                  tg\<lparr>tg_Conditions := l_set_condition lib (tg_Conditions tg) (unsupported_condition tg)\<rparr>)
      | [ref] \<Rightarrow>
          (let gk = guard_ref_key tg ref in
           and_then (guard_check_prog lib gk) (\<lambda>x. case x of
             Some e \<Rightarrow> Return (Some e, tg)
           | None \<Rightarrow>
               and_then (ensure_prog recorder (tg_key tg) ''GuardrailPolicy'' ''guardrail policy'' (guardrail_name tg)
                           ''failed to create or update guardrail policy: '' (OUnstructured policy)
                           (on_unstructured (guardrail_mutate lib tg gk)))
                 (\<lambda>x. Return (case x of Some e \<Rightarrow> (Some e, tg) | None \<Rightarrow> (None, clear_unsupported lib tg))))))"

definition reconcileToolGateway_prog ::
  "klib \<Rightarrow> bool \<Rightarrow> tool_gateway \<Rightarrow> ((string \<times> goerror option) \<times> tool_gateway) prog" where
  "reconcileToolGateway_prog lib recorder tg =
     and_then (ensureAgentgatewayParameters_prog lib recorder tg) (\<lambda>x. case x of
       Some e \<Rightarrow> Return ((reasonAgentgatewayParametersFailed, Some e), tg)
     | None \<Rightarrow> and_then (ensureGateway_prog lib recorder tg) (\<lambda>x. case x of
         Some e \<Rightarrow> Return ((reasonGatewayFailed, Some e), tg)
       | None \<Rightarrow> and_then (ensureGuardrails_prog lib recorder tg) (\<lambda>(x, tg'). Return (case x of
           Some e \<Rightarrow> ((guardrails_reason e, Some e), tg')
         | None \<Rightarrow> (([], None), tg')))))"

definition patch_tg_prog :: "tool_gateway \<Rightarrow> tool_gateway \<Rightarrow> goerror option prog" where
  "patch_tg_prog base new =
     PatchStatus (OToolGateway base) (OToolGateway new)
       (\<lambda>x. Return (map_option (\<lambda>e. Wrapf ''failed to patch ToolGateway status: '' e []) x))"

definition owned_prog :: "tool_gateway \<Rightarrow> (goerror + bool) prog" where
  "owned_prog tg =
     and_then (list_prog as_class KToolGatewayClass None) (\<lambda>x. Return (case x of
       Inl e \<Rightarrow> Inl (Wrapf ''failed to list ToolGatewayClasses: '' e [])
     | Inr items \<Rightarrow>
         (let owned = filter (\<lambda>tgc. tgc_Controller tgc = ToolGatewayAgentgatewayControllerName) items;
              className = tg_ClassName tg
          in if className \<noteq> []
             then Inr (list_ex (\<lambda>c. m_Name (tgc_Meta c) = className) owned)
             else Inr (list_ex (\<lambda>c. m_Annotations (tgc_Meta c) toolGatewayClassDefaultAnnotation = Some ''true'') owned))))"

definition ToolGateway_Reconcile_prog :: "klib \<Rightarrow> bool \<Rightarrow> nsname \<Rightarrow> goerror option prog" where
  "ToolGateway_Reconcile_prog lib recorder req =
     and_then (get_prog as_tool_gateway (KToolGateway, req)) (\<lambda>x. case x of
       Inl e \<Rightarrow> Return (if is_not_found e then None else Some e)
     | Inr tg \<Rightarrow> and_then (owned_prog tg) (\<lambda>x. case x of
         Inl e \<Rightarrow> Return (Some e)
       | Inr False \<Rightarrow> Return None
       | Inr True \<Rightarrow> and_then (reconcileToolGateway_prog lib recorder tg) (\<lambda>((reason, err), tg'). case err of
           Some e \<Rightarrow> and_then (patch_tg_prog tg' (tg_not_ready lib tg' reason (error_text e))) (\<lambda>statusErr. Return (Some e))
         | None \<Rightarrow> patch_tg_prog tg' (tg_ready lib tg'))))"

section \<open>Routes\<close>

definition resolveToolGatewayKey_prog :: "tool_route \<Rightarrow> (goerror + nsname) prog" where
  "resolveToolGatewayKey_prog route =
     (case tr_ToolGatewayRef route of
        Some ref \<Rightarrow>
          Return (Inr (if ref_Namespace ref = [] then m_Namespace (tr_Meta route) else ref_Namespace ref, ref_Name ref))
      | None \<Rightarrow>
          and_then (list_prog as_tool_gateway KToolGateway (Some defaultToolGatewayNamespace)) (\<lambda>x. Return (case x of
            Inl e \<Rightarrow> Inl (Wrapf (''failed to list ToolGateways in namespace '' @ defaultToolGatewayNamespace @ '': '') e [])
          | Inr items \<Rightarrow>
              (case items of
                 [] \<Rightarrow> Inl errNoDefaultToolGateway
               | tg # _ \<Rightarrow> Inr (m_Namespace (tg_Meta tg), m_Name (tg_Meta tg))))))"

definition resolveRouteUpstream_prog :: "klib \<Rightarrow> tool_route \<Rightarrow> (goerror + string \<times> 32 word \<times> string) prog" where
  "resolveRouteUpstream_prog lib route =
     (case tr_ToolServerRef route of
        Some ref \<Rightarrow>
          (let k = server_ref_key route ref in
           and_then (get_prog as_tool_server (KToolServer, k)) (\<lambda>x. Return (case x of
             Inl e \<Rightarrow> Inl (Wrapf (''failed to resolve ToolServer '' @ fst k @ ''/'' @ snd k @ '': '') e [])
           | Inr ts \<Rightarrow>
               Inr (toolServerHost (m_Name (ts_Meta ts)) (m_Namespace (ts_Meta ts)), ts_Port ts,
                    if ts_Path ts = [] then ''/mcp'' else ts_Path ts))))
      | None \<Rightarrow>
          Return (case tr_External route of
             Some raw \<Rightarrow> external_upstream lib raw
           | None \<Rightarrow> Inl (Plain ''upstream has neither toolServerRef nor external set'')))"

definition ensureBackend_prog ::
  "klib \<Rightarrow> bool \<Rightarrow> tool_route \<Rightarrow> tool_gateway \<Rightarrow> string \<times> 32 word \<times> string \<Rightarrow> goerror option prog" where
  "ensureBackend_prog lib recorder route tg up =
     ensure_prog recorder (route_key route) ''Backend'' ''AgentgatewayBackend'' (route_object_name tg route)
       ''failed to ensure AgentgatewayBackend: ''
       (OUnstructured (newAgentgatewayBackend (route_object_name tg route) (m_Namespace (tr_Meta route))))
       (on_unstructured (backend_mutate lib route up))"

definition ensureHTTPRoute_prog :: "klib \<Rightarrow> bool \<Rightarrow> tool_route \<Rightarrow> tool_gateway \<Rightarrow> string \<Rightarrow> goerror option prog" where
  "ensureHTTPRoute_prog lib recorder route tg routePath =
     ensure_prog recorder (route_key route) ''HTTPRoute'' ''HTTPRoute'' (route_object_name tg route)
       ''failed to ensure HTTPRoute: ''
       (OHTTPRoute \<lparr>hr_Meta = new_meta (route_object_name tg route) (m_Namespace (tr_Meta route)), hr_Spec = empty_http_route_spec\<rparr>)
       (on_http_route (http_route_mutate lib route tg routePath))"

definition ensurePolicy_prog :: "klib \<Rightarrow> bool \<Rightarrow> tool_route \<Rightarrow> tool_gateway \<Rightarrow> goerror option prog" where
  "ensurePolicy_prog lib recorder route tg =
     (let policyName = filter_policy_name tg route;
          rules = buildMcpAuthorizationRules (tr_ToolFilter route);
          policy = newAgentgatewayPolicy policyName (m_Namespace (tr_Meta route))
      in if rules = []
         then Delete (key_of (OUnstructured policy)) (\<lambda>x. case x of
             None \<Rightarrow>
               and_then (emit_prog recorder (route_key route) ''PolicyDeleted'' ''DeletePolicy''
                           (''Deleted AgentgatewayPolicy '' @ policyName @ '' (tool filter cleared)'')) (\<lambda>_. Return None)
           | Some e \<Rightarrow>
               if is_not_found e then Return None
               else Return (Some (Wrapf ''failed to delete stale tool-filter policy: '' e [])))
         else ensure_prog recorder (route_key route) ''Policy'' ''AgentgatewayPolicy'' policyName
                ''failed to ensure AgentgatewayPolicy: '' (OUnstructured policy)
                (on_unstructured (filter_policy_mutate lib route tg rules)))"

definition reconcileToolRoute_prog ::
  "klib \<Rightarrow> bool \<Rightarrow> tool_route \<Rightarrow> tool_gateway \<Rightarrow> (string \<times> string \<times> goerror option) prog" where
  "reconcileToolRoute_prog lib recorder route tg =
     and_then (resolveRouteUpstream_prog lib route) (\<lambda>x. case x of
       Inl e \<Rightarrow> Return ([], reasonToolRouteUpstreamUnresolved, Some e)
     | Inr up \<Rightarrow> and_then (ensureBackend_prog lib recorder route tg up) (\<lambda>x. case x of
         Some e \<Rightarrow> Return ([], reasonToolRouteBackendFailed, Some e)
       | None \<Rightarrow> and_then (ensureHTTPRoute_prog lib recorder route tg (route_path route)) (\<lambda>x. case x of
           Some e \<Rightarrow> Return ([], reasonToolRouteHTTPRouteFailed, Some e)
         | None \<Rightarrow> and_then (ensurePolicy_prog lib recorder route tg) (\<lambda>x. Return (case x of
             Some e \<Rightarrow> ([], reasonToolRoutePolicyFailed, Some e)
           | None \<Rightarrow> (route_path route, [], None))))))"

definition patch_route_prog :: "tool_route \<Rightarrow> tool_route \<Rightarrow> goerror option prog" where
  "patch_route_prog base new =
     PatchStatus (OToolRoute base) (OToolRoute new)
       (\<lambda>x. Return (map_option (\<lambda>e. Wrapf ''failed to patch ToolRoute status: '' e []) x))"

definition route_ready_prog :: "klib \<Rightarrow> bool \<Rightarrow> tool_route \<Rightarrow> tool_gateway \<Rightarrow> string \<Rightarrow> goerror option prog" where
  "route_ready_prog lib recorder route tg routePath =
     (let wasReady = is_condition_true lib (tr_Conditions route) readyConditionType;
          gwURL = route_url tg routePath
      in and_then (patch_route_prog route (tr_ready lib route gwURL)) (\<lambda>x. case x of
           Some e \<Rightarrow> Return (Some e)
         | None \<Rightarrow>
             and_then (if wasReady then Return ()
                       else emit_prog recorder (route_key route) ''Ready'' ''Reconciled'' (''ToolRoute ready at '' @ gwURL))
               (\<lambda>_. Return None)))"

definition route_not_ready_prog :: "klib \<Rightarrow> tool_route \<Rightarrow> string \<Rightarrow> string \<Rightarrow> goerror option prog" where
  "route_not_ready_prog lib route reason message = patch_route_prog route (tr_not_ready lib route reason message)"

definition ToolRoute_Reconcile_prog :: "klib \<Rightarrow> bool \<Rightarrow> nsname \<Rightarrow> goerror option prog" where
  "ToolRoute_Reconcile_prog lib recorder req =
     and_then (get_prog as_tool_route (KToolRoute, req)) (\<lambda>x. case x of
       Inl e \<Rightarrow> Return (if is_not_found e then None else Some e)
     | Inr route \<Rightarrow> and_then (resolveToolGatewayKey_prog route) (\<lambda>x. case x of
         Inl e \<Rightarrow>
           if errors_is e errNoDefaultToolGateway
           then and_then (route_not_ready_prog lib route reasonToolRouteGatewayNotFound (error_text e)) (\<lambda>statusErr. Return None)
           else Return (Some e)
       | Inr gk \<Rightarrow> and_then (get_prog as_tool_gateway (KToolGateway, gk)) (\<lambda>x. case x of
           Inl e \<Rightarrow>
             if \<not> is_not_found e then Return (Some e)
             else and_then (route_not_ready_prog lib route reasonToolRouteGatewayNotFound
                              (''ToolGateway '' @ fst gk @ ''/'' @ snd gk @ '' not found'')) (\<lambda>statusErr. Return None)
         | Inr tg \<Rightarrow> and_then (owned_prog tg) (\<lambda>x. case x of
             Inl e \<Rightarrow> Return (Some e)
           | Inr False \<Rightarrow> Return None
           | Inr True \<Rightarrow> and_then (reconcileToolRoute_prog lib recorder route tg) (\<lambda>(routePath, reason, err). case err of
               Some e \<Rightarrow> and_then (route_not_ready_prog lib route reason (error_text e)) (\<lambda>statusErr. Return (Some e))
             | None \<Rightarrow> route_ready_prog lib recorder route tg routePath)))))"

section \<open>The programs run as the functions\<close>

named_theorems prog_runs \<open>programs executed without interruption\<close>

lemma run_ensure_guard [prog_runs]:
  "run (r_Client r) (ensureConfigMap_prog (r_Lib r) g data) w = ensureConfigMap r g data w"
  "run (r_Client r) (ensureDeployment_prog (r_Lib r) (r_AdapterImage r) g h) w = ensureDeployment r g h w"
  "run (r_Client r) (ensureService_prog (r_Lib r) g) w = ensureService r g w"
  "run (r_Client r) (setReadyCondition_prog (r_Lib r) g s reason msg) w = setReadyCondition r g s reason msg w"
  by (simp_all add: write_prog_def ensureConfigMap_prog_def ensureConfigMap_def ensureDeployment_prog_def ensureDeployment_def
      ensureService_prog_def ensureService_def setReadyCondition_prog_def setReadyCondition_def Let_def
      split: prod.split sum.split option.split)

lemma run_guard_error [prog_runs]: "run cl (guard_error reason e) w = guard_failed reason e w"
  by (simp add: guard_error_def guard_failed_def)

lemma run_reconcileGuard [prog_runs]:
  "run (r_Client r) (reconcileGuard_prog (r_Lib r) (r_AdapterImage r) g) w = reconcileGuard r g w"
  by (simp add: reconcileGuard_prog_def reconcileGuard_def adapter_prog_def fetchProvider_def prog_runs
      split: sum.split prod.split option.split)

lemma run_Guard:
  "run (r_Client r) (Guard_Reconcile_prog (r_Lib r) (r_AdapterImage r) req) w = Guard_Reconcile r req w"
  by (simp add: Guard_Reconcile_prog_def Guard_Reconcile_def prog_runs Let_def split: sum.split prod.split option.split)

lemma run_emit [prog_runs]:
  "run (r_Client r) (emit_prog (r_Recorder r) k reason action note) w = ((), emitNormalEvent r k reason action note w)"
  "run (r_Client r) (emit_op_prog (r_Recorder r) k what label name op) w = ((), emit_op r k what label name op w)"
  by (simp_all add: emit_prog_def emitNormalEvent_def emit_op_prog_def emit_op_def split: op_result.split)

lemma run_ensure [prog_runs]:
  "run (r_Client r) (ensure_prog (r_Recorder r) k what label name failure ob f) w =
     (case c_create_or_patch (r_Client r) ob f w of
        (Inl e, w') \<Rightarrow> (Some (Wrapf failure e []), w')
      | (Inr op, w') \<Rightarrow> (None, emit_op r k what label name op w'))"
  by (simp add: ensure_prog_def prog_runs split: prod.split sum.split)

lemma run_gateway_steps [prog_runs]:
  "run (r_Client r) (ensureGateway_prog (r_Lib r) (r_Recorder r) tg) w = ensureGateway r tg w"
  "run (r_Client r) (ensureAgentgatewayParameters_prog (r_Lib r) (r_Recorder r) tg) w = ensureAgentgatewayParameters r tg w"
  "run (r_Client r) (guard_check_prog (r_Lib r) gk) w = (guard_check r gk w, w)"
  "run (r_Client r) (patch_tg_prog b n) w = patch_tg r b n w"
  "run (r_Client r) (owned_prog tg) w = (isToolGatewayOwnedByController (r_Client r) tg w, w)"
  by (simp_all add: ensureGateway_prog_def ensureGateway_def ensureAgentgatewayParameters_prog_def ensureAgentgatewayParameters_def
      guard_check_prog_def guard_check_def patch_tg_prog_def patch_tg_def owned_prog_def isToolGatewayOwnedByController_def
      prog_runs Let_def split: prod.split sum.split option.split)

lemma run_ensureGuardrails [prog_runs]:
  "run (r_Client r) (ensureGuardrails_prog (r_Lib r) (r_Recorder r) tg) w =
     (case ensureGuardrails r tg w of (e, tg', w') \<Rightarrow> ((e, tg'), w'))"
  by (simp add: ensureGuardrails_prog_def ensureGuardrails_def prog_runs Let_def
      split: prod.split sum.split option.split list.split)

lemma run_reconcileToolGateway [prog_runs]:
  "run (r_Client r) (reconcileToolGateway_prog (r_Lib r) (r_Recorder r) tg) w =
     (case reconcileToolGateway r tg w of (x, tg', w') \<Rightarrow> ((x, tg'), w'))"
  by (simp add: reconcileToolGateway_prog_def reconcileToolGateway_def prog_runs split: prod.split option.split)

lemma run_ToolGateway:
  "run (r_Client r) (ToolGateway_Reconcile_prog (r_Lib r) (r_Recorder r) req) w = ToolGateway_Reconcile r req w"
  by (simp add: ToolGateway_Reconcile_prog_def ToolGateway_Reconcile_def updateStatusReady_def updateStatusNotReady_def
      prog_runs Let_def split: sum.split prod.split option.split bool.split)

lemma run_route_steps [prog_runs]:
  "run (r_Client r) (resolveToolGatewayKey_prog route) w = (resolveToolGatewayKey (r_Client r) route w, w)"
  "run (r_Client r) (resolveRouteUpstream_prog (r_Lib r) route) w = (resolveRouteUpstream (r_Lib r) (r_Client r) route w, w)"
  "run (r_Client r) (ensureBackend_prog (r_Lib r) (r_Recorder r) route tg up) w = ensureBackend r route tg up w"
  "run (r_Client r) (ensureHTTPRoute_prog (r_Lib r) (r_Recorder r) route tg path) w = ensureHTTPRoute r route tg path w"
  "run (r_Client r) (patch_route_prog b n') w = patch_route r b n' w"
  by (simp_all add: resolveToolGatewayKey_prog_def resolveToolGatewayKey_def resolveRouteUpstream_prog_def resolveRouteUpstream_def
      ensureBackend_prog_def ensureBackend_def ensureHTTPRoute_prog_def ensureHTTPRoute_def patch_route_prog_def patch_route_def
      prog_runs Let_def split: prod.split sum.split option.split)

lemma run_ensurePolicy [prog_runs]:
  "run (r_Client r) (ensurePolicy_prog (r_Lib r) (r_Recorder r) route tg) w = ensurePolicy r route tg w"
  by (simp add: ensurePolicy_prog_def ensurePolicy_def prog_runs Let_def split: prod.split sum.split option.split)

lemma run_route_status [prog_runs]:
  "run (r_Client r) (route_ready_prog (r_Lib r) (r_Recorder r) route tg path) w = route_updateStatusReady r route tg path w"
  "run (r_Client r) (route_not_ready_prog (r_Lib r) route reason msg) w = route_updateStatusNotReady r route reason msg w"
  by (simp_all add: route_ready_prog_def route_updateStatusReady_def route_not_ready_prog_def route_updateStatusNotReady_def
      prog_runs Let_def split: prod.split option.split)

lemma run_reconcileToolRoute [prog_runs]:
  "run (r_Client r) (reconcileToolRoute_prog (r_Lib r) (r_Recorder r) route tg) w = reconcileToolRoute r route tg w"
  by (simp add: reconcileToolRoute_prog_def reconcileToolRoute_def prog_runs split: sum.split prod.split option.split)

lemma run_ToolRoute:
  "run (r_Client r) (ToolRoute_Reconcile_prog (r_Lib r) (r_Recorder r) req) w = ToolRoute_Reconcile r req w"
  by (simp add: ToolRoute_Reconcile_prog_def ToolRoute_Reconcile_def prog_runs Let_def
      split: sum.split prod.split option.split bool.split)

section \<open>The number of calls\<close>

lemma within_steps [simp]:
  "within (ensureConfigMap_prog lib g data) n = (0 < n)" "within (ensureDeployment_prog lib img g h) n = (0 < n)"
  "within (ensureService_prog lib g) n = (0 < n)" "within (setReadyCondition_prog lib g s reason msg) n = (0 < n)"
  "within (guard_error reason e) n" "within (patch_tg_prog b t) n = (0 < n)" "within (patch_route_prog c u) n = (0 < n)"
  by (auto simp: write_prog_def ensureConfigMap_prog_def ensureDeployment_prog_def ensureService_prog_def setReadyCondition_prog_def
      guard_error_def patch_tg_prog_def patch_route_prog_def split: nat.split)

lemma within_ensure: "within (ensure_prog recorder k what label name failure ob f) 2"
  by (auto simp: ensure_prog_def emit_op_prog_def emit_prog_def numeral_2_eq_2 split: sum.split op_result.split)

lemma adapter_within: "within (adapter_prog lib img g data h) 3"
  unfolding adapter_prog_def
  by (auto intro!: within_then [where m = 1] split: option.split)

lemma reconcileGuard_within: "within (reconcileGuard_prog lib img g) 4"
  unfolding reconcileGuard_prog_def
  by (auto intro!: within_then [where m = 1] within_mono [OF adapter_within] split: sum.split)

lemma guard_within: "within (Guard_Reconcile_prog lib img req) 6"
  unfolding Guard_Reconcile_prog_def
  by (auto intro!: within_then [where m = 1 and p = "get_prog _ _"] within_then [OF reconcileGuard_within]
      within_then [where m = 1 and p = "setReadyCondition_prog _ _ _ _ _"] split: sum.split option.split)

lemma owned_within: "within (owned_prog tg) 1"
  unfolding owned_prog_def by (rule within_then [where m = 1]) simp_all

lemma guard_check_within: "within (guard_check_prog lib gk) 1"
  unfolding guard_check_prog_def Let_def by (rule within_then [where m = 1]) simp_all

lemma guardrails_within: "within (ensureGuardrails_prog lib recorder tg) 3"
  unfolding ensureGuardrails_prog_def Let_def
  by (auto intro!: within_then [OF guard_check_within] within_then [OF within_ensure] split: list.split option.split nat.split)

lemma reconcileToolGateway_within: "within (reconcileToolGateway_prog lib recorder tg) 7"
  unfolding reconcileToolGateway_prog_def ensureAgentgatewayParameters_prog_def ensureGateway_prog_def
  by (auto intro!: within_then [OF within_ensure] within_then [OF guardrails_within] split: option.split)

lemma gateway_within: "within (ToolGateway_Reconcile_prog lib recorder req) 10"
  unfolding ToolGateway_Reconcile_prog_def
  by (auto intro!: within_then [where m = 1 and p = "get_prog _ _"] within_then [OF owned_within]
      within_then [OF reconcileToolGateway_within] within_then [where m = 1 and p = "patch_tg_prog _ _"]
      split: sum.split option.split bool.split)

lemma policy_within: "within (ensurePolicy_prog lib recorder route tg) 2"
  unfolding ensurePolicy_prog_def Let_def
  using within_ensure by (auto simp: emit_prog_def numeral_2_eq_2 split: option.split)

lemma upstream_within: "within (resolveRouteUpstream_prog lib route) 1"
  unfolding resolveRouteUpstream_prog_def Let_def
  by (auto intro!: within_then [where m = 1] split: option.split)

lemma reconcileToolRoute_within: "within (reconcileToolRoute_prog lib recorder route tg) 7"
  unfolding reconcileToolRoute_prog_def ensureBackend_prog_def ensureHTTPRoute_prog_def
  by (auto intro!: within_then [OF upstream_within] within_then [OF within_ensure] within_then [OF policy_within]
      split: option.split sum.split)

lemma resolve_within: "within (resolveToolGatewayKey_prog route) 1"
  unfolding resolveToolGatewayKey_prog_def
  by (auto intro!: within_then [where m = 1] split: option.split)

lemma route_ready_within: "within (route_ready_prog lib recorder route tg path) 2"
  unfolding route_ready_prog_def Let_def
  by (auto intro!: within_then [where m = 1] simp: emit_prog_def split: option.split nat.split)

lemma route_within: "within (ToolRoute_Reconcile_prog lib recorder req) 13"
  unfolding ToolRoute_Reconcile_prog_def route_not_ready_prog_def
  by (auto intro!: within_then [where m = 1 and p = "get_prog _ _"] within_then [OF resolve_within] within_then [OF owned_within]
      within_then [OF reconcileToolRoute_within] within_then [where m = 1 and p = "patch_route_prog _ _"]
      within_mono [OF route_ready_within] split: sum.split option.split bool.split)

section \<open>The objects a run may write\<close>

text \<open>Each controller has its own kinds; the policies are told apart by the suffix of their names.\<close>

definition ends_with :: "string \<Rightarrow> string \<Rightarrow> bool" where
  "ends_with s suffix = (\<exists>p. s = p @ suffix)"

definition guard_area :: "okey set" where
  "guard_area = {k. fst k \<in> {KGuard, KConfigMap, KDeployment, KService}}"

definition gateway_area :: "okey set" where
  "gateway_area = {k. fst k \<in> {KToolGateway, KGateway, KParameters}
     \<or> fst k = KPolicy \<and> ends_with (snd (snd k)) ''-guardrail''}"

definition route_area :: "okey set" where
  "route_area = {k. fst k \<in> {KToolRoute, KBackend, KHTTPRoute}
     \<or> fst k = KPolicy \<and> ends_with (snd (snd k)) ''-toolfilter''}"

lemma suffixes_differ: "ends_with s ''-guardrail'' \<Longrightarrow> \<not> ends_with s ''-toolfilter''"
  by (auto simp: ends_with_def dest: arg_cong [where f = last])

lemma areas_disjoint:
  "guard_area \<inter> gateway_area = {}" "guard_area \<inter> route_area = {}" "gateway_area \<inter> route_area = {}"
  using suffixes_differ
  by (auto simp: guard_area_def gateway_area_def route_area_def KParameters_def KPolicy_def KBackend_def)

lemma writes_emit [simp]: "writes_in K (emit_prog recorder k reason action note)"
  "writes_in K (emit_op_prog recorder k what label name op)"
  by (simp_all add: emit_prog_def emit_op_prog_def split: op_result.split)

lemma writes_ensure [simp]: "writes_in K (ensure_prog recorder k what label name failure ob f) = (key_of ob \<in> K)"
  by (auto simp: ensure_prog_def intro!: writes_and_then split: sum.split)

lemma writes_patches [simp]:
  "writes_in K (patch_tg_prog b t) = ((KToolGateway, meta_key (tg_Meta t)) \<in> K)"
  "writes_in K (patch_route_prog c u) = ((KToolRoute, meta_key (tr_Meta u)) \<in> K)"
  "writes_in K (setReadyCondition_prog lib g s reason msg) = ((KGuard, meta_key (g_Meta g)) \<in> K)"
  by (auto simp: patch_tg_prog_def patch_route_prog_def setReadyCondition_prog_def key_of_def set_guard_ready_def)

lemma Guard_writes: "writes_in guard_area (Guard_Reconcile_prog lib img req)"
  unfolding Guard_Reconcile_prog_def reconcileGuard_prog_def adapter_prog_def
    ensureConfigMap_prog_def ensureDeployment_prog_def ensureService_prog_def write_prog_def guard_error_def
  by (auto intro!: writes_and_then simp: guard_area_def key_of_def split: sum.split option.split prod.split)

lemma owned_writes [simp]: "writes_in K (owned_prog tg)"
  unfolding owned_prog_def by (auto intro!: writes_and_then)

lemma guardrail_in_area [simp]: "(KPolicy, ns, guardrail_name tg) \<in> gateway_area"
  by (auto simp: gateway_area_def guardrail_name_def ends_with_def)

lemma filter_in_area [simp]: "(KPolicy, ns, filter_policy_name tg route) \<in> route_area"
proof -
  have "ends_with (filter_policy_name tg route) ''-toolfilter''"
    unfolding ends_with_def filter_policy_name_def by (metis append.assoc)
  then show ?thesis by (simp add: route_area_def)
qed

lemma gateway_area_kinds [simp]:
  "(KToolGateway, k) \<in> gateway_area" "(KGateway, k) \<in> gateway_area" "(KParameters, k) \<in> gateway_area"
  by (simp_all add: gateway_area_def)

lemma route_area_kinds [simp]:
  "(KToolRoute, k) \<in> route_area" "(KBackend, k) \<in> route_area" "(KHTTPRoute, k) \<in> route_area"
  by (simp_all add: route_area_def)

lemma typed_keys:
  "key_of (OGateway gw) = (KGateway, meta_key (gw_Meta gw))" "key_of (OHTTPRoute h) = (KHTTPRoute, meta_key (hr_Meta h))"
  by (simp_all add: key_of_def)

lemma ToolGateway_writes: "writes_in gateway_area (ToolGateway_Reconcile_prog lib recorder req)"
  unfolding ToolGateway_Reconcile_prog_def reconcileToolGateway_prog_def ensureGateway_prog_def
    ensureAgentgatewayParameters_prog_def ensureGuardrails_prog_def guard_check_prog_def Let_def
  by (auto intro!: writes_and_then simp: typed_keys split: sum.split option.split prod.split bool.split list.split)

lemma ToolRoute_writes: "writes_in route_area (ToolRoute_Reconcile_prog lib recorder req)"
  unfolding ToolRoute_Reconcile_prog_def reconcileToolRoute_prog_def ensureBackend_prog_def ensureHTTPRoute_prog_def
    ensurePolicy_prog_def resolveToolGatewayKey_prog_def resolveRouteUpstream_prog_def route_ready_prog_def
    route_not_ready_prog_def Let_def
  by (auto intro!: writes_and_then simp: typed_keys split: sum.split option.split prod.split bool.split)

section \<open>Ensuring an object under interference\<close>

context kube_client
begin

lemma meets_then_emit:
  assumes "F (at w)" "stable K kd F" "\<And>s. F s \<Longrightarrow> I s" "\<And>v. F (at v) \<Longrightarrow> meets cl at K kd I (f ()) Q v"
  shows "meets cl at K kd I (and_then (emit_prog recorder k reason action note) f) Q w"
proof (cases recorder)
  case True
  then show ?thesis
    unfolding emit_prog_def using meets_event [where F = F and c = f, OF assms] by simp
qed (use assms(1,4) in \<open>simp add: emit_prog_def\<close>)

lemma meets_then_emit_op:
  assumes "F (at w)" "stable K kd F" "\<And>s. F s \<Longrightarrow> I s" "\<And>v. F (at v) \<Longrightarrow> meets cl at K kd I (f ()) Q v"
  shows "meets cl at K kd I (and_then (emit_op_prog recorder k what label name op) f) Q w"
  by (cases op) (simp_all add: emit_op_prog_def assms(1,4) meets_then_emit [where F = F and f = f, OF assms])

end

end
