(* ===== verification/Interference.thy ===== *)
theory Interference
  imports ReconcilePrograms
begin

text \<open>
  Writing an object while others act on the cluster: after a \<open>CreateOrPatch\<close> that succeeds the
  object is a fixpoint of its mutate function, and an assertion that every such write keeps is
  kept by the step, events included.
\<close>

definition fixed_at :: "okey \<Rightarrow> (kobj \<Rightarrow> goerror + kobj) \<Rightarrow> (okey \<Rightarrow> kobj option) \<Rightarrow> bool" where
  "fixed_at k m s = (\<exists>st. s k = Some st \<and> m st = Inr st)"

lemma fixed_at_reads [intro]: "k \<in> K \<Longrightarrow> stable K kd (fixed_at k m)"
  by (rule stable_reads) (simp add: fixed_at_def)

lemma fixed_at_frame: "s' k = s k \<Longrightarrow> fixed_at k m s' = fixed_at k m s"
  by (simp add: fixed_at_def)

lemma on_iffs:
  "on_gateway f1 st = Inr st \<longleftrightarrow> (\<exists>x. st = OGateway x \<and> f1 x = Inr x)"
  "on_http_route f2 st = Inr st \<longleftrightarrow> (\<exists>x. st = OHTTPRoute x \<and> f2 x = Inr x)"
  "on_config_map f3 st = Inr st \<longleftrightarrow> (\<exists>x. st = OConfigMap x \<and> f3 x = Inr x)"
  "on_deployment f4 st = Inr st \<longleftrightarrow> (\<exists>x. st = ODeployment x \<and> f4 x = Inr x)"
  "on_service f5 st = Inr st \<longleftrightarrow> (\<exists>x. st = OService x \<and> f5 x = Inr x)"
  "on_unstructured f6 st = Inr st \<longleftrightarrow> (\<exists>x. st = OUnstructured x \<and> f6 x = Inr x)"
  by (cases st;
      simp add: on_gateway_def on_http_route_def on_config_map_def on_deployment_def on_service_def on_unstructured_def map_sum_Inr)+

lemma fixed_at_kinds:
  "fixed_at k (on_gateway f1) s = (\<exists>x. s k = Some (OGateway x) \<and> f1 x = Inr x)"
  "fixed_at k (on_http_route f2) s = (\<exists>x. s k = Some (OHTTPRoute x) \<and> f2 x = Inr x)"
  "fixed_at k (on_config_map f3) s = (\<exists>x. s k = Some (OConfigMap x) \<and> f3 x = Inr x)"
  "fixed_at k (on_deployment f4) s = (\<exists>x. s k = Some (ODeployment x) \<and> f4 x = Inr x)"
  "fixed_at k (on_service f5) s = (\<exists>x. s k = Some (OService x) \<and> f5 x = Inr x)"
  "fixed_at k (on_unstructured f6) s = (\<exists>x. s k = Some (OUnstructured x) \<and> f6 x = Inr x)"
  by (auto simp: fixed_at_def on_iffs)

context kube_client
begin

lemma cop_fixed:
  assumes "mutator m" and c: "c_create_or_patch cl ob m v = (x, v')"
  shows "x = Inr op \<Longrightarrow> fixed_at (key_of ob) m (at v')"
    and "fixed_at (key_of ob) m (at v) \<Longrightarrow> fixed_at (key_of ob) m (at v')"
    and "unchanged_outside {key_of ob} at v v'"
  using cop_converges [OF assms(1)] cop_keeps [OF assms(1) c] cop_unchanged [OF c] c
  unfolding fixed_at_def by auto

text \<open>The write of a step, then its event, then the rest.\<close>

lemma meets_write:
  assumes F: "F (at w)" "stable K kd F" "\<And>s. F s \<Longrightarrow> I s" and m: "mutator m"
    and keep: "\<And>v x v'. F (at v) \<Longrightarrow> c_create_or_patch cl ob m v = (x, v') \<Longrightarrow> F (at v')"
    and rest: "\<And>v. F (at v) \<Longrightarrow> fixed_at (key_of ob) m (at v) \<Longrightarrow> meets cl at K kd I (f None) Q v"
      "\<And>v e. F (at v) \<Longrightarrow> meets cl at K kd I (f (Some e)) Q v"
  shows "meets cl at K kd I (and_then (write_prog failure ob m) f) Q w"
  unfolding write_prog_def and_then.simps
proof (rule meets_cop [OF F])
  fix v x v'
  assume v: "F (at v)" and c: "c_create_or_patch cl ob m v = (x, v')"
  show "meets cl at K kd I (f (case x of Inl e \<Rightarrow> Some (Wrapf failure e []) | Inr op \<Rightarrow> None)) Q v'"
    using keep [OF v c] rest cop_fixed(1) [OF m c] by (cases x) simp_all
qed

lemma meets_ensure:
  assumes F: "F (at w)" "stable K kd F" "\<And>s. F s \<Longrightarrow> I s" and m: "mutator m" and k: "key_of ob \<in> K"
    and keep: "\<And>v x v'. F (at v) \<Longrightarrow> c_create_or_patch cl ob m v = (x, v') \<Longrightarrow> F (at v')"
    and rest: "\<And>v. F (at v) \<Longrightarrow> fixed_at (key_of ob) m (at v) \<Longrightarrow> meets cl at K kd I (f None) Q v"
      "\<And>v e. F (at v) \<Longrightarrow> meets cl at K kd I (f (Some e)) Q v"
  shows "meets cl at K kd I (and_then (ensure_prog recorder k what label name failure ob m) f) Q w"
  unfolding ensure_prog_def and_then.simps
proof (rule meets_cop [OF F])
  fix v x v'
  assume v: "F (at v)" and c: "c_create_or_patch cl ob m v = (x, v')"
  let ?G = "\<lambda>s. F s \<and> fixed_at (key_of ob) m s"
  show "meets cl at K kd I (and_then (case x of Inl e \<Rightarrow> Return (Some (Wrapf failure e []))
      | Inr op \<Rightarrow> and_then (emit_op_prog recorder k what label name op) (\<lambda>_. Return None)) f) Q v'"
  proof (cases x)
    case (Inl e)
    with keep [OF v c] rest(2) show ?thesis by simp
  next
    case (Inr op)
    have "stable K kd ?G" using F(2) k by blast
    moreover have "?G (at v')" using keep [OF v c] cop_fixed(1) [OF m c] Inr by blast
    ultimately show ?thesis
      using Inr meets_then_emit_op [where F = ?G and f = "\<lambda>_. f None"] F(3) rest(1) by simp
  qed
qed

text \<open>Reads of more than one step.\<close>

lemma meets_owned:
  assumes F: "F (at w)" "stable K kd F" "\<And>s. F s \<Longrightarrow> I s"
    and rest: "\<And>v y. F (at v) \<Longrightarrow> meets cl at K kd I (f y) Q v"
  shows "meets cl at K kd I (and_then (owned_prog tg) f) Q w"
  unfolding owned_prog_def and_then_assoc and_then.simps
  by (rule meets_list [OF F]) (assumption, rule rest)

lemma meets_guard_check:
  assumes F: "F (at w)" "stable K kd F" "\<And>s. F s \<Longrightarrow> I s"
    and rest: "\<And>v y. F (at v) \<Longrightarrow> meets cl at K kd I (f y) Q v"
  shows "meets cl at K kd I (and_then (guard_check_prog lib gk) f) Q w"
  unfolding guard_check_prog_def Let_def and_then_assoc and_then.simps
  by (rule meets_get [OF F]) (assumption, rule rest)

end

end
