(* ===== verification/ReadyStatus.thy ===== *)
theory ReadyStatus
  imports Interference
begin

text \<open>
  What a Ready status promises while users edit the resource.  A condition records the generation
  it was computed for, so it speaks of the current spec when its observed generation is the
  generation of the resource.  \<open>P store ob\<close> is what has to be in place for a resource \<open>ob\<close> that is
  Ready now; the lemmas reduce an invariant of this form, under concurrent edits, to facts on the
  calls of a run.
\<close>

section \<open>Ready now\<close>

definition ready_now :: "klib \<Rightarrow> kobj \<Rightarrow> bool" where
  "ready_now lib ob =
     (case l_find_condition lib (conditions_of ob) readyConditionType of
        None \<Rightarrow> False
      | Some c \<Rightarrow> cd_Status c = ConditionTrue \<and> cd_ObservedGeneration c = m_Generation (meta_of ob))"

text \<open>No condition is ahead of its resource.\<close>

definition observed :: "klib \<Rightarrow> kobj \<Rightarrow> bool" where
  "observed lib ob =
     (case l_find_condition lib (conditions_of ob) readyConditionType of
        None \<Rightarrow> True
      | Some c \<Rightarrow> cd_ObservedGeneration c \<le> m_Generation (meta_of ob))"

text \<open>Every resource of the kind that is Ready now is backed by what it needs.\<close>

definition backed :: "klib \<Rightarrow> kind \<Rightarrow> ((okey \<Rightarrow> kobj option) \<Rightarrow> kobj \<Rightarrow> bool) \<Rightarrow> (okey \<Rightarrow> kobj option) \<Rightarrow> bool" where
  "backed lib kd P s = (\<forall>k ob. s (kd, k) = Some ob \<longrightarrow> observed lib ob \<and> (ready_now lib ob \<longrightarrow> P s ob))"

text \<open>What a run knows of the resource it has read: it is still there, or has been edited since.\<close>

definition known :: "klib \<Rightarrow> kind \<Rightarrow> ((okey \<Rightarrow> kobj option) \<Rightarrow> kobj \<Rightarrow> bool) \<Rightarrow> kobj \<Rightarrow> (okey \<Rightarrow> kobj option) \<Rightarrow> bool" where
  "known lib kd P ob s = (backed lib kd P s \<and> observed lib ob \<and> user_edit (Some ob) (s (key_of ob)))"

definition reads :: "okey set \<Rightarrow> ((okey \<Rightarrow> kobj option) \<Rightarrow> kobj \<Rightarrow> bool) \<Rightarrow> bool" where
  "reads K P = (\<forall>s s' ob. (\<forall>k \<in> K. s' k = s k) \<longrightarrow> P s' ob = P s ob)"

lemma readsD: "reads K P \<Longrightarrow> (\<And>k. k \<in> K \<Longrightarrow> s' k = s k) \<Longrightarrow> P s' ob = P s ob"
  unfolding reads_def by blast

lemma backedD:
  "backed lib kd P s \<Longrightarrow> s (kd, k) = Some ob \<Longrightarrow> observed lib ob"
  "backed lib kd P s \<Longrightarrow> s (kd, k) = Some ob \<Longrightarrow> ready_now lib ob \<Longrightarrow> P s ob"
  unfolding backed_def by blast+

lemma known_backed: "known lib kd P ob s \<Longrightarrow> backed lib kd P s"
  by (simp add: known_def)

lemma status_conditions: "status_of a = status_of b \<Longrightarrow> conditions_of a = conditions_of b"
  by (cases a; cases b) simp_all

lemma no_status: "status_of b = ([], []) \<Longrightarrow> conditions_of b = []"
  by (cases b) simp_all

lemma later_not_ready:
  assumes "observed lib a" "conditions_of b = conditions_of a" "m_Generation (meta_of a) < m_Generation (meta_of b)"
  shows "\<not> ready_now lib b" "observed lib b"
  using assms by (auto simp: observed_def ready_now_def split: option.splits)

lemma known_cases:
  assumes "known lib kd P ob s"
  obtains (same) "s (key_of ob) = Some ob"
  | (later) b where "s (key_of ob) = Some b" "conditions_of b = conditions_of ob" "m_Generation (meta_of ob) < m_Generation (meta_of b)"
  using assms unfolding known_def by (meson status_conditions user_edit_some)

lemma merge_status_fields:
  "meta_of (merge_status b n s) = meta_of s"
  "conditions_of (merge_status b n s) \<in> {conditions_of s, conditions_of n}"
  by (auto simp: merge_status_def patch_field_def split: kobj.split)

section \<open>Edits and calls\<close>

context operator
begin

lemma backed_stable:
  assumes P: "reads K P"
  shows "stable K kd (backed (r_Lib r) kd P)"
  unfolding stable_def
proof (intro allI impI)
  fix s s'
  assume e: "edits K kd s s'" and b: "backed (r_Lib r) kd P s"
  have P: "P s' ob = P s ob" for ob by (rule readsD [OF P]) (rule editsD(1) [OF e])
  show "backed (r_Lib r) kd P s'"
    unfolding backed_def
  proof (intro allI impI)
    fix k ob
    assume ob: "s' (kd, k) = Some ob"
    have u: "user_edit (s (kd, k)) (Some ob)" using editsD(2) [OF e, of k] ob by simp
    show "observed (r_Lib r) ob \<and> (ready_now (r_Lib r) ob \<longrightarrow> P s' ob)"
    proof (cases "s (kd, k)")
      case None
      with u have "conditions_of ob = []" by (simp add: no_status user_edit_none)
      then show ?thesis by (simp add: observed_def ready_now_def find_nil)
    next
      case (Some a)
      with b have a: "observed (r_Lib r) a" "ready_now (r_Lib r) a \<longrightarrow> P s a" by (simp_all add: backedD)
      from u [unfolded Some] show ?thesis
      proof (cases rule: user_edit_some)
        case same
        with a P show ?thesis by simp
      next
        case (later b)
        then have "conditions_of ob = conditions_of a" "m_Generation (meta_of a) < m_Generation (meta_of ob)"
          using status_conditions [of b a] by simp_all
        from later_not_ready [OF a(1) this] show ?thesis by blast
      qed
    qed
  qed
qed

lemma known_stable:
  assumes P: "reads K P" and k: "fst (key_of ob) = kd"
  shows "stable K kd (known (r_Lib r) kd P ob)"
proof -
  have "stable K kd (\<lambda>s. user_edit (Some ob) (s (key_of ob)))"
    unfolding stable_def
  proof (intro allI impI)
    fix s s'
    assume e: "edits K kd s s'" and u: "user_edit (Some ob) (s (key_of ob))"
    have "user_edit (s (key_of ob)) (s' (key_of ob))" using editsD(2) [OF e, of "snd (key_of ob)"] k by (metis prod.collapse)
    with u show "user_edit (Some ob) (s' (key_of ob))" by (rule user_edit_trans)
  qed
  then show ?thesis unfolding known_def by (intro stable_conj backed_stable [OF P] stable_const)
qed

lemma known_read:
  assumes "backed (r_Lib r) kd P (at w)" "at w (kd, k) = Some ob"
  shows "known (r_Lib r) kd P ob (at w)"
  using assms at_key [OF assms(2)] backedD(1) [OF assms] by (simp add: known_def)

text \<open>A change of an object that is not of the kind.\<close>

lemma known_write:
  assumes k: "known (r_Lib r) kd P ob (at w)" and frame: "unchanged_outside {k} at w w'" "fst k \<noteq> kd" "fst (key_of ob) = kd"
    and own: "P (at w) ob \<Longrightarrow> P (at w') ob"
    and others: "\<And>b. at w (key_of b) = Some b \<Longrightarrow> P (at w) b \<Longrightarrow> key_of b \<noteq> key_of ob \<Longrightarrow> fst (key_of b) = kd \<Longrightarrow> P (at w') b"
  shows "known (r_Lib r) kd P ob (at w')"
proof -
  have same: "at w' (kd, j) = at w (kd, j)" for j by (rule unchangedD [OF frame(1)]) (use frame(2) in auto)
  have same_ob: "at w' (key_of ob) = at w (key_of ob)" by (rule unchangedD [OF frame(1)]) (use frame in auto)
  have "P (at w') b" if b: "at w (kd, j) = Some b" "ready_now (r_Lib r) b" for j b
  proof -
    have Pb: "P (at w) b" by (rule backedD(2) [OF known_backed [OF k] b])
    have key: "key_of b = (kd, j)" by (rule at_key [OF b(1)])
    show ?thesis
    proof (cases "key_of b = key_of ob")
      case False
      with others Pb b(1) key show ?thesis by simp
    next
      case True
      have at: "key_of ob = (kd, j)" using True key by (rule trans [OF sym])
      from k show ?thesis
      proof (cases rule: known_cases)
        case same
        have "b = ob" using same b(1) unfolding at by simp
        with Pb own show ?thesis by simp
      next
        case (later c)
        have "b = c" using later(1) b(1) unfolding at by simp
        with later_not_ready(1) [OF _ later(2,3)] k b(2) show ?thesis by (simp add: known_def)
      qed
    qed
  qed
  with backedD(1) [OF known_backed [OF k]] have "backed (r_Lib r) kd P (at w')" unfolding backed_def same by blast
  with k show ?thesis unfolding known_def same_ob by blast
qed

text \<open>A status patch: Ready only when what the resource needs is in place.\<close>

lemma patch_backed:
  assumes k: "known (r_Lib r) kd P ob (at w)" and P: "reads K P" "\<And>j. (kd, j) \<notin> K"
    and key: "key_of n = key_of ob" "fst (key_of ob) = kd"
    and c: "c_patch_status (r_Client r) b n w = (x, w')"
    and gen: "observed (r_Lib r) n" "m_Generation (meta_of n) = m_Generation (meta_of ob)"
    and ready: "at w (key_of ob) = Some ob \<Longrightarrow> ready_now (r_Lib r) (merge_status b n ob) \<Longrightarrow> P (at w) (merge_status b n ob)"
  shows "backed (r_Lib r) kd P (at w')"
proof -
  have frame: "unchanged_outside {key_of ob} at w w'" by (rule patch_unchanged [OF c]) (simp add: key)
  have P': "P (at w') b = P (at w) b" for b
    by (rule readsD [OF P(1)], rule unchangedD [OF frame]) (use P(2) key(2) in \<open>metis prod.collapse singletonD\<close>)
  have old: "observed (r_Lib r) b \<and> (ready_now (r_Lib r) b \<longrightarrow> P (at w) b)" if "at w (kd, j) = Some b" for j b
    using backedD [OF known_backed [OF k] that] by blast
  have new: "observed (r_Lib r) (merge_status b n s) \<and> (ready_now (r_Lib r) (merge_status b n s) \<longrightarrow> P (at w) (merge_status b n s))"
    if s: "at w (key_of ob) = Some s" for s
    using k
  proof (cases rule: known_cases)
    case same
    have "observed (r_Lib r) (merge_status b n s)"
      using merge_status_fields [of b n s] gen k same s by (auto simp: observed_def known_def split: option.splits)
    with ready same s show ?thesis by simp
  next
    case (later st)
    have "conditions_of (merge_status b n s) = conditions_of ob \<or> conditions_of (merge_status b n s) = conditions_of n"
      "m_Generation (meta_of ob) < m_Generation (meta_of (merge_status b n s))"
      using merge_status_fields [of b n s] later s by auto
    then show ?thesis
      using later_not_ready [of "r_Lib r" ob "merge_status b n s"] later_not_ready [OF gen(1), of "merge_status b n s"] gen(2) k
      by (auto simp: known_def)
  qed
  have stored: "at w' (key_of ob) = at w (key_of ob) \<or> (\<exists>s. at w (key_of ob) = Some s \<and> at w' (key_of ob) = Some (merge_status b n s))"
    using patch_ok [of b n w w'] patch_error [of b n w _ w'] c key by (cases x) auto
  show ?thesis
    unfolding backed_def P'
  proof (intro allI impI)
    fix j a
    assume a: "at w' (kd, j) = Some a"
    show "observed (r_Lib r) a \<and> (ready_now (r_Lib r) a \<longrightarrow> P (at w) a)"
    proof (cases "(kd, j) = key_of ob")
      case False
      with unchangedD [OF frame, of "(kd, j)"] a old show ?thesis by simp
    next
      case True
      with stored a old new show ?thesis by (metis option.inject)
    qed
  qed
qed

lemma meets_status:
  assumes F: "F (at w)" "stable K kd F" "\<And>s. F s \<Longrightarrow> known (r_Lib r) kd P ob s"
    and P: "reads K P" "\<And>j. (kd, j) \<notin> K"
    and key: "key_of n = key_of ob" "fst (key_of ob) = kd"
    and gen: "observed (r_Lib r) n" "m_Generation (meta_of n) = m_Generation (meta_of ob)"
    and ready: "\<And>s. F s \<Longrightarrow> s (key_of ob) = Some ob \<Longrightarrow> ready_now (r_Lib r) (merge_status b n ob) \<Longrightarrow> P s (merge_status b n ob)"
    and rest: "\<And>v x. backed (r_Lib r) kd P (at v) \<Longrightarrow> meets (r_Client r) at K kd (backed (r_Lib r) kd P) (c x) Q v"
  shows "meets (r_Client r) at K kd (backed (r_Lib r) kd P) (PatchStatus b n c) Q w"
proof (rule meets_patch [OF F(1,2)])
  fix v x v'
  assume v: "F (at v)" and c: "c_patch_status (r_Client r) b n v = (x, v')"
  show "meets (r_Client r) at K kd (backed (r_Lib r) kd P) (c x) Q v'"
    by (rule rest, rule patch_backed [OF F(3) [OF v] P key c gen ready [OF v]])
qed (use F(3) known_backed in blast)

end

end
