(* ===== verification/GuardInterference.thy ===== *)
theory GuardInterference
  imports ReadyStatus GuardProperties
begin

text \<open>
  The guard controller while others act on the cluster between its calls.  Whatever they do to
  objects that are neither adapters nor guardrail providers, and whichever guards they create
  and edit, every guard that is Ready for its current generation has its adapter, at every
  moment.
\<close>

section \<open>The invariant\<close>

text \<open>What a Ready guard needs.\<close>

definition guard_adapted :: "klib \<Rightarrow> string \<Rightarrow> (okey \<Rightarrow> kobj option) \<Rightarrow> guard \<Rightarrow> bool" where
  "guard_adapted lib img s g =
     (\<exists>p data. s (KGuardrailProvider, provider_key g) = Some (OGuardrailProvider p) \<and> valid_guard g p
        \<and> l_json_to_yaml lib (guard_static_config g p) = Inr data \<and> adapter_settled lib img g data s)"

fun guard_backed :: "klib \<Rightarrow> string \<Rightarrow> (okey \<Rightarrow> kobj option) \<Rightarrow> kobj \<Rightarrow> bool" where
  "guard_backed lib img s (OGuard g) = guard_adapted lib img s g"
| "guard_backed lib img s _ = True"

abbreviation guards_adapted :: "klib \<Rightarrow> string \<Rightarrow> (okey \<Rightarrow> kobj option) \<Rightarrow> bool" where
  "guards_adapted lib img \<equiv> backed lib KGuard (guard_backed lib img)"

definition guard_rely :: "okey set" where
  "guard_rely = {k. fst k \<in> {KConfigMap, KDeployment, KService, KGuardrailProvider}}"

lemma guard_rely_kinds [simp]:
  "(KConfigMap, k) \<in> guard_rely" "(KDeployment, k) \<in> guard_rely" "(KService, k) \<in> guard_rely"
  "(KGuardrailProvider, k) \<in> guard_rely" "(KGuard, k) \<notin> guard_rely"
  by (simp_all add: guard_rely_def)

lemma adapter_settled_frame:
  assumes "\<And>k. k \<in> adapter_keys g \<Longrightarrow> s' k = s k"
  shows "adapter_settled lib img g data s' = adapter_settled lib img g data s"
proof -
  have e: "s' (KConfigMap, adapter_key g) = s (KConfigMap, adapter_key g)" "s' (KDeployment, adapter_key g) = s (KDeployment, adapter_key g)"
    "s' (KService, adapter_key g) = s (KService, adapter_key g)"
    by (rule assms; simp add: adapter_keys_def)+
  show ?thesis unfolding adapter_settled_def e by (rule refl)
qed

lemma adapter_reads: "(\<And>k. k \<in> guard_rely \<Longrightarrow> s' k = s k) \<Longrightarrow> adapter_settled lib img g data s' = adapter_settled lib img g data s"
  by (rule adapter_settled_frame) (use guard_rely_kinds in \<open>unfold adapter_keys_def, blast\<close>)

lemma guard_backed_reads: "reads guard_rely (guard_backed lib img)"
  unfolding reads_def
proof (intro allI impI)
  fix s s' :: "okey \<Rightarrow> kobj option" and ob
  assume e: "\<forall>k \<in> guard_rely. s' k = s k"
  have a: "adapter_settled lib img g data s' = adapter_settled lib img g data s" for g data by (rule adapter_reads) (use e in blast)
  show "guard_backed lib img s' ob = guard_backed lib img s ob" using e by (cases ob) (simp_all add: guard_adapted_def a)
qed

lemma adapter_key_inject: "adapter_key g = adapter_key g' \<Longrightarrow> meta_key (g_Meta g) = meta_key (g_Meta g')"
  by (simp add: adapter_key_def adapterName_def meta_key_def)

lemma adapter_keys_meet: "k \<in> adapter_keys g \<Longrightarrow> k \<in> adapter_keys g' \<Longrightarrow> meta_key (g_Meta g) = meta_key (g_Meta g')"
  by (auto simp: adapter_keys_def dest: adapter_key_inject)

context guard_operator
begin

section \<open>The steps under interference\<close>

text \<open>What is known of the guard during a run on it, and of its provider.\<close>

abbreviation guard_known :: "guard \<Rightarrow> (okey \<Rightarrow> kobj option) \<Rightarrow> bool" where
  "guard_known g \<equiv> known (r_Lib r) KGuard (guard_backed (r_Lib r) (r_AdapterImage r)) (OGuard g)"

definition provider_known :: "guard \<Rightarrow> guardrail_provider \<Rightarrow> (okey \<Rightarrow> kobj option) \<Rightarrow> bool" where
  "provider_known g p s = (guard_known g s \<and> s (KGuardrailProvider, provider_key g) = Some (OGuardrailProvider p))"

text \<open>A program that keeps the invariant at every moment.\<close>

abbreviation guard_safe :: "'b prog \<Rightarrow> 'w \<Rightarrow> bool" where
  "guard_safe prog w \<equiv>
     meets (r_Client r) at guard_rely KGuard (guards_adapted (r_Lib r) (r_AdapterImage r)) prog (\<lambda>_ _. True) w"

lemma guard_key [simp]: "key_of (OGuard g) = (KGuard, meta_key (g_Meta g))"
  by (simp add: key_of_def)

lemma adapted_stable: "stable guard_rely KGuard (guards_adapted (r_Lib r) (r_AdapterImage r))"
  by (rule backed_stable [OF guard_backed_reads])

lemma guard_known_stable: "stable guard_rely KGuard (guard_known g)"
  by (rule known_stable [OF guard_backed_reads]) simp

lemma provider_known_stable: "stable guard_rely KGuard (provider_known g p)"
  unfolding provider_known_def by (intro stable_conj guard_known_stable stable_at) simp

lemma settled_stable: "stable guard_rely KGuard (adapter_settled (r_Lib r) (r_AdapterImage r) g data)"
  by (rule stable_reads) (rule adapter_reads)

lemma guard_known_inv: "guard_known g s \<Longrightarrow> guards_adapted (r_Lib r) (r_AdapterImage r) s"
  "provider_known g p s \<Longrightarrow> guards_adapted (r_Lib r) (r_AdapterImage r) s"
  unfolding provider_known_def using known_backed by blast+

lemma adapted_return [intro]: "guards_adapted (r_Lib r) (r_AdapterImage r) (at w) \<Longrightarrow> guard_safe (Return (y :: goerror option)) w"
  by (rule meets_return [where F = "guards_adapted (r_Lib r) (r_AdapterImage r)", OF _ adapted_stable]) simp_all

text \<open>A write to the adapter of one guard keeps the adapters of the others.\<close>

lemma adapted_write:
  assumes k: "provider_known g p (at w)"
    and data: "l_json_to_yaml (r_Lib r) (guard_static_config g p) = Inr data"
    and frame: "unchanged_outside {k} at w w'" and key: "k \<in> adapter_keys g"
    and own: "adapter_settled (r_Lib r) (r_AdapterImage r) g data (at w) \<Longrightarrow> adapter_settled (r_Lib r) (r_AdapterImage r) g data (at w')"
  shows "provider_known g p (at w')"
proof -
  have known: "guard_known g (at w)" and p: "at w (KGuardrailProvider, provider_key g) = Some (OGuardrailProvider p)"
    using k by (simp_all add: provider_known_def)
  have same: "at w' (KGuardrailProvider, j) = at w (KGuardrailProvider, j)" for j
    by (rule unchangedD [OF frame]) (use key in \<open>auto simp: adapter_keys_def\<close>)
  have "guard_known g (at w')"
  proof (rule known_write [OF known frame])
    show "fst k \<noteq> KGuard" using key by (auto simp: adapter_keys_def)
    show "guard_backed (r_Lib r) (r_AdapterImage r) (at w') (OGuard g)" if "guard_backed (r_Lib r) (r_AdapterImage r) (at w) (OGuard g)"
      using that own p data by (auto simp: guard_adapted_def same)
    show "guard_backed (r_Lib r) (r_AdapterImage r) (at w') b"
      if b: "guard_backed (r_Lib r) (r_AdapterImage r) (at w) b" "key_of b \<noteq> key_of (OGuard g)" "fst (key_of b) = KGuard" for b
    proof -
      obtain g2 where g2: "b = OGuard g2" using b(3) by (cases b) (simp_all add: key_of_def)
      with b(2) key have "j \<in> adapter_keys g2 \<Longrightarrow> j \<noteq> k" for j using adapter_keys_meet [of k g2 g] by fastforce
      then have "adapter_settled (r_Lib r) (r_AdapterImage r) g2 d (at w') = adapter_settled (r_Lib r) (r_AdapterImage r) g2 d (at w)" for d
        using unchangedD [OF frame] by (intro adapter_settled_frame) blast
      with b(1) show ?thesis by (simp add: g2 guard_adapted_def same)
    qed
  qed simp
  with p same show ?thesis by (simp add: provider_known_def)
qed

abbreviation config_map_fixed :: "guard \<Rightarrow> string \<Rightarrow> (okey \<Rightarrow> kobj option) \<Rightarrow> bool" where
  "config_map_fixed g data \<equiv> fixed_at (KConfigMap, adapter_key g) (on_config_map (config_map_mutate (r_Lib r) g data))"

abbreviation deployment_fixed :: "guard \<Rightarrow> string \<Rightarrow> (okey \<Rightarrow> kobj option) \<Rightarrow> bool" where
  "deployment_fixed g h \<equiv> fixed_at (KDeployment, adapter_key g) (on_deployment (deployment_mutate (r_Lib r) (r_AdapterImage r) g h))"

abbreviation service_fixed :: "guard \<Rightarrow> (okey \<Rightarrow> kobj option) \<Rightarrow> bool" where
  "service_fixed g \<equiv> fixed_at (KService, adapter_key g) (on_service (service_mutate (r_Lib r) g))"

lemma adapter_settled_alt:
  "adapter_settled (r_Lib r) (r_AdapterImage r) g data s
     = (config_map_fixed g data s \<and> deployment_fixed g (hex_encode (sum256 data)) s \<and> service_fixed g s)"
  unfolding adapter_settled_def fixed_at_kinds by blast

text \<open>The three writes of a run, as key and mutate function.\<close>

definition adapter_writes :: "guard \<Rightarrow> string \<Rightarrow> (okey \<times> (kobj \<Rightarrow> goerror + kobj)) set" where
  "adapter_writes g data =
     {((KConfigMap, adapter_key g), on_config_map (config_map_mutate (r_Lib r) g data)),
      ((KDeployment, adapter_key g), on_deployment (deployment_mutate (r_Lib r) (r_AdapterImage r) g (hex_encode (sum256 data)))),
      ((KService, adapter_key g), on_service (service_mutate (r_Lib r) g))}"

lemma adapter_settled_writes:
  "adapter_settled (r_Lib r) (r_AdapterImage r) g data s = (\<forall>(k, m) \<in> adapter_writes g data. fixed_at k m s)"
  by (simp add: adapter_settled_alt adapter_writes_def)

lemma adapter_writes_facts:
  assumes "(k, m) \<in> adapter_writes g data"
  shows "mutator m" "k \<in> adapter_keys g" "(k, m') \<in> adapter_writes g data \<Longrightarrow> m' = m"
  using assms config_map_mutator deployment_mutator service_mutator by (auto simp: adapter_writes_def adapter_keys_def)

lemma provider_write:
  assumes k: "provider_known g p (at w)" and data: "l_json_to_yaml (r_Lib r) (guard_static_config g p) = Inr data"
    and c: "c_create_or_patch (r_Client r) ob m w = (x, w')" and m: "(key_of ob, m) \<in> adapter_writes g data"
  shows "provider_known g p (at w')"
proof -
  note ms = adapter_writes_facts [OF m]
  note step = cop_fixed [OF ms(1) c]
  have "fixed_at j m' (at w')" if "fixed_at j m' (at w)" "(j, m') \<in> adapter_writes g data" for j m'
    using that ms(3) step(2) fixed_at_frame [of "at w'" j "at w"] unchangedD [OF step(3), of j] by (cases "j = key_of ob") auto
  then have "adapter_settled (r_Lib r) (r_AdapterImage r) g data (at w) \<Longrightarrow> adapter_settled (r_Lib r) (r_AdapterImage r) g data (at w')"
    unfolding adapter_settled_writes by blast
  then show ?thesis by (rule adapted_write [OF k data step(3) ms(2)])
qed

text \<open>The condition is set to False, or to True when the adapter is in place.\<close>

lemma meets_guard_status:
  assumes F: "F (at w)" "stable guard_rely KGuard F" "\<And>s. F s \<Longrightarrow> guard_known g s"
    and ready: "\<And>s. F s \<Longrightarrow> status = ConditionTrue \<Longrightarrow> guard_adapted (r_Lib r) (r_AdapterImage r) s g"
  shows "guard_safe (setReadyCondition_prog (r_Lib r) g status reason msg) w"
proof -
  let ?n = "set_guard_ready (r_Lib r) g status reason msg"
  have m: "merge_status (OGuard g) (OGuard ?n) (OGuard g) = OGuard ?n"
    by (cases g) (simp add: merge_status_def patch_field_def set_guard_ready_def)
  have obs: "observed (r_Lib r) (OGuard ?n)"
    using found_guard_ready [of g status reason msg]
    by (auto simp: observed_def guardReadyType_def readyConditionType_def set_guard_ready_def split: option.split)
  have "guard_adapted (r_Lib r) (r_AdapterImage r) s ?n" if "F s" "ready_now (r_Lib r) (OGuard ?n)" for s
  proof -
    have "status = ConditionTrue"
      using that(2) found_guard_ready [of g status reason msg]
      by (auto simp: ready_now_def guardReadyType_def readyConditionType_def split: option.splits)
    from ready [OF that(1) this] show ?thesis by (simp add: guard_adapted_def conditions_irrelevant)
  qed
  then have backed: "guard_backed (r_Lib r) (r_AdapterImage r) s (OGuard ?n)" if "F s" "ready_now (r_Lib r) (OGuard ?n)" for s
    using that by simp
  show ?thesis
    unfolding setReadyCondition_prog_def
    by (rule meets_status [OF F guard_backed_reads _ _ _ obs])
      (simp_all only: m backed adapted_return guard_key guard_rely_kinds fst_conv meta_of.simps simp_thms, simp_all add: set_guard_ready_def)
qed

text \<open>The three objects, one after the other.\<close>

text \<open>The three writes, from the last to the first.\<close>

abbreviation new_config_map :: "guard \<Rightarrow> kobj" where
  "new_config_map g \<equiv> OConfigMap \<lparr>cm_Meta = new_meta (adapterName g) (m_Namespace (g_Meta g)), cm_Data = None\<rparr>"

abbreviation new_deployment :: "guard \<Rightarrow> kobj" where
  "new_deployment g \<equiv> ODeployment \<lparr>dp_Meta = new_meta (adapterName g) (m_Namespace (g_Meta g)), dp_Replicas = None,
     dp_Selector = None, dp_TemplateLabels = None, dp_TemplateAnnotations = None, dp_PodSpec = empty_pod_spec\<rparr>"

abbreviation new_service :: "guard \<Rightarrow> kobj" where
  "new_service g \<equiv> OService \<lparr>sv_Meta = new_meta (adapterName g) (m_Namespace (g_Meta g)), sv_Selector = None, sv_Ports = []\<rparr>"

lemma new_adapter_keys:
  "key_of (new_config_map g) = (KConfigMap, adapter_key g)" "key_of (new_deployment g) = (KDeployment, adapter_key g)"
  "key_of (new_service g) = (KService, adapter_key g)"
  by (simp_all add: key_of_def adapter_key_def)

lemma fixed_beside:
  assumes "fixed_at j m' (at v)" "c_create_or_patch (r_Client r) ob m v = (x, v')" "mutator m" "j \<noteq> key_of ob"
  shows "fixed_at j m' (at v')"
  using assms(1,4) fixed_at_frame [of "at v'" j "at v"] unchangedD [OF cop_fixed(3) [OF assms(3,2)], of j] by simp

lemma service_meets:
  assumes v: "provider_known g p (at v) \<and> config_map_fixed g data (at v) \<and> deployment_fixed g h (at v)"
    and data: "l_json_to_yaml (r_Lib r) (guard_static_config g p) = Inr data" and h: "h = hex_encode (sum256 data)"
    and ok: "\<And>v. provider_known g p (at v) \<Longrightarrow> adapter_settled (r_Lib r) (r_AdapterImage r) g data (at v) \<Longrightarrow>
        guard_safe (f ([], [], None)) v"
    and failed: "\<And>v reason e. provider_known g p (at v) \<Longrightarrow> guard_safe (and_then (guard_error reason e) f) v"
  shows "guard_safe (and_then (ensureService_prog (r_Lib r) g) (\<lambda>x. and_then (case x of
      Some e \<Rightarrow> guard_error guardReasonReconcileFailed e
    | None \<Rightarrow> Return ([], [], None)) f)) v"
  unfolding ensureService_prog_def
proof (rule meets_write [where F = "\<lambda>s. provider_known g p s \<and> config_map_fixed g data s \<and> deployment_fixed g h s", OF v], goal_cases)
  case 1
  show ?case by (intro stable_conj provider_known_stable fixed_at_reads) simp_all
next
  case (4 v x v')
  then show ?case using provider_write [OF _ data 4(2)] fixed_beside [OF _ 4(2) service_mutator] by (auto simp: adapter_writes_def new_adapter_keys)
next
  case (5 v)
  then show ?case using ok by (simp add: new_adapter_keys h adapter_settled_alt)
qed (use service_mutator failed in \<open>auto dest: guard_known_inv\<close>)

lemma deployment_meets:
  assumes v: "provider_known g p (at v) \<and> config_map_fixed g data (at v)"
    and data: "l_json_to_yaml (r_Lib r) (guard_static_config g p) = Inr data" and h: "h = hex_encode (sum256 data)"
    and ok: "\<And>v. provider_known g p (at v) \<Longrightarrow> adapter_settled (r_Lib r) (r_AdapterImage r) g data (at v) \<Longrightarrow>
        guard_safe (f ([], [], None)) v"
    and failed: "\<And>v reason e. provider_known g p (at v) \<Longrightarrow> guard_safe (and_then (guard_error reason e) f) v"
  shows "guard_safe (and_then (ensureDeployment_prog (r_Lib r) (r_AdapterImage r) g h) (\<lambda>x. and_then (case x of
      Some e \<Rightarrow> guard_error guardReasonReconcileFailed e
    | None \<Rightarrow> and_then (ensureService_prog (r_Lib r) g) (\<lambda>x. case x of
        Some e \<Rightarrow> guard_error guardReasonReconcileFailed e
      | None \<Rightarrow> Return ([], [], None))) f)) v"
  unfolding ensureDeployment_prog_def
proof (rule meets_write [where F = "\<lambda>s. provider_known g p s \<and> config_map_fixed g data s", OF v], goal_cases)
  case 1
  show ?case by (intro stable_conj provider_known_stable fixed_at_reads) simp_all
next
  case (4 v x v')
  then show ?case using provider_write [OF _ data 4(2)] fixed_beside [OF _ 4(2) deployment_mutator] by (auto simp: adapter_writes_def new_adapter_keys h)
next
  case (5 v)
  then show ?case using service_meets [OF _ data h ok failed] by (simp add: new_adapter_keys)
qed (use deployment_mutator failed in \<open>auto dest: guard_known_inv\<close>)

lemma adapter_meets:
  assumes known: "provider_known g p (at w)"
    and data: "l_json_to_yaml (r_Lib r) (guard_static_config g p) = Inr data" and h: "h = hex_encode (sum256 data)"
    and ok: "\<And>v. provider_known g p (at v) \<Longrightarrow> adapter_settled (r_Lib r) (r_AdapterImage r) g data (at v) \<Longrightarrow>
        guard_safe (f ([], [], None)) v"
    and fail: "\<And>v reason msg e. provider_known g p (at v) \<Longrightarrow> guard_safe (f (reason, msg, Some e)) v"
  shows "guard_safe (and_then (adapter_prog (r_Lib r) (r_AdapterImage r) g data h) f) w"
proof -
  have failed: "guard_safe (and_then (guard_error reason e) f) v" if "provider_known g p (at v)" for reason e v
    using fail [OF that] by (simp add: guard_error_def)
  show ?thesis
    unfolding adapter_prog_def ensureConfigMap_prog_def and_then_assoc
  proof (rule meets_write [where F = "provider_known g p"], goal_cases)
    case (5 v x v')
    then show ?case using provider_write [OF _ data 5(2)] by (auto simp: adapter_writes_def new_adapter_keys)
  next
    case (6 v)
    then show ?case using deployment_meets [OF _ data h ok failed] by (simp add: new_adapter_keys)
  qed (use known provider_known_stable config_map_mutator failed in \<open>auto dest: guard_known_inv\<close>)
qed

section \<open>A whole run\<close>

lemma guard_not_ready_safe:
  assumes "guard_known g (at w)"
  shows "guard_safe (and_then (setReadyCondition_prog (r_Lib r) g ConditionFalse reason msg) (\<lambda>_. Return (y :: goerror option))) w"
proof (rule meets_then, rule meets_weaken)
  show "guard_safe (setReadyCondition_prog (r_Lib r) g ConditionFalse reason msg) w"
    by (rule meets_guard_status [of "guard_known g"])
      (use assms guard_known_stable in \<open>auto simp: ConditionTrue_def ConditionFalse_def\<close>)
qed (rule adapted_return)

text \<open>The phases before the status, whatever follows them.\<close>

lemma rendered_safe:
  assumes k: "provider_known g p (at w)"
    and fail: "\<And>v reason msg e. guard_known g (at v) \<Longrightarrow> guard_safe (f (reason, msg, Some e)) v"
    and ok: "\<And>v data. provider_known g p (at v) \<Longrightarrow> valid_guard g p \<Longrightarrow>
      l_json_to_yaml (r_Lib r) (guard_static_config g p) = Inr data \<Longrightarrow>
      adapter_settled (r_Lib r) (r_AdapterImage r) g data (at v) \<Longrightarrow> guard_safe (f ([], [], None)) v"
  shows "guard_safe (and_then (case renderStaticConfig (r_Lib r) g p of
             Inl e \<Rightarrow>
               if errors_is e errUnsupportedProvider then guard_error guardReasonUnsupportedProviderType e
               else if errors_is e errInvalidConfig then guard_error guardReasonInvalidConfig e
               else guard_error guardReasonReconcileFailed e
           | Inr (configYAML, configHash) \<Rightarrow> adapter_prog (r_Lib r) (r_AdapterImage r) g configYAML configHash) f) w"
proof (cases "renderStaticConfig (r_Lib r) g p")
  case (Inl e)
  have "guard_known g (at w)" using k by (simp add: provider_known_def)
  from fail [OF this] show ?thesis by (simp add: Inl guard_error_def)
next
  case (Inr dh)
  obtain data h where dh: "dh = (data, h)" by (cases dh)
  note rd = render_ok [OF Inr [unfolded dh]]
  have "guard_safe (and_then (adapter_prog (r_Lib r) (r_AdapterImage r) g data h) f) w"
    by (rule adapter_meets [OF k rd(2,3)]) (use ok rd fail provider_known_def in blast)+
  then show ?thesis by (simp add: Inr dh)
qed

lemma reconcileGuard_safe:
  assumes k: "guard_known g (at w)"
    and fail: "\<And>v reason msg e. guard_known g (at v) \<Longrightarrow> guard_safe (f (reason, msg, Some e)) v"
    and ok: "\<And>v p data. provider_known g p (at v) \<Longrightarrow> valid_guard g p \<Longrightarrow>
      l_json_to_yaml (r_Lib r) (guard_static_config g p) = Inr data \<Longrightarrow>
      adapter_settled (r_Lib r) (r_AdapterImage r) g data (at v) \<Longrightarrow> guard_safe (f ([], [], None)) v"
  shows "guard_safe (and_then (reconcileGuard_prog (r_Lib r) (r_AdapterImage r) g) f) w"
proof (cases "r_AdapterImage r = []")
  case True
  with fail [OF k] show ?thesis by (simp add: reconcileGuard_prog_def)
next
  case False
  then show ?thesis
    unfolding reconcileGuard_prog_def if_not_P [OF False] and_then_assoc
  proof (intro meets_get [OF k guard_known_stable], goal_cases)
    case (2 v)
    show ?case
    proof (cases "get_as as_provider (r_Client r) (KGuardrailProvider, provider_key g) v")
      case (Inl e)
      with fail [OF 2(2)] show ?thesis by (simp add: guard_error_def)
    next
      case (Inr p)
      from get_as_some(1) [OF Inr as_provider_iff] 2(2) have "provider_known g p (at v)" by (simp add: provider_known_def)
      from rendered_safe [OF this fail ok] show ?thesis by (simp add: Inr)
    qed
  qed (rule guard_known_inv)
qed

lemma Guard_safe:
  assumes "guards_adapted (r_Lib r) (r_AdapterImage r) (at w)"
  shows "guard_safe (Guard_Reconcile_prog (r_Lib r) (r_AdapterImage r) req) w"
  unfolding Guard_Reconcile_prog_def
proof (intro meets_get [OF assms adapted_stable], goal_cases)
  case (2 v)
  show ?case
  proof (cases "get_as as_guard (r_Client r) (KGuard, req) v")
    case (Inl e)
    show ?thesis unfolding Inl sum.case by (rule meets_return [OF 2 adapted_stable]) simp
  next
    case (Inr g)
    from get_as_some(1) [OF Inr as_guard_iff] 2 have k: "guard_known g (at v)" by (intro known_read)
    have ready: "guard_safe (setReadyCondition_prog (r_Lib r) g ConditionTrue guardReasonReconciled ''Adapter resources reconciled'') x"
      if "provider_known g p (at x)" "valid_guard g p" "l_json_to_yaml (r_Lib r) (guard_static_config g p) = Inr data"
        "adapter_settled (r_Lib r) (r_AdapterImage r) g data (at x)" for x p data
      by (rule meets_guard_status [OF _ stable_conj [OF provider_known_stable settled_stable], of g p])
        (use that in \<open>auto simp: provider_known_def guard_adapted_def\<close>)
    show ?thesis
      unfolding Inr sum.case
      by (rule reconcileGuard_safe [OF k]; unfold prod.case option.case; (erule guard_not_ready_safe | rule ready; assumption))
  qed
qed simp

end

end
