(* ===== verification/GatewayInterference.thy ===== *)
theory GatewayInterference
  imports ReadyStatus GatewayProperties
begin

text \<open>
  The gateway controller while others act on the cluster between its calls.  Whatever they do to
  objects that are not the objects of gateways (guards and classes included), and whichever
  gateways they create and edit, every gateway that is Ready for its current generation has its
  Gateway, its parameters and its guardrail policy, at every moment.
\<close>

section \<open>The invariant\<close>

text \<open>The writes of a run, as key and mutate function.\<close>

definition gateway_writes :: "klib \<Rightarrow> tool_gateway \<Rightarrow> (okey \<times> (kobj \<Rightarrow> goerror + kobj)) set" where
  "gateway_writes lib tg =
     {((KGateway, tg_name_key tg), on_gateway (gateway_mutate lib tg)),
      ((KParameters, tg_name_key tg), on_unstructured (params_mutate lib tg))}
     \<union> (case tg_Guardrails tg of
          [ref] \<Rightarrow> {((KPolicy, guardrail_key tg), on_unstructured (guardrail_mutate lib tg (guard_ref_key tg ref)))}
        | _ \<Rightarrow> {})"

definition gateway_fixed :: "klib \<Rightarrow> tool_gateway \<Rightarrow> (okey \<Rightarrow> kobj option) \<Rightarrow> bool" where
  "gateway_fixed lib tg s =
     ((\<forall>(k, m) \<in> gateway_writes lib tg. fixed_at k m s)
      \<and> (tg_Guardrails tg = [] \<longrightarrow> s (KPolicy, guardrail_key tg) = None) \<and> length (tg_Guardrails tg) \<le> 1)"

text \<open>The same, spelled out: what the data plane is configured with.\<close>

definition gateway_configured :: "klib \<Rightarrow> tool_gateway \<Rightarrow> (okey \<Rightarrow> kobj option) \<Rightarrow> bool" where
  "gateway_configured lib tg s =
     (\<exists>gw u.
        s (KGateway, tg_name_key tg) = Some (OGateway gw) \<and> gw_Spec gw = gateway_spec_of (m_Name (tg_Meta tg))
        \<and> controller_of (gw_Meta gw) = Some (KToolGateway, m_Name (tg_Meta tg))
        \<and> s (KParameters, tg_name_key tg) = Some (OUnstructured u) \<and> parameters_match lib tg (us_Object u)
        \<and> controller_of (us_Meta u) = Some (KToolGateway, m_Name (tg_Meta tg))
        \<and> (case tg_Guardrails tg of
             [] \<Rightarrow> s (KPolicy, guardrail_key tg) = None
           | [ref] \<Rightarrow>
               (\<exists>v. s (KPolicy, guardrail_key tg) = Some (OUnstructured v)
                  \<and> controller_of (us_Meta v) = Some (KToolGateway, m_Name (tg_Meta tg))
                  \<and> json_get (us_Object v) [''spec''] =
                      Some (buildGuardrailPolicySpec (m_Name (tg_Meta tg)) (ref_Name ref) (fst (guard_ref_key tg ref))))
           | _ \<Rightarrow> False))"

text \<open>What a Ready gateway needs.\<close>

fun gateway_backed :: "klib \<Rightarrow> (okey \<Rightarrow> kobj option) \<Rightarrow> kobj \<Rightarrow> bool" where
  "gateway_backed lib s (OToolGateway tg) = (tg_Url tg = gateway_url tg \<and> gateway_fixed lib tg s)"
| "gateway_backed lib s _ = True"

abbreviation gateways_configured :: "klib \<Rightarrow> (okey \<Rightarrow> kobj option) \<Rightarrow> bool" where
  "gateways_configured lib \<equiv> backed lib KToolGateway (gateway_backed lib)"

definition gateway_rely :: "okey set" where
  "gateway_rely = {k. fst k \<in> {KGateway, KParameters} \<or> fst k = KPolicy \<and> ends_with (snd (snd k)) ''-guardrail''}"

lemma gateway_writes_keys: "(k, m) \<in> gateway_writes lib tg \<Longrightarrow> k \<in> gateway_keys tg"
  by (auto simp: gateway_writes_def gateway_keys_def split: list.splits)

lemma gateway_rely_kinds [simp]:
  "(KGateway, k) \<in> gateway_rely" "(KParameters, k) \<in> gateway_rely" "(KPolicy, guardrail_key tg) \<in> gateway_rely"
  "(KToolGateway, k) \<notin> gateway_rely"
  using guardrail_in_area [of "m_Namespace (tg_Meta tg)" tg]
  by (simp_all add: gateway_rely_def gateway_area_def guardrail_key_def)

lemma gateway_keys_rely: "gateway_keys tg \<subseteq> gateway_rely"
  by (simp add: gateway_keys_def)

lemma gateway_keys_meet:
  assumes "k \<in> gateway_keys tg" "k \<in> gateway_keys tg'"
  shows "meta_key (tg_Meta tg) = meta_key (tg_Meta tg')"
proof -
  have "guardrail_key tg = guardrail_key tg' \<Longrightarrow> tg_name_key tg = tg_name_key tg'"
    by (simp add: guardrail_key_def guardrail_name_def tg_name_key_def meta_key_def)
  moreover have kinds: "KGateway \<noteq> KPolicy" "KParameters \<noteq> KPolicy" by (simp_all add: KParameters_def KPolicy_def)
  have key: "snd k = (if fst k = KPolicy then guardrail_key t else tg_name_key t)" if "k \<in> gateway_keys t" for t
  proof -
    from that have "k = (KGateway, tg_name_key t) \<or> k = (KParameters, tg_name_key t) \<or> k = (KPolicy, guardrail_key t)"
      by (simp add: gateway_keys_def)
    then show ?thesis using kinds by auto
  qed
  from key [OF assms(1)] key [OF assms(2)]
  have "(if fst k = KPolicy then guardrail_key tg else tg_name_key tg)
      = (if fst k = KPolicy then guardrail_key tg' else tg_name_key tg')" by (rule trans [OF sym])
  ultimately show ?thesis unfolding tg_name_key_def by (cases "fst k = KPolicy") (simp_all only: if_True if_False simp_thms)
qed

lemma gateway_fixed_frame:
  assumes "\<And>k. k \<in> gateway_keys tg \<Longrightarrow> s' k = s k"
  shows "gateway_fixed lib tg s' = gateway_fixed lib tg s"
proof -
  have "fixed_at k m s' = fixed_at k m s" if "(k, m) \<in> gateway_writes lib tg" for k m
    by (rule fixed_at_frame) (rule assms, rule gateway_writes_keys [OF that])
  then have "(\<forall>(k, m) \<in> gateway_writes lib tg. fixed_at k m s') = (\<forall>(k, m) \<in> gateway_writes lib tg. fixed_at k m s)"
    by (intro ball_cong refl) auto
  moreover have "s' (KPolicy, guardrail_key tg) = s (KPolicy, guardrail_key tg)" by (rule assms) (simp add: gateway_keys_def)
  ultimately show ?thesis by (simp add: gateway_fixed_def)
qed

lemma fixed_reads: "(\<And>k. k \<in> gateway_rely \<Longrightarrow> s' k = s k) \<Longrightarrow> gateway_fixed lib tg s' = gateway_fixed lib tg s"
  by (rule gateway_fixed_frame) (use gateway_keys_rely in blast)

lemma gateway_backed_reads: "reads gateway_rely (gateway_backed lib)"
  unfolding reads_def
proof (intro allI impI)
  fix s s' :: "okey \<Rightarrow> kobj option" and ob
  assume e: "\<forall>k \<in> gateway_rely. s' k = s k"
  have "gateway_fixed lib tg s' = gateway_fixed lib tg s" for tg by (rule fixed_reads) (use e in blast)
  then show "gateway_backed lib s' ob = gateway_backed lib s ob" by (cases ob) simp_all
qed

text \<open>The status does not matter.\<close>

lemma gateway_fixed_status:
  assumes "tg_Meta a = tg_Meta b" "tg_Env a = tg_Env b" "tg_EnvFrom a = tg_EnvFrom b" "tg_Guardrails a = tg_Guardrails b"
  shows "gateway_fixed lib a s = gateway_fixed lib b s" "gateway_url a = gateway_url b"
proof -
  have k: "tg_name_key a = tg_name_key b" "guardrail_key a = guardrail_key b" "guard_ref_key a = guard_ref_key b"
    by (auto simp: assms tg_name_key_def guardrail_key_def guardrail_name_def guard_ref_key_def fun_eq_iff)
  have m: "gateway_mutate lib a = gateway_mutate lib b" "guardrail_mutate lib a gk = guardrail_mutate lib b gk"
    "setAgentgatewayParametersSpec lib u a = setAgentgatewayParametersSpec lib u b" for u gk
    by (intro ext, simp only: gateway_mutate_def assms, intro ext, simp only: guardrail_mutate_def assms)
      (simp only: setAgentgatewayParametersSpec_def assms)
  then have p: "params_mutate lib a = params_mutate lib b"
    by (intro ext) (simp only: params_mutate_def assms)
  have "gateway_writes lib a = gateway_writes lib b" unfolding gateway_writes_def k m p assms(4) by (rule refl)
  then show "gateway_fixed lib a s = gateway_fixed lib b s" unfolding gateway_fixed_def k assms(4) by simp
  show "gateway_url a = gateway_url b" by (simp add: gateway_url_def assms)
qed

context gateway_operator
begin

lemma fixed_configured:
  assumes "gateway_fixed (r_Lib r) tg s"
  shows "gateway_configured (r_Lib r) tg s"
proof -
  obtain gw u where gw: "s (KGateway, tg_name_key tg) = Some (OGateway gw)" "gateway_mutate (r_Lib r) tg gw = Inr gw"
    and u: "s (KParameters, tg_name_key tg) = Some (OUnstructured u)" "params_mutate (r_Lib r) tg u = Inr u"
    using assms by (auto simp: gateway_fixed_def gateway_writes_def fixed_at_kinds)
  have "case tg_Guardrails tg of
             [] \<Rightarrow> s (KPolicy, guardrail_key tg) = None
           | [ref] \<Rightarrow>
               (\<exists>v. s (KPolicy, guardrail_key tg) = Some (OUnstructured v)
                  \<and> controller_of (us_Meta v) = Some (KToolGateway, m_Name (tg_Meta tg))
                  \<and> json_get (us_Object v) [''spec''] =
                      Some (buildGuardrailPolicySpec (m_Name (tg_Meta tg)) (ref_Name ref) (fst (guard_ref_key tg ref))))
           | _ \<Rightarrow> False"
  proof (cases "tg_Guardrails tg")
    case (Cons ref rest)
    with assms have "rest = []" by (simp add: gateway_fixed_def)
    with assms Cons obtain v where "s (KPolicy, guardrail_key tg) = Some (OUnstructured v)"
      "guardrail_mutate (r_Lib r) tg (guard_ref_key tg ref) v = Inr v"
      by (auto simp: gateway_fixed_def gateway_writes_def fixed_at_kinds)
    with guardrail_mutate_ok [OF this(2)] set_controller_of show ?thesis
      by (auto simp: Cons \<open>rest = []\<close> simp del: json_get.simps)
  qed (use assms in \<open>simp add: gateway_fixed_def\<close>)
  with gw u gateway_mutate_ok [OF gw(2)] params_mutate_ok [OF u(2)] set_controller_of show ?thesis
    unfolding gateway_configured_def by blast
qed

lemma gateway_writes_cases:
  assumes "(k, m) \<in> gateway_writes lib tg"
  obtains "k = (KGateway, tg_name_key tg)" "m = on_gateway (gateway_mutate lib tg)"
  | "k = (KParameters, tg_name_key tg)" "m = on_unstructured (params_mutate lib tg)"
  | ref where "k = (KPolicy, guardrail_key tg)" "m = on_unstructured (guardrail_mutate lib tg (guard_ref_key tg ref))"
      "tg_Guardrails tg = [ref]"
  using assms unfolding gateway_writes_def by (auto split: list.splits)

lemma gateway_writes_facts:
  assumes "(k, m) \<in> gateway_writes (r_Lib r) tg"
  shows "mutator m" "(k, m') \<in> gateway_writes (r_Lib r) tg \<Longrightarrow> m' = m" "k = (KPolicy, guardrail_key tg) \<Longrightarrow> tg_Guardrails tg \<noteq> []"
proof -
  have kinds: "KGateway \<noteq> KParameters" "KGateway \<noteq> KPolicy" "KParameters \<noteq> KPolicy" by (simp_all add: KParameters_def KPolicy_def)
  show "mutator m"
    by (rule gateway_writes_cases [OF assms]) (simp_all add: gateway_mutator params_mutator guardrail_mutator)
  show "k = (KPolicy, guardrail_key tg) \<Longrightarrow> tg_Guardrails tg \<noteq> []"
    by (rule gateway_writes_cases [OF assms]) (use kinds in auto)
  show "(k, m') \<in> gateway_writes (r_Lib r) tg \<Longrightarrow> m' = m"
    by (rule gateway_writes_cases [OF assms]; erule gateway_writes_cases) (use kinds in auto)
qed

section \<open>The steps under interference\<close>

abbreviation gateway_known :: "tool_gateway \<Rightarrow> (okey \<Rightarrow> kobj option) \<Rightarrow> bool" where
  "gateway_known tg \<equiv> known (r_Lib r) KToolGateway (gateway_backed (r_Lib r)) (OToolGateway tg)"

abbreviation gateway_safe :: "'b prog \<Rightarrow> 'w \<Rightarrow> bool" where
  "gateway_safe prog w \<equiv>
     meets (r_Client r) at gateway_rely KToolGateway (gateways_configured (r_Lib r)) prog (\<lambda>_ _. True) w"

lemma gateway_key [simp]: "key_of (OToolGateway tg) = (KToolGateway, meta_key (tg_Meta tg))"
  by (simp add: key_of_def)

lemma configured_stable: "stable gateway_rely KToolGateway (gateways_configured (r_Lib r))"
  by (rule backed_stable [OF gateway_backed_reads])

lemma gateway_known_stable: "stable gateway_rely KToolGateway (gateway_known tg)"
  by (rule known_stable [OF gateway_backed_reads]) simp

lemma fixed_stable: "stable gateway_rely KToolGateway (gateway_fixed lib tg)"
  by (rule stable_reads) (rule fixed_reads)

lemma gateway_known_inv: "gateway_known tg s \<Longrightarrow> gateways_configured (r_Lib r) s"
  by (rule known_backed)

lemma configured_return [intro]: "gateways_configured (r_Lib r) (at w) \<Longrightarrow> gateway_safe (Return (y :: goerror option)) w"
  by (rule meets_return [where F = "gateways_configured (r_Lib r)", OF _ configured_stable]) simp_all

text \<open>A change of one object of a gateway keeps the others.\<close>

lemma gateway_write_keeps:
  assumes k: "gateway_known tg (at w)" and frame: "unchanged_outside {k} at w w'" "k \<in> gateway_keys tg"
    and own: "gateway_fixed (r_Lib r) tg (at w) \<Longrightarrow> gateway_fixed (r_Lib r) tg (at w')"
  shows "gateway_known tg (at w')"
proof (rule known_write [OF k frame(1)])
  show "fst k \<noteq> KToolGateway" using frame(2) KGuard_keys(2) by (metis prod.collapse)
  show "gateway_backed (r_Lib r) (at w') (OToolGateway tg)" if "gateway_backed (r_Lib r) (at w) (OToolGateway tg)"
    using that own by simp
  show "gateway_backed (r_Lib r) (at w') b"
    if b: "gateway_backed (r_Lib r) (at w) b" "key_of b \<noteq> key_of (OToolGateway tg)" "fst (key_of b) = KToolGateway" for b
  proof -
    obtain tg2 where tg2: "b = OToolGateway tg2" using b(3) by (cases b) (simp_all add: key_of_def)
    with b(2) frame(2) have "j \<in> gateway_keys tg2 \<Longrightarrow> j \<noteq> k" for j using gateway_keys_meet [of k tg2 tg] by fastforce
    then have "gateway_fixed (r_Lib r) tg2 (at w') = gateway_fixed (r_Lib r) tg2 (at w)"
      using unchangedD [OF frame(1)] by (intro gateway_fixed_frame) blast
    with b(1) show ?thesis by (simp add: tg2)
  qed
qed simp

lemma gateway_cop:
  assumes k: "gateway_known tg (at w)" and c: "c_create_or_patch (r_Client r) ob m w = (x, w')"
    and m: "(key_of ob, m) \<in> gateway_writes (r_Lib r) tg"
  shows "gateway_known tg (at w')" and "fixed_at j m' (at w) \<Longrightarrow> j \<noteq> key_of ob \<Longrightarrow> fixed_at j m' (at w')"
proof -
  note ms = gateway_writes_facts [OF m] gateway_writes_keys [OF m]
  note step = cop_fixed [OF ms(1) c]
  show other: "fixed_at j m' (at w) \<Longrightarrow> j \<noteq> key_of ob \<Longrightarrow> fixed_at j m' (at w')" for j m'
    using fixed_at_frame [of "at w'" j "at w"] unchangedD [OF step(3), of j] by simp
  show "gateway_known tg (at w')"
  proof (rule gateway_write_keeps [OF k step(3) ms(4)])
    assume f: "gateway_fixed (r_Lib r) tg (at w)"
    have "fixed_at j m' (at w')" if "(j, m') \<in> gateway_writes (r_Lib r) tg" for j m'
      using f that ms(2) step(2) other unfolding gateway_fixed_def by (cases "j = key_of ob") blast+
    moreover have "tg_Guardrails tg = [] \<Longrightarrow> at w' (KPolicy, guardrail_key tg) = at w (KPolicy, guardrail_key tg)"
      using ms(3) by (intro unchangedD [OF step(3)]) auto
    ultimately show "gateway_fixed (r_Lib r) tg (at w')" using f unfolding gateway_fixed_def by auto
  qed
qed

lemma gateway_delete:
  assumes k: "gateway_known tg (at w)" and g: "tg_Guardrails tg = []"
    and d: "c_delete (r_Client r) (KPolicy, guardrail_key tg) w = (x, w')"
  shows "gateway_known tg (at w')" and "fixed_at j m (at w) \<Longrightarrow> fst j \<noteq> KPolicy \<Longrightarrow> fixed_at j m (at w')"
proof -
  have frame: "unchanged_outside {(KPolicy, guardrail_key tg)} at w w'" by (rule delete_unchanged [OF d]) simp
  show other: "fixed_at j m (at w) \<Longrightarrow> fst j \<noteq> KPolicy \<Longrightarrow> fixed_at j m (at w')" for j m
    using fixed_at_frame [of "at w'" j "at w"] unchangedD [OF frame, of j] by (metis fst_conv singletonD)
  show "gateway_known tg (at w')"
  proof (rule gateway_write_keeps [OF k frame])
    assume f: "gateway_fixed (r_Lib r) tg (at w)"
    then have "at w (KPolicy, guardrail_key tg) = None" using g by (simp add: gateway_fixed_def)
    from delete_absent [OF d this] f show "gateway_fixed (r_Lib r) tg (at w')" by simp
  qed (simp add: gateway_keys_def)
qed

text \<open>The status: Ready only with the objects of the gateway in place.\<close>

lemma meets_gateway_status:
  assumes F: "F (at w)" "stable gateway_rely KToolGateway F" "\<And>s. F s \<Longrightarrow> gateway_known tg s"
    and n: "tg_Meta n = tg_Meta tg" "observed (r_Lib r) (OToolGateway n)"
    and ready: "\<And>s. F s \<Longrightarrow> s (KToolGateway, meta_key (tg_Meta tg)) = Some (OToolGateway tg) \<Longrightarrow>
      ready_now (r_Lib r) (OToolGateway (merged_tg b n tg)) \<Longrightarrow> gateway_backed (r_Lib r) s (OToolGateway (merged_tg b n tg))"
  shows "gateway_safe (patch_tg_prog b n) w"
proof -
  have m: "merge_status (OToolGateway b) (OToolGateway n) (OToolGateway tg) = OToolGateway (merged_tg b n tg)"
    by (simp add: merge_status_def merged_tg_def)
  show ?thesis
    unfolding patch_tg_prog_def
    by (rule meets_status [OF F gateway_backed_reads _ _ _ n(2)])
      (simp_all only: n(1) m ready configured_return gateway_key gateway_rely_kinds fst_conv meta_of.simps simp_thms)
qed

lemma status_observed:
  "observed (r_Lib r) (OToolGateway (tg_not_ready (r_Lib r) tg reason msg))" "observed (r_Lib r) (OToolGateway (tg_ready (r_Lib r) tg))"
  using found_ready by (fastforce simp: observed_def tg_not_ready_def tg_ready_def split: option.split)+

section \<open>A whole run\<close>

lemma gateway_not_ready_safe:
  assumes k: "gateway_known tg (at w)" and u: "u = tg\<lparr>tg_Conditions := cs\<rparr>"
  shows "gateway_safe (and_then (patch_tg_prog u (tg_not_ready (r_Lib r) u reason msg)) (\<lambda>_. Return (y :: goerror option))) w"
proof (rule meets_then, rule meets_weaken)
  let ?n = "tg_not_ready (r_Lib r) u reason msg"
  show "gateway_safe (patch_tg_prog u ?n) w"
  proof (rule meets_gateway_status [OF k gateway_known_stable _ _ status_observed(1)])
    fix s
    assume s: "gateway_known tg s" "s (KToolGateway, meta_key (tg_Meta tg)) = Some (OToolGateway tg)"
      and now: "ready_now (r_Lib r) (OToolGateway (merged_tg u ?n tg))"
    have "tg_Conditions (merged_tg u ?n tg) = tg_Conditions tg"
      using now found_ready
      by (fastforce simp: ready_now_def merged_tg_def patch_field_def tg_not_ready_def ConditionTrue_def ConditionFalse_def
          split: if_splits option.splits)
    then have "merged_tg u ?n tg = tg\<lparr>tg_Url := tg_Url tg, tg_Conditions := tg_Conditions tg\<rparr>"
      by (simp add: merged_tg_def patch_field_def tg_not_ready_def u split: if_splits)
    then have same: "merged_tg u ?n tg = tg" by simp
    show "gateway_backed (r_Lib r) s (OToolGateway (merged_tg u ?n tg))"
      using backedD(2) [OF known_backed [OF s(1)] s(2)] now unfolding same .
  qed (simp_all add: u tg_not_ready_def)
qed (rule configured_return)

lemma gateway_ready_safe:
  assumes k: "gateway_known tg (at w)" and f: "gateway_fixed (r_Lib r) tg (at w)"
  shows "gateway_safe (patch_tg_prog (clear_unsupported (r_Lib r) tg) (tg_ready (r_Lib r) (clear_unsupported (r_Lib r) tg))) w"
proof (rule meets_gateway_status [where F = "\<lambda>s. gateway_known tg s \<and> gateway_fixed (r_Lib r) tg s" and tg = tg, OF _ _ _ _ status_observed(2)])
  let ?b = "clear_unsupported (r_Lib r) tg"
  let ?m = "merged_tg ?b (tg_ready (r_Lib r) ?b) tg"
  show "stable gateway_rely KToolGateway (\<lambda>s. gateway_known tg s \<and> gateway_fixed (r_Lib r) tg s)"
    by (intro stable_conj gateway_known_stable fixed_stable)
  have fields: "tg_Meta ?m = tg_Meta tg" "tg_Env ?m = tg_Env tg" "tg_EnvFrom ?m = tg_EnvFrom tg" "tg_Guardrails ?m = tg_Guardrails tg"
    by (simp_all add: merged_tg_def)
  have url: "tg_Url ?m = gateway_url tg"
    by (simp add: merged_tg_def patch_field_def tg_ready_def clear_unsupported_def gateway_url_def)
  show "gateway_backed (r_Lib r) s (OToolGateway ?m)" if "gateway_known tg s \<and> gateway_fixed (r_Lib r) tg s" for s
    using that url unfolding gateway_backed.simps gateway_fixed_status [OF fields] by blast
  show "\<And>s. gateway_known tg s \<and> gateway_fixed (r_Lib r) tg s \<Longrightarrow> gateway_known tg s" by simp
qed (use k f in \<open>simp_all add: tg_ready_def clear_unsupported_def\<close>)

text \<open>The guardrails, after the parameters and the Gateway.\<close>

text \<open>What the guardrail step starts from: the parameters and the Gateway are in place.\<close>

abbreviation equipped :: "tool_gateway \<Rightarrow> (okey \<Rightarrow> kobj option) \<Rightarrow> bool" where
  "equipped tg \<equiv> \<lambda>s. gateway_known tg s
     \<and> fixed_at (KParameters, tg_name_key tg) (on_unstructured (params_mutate (r_Lib r) tg)) s
     \<and> fixed_at (KGateway, tg_name_key tg) (on_gateway (gateway_mutate (r_Lib r) tg)) s"

lemma equipped_stable: "stable gateway_rely KToolGateway (equipped tg)"
  by (intro stable_conj gateway_known_stable fixed_at_reads) simp_all

lemma equipped_inv: "equipped tg s \<Longrightarrow> gateways_configured (r_Lib r) s"
  using gateway_known_inv by blast

lemma guardrail_gone:
  assumes Nil: "tg_Guardrails tg = []" and v: "equipped tg (at v)"
    and d: "c_delete (r_Client r) (KPolicy, guardrail_key tg) v = (x, v')"
  shows "gateway_known tg (at v')" "(case x of None \<Rightarrow> True | Some e \<Rightarrow> is_not_found e) \<Longrightarrow> gateway_fixed (r_Lib r) tg (at v')"
proof -
  note kept = gateway_delete [OF _ Nil d]
  show "gateway_known tg (at v')" using kept(1) v by blast
  assume "case x of None \<Rightarrow> True | Some e \<Rightarrow> is_not_found e"
  note gone = delete_gone [OF d this]
  have "fixed_at (KParameters, tg_name_key tg) (on_unstructured (params_mutate (r_Lib r) tg)) (at v')"
    "fixed_at (KGateway, tg_name_key tg) (on_gateway (gateway_mutate (r_Lib r) tg)) (at v')"
    by (rule kept(2); use v in \<open>simp add: KParameters_def KPolicy_def\<close>)+
  with gone show "gateway_fixed (r_Lib r) tg (at v')" by (simp add: gateway_fixed_def gateway_writes_def Nil)
qed

lemma guardrail_policy_safe:
  assumes refs: "tg_Guardrails tg = [ref]" and v: "equipped tg (at v)"
    and fail: "\<And>v e. gateway_known tg (at v) \<Longrightarrow> gateway_safe (f (Some e, tg)) v"
    and ok: "\<And>v. gateway_known tg (at v) \<Longrightarrow> gateway_fixed (r_Lib r) tg (at v) \<Longrightarrow>
      gateway_safe (f (None, clear_unsupported (r_Lib r) tg)) v"
  shows "gateway_safe (and_then (ensure_prog (r_Recorder r) (tg_key tg) ''GuardrailPolicy'' ''guardrail policy''
      (guardrail_name tg) ''failed to create or update guardrail policy: ''
      (OUnstructured (newAgentgatewayPolicy (guardrail_name tg) (m_Namespace (tg_Meta tg))))
      (on_unstructured (guardrail_mutate (r_Lib r) tg (guard_ref_key tg ref))))
    (\<lambda>x. f (case x of Some e \<Rightarrow> (Some e, tg) | None \<Rightarrow> (None, clear_unsupported (r_Lib r) tg)))) v"
proof (rule meets_ensure [where F = "equipped tg", OF v equipped_stable equipped_inv guardrail_mutator], goal_cases)
  let ?ob = "OUnstructured (newAgentgatewayPolicy (guardrail_name tg) (m_Namespace (tg_Meta tg)))"
  let ?m = "on_unstructured (guardrail_mutate (r_Lib r) tg (guard_ref_key tg ref))"
  have key: "key_of ?ob = (KPolicy, guardrail_key tg)" by (simp add: guardrail_key_def)
  have wr: "(key_of ?ob, ?m) \<in> gateway_writes (r_Lib r) tg" by (simp add: gateway_writes_def refs guardrail_key_def)
  {
    case (3 v x v')
    have "(KGateway, tg_name_key tg) \<noteq> key_of ?ob" "(KParameters, tg_name_key tg) \<noteq> key_of ?ob"
      by (simp_all add: key KParameters_def KPolicy_def)
    then show ?case using gateway_cop [OF _ 3(2) wr] 3(1) by blast
  next
    case (4 v)
    then have "gateway_fixed (r_Lib r) tg (at v)" unfolding key by (simp add: gateway_fixed_def gateway_writes_def refs)
    then show ?case using ok 4(1) by simp
  next
    case 2
    show ?case unfolding key by (rule gateway_rely_kinds)
  }
qed (use fail in auto)

lemma guardrails_safe:
  assumes k: "equipped tg (at w)"
    and fail: "\<And>v e cs. gateway_known tg (at v) \<Longrightarrow> gateway_safe (f (Some e, tg\<lparr>tg_Conditions := cs\<rparr>)) v"
    and ok: "\<And>v. gateway_known tg (at v) \<Longrightarrow> gateway_fixed (r_Lib r) tg (at v) \<Longrightarrow>
      gateway_safe (f (None, clear_unsupported (r_Lib r) tg)) v"
  shows "gateway_safe (and_then (ensureGuardrails_prog (r_Lib r) (r_Recorder r) tg) f) w"
proof -
  let ?ob = "OUnstructured (newAgentgatewayPolicy (guardrail_name tg) (m_Namespace (tg_Meta tg)))"
  have key: "key_of ?ob = (KPolicy, guardrail_key tg)" by (simp add: guardrail_key_def)
  have same: "gateway_safe (f (Some e, tg)) v" if "gateway_known tg (at v)" for e v
    using fail [OF that, of e "tg_Conditions tg"] by simp
  consider (none) "tg_Guardrails tg = []" | (one) ref where "tg_Guardrails tg = [ref]" | (more) a b refs where "tg_Guardrails tg = a # b # refs"
    by (metis list.exhaust)
  then show ?thesis
  proof cases
    case none
    show ?thesis
      unfolding ensureGuardrails_prog_def Let_def none list.case and_then.simps key
    proof (rule meets_delete [OF k equipped_stable equipped_inv], assumption)
      fix v x v'
      assume "equipped tg (at v)" "c_delete (r_Client r) (KPolicy, guardrail_key tg) v = (x, v')"
      note gone = guardrail_gone [OF none this]
      show "gateway_safe (f (case x of
            Some e \<Rightarrow>
              if is_not_found e then (None, clear_unsupported (r_Lib r) tg)
              else (Some (Wrapf ''failed to delete guardrail policy: '' e []), tg)
          | None \<Rightarrow> (None, clear_unsupported (r_Lib r) tg))) v'"
        using gone ok same by (cases x) auto
    qed
  next
    case (one ref)
    show ?thesis
      unfolding ensureGuardrails_prog_def Let_def one list.case and_then_assoc
    proof (rule meets_guard_check [OF k equipped_stable equipped_inv], assumption)
      fix v y
      assume v: "equipped tg (at v)"
      from guardrail_policy_safe [where f = f, OF one v same ok] same v
      show "gateway_safe (and_then (case y of
          Some e \<Rightarrow> Return (Some e, tg)
        | None \<Rightarrow> and_then (ensure_prog (r_Recorder r) (tg_key tg) ''GuardrailPolicy'' ''guardrail policy''
            (guardrail_name tg) ''failed to create or update guardrail policy: '' ?ob
            (on_unstructured (guardrail_mutate (r_Lib r) tg (guard_ref_key tg ref))))
          (\<lambda>x. Return (case x of Some e \<Rightarrow> (Some e, tg) | None \<Rightarrow> (None, clear_unsupported (r_Lib r) tg)))) f) v"
        by (cases y) simp_all
    qed
  next
    case more
    then show ?thesis using fail k by (simp add: ensureGuardrails_prog_def)
  qed
qed

lemma reconcileToolGateway_safe:
  assumes k: "gateway_known tg (at w)"
    and fail: "\<And>v reason e cs. gateway_known tg (at v) \<Longrightarrow> gateway_safe (f ((reason, Some e), tg\<lparr>tg_Conditions := cs\<rparr>)) v"
    and ok: "\<And>v. gateway_known tg (at v) \<Longrightarrow> gateway_fixed (r_Lib r) tg (at v) \<Longrightarrow>
      gateway_safe (f (([], None), clear_unsupported (r_Lib r) tg)) v"
  shows "gateway_safe (and_then (reconcileToolGateway_prog (r_Lib r) (r_Recorder r) tg) f) w"
proof -
  let ?params = "fixed_at (KParameters, tg_name_key tg) (on_unstructured (params_mutate (r_Lib r) tg))"
  let ?F = "\<lambda>s. gateway_known tg s \<and> ?params s"
  have failed: "gateway_safe (f ((reason, Some e), tg)) v" if "gateway_known tg (at v)" for reason e v
    using fail [OF that, of reason e "tg_Conditions tg"] by simp
  have reads: "stable gateway_rely KToolGateway ?F" by (intro stable_conj gateway_known_stable fixed_at_reads) simp
  have keys: "(KGateway, tg_name_key tg) \<noteq> (KParameters, tg_name_key tg)" by (simp add: KParameters_def)
  have name: "tg_name_key tg = (m_Namespace (tg_Meta tg), m_Name (tg_Meta tg))" by (simp add: tg_name_key_def meta_key_def)
  have gateway: "gateway_safe (and_then (ensureGateway_prog (r_Lib r) (r_Recorder r) tg) (\<lambda>x. and_then (case x of
        Some e \<Rightarrow> Return ((reasonGatewayFailed, Some e), tg)
      | None \<Rightarrow> and_then (ensureGuardrails_prog (r_Lib r) (r_Recorder r) tg) (\<lambda>(x, tg'). Return (case x of
          Some e \<Rightarrow> ((guardrails_reason e, Some e), tg')
        | None \<Rightarrow> (([], None), tg')))) f)) v"
    if "?F (at v)" for v
    unfolding ensureGateway_prog_def
  proof (rule meets_ensure [where F = ?F, OF that reads _ gateway_mutator], goal_cases)
    case (3 v x v')
    then show ?case
      using gateway_cop [OF _ 3(2), of tg] keys
      by (auto simp: typed_keys new_meta_def meta_key_def name gateway_writes_def)
  next
    case (4 v)
    then show ?case
      by (auto intro!: guardrails_safe  simp: typed_keys new_meta_def meta_key_def name fail ok)
  qed (use failed in \<open>auto simp: typed_keys dest: gateway_known_inv\<close>)
  show ?thesis
    unfolding reconcileToolGateway_prog_def ensureAgentgatewayParameters_prog_def and_then_assoc
  proof (rule meets_ensure [where F = "gateway_known tg", OF k gateway_known_stable _ params_mutator], goal_cases)
    case (3 v x v')
    then show ?case
      using gateway_cop(1) [OF _ 3(2), of tg] by (simp add: meta_key_def name gateway_writes_def)
  next
    case (4 v)
    then show ?case using gateway by (simp add: meta_key_def name)
  qed (use failed in \<open>auto dest: gateway_known_inv\<close>)
qed

lemma ToolGateway_safe:
  assumes "gateways_configured (r_Lib r) (at w)"
  shows "gateway_safe (ToolGateway_Reconcile_prog (r_Lib r) (r_Recorder r) req) w"
  unfolding ToolGateway_Reconcile_prog_def
proof (intro meets_get [OF assms configured_stable], goal_cases)
  case (2 v)
  show ?case
  proof (cases "get_as as_tool_gateway (r_Client r) (KToolGateway, req) v")
    case (Inl e)
    show ?thesis unfolding Inl sum.case by (rule meets_return [OF 2 configured_stable]) simp
  next
    case (Inr tg)
    from get_as_some(1) [OF Inr as_tool_gateway_iff] 2 have k: "gateway_known tg (at v)" by (intro known_read)
    have stop: "gateway_safe (Return y) x" if "gateway_known tg (at x)" for y x
      by (rule meets_return [OF that gateway_known_stable]) (simp add: gateway_known_inv)
    show ?thesis
      unfolding Inr sum.case
    proof (rule meets_owned [OF k gateway_known_stable gateway_known_inv], assumption)
      fix v y
      assume k: "gateway_known tg (at v)"
      have run: "gateway_safe (and_then (reconcileToolGateway_prog (r_Lib r) (r_Recorder r) tg) (\<lambda>((reason, err), tg'). case err of
           Some e \<Rightarrow> and_then (patch_tg_prog tg' (tg_not_ready (r_Lib r) tg' reason (error_text e))) (\<lambda>statusErr. Return (Some e))
         | None \<Rightarrow> patch_tg_prog tg' (tg_ready (r_Lib r) tg'))) v"
        by (rule reconcileToolGateway_safe [OF k])
          (unfold prod.case option.case, (rule gateway_not_ready_safe [OF _ refl], assumption | rule gateway_ready_safe; assumption)+)
      show "gateway_safe (case y of
            Inl e \<Rightarrow> Return (Some e)
          | Inr False \<Rightarrow> Return None
          | Inr True \<Rightarrow> and_then (reconcileToolGateway_prog (r_Lib r) (r_Recorder r) tg) (\<lambda>((reason, err), tg'). case err of
               Some e \<Rightarrow> and_then (patch_tg_prog tg' (tg_not_ready (r_Lib r) tg' reason (error_text e))) (\<lambda>statusErr. Return (Some e))
             | None \<Rightarrow> patch_tg_prog tg' (tg_ready (r_Lib r) tg'))) v"
        by (cases y; (rename_tac z, case_tac z)?) (simp_all only: sum.case bool.case run stop [OF k])
    qed
  qed
qed simp

end

end
