(* ===== verification/RouteInterference.thy ===== *)
theory RouteInterference
  imports ReadyStatus RouteStability
begin

text \<open>
  The route controller while others act on the cluster between its calls.  Whatever they do to
  objects that are neither the objects of routes nor tool servers (gateways and classes
  included), and whichever routes they create and edit, every route that is Ready for its
  current generation is served, at every moment.
\<close>

section \<open>The invariant\<close>

text \<open>What a Ready route needs.\<close>

fun route_backed :: "klib \<Rightarrow> (okey \<Rightarrow> kobj option) \<Rightarrow> kobj \<Rightarrow> bool" where
  "route_backed lib s (OToolRoute route) =
     (\<exists>tg up. route_names route tg \<and> tr_Url route = route_url tg (route_path route)
        \<and> upstream_wanted lib route s up \<and> route_settled lib tg route up s)"
| "route_backed lib s _ = True"

abbreviation routes_served :: "klib \<Rightarrow> (okey \<Rightarrow> kobj option) \<Rightarrow> bool" where
  "routes_served lib \<equiv> backed lib KToolRoute (route_backed lib)"

definition route_rely :: "okey set" where
  "route_rely = {k. fst k \<in> {KBackend, KHTTPRoute, KToolServer}
     \<or> fst k = KPolicy \<and> ends_with (snd (snd k)) ''-toolfilter''}"

lemma route_rely_kinds [simp]:
  "(KBackend, k) \<in> route_rely" "(KHTTPRoute, k) \<in> route_rely" "(KToolServer, k) \<in> route_rely"
  "(KPolicy, filter_policy_key tg route) \<in> route_rely" "(KToolRoute, k) \<notin> route_rely"
  using filter_in_area [of "m_Namespace (tr_Meta route)" tg route]
  by (simp_all add: route_rely_def route_area_def filter_policy_key_def)

lemma settled_cong:
  assumes "\<And>k. k \<in> route_keys tg route \<Longrightarrow> s' k = s k"
  shows "route_settled lib tg route up s' = route_settled lib tg route up s"
proof -
  have e: "s' (KBackend, route_object_key tg route) = s (KBackend, route_object_key tg route)"
    "s' (KHTTPRoute, route_object_key tg route) = s (KHTTPRoute, route_object_key tg route)"
    "s' (KPolicy, filter_policy_key tg route) = s (KPolicy, filter_policy_key tg route)"
    by (rule assms; simp add: route_keys_def)+
  show ?thesis unfolding route_settled_def policy_fixed_def e by (rule refl)
qed

lemma wanted_cong:
  assumes "\<And>k. s' (KToolServer, k) = s (KToolServer, k)"
  shows "upstream_wanted lib route s' up = upstream_wanted lib route s up"
  unfolding upstream_wanted_def assms by (rule refl)

lemma settled_reads: "(\<And>k. k \<in> route_rely \<Longrightarrow> s' k = s k) \<Longrightarrow> route_settled lib tg route up s' = route_settled lib tg route up s"
  by (rule settled_cong) (use route_rely_kinds in \<open>unfold route_keys_def, blast\<close>)

lemma wanted_reads: "(\<And>k. k \<in> route_rely \<Longrightarrow> s' k = s k) \<Longrightarrow> upstream_wanted lib route s' up = upstream_wanted lib route s up"
  by (rule wanted_cong) simp

lemma route_backed_reads: "reads route_rely (route_backed lib)"
  unfolding reads_def
proof (intro allI impI)
  fix s s' :: "okey \<Rightarrow> kobj option" and ob
  assume e: "\<forall>k \<in> route_rely. s' k = s k"
  have t: "route_settled lib tg route up s' = route_settled lib tg route up s" for tg route up by (rule settled_reads) (use e in blast)
  have w: "upstream_wanted lib route s' up = upstream_wanted lib route s up" for route up by (rule wanted_reads) (use e in blast)
  show "route_backed lib s' ob = route_backed lib s ob" by (cases ob) (simp_all add: t w)
qed

context gateway_operator
begin

abbreviation backend_fixed :: "tool_gateway \<Rightarrow> tool_route \<Rightarrow> string \<times> 32 word \<times> string \<Rightarrow> (okey \<Rightarrow> kobj option) \<Rightarrow> bool" where
  "backend_fixed tg route up \<equiv> fixed_at (KBackend, route_object_key tg route) (on_unstructured (backend_mutate (r_Lib r) route up))"

abbreviation http_fixed :: "tool_gateway \<Rightarrow> tool_route \<Rightarrow> (okey \<Rightarrow> kobj option) \<Rightarrow> bool" where
  "http_fixed tg route \<equiv>
     fixed_at (KHTTPRoute, route_object_key tg route) (on_http_route (http_route_mutate (r_Lib r) route tg (route_path route)))"

lemma route_settled_alt:
  "route_settled (r_Lib r) tg route up s = (backend_fixed tg route up s \<and> http_fixed tg route s \<and> policy_fixed (r_Lib r) tg route s)"
  unfolding route_settled_def fixed_at_kinds by blast

lemma backend_fixed_controller:
  assumes "backend_fixed tg route up s"
  obtains b where "s (KBackend, route_object_key tg route) = Some (OUnstructured b)"
    "controller_of (us_Meta b) = Some (KToolRoute, m_Name (tr_Meta route))"
  using assms set_controller_of backend_mutate_ok(1) unfolding fixed_at_kinds by blast

lemma backends_one_owner:
  assumes "backend_fixed tg route up s" "backend_fixed tg2 route2 up2 s" "route_object_key tg2 route2 = route_object_key tg route"
  shows "m_Name (tr_Meta route2) = m_Name (tr_Meta route)"
proof -
  obtain b b2 where "s (KBackend, route_object_key tg route) = Some (OUnstructured b)"
    "controller_of (us_Meta b) = Some (KToolRoute, m_Name (tr_Meta route))"
    "s (KBackend, route_object_key tg2 route2) = Some (OUnstructured b2)"
    "controller_of (us_Meta b2) = Some (KToolRoute, m_Name (tr_Meta route2))"
    using backend_fixed_controller [OF assms(1)] backend_fixed_controller [OF assms(2)] by metis
  with assms(3) show ?thesis by simp
qed

section \<open>The steps under interference\<close>

abbreviation route_known :: "tool_route \<Rightarrow> (okey \<Rightarrow> kobj option) \<Rightarrow> bool" where
  "route_known route \<equiv> known (r_Lib r) KToolRoute (route_backed (r_Lib r)) (OToolRoute route)"

text \<open>With the upstream that was found.\<close>

definition upstream_known :: "tool_route \<Rightarrow> string \<times> 32 word \<times> string \<Rightarrow> (okey \<Rightarrow> kobj option) \<Rightarrow> bool" where
  "upstream_known route up s = (route_known route s \<and> upstream_wanted (r_Lib r) route s up)"

abbreviation route_safe :: "'b prog \<Rightarrow> 'w \<Rightarrow> bool" where
  "route_safe prog w \<equiv> meets (r_Client r) at route_rely KToolRoute (routes_served (r_Lib r)) prog (\<lambda>_ _. True) w"

lemma route_key [simp]: "key_of (OToolRoute route) = (KToolRoute, meta_key (tr_Meta route))"
  by (simp add: key_of_def)

lemma served_stable: "stable route_rely KToolRoute (routes_served (r_Lib r))"
  by (rule backed_stable [OF route_backed_reads])

lemma route_known_stable: "stable route_rely KToolRoute (route_known route)"
  by (rule known_stable [OF route_backed_reads]) simp

lemma upstream_known_stable: "stable route_rely KToolRoute (upstream_known route up)"
  unfolding upstream_known_def by (intro stable_conj route_known_stable stable_reads wanted_reads)

lemma route_known_inv: "route_known route s \<Longrightarrow> routes_served (r_Lib r) s"
  "upstream_known route up s \<Longrightarrow> routes_served (r_Lib r) s"
  unfolding upstream_known_def using known_backed by blast+

text \<open>
  A change of one object of a route keeps the others' when it keeps the route's own and when the
  name it has is not taken by another route.
\<close>

lemma route_write_keeps:
  assumes k: "upstream_known route up (at w)" and names: "route_names route tg"
    and frame: "unchanged_outside {k} at w w'" "k \<in> route_keys tg route"
    and own: "route_settled (r_Lib r) tg route up (at w) \<Longrightarrow> route_settled (r_Lib r) tg route up (at w')"
    and foreign: "\<And>tg2 route2 up2. backend_fixed tg2 route2 up2 (at w) \<Longrightarrow> route_object_key tg2 route2 = route_object_key tg route \<Longrightarrow>
      m_Name (tr_Meta route2) \<noteq> m_Name (tr_Meta route) \<Longrightarrow> at w' = at w"
  shows "upstream_known route up (at w')"
proof -
  have up: "upstream_wanted (r_Lib r) route (at w) up" and known: "route_known route (at w)"
    using k by (simp_all add: upstream_known_def)
  have "at w' (KToolServer, j) = at w (KToolServer, j)" for j
    by (rule unchangedD [OF frame(1)]) (use frame(2) in auto)
  then have wanted: "upstream_wanted (r_Lib r) rt (at w') u = upstream_wanted (r_Lib r) rt (at w) u" for rt u by (rule wanted_cong)
  have apart: "route_settled (r_Lib r) tg2 rt u (at w')"
    if "route_settled (r_Lib r) tg2 rt u (at w)" "route_object_key tg2 rt \<noteq> route_object_key tg route" for tg2 rt u
  proof -
    have "j \<in> route_keys tg2 rt \<Longrightarrow> j \<noteq> k" for j using route_keys_meet frame(2) that(2) by metis
    with unchangedD [OF frame(1)] that(1) settled_cong [of tg2 rt "at w'" "at w"] show ?thesis by blast
  qed
  have "route_known route (at w')"
  proof (rule known_write [OF known frame(1)])
    show "fst k \<noteq> KToolRoute" using frame(2) other_kinds(1) by (metis prod.collapse)
    show "route_backed (r_Lib r) (at w') (OToolRoute route)" if b: "route_backed (r_Lib r) (at w) (OToolRoute route)"
    proof -
      obtain tg2 up2 where b: "route_names route tg2" "tr_Url route = route_url tg2 (route_path route)"
        "upstream_wanted (r_Lib r) route (at w) up2" "route_settled (r_Lib r) tg2 route up2 (at w)"
        using b by auto
      have "up2 = up" using wanted_unique b(3) up by blast
      have "route_settled (r_Lib r) tg2 route up2 (at w')"
      proof (cases "route_object_key tg2 route = route_object_key tg route")
        case False
        with apart b(4) show ?thesis by blast
      next
        case True
        then have "m_Name (tg_Meta tg2) = m_Name (tg_Meta tg)" by (simp add: route_object_key_def route_object_name_def)
        then have m: "meta_key (tg_Meta tg2) = meta_key (tg_Meta tg)"
          using names b(1) by (cases "tr_ToolGatewayRef route") (simp_all add: route_names_def meta_key_def)
        from own b(4) show ?thesis unfolding route_settled_name [OF m] \<open>up2 = up\<close> .
      qed
      with b(1-3) show ?thesis unfolding route_backed.simps wanted by blast
    qed
    show "route_backed (r_Lib r) (at w') b"
      if b: "at w (key_of b) = Some b" "route_backed (r_Lib r) (at w) b" "key_of b \<noteq> key_of (OToolRoute route)"
        "fst (key_of b) = KToolRoute" for b
    proof -
      obtain route2 where r2: "b = OToolRoute route2" using b(4) by (cases b) (simp_all add: key_of_def)
      obtain tg2 up2 where b2: "route_names route2 tg2" "tr_Url route2 = route_url tg2 (route_path route2)"
        "upstream_wanted (r_Lib r) route2 (at w) up2" "route_settled (r_Lib r) tg2 route2 up2 (at w)"
        using b(2) r2 by auto
      have "route_settled (r_Lib r) tg2 route2 up2 (at w')"
      proof (cases "route_object_key tg2 route2 = route_object_key tg route")
        case False
        with apart b2(4) show ?thesis by blast
      next
        case True
        then have other: "m_Name (tr_Meta route2) \<noteq> m_Name (tr_Meta route)"
          using b(3) by (simp add: r2 route_object_key_def meta_key_def)
        have "backend_fixed tg2 route2 up2 (at w)" using b2(4) by (simp add: route_settled_alt)
        from foreign [OF this True other] b2(4) show ?thesis by simp
      qed
      with b2(1-3) show ?thesis unfolding r2 route_backed.simps wanted by blast
    qed
  qed simp
  with up wanted show ?thesis by (simp add: upstream_known_def)
qed

lemma fixed_outside: "unchanged_outside {k} at w w' \<Longrightarrow> j \<noteq> k \<Longrightarrow> fixed_at j m (at w') = fixed_at j m (at w)"
  by (rule fixed_at_frame) (auto dest: unchangedD)

lemma policy_outside:
  "unchanged_outside {k} at w w' \<Longrightarrow> k \<noteq> (KPolicy, filter_policy_key tg route) \<Longrightarrow>
   policy_fixed lib tg route (at w') = policy_fixed lib tg route (at w)"
  by (rule policy_fixed_frame) (auto dest: unchangedD)

text \<open>The backend: when its name is taken, nothing is written.\<close>

lemma backend_call:
  assumes k: "upstream_known route up (at w)" and names: "route_names route tg" and key: "key_of ob = (KBackend, route_object_key tg route)"
    and c: "c_create_or_patch (r_Client r) ob (on_unstructured (backend_mutate (r_Lib r) route up)) w = (x, w')"
  shows "upstream_known route up (at w')"
proof (rule route_write_keeps [OF k names])
  note step = cop_fixed [OF backend_mutator c, unfolded key]
  show frame: "unchanged_outside {(KBackend, route_object_key tg route)} at w w'" by (rule step(3))
  show "route_settled (r_Lib r) tg route up (at w')" if "route_settled (r_Lib r) tg route up (at w)"
    using that step(2) fixed_outside [OF frame] policy_outside [OF frame] by (simp add: route_settled_alt)
  show "at w' = at w"
    if b: "backend_fixed tg2 route2 up2 (at w)" "route_object_key tg2 route2 = route_object_key tg route"
      and n: "m_Name (tr_Meta route2) \<noteq> m_Name (tr_Meta route)" for tg2 route2 up2
  proof -
    obtain b where b: "at w (KBackend, route_object_key tg route) = Some (OUnstructured b)"
      "controller_of (us_Meta b) = Some (KToolRoute, m_Name (tr_Meta route2))"
      using backend_fixed_controller [OF b(1)] b(2) by metis
    have "on_unstructured (backend_mutate (r_Lib r) route up) (OUnstructured b) \<noteq> Inr y" for y
      using set_controller_refused [of "us_Meta b" "(KToolRoute, m_Name (tr_Meta route2))" KToolRoute "tr_Meta route"] b(2) n
      by (auto simp: on_unstructured_def backend_mutate_def split: sum.split)
    from cop_refuses(1) [OF c _ this] b(1) have "at w' (KBackend, route_object_key tg route) = at w (KBackend, route_object_key tg route)"
      by (simp add: key)
    then show ?thesis using unchangedD [OF frame] by (intro ext) (metis singletonD)
  qed
qed (simp add: route_keys_def)

text \<open>The HTTPRoute and the policy: their names belong to whom the backend belongs.\<close>

lemma later_call:
  assumes k: "upstream_known route up (at w)" and names: "route_names route tg" and b: "backend_fixed tg route up (at w)"
    and frame: "unchanged_outside {k} at w w'" "k \<in> {(KHTTPRoute, route_object_key tg route), (KPolicy, filter_policy_key tg route)}"
    and own: "route_settled (r_Lib r) tg route up (at w) \<Longrightarrow> route_settled (r_Lib r) tg route up (at w')"
  shows "upstream_known route up (at w')" "backend_fixed tg route up (at w')"
proof -
  show "upstream_known route up (at w')"
    by (rule route_write_keeps [OF k names frame(1) _ own]) (use frame(2) backends_one_owner [OF b] in \<open>auto simp: route_keys_def\<close>)
  show "backend_fixed tg route up (at w')" using b fixed_outside [OF frame(1), of "(KBackend, route_object_key tg route)"] frame(2) by auto
qed

lemma http_call:
  assumes k: "upstream_known route up (at w)" and names: "route_names route tg" and b: "backend_fixed tg route up (at w)"
    and key: "key_of ob = (KHTTPRoute, route_object_key tg route)"
    and c: "c_create_or_patch (r_Client r) ob (on_http_route (http_route_mutate (r_Lib r) route tg (route_path route))) w = (x, w')"
  shows "upstream_known route up (at w')" "backend_fixed tg route up (at w')"
proof -
  note step = cop_fixed [OF http_route_mutator c, unfolded key]
  have "route_settled (r_Lib r) tg route up (at w')" if "route_settled (r_Lib r) tg route up (at w)"
    using that step(2) fixed_outside [OF step(3)] policy_outside [OF step(3)] by (simp add: route_settled_alt)
  from later_call [OF k names b step(3) _ this]
  show "upstream_known route up (at w')" "backend_fixed tg route up (at w')" by simp_all
qed

lemma policy_call:
  assumes k: "upstream_known route up (at w)" and names: "route_names route tg" and b: "backend_fixed tg route up (at w)"
    and frame: "unchanged_outside {(KPolicy, filter_policy_key tg route)} at w w'"
    and own: "policy_fixed (r_Lib r) tg route (at w) \<Longrightarrow> policy_fixed (r_Lib r) tg route (at w')"
  shows "upstream_known route up (at w')" "backend_fixed tg route up (at w')"
proof -
  have "route_settled (r_Lib r) tg route up (at w')" if "route_settled (r_Lib r) tg route up (at w)"
    using that own fixed_outside [OF frame] by (simp add: route_settled_alt)
  from later_call [OF k names b frame _ this]
  show "upstream_known route up (at w')" "backend_fixed tg route up (at w')" by simp_all
qed

text \<open>The status: Ready only with the objects of the route in place.\<close>

lemma meets_route_status:
  assumes F: "F (at w)" "stable route_rely KToolRoute F" "\<And>s. F s \<Longrightarrow> route_known route s"
    and n: "tr_Meta n = tr_Meta route" "observed (r_Lib r) (OToolRoute n)"
    and ready: "\<And>s. F s \<Longrightarrow> s (KToolRoute, meta_key (tr_Meta route)) = Some (OToolRoute route) \<Longrightarrow>
      ready_now (r_Lib r) (OToolRoute (merged_tr b n route)) \<Longrightarrow> route_backed (r_Lib r) s (OToolRoute (merged_tr b n route))"
    and rest: "\<And>v y. routes_served (r_Lib r) (at v) \<Longrightarrow> route_safe (f y) v"
  shows "route_safe (and_then (patch_route_prog b n) f) w"
proof -
  have m: "merge_status (OToolRoute b) (OToolRoute n) (OToolRoute route) = OToolRoute (merged_tr b n route)"
    by (simp add: merge_status_def merged_tr_def)
  show ?thesis
    unfolding patch_route_prog_def and_then.simps
    by (rule meets_status [OF F route_backed_reads _ _ _ n(2)]) (simp_all add: n(1) m ready rest del: route_backed.simps)
qed

lemma status_observed:
  "observed (r_Lib r) (OToolRoute (tr_not_ready (r_Lib r) route reason msg))"
  "observed (r_Lib r) (OToolRoute (tr_ready (r_Lib r) route u))"
  using found_ready by (fastforce simp: observed_def tr_not_ready_def tr_ready_def split: option.split)+

section \<open>A whole run\<close>

lemma served_return [intro]: "routes_served (r_Lib r) (at w) \<Longrightarrow> route_safe (Return (y :: goerror option)) w"
  by (rule meets_return [where F = "routes_served (r_Lib r)", OF _ served_stable]) simp_all

lemma route_not_ready_safe:
  assumes k: "route_known route (at w)"
  shows "route_safe (and_then (route_not_ready_prog (r_Lib r) route reason msg) (\<lambda>_. Return (y :: goerror option))) w"
  unfolding route_not_ready_prog_def
proof (rule meets_route_status [OF k route_known_stable _ _ status_observed(1)])
  let ?n = "tr_not_ready (r_Lib r) route reason msg"
  fix s
  assume s: "route_known route s" "s (KToolRoute, meta_key (tr_Meta route)) = Some (OToolRoute route)"
    and now: "ready_now (r_Lib r) (OToolRoute (merged_tr route ?n route))"
  have cs: "tr_Conditions (merged_tr route ?n route) = tr_Conditions route"
    using now found_ready
    by (fastforce simp: ready_now_def merged_tr_def patch_field_def tr_not_ready_def ConditionTrue_def ConditionFalse_def
        split: if_splits option.splits)
  have "merged_tr route ?n route = route\<lparr>tr_Url := tr_Url route, tr_Conditions := tr_Conditions route\<rparr>"
    using cs by (simp add: merged_tr_def patch_field_def tr_not_ready_def split: if_splits)
  then have same: "merged_tr route ?n route = route" by simp
  show "route_backed (r_Lib r) s (OToolRoute (merged_tr route ?n route))"
    using backedD(2) [OF known_backed [OF s(1)] s(2)] now unfolding same .
qed (simp_all only: served_return, simp_all add: tr_not_ready_def)

lemma route_ready_safe:
  assumes k: "upstream_known route up (at w)" and s: "route_settled (r_Lib r) tg route up (at w)" and names: "route_names route tg"
  shows "route_safe (route_ready_prog (r_Lib r) (r_Recorder r) route tg (route_path route)) w"
  unfolding route_ready_prog_def Let_def
proof (rule meets_route_status [where F = "\<lambda>s. upstream_known route up s \<and> route_settled (r_Lib r) tg route up s",
      OF _ _ _ _ status_observed(2)])
  let ?n = "tr_ready (r_Lib r) route (route_url tg (route_path route))"
  show "stable route_rely KToolRoute (\<lambda>s. upstream_known route up s \<and> route_settled (r_Lib r) tg route up s)"
    by (intro stable_conj upstream_known_stable stable_reads settled_reads)
  show "route_backed (r_Lib r) s (OToolRoute (merged_tr route ?n route))"
    if "upstream_known route up s \<and> route_settled (r_Lib r) tg route up s" for s
  proof -
    let ?m = "merged_tr route ?n route"
    have fields: "tr_Meta ?m = tr_Meta route" "tr_ToolGatewayRef ?m = tr_ToolGatewayRef route" "tr_ToolServerRef ?m = tr_ToolServerRef route"
      "tr_External ?m = tr_External route" "tr_ToolFilter ?m = tr_ToolFilter route"
      by (simp_all add: merged_tr_def)
    note same = same_tr [OF fields]
    have "route_names ?m tg = route_names route tg"
      by (simp add: route_names_def gateway_ref_key_def fields split: option.split)
    moreover have "tr_Url ?m = route_url tg (route_path route)" by (simp add: merged_tr_def patch_field_def tr_ready_def)
    ultimately show ?thesis using that names unfolding upstream_known_def route_backed.simps same by blast
  qed
  show "upstream_known route up s \<and> route_settled (r_Lib r) tg route up s \<Longrightarrow> route_known route s" for s
    by (simp add: upstream_known_def)
  fix v y
  assume inv: "routes_served (r_Lib r) (at v)"
  let ?ready = "is_condition_true (r_Lib r) (tr_Conditions route) readyConditionType"
  let ?event = "and_then (if ?ready then Return () else emit_prog (r_Recorder r) (route_key route) ''Ready'' ''Reconciled''
      (''ToolRoute ready at '' @ route_url tg (route_path route))) (\<lambda>_. Return (None :: goerror option))"
  have "route_safe ?event v"
  proof (cases ?ready)
    case True
    show ?thesis unfolding if_P [OF True] and_then.simps by (rule served_return [OF inv])
  next
    case False
    show ?thesis
      unfolding if_not_P [OF False] by (rule meets_then_emit [OF inv served_stable]) (assumption, rule served_return)
  qed
  with served_return [OF inv, of y] show "route_safe (case y of Some e \<Rightarrow> Return (Some e) | None \<Rightarrow> ?event) v" by (cases y) simp_all
qed (use k s in \<open>simp_all add: tr_ready_def\<close>)

lemma meets_upstream:
  assumes F: "F (at w)" "stable route_rely KToolRoute F" "\<And>s. F s \<Longrightarrow> routes_served (r_Lib r) s"
    and rest: "\<And>v y. F (at v) \<Longrightarrow> (\<And>up. y = Inr up \<Longrightarrow> upstream_wanted (r_Lib r) route (at v) up) \<Longrightarrow> route_safe (f y) v"
  shows "route_safe (and_then (resolveRouteUpstream_prog (r_Lib r) route) f) w"
proof -
  have rest: "route_safe (f (resolveRouteUpstream (r_Lib r) (r_Client r) route v)) v" if "F (at v)" for v
    using rest [OF that, of "resolveRouteUpstream (r_Lib r) (r_Client r) route v"] resolve_wanted by blast
  show ?thesis
  proof (cases "tr_ToolServerRef route")
    case None
    with rest [OF F(1)] show ?thesis by (simp add: resolveRouteUpstream_prog_def resolveRouteUpstream_def)
  next
    case (Some ref)
    show ?thesis
      unfolding resolveRouteUpstream_prog_def Some option.case Let_def and_then_assoc and_then.simps
      by (rule meets_get [OF F]) (assumption, use rest in \<open>simp add: resolveRouteUpstream_def Some Let_def\<close>)
  qed
qed

definition gateway_named :: "tool_route \<Rightarrow> nsname \<Rightarrow> bool" where
  "gateway_named route gk =
     (case tr_ToolGatewayRef route of Some ref \<Rightarrow> gk = gateway_ref_key route ref | None \<Rightarrow> fst gk = defaultToolGatewayNamespace)"

lemma meets_gateway_key:
  assumes F: "F (at w)" "stable route_rely KToolRoute F" "\<And>s. F s \<Longrightarrow> routes_served (r_Lib r) s"
    and rest: "\<And>v y. F (at v) \<Longrightarrow> (\<And>gk. y = Inr gk \<Longrightarrow> gateway_named route gk) \<Longrightarrow> route_safe (f y) v"
  shows "route_safe (and_then (resolveToolGatewayKey_prog route) f) w"
proof -
  have rest: "route_safe (f (resolveToolGatewayKey (r_Client r) route v)) v" if "F (at v)" for v
    using rest [OF that, of "resolveToolGatewayKey (r_Client r) route v"] resolve_default [of route v] resolve_ref [of route _ v]
    by (fastforce simp: gateway_named_def split: option.splits)
  show ?thesis
  proof (cases "tr_ToolGatewayRef route")
    case (Some ref)
    with rest [OF F(1)] show ?thesis by (simp add: resolveToolGatewayKey_prog_def resolveToolGatewayKey_def)
  next
    case None
    show ?thesis
      unfolding resolveToolGatewayKey_prog_def None option.case and_then_assoc and_then.simps
      by (rule meets_list [OF F]) (assumption, use rest in \<open>simp add: resolveToolGatewayKey_def None\<close>)
  qed
qed

text \<open>The three objects, one after the other.\<close>

text \<open>What the last step starts from: the backend and the HTTPRoute are in place.\<close>

abbreviation wired :: "tool_gateway \<Rightarrow> tool_route \<Rightarrow> string \<times> 32 word \<times> string \<Rightarrow> (okey \<Rightarrow> kobj option) \<Rightarrow> bool" where
  "wired tg route up \<equiv> \<lambda>s. upstream_known route up s \<and> backend_fixed tg route up s \<and> http_fixed tg route s"

lemma wired_kept:
  assumes names: "route_names route tg" and v: "wired tg route up (at v)"
    and frame: "unchanged_outside {(KPolicy, filter_policy_key tg route)} at v v'"
    and own: "policy_fixed (r_Lib r) tg route (at v) \<Longrightarrow> policy_fixed (r_Lib r) tg route (at v')"
  shows "wired tg route up (at v')"
proof -
  have "upstream_known route up (at v')" "backend_fixed tg route up (at v')"
    using policy_call [OF _ names _ frame own] v by blast+
  moreover have "http_fixed tg route (at v')" using v fixed_outside [OF frame, of "(KHTTPRoute, route_object_key tg route)"] by simp
  ultimately show ?thesis by blast
qed

lemma wired_settled: "wired tg route up s \<Longrightarrow> policy_fixed (r_Lib r) tg route s \<Longrightarrow> route_settled (r_Lib r) tg route up s"
  by (simp add: route_settled_alt)

lemma wired_stable: "stable route_rely KToolRoute (wired tg route up)"
  by (intro stable_conj upstream_known_stable fixed_at_reads) simp_all

lemma wired_inv: "wired tg route up s \<Longrightarrow> routes_served (r_Lib r) s"
  using route_known_inv by blast

lemmas wired_facts = wired_stable wired_inv

text \<open>After the delete of a policy that the route does not need.\<close>

lemma policy_deleted_safe:
  assumes none: "buildMcpAuthorizationRules (tr_ToolFilter route) = []" and v: "wired tg route up (at v')"
    and d: "c_delete (r_Client r) (KPolicy, filter_policy_key tg route) v = (x, v')"
    and fail: "\<And>v e. upstream_known route up (at v) \<Longrightarrow> route_safe (f (Some e)) v"
    and ok: "\<And>v. upstream_known route up (at v) \<Longrightarrow> route_settled (r_Lib r) tg route up (at v) \<Longrightarrow> route_safe (f None) v"
  shows "route_safe (and_then (case x of
       None \<Rightarrow>
         and_then (emit_prog (r_Recorder r) (route_key route) ''PolicyDeleted'' ''DeletePolicy''
                     (''Deleted AgentgatewayPolicy '' @ filter_policy_name tg route @ '' (tool filter cleared)'')) (\<lambda>_. Return None)
     | Some e \<Rightarrow>
         if is_not_found e then Return None
         else Return (Some (Wrapf ''failed to delete stale tool-filter policy: '' e []))) f) v'"
proof -
  have settled: "route_settled (r_Lib r) tg route up (at v')" if "case x of None \<Rightarrow> True | Some e \<Rightarrow> is_not_found e"
    by (rule wired_settled [OF v]) (use delete_gone [OF d that] none in \<open>simp add: policy_fixed_def\<close>)
  show ?thesis
  proof (cases x)
    case None
    have "stable route_rely KToolRoute (\<lambda>s. upstream_known route up s \<and> route_settled (r_Lib r) tg route up s)"
      by (intro stable_conj upstream_known_stable stable_reads settled_reads)
    note emit = meets_then_emit [OF _ this]
    show ?thesis
      unfolding None option.case and_then_assoc and_then.simps
      by (rule emit) (use v settled None route_known_inv ok in \<open>simp, blast+\<close>)
  next
    case (Some e)
    then show ?thesis using settled ok fail v by (cases "is_not_found e") simp_all
  qed
qed

lemma policy_safe:
  assumes k: "upstream_known route up (at w)" "backend_fixed tg route up (at w)" "http_fixed tg route (at w)"
    and names: "route_names route tg"
    and fail: "\<And>v e. upstream_known route up (at v) \<Longrightarrow> route_safe (f (Some e)) v"
    and ok: "\<And>v. upstream_known route up (at v) \<Longrightarrow> route_settled (r_Lib r) tg route up (at v) \<Longrightarrow> route_safe (f None) v"
  shows "route_safe (and_then (ensurePolicy_prog (r_Lib r) (r_Recorder r) route tg) f) w"
proof -
  let ?rules = "buildMcpAuthorizationRules (tr_ToolFilter route)"
  let ?ob = "OUnstructured (newAgentgatewayPolicy (filter_policy_name tg route) (m_Namespace (tr_Meta route)))"
  let ?m = "on_unstructured (filter_policy_mutate (r_Lib r) route tg ?rules)"
  have F: "wired tg route up (at w)" using k by simp
  have key: "key_of ?ob = (KPolicy, filter_policy_key tg route)" by (simp add: filter_policy_key_def)
  show ?thesis
  proof (cases "?rules = []")
    case True
    show ?thesis
      unfolding ensurePolicy_prog_def Let_def if_P [OF True] and_then.simps key
    proof (rule meets_delete [OF F wired_facts], assumption)
      fix v x v'
      assume v: "wired tg route up (at v)" and d: "c_delete (r_Client r) (KPolicy, filter_policy_key tg route) v = (x, v')"
      have "wired tg route up (at v')"
        by (rule wired_kept [OF names v delete_unchanged [OF d]]) (use delete_absent(2) [OF d] True in \<open>simp_all add: policy_fixed_def\<close>)
      from policy_deleted_safe [OF True this d fail ok]
      show "route_safe (and_then (case x of
             None \<Rightarrow>
               and_then (emit_prog (r_Recorder r) (route_key route) ''PolicyDeleted'' ''DeletePolicy''
                           (''Deleted AgentgatewayPolicy '' @ filter_policy_name tg route @ '' (tool filter cleared)'')) (\<lambda>_. Return None)
           | Some e \<Rightarrow>
               if is_not_found e then Return None
               else Return (Some (Wrapf ''failed to delete stale tool-filter policy: '' e []))) f) v'" .
    qed
  next
    case False
    have fixed: "policy_fixed (r_Lib r) tg route s = fixed_at (KPolicy, filter_policy_key tg route) ?m s" for s
      unfolding fixed_at_kinds by (simp add: policy_fixed_def Let_def False)
    show ?thesis
      unfolding ensurePolicy_prog_def Let_def if_not_P [OF False]
    proof (rule meets_ensure [where F = "wired tg route up", OF F wired_facts filter_policy_mutator], goal_cases)
      case (3 v x v')
      note step = cop_fixed [OF filter_policy_mutator 3(2), unfolded key]
      show ?case by (rule wired_kept [OF names 3(1) step(3)]) (use step(2) in \<open>simp add: fixed\<close>)
    next
      case (4 v)
      then have "route_settled (r_Lib r) tg route up (at v)" unfolding key by (simp add: route_settled_alt fixed)
      with 4(1) ok show ?case by blast
    next
      case (5 v e)
      with fail show ?case by blast
    qed (assumption, simp only: key, rule route_rely_kinds)
  qed
qed

text \<open>The two steps before it, and the upstream they start from.\<close>

lemma http_safe:
  assumes v: "upstream_known route up (at v) \<and> backend_fixed tg route up (at v)" and names: "route_names route tg"
    and fail: "\<And>v path reason e. upstream_known route up (at v) \<Longrightarrow> route_safe (f (path, reason, Some e)) v"
    and ok: "\<And>v. upstream_known route up (at v) \<Longrightarrow> route_settled (r_Lib r) tg route up (at v) \<Longrightarrow>
      route_safe (f (route_path route, [], None)) v"
  shows "route_safe (and_then (ensureHTTPRoute_prog (r_Lib r) (r_Recorder r) route tg (route_path route)) (\<lambda>x. and_then (case x of
      Some e \<Rightarrow> Return ([], reasonToolRouteHTTPRouteFailed, Some e)
    | None \<Rightarrow> and_then (ensurePolicy_prog (r_Lib r) (r_Recorder r) route tg) (\<lambda>x. Return (case x of
        Some e \<Rightarrow> ([], reasonToolRoutePolicyFailed, Some e)
      | None \<Rightarrow> (route_path route, [], None)))) f)) v"
  unfolding ensureHTTPRoute_prog_def
proof (rule meets_ensure [where F = "\<lambda>s. upstream_known route up s \<and> backend_fixed tg route up s", OF v], goal_cases)
  case 1
  show ?case by (intro stable_conj upstream_known_stable fixed_at_reads) simp
next
  case (5 v x v')
  have "key_of (OHTTPRoute \<lparr>hr_Meta = new_meta (route_object_name tg route) (m_Namespace (tr_Meta route)), hr_Spec = empty_http_route_spec\<rparr>)
      = (KHTTPRoute, route_object_key tg route)" by (simp add: typed_keys meta_key_def route_object_key_def new_meta_def)
  from http_call [OF _ names _ this 5(2)] 5(1) show ?case by blast
next
  case (6 v)
  then have h: "http_fixed tg route (at v)" by (simp add: typed_keys meta_key_def route_object_key_def new_meta_def)
  show ?case
    unfolding option.case and_then_assoc and_then.simps
    by (rule policy_safe [where up = up, OF _ _ h names]) (use 6(1) fail ok in \<open>simp_all only: option.case\<close>)
next
  case (7 v e)
  with fail show ?case unfolding option.case and_then.simps by blast
qed (use http_route_mutator route_known_inv(2) [of route up] in \<open>auto simp: typed_keys\<close>)

lemma backend_safe:
  assumes v: "upstream_known route up (at v)" and names: "route_names route tg"
    and fail: "\<And>v path reason e. upstream_known route up (at v) \<Longrightarrow> route_safe (f (path, reason, Some e)) v"
    and ok: "\<And>v. upstream_known route up (at v) \<Longrightarrow> route_settled (r_Lib r) tg route up (at v) \<Longrightarrow>
      route_safe (f (route_path route, [], None)) v"
  shows "route_safe (and_then (ensureBackend_prog (r_Lib r) (r_Recorder r) route tg up) (\<lambda>x. and_then (case x of
         Some e \<Rightarrow> Return ([], reasonToolRouteBackendFailed, Some e)
       | None \<Rightarrow> and_then (ensureHTTPRoute_prog (r_Lib r) (r_Recorder r) route tg (route_path route)) (\<lambda>x. case x of
           Some e \<Rightarrow> Return ([], reasonToolRouteHTTPRouteFailed, Some e)
         | None \<Rightarrow> and_then (ensurePolicy_prog (r_Lib r) (r_Recorder r) route tg) (\<lambda>x. Return (case x of
             Some e \<Rightarrow> ([], reasonToolRoutePolicyFailed, Some e)
           | None \<Rightarrow> (route_path route, [], None))))) f)) v"
  unfolding ensureBackend_prog_def
proof (rule meets_ensure [where F = "upstream_known route up", OF v upstream_known_stable _ backend_mutator], goal_cases)
  case (3 v x v')
  then show ?case using backend_call [OF _ names _ 3(2)] by (simp add: route_object_key_def)
next
  case (4 v)
  then show ?case using http_safe [where v = v and f = f, OF _ names fail ok] by (simp add: route_object_key_def)
next
  case (5 v e)
  with fail show ?case unfolding option.case and_then.simps by blast
qed (use route_known_inv in simp_all)

lemma reconcileToolRoute_safe:
  assumes k: "route_known route (at w)" and names: "route_names route tg"
    and fail: "\<And>v path reason e. route_known route (at v) \<Longrightarrow> route_safe (f (path, reason, Some e)) v"
    and ok: "\<And>v up. upstream_known route up (at v) \<Longrightarrow> route_settled (r_Lib r) tg route up (at v) \<Longrightarrow>
      route_safe (f (route_path route, [], None)) v"
  shows "route_safe (and_then (reconcileToolRoute_prog (r_Lib r) (r_Recorder r) route tg) f) w"
  unfolding reconcileToolRoute_prog_def and_then_assoc
proof (rule meets_upstream [OF k route_known_stable route_known_inv(1)], assumption)
  fix v and y :: "goerror + string \<times> 32 word \<times> string"
  assume v: "route_known route (at v)" and up: "\<And>up. y = Inr up \<Longrightarrow> upstream_wanted (r_Lib r) route (at v) up"
  show "route_safe (and_then (case y of
     Inl e \<Rightarrow> Return ([], reasonToolRouteUpstreamUnresolved, Some e)
   | Inr up \<Rightarrow> and_then (ensureBackend_prog (r_Lib r) (r_Recorder r) route tg up) (\<lambda>x. case x of
       Some e \<Rightarrow> Return ([], reasonToolRouteBackendFailed, Some e)
     | None \<Rightarrow> and_then (ensureHTTPRoute_prog (r_Lib r) (r_Recorder r) route tg (route_path route)) (\<lambda>x. case x of
         Some e \<Rightarrow> Return ([], reasonToolRouteHTTPRouteFailed, Some e)
       | None \<Rightarrow> and_then (ensurePolicy_prog (r_Lib r) (r_Recorder r) route tg) (\<lambda>x. Return (case x of
           Some e \<Rightarrow> ([], reasonToolRoutePolicyFailed, Some e)
         | None \<Rightarrow> (route_path route, [], None)))))) f) v"
  proof (cases y)
    case (Inl e)
    with fail [OF v] show ?thesis by simp
  next
    case (Inr u)
    with v up have u: "upstream_known route u (at v)" by (simp add: upstream_known_def)
    have failed: "route_safe (f (path, reason, Some e)) v'" if "upstream_known route u (at v')" for v' path reason e
      using fail that by (simp add: upstream_known_def)
    show ?thesis
      unfolding Inr sum.case and_then_assoc by (rule backend_safe [OF u names]) (fact failed, fact ok)
  qed
qed

text \<open>The phases of a run, from its end to its start.\<close>

lemma owned_route_safe:
  assumes k: "route_known route (at w)" and names: "route_names route tg"
  shows "route_safe (and_then (owned_prog tg) (\<lambda>x. case x of
             Inl e \<Rightarrow> Return (Some e)
           | Inr False \<Rightarrow> Return None
           | Inr True \<Rightarrow> and_then (reconcileToolRoute_prog (r_Lib r) (r_Recorder r) route tg) (\<lambda>(routePath, reason, err). case err of
               Some e \<Rightarrow> and_then (route_not_ready_prog (r_Lib r) route reason (error_text e)) (\<lambda>statusErr. Return (Some e))
             | None \<Rightarrow> route_ready_prog (r_Lib r) (r_Recorder r) route tg routePath))) w"
proof (rule meets_owned [OF k route_known_stable route_known_inv(1)], assumption)
  fix v and y :: "goerror + bool"
  assume v: "route_known route (at v)"
  have stop: "route_safe (Return (z :: goerror option)) v" for z
    by (rule meets_return [OF v route_known_stable]) (simp add: route_known_inv)
  have run: "route_safe (and_then (reconcileToolRoute_prog (r_Lib r) (r_Recorder r) route tg) (\<lambda>(routePath, reason, err). case err of
               Some e \<Rightarrow> and_then (route_not_ready_prog (r_Lib r) route reason (error_text e)) (\<lambda>statusErr. Return (Some e))
             | None \<Rightarrow> route_ready_prog (r_Lib r) (r_Recorder r) route tg routePath)) v"
    by (rule reconcileToolRoute_safe [OF v names])
      (unfold prod.case option.case, (rule route_not_ready_safe, assumption | rule route_ready_safe [OF _ _ names]; assumption)+)
  show "route_safe (case y of
             Inl e \<Rightarrow> Return (Some e)
           | Inr False \<Rightarrow> Return None
           | Inr True \<Rightarrow> and_then (reconcileToolRoute_prog (r_Lib r) (r_Recorder r) route tg) (\<lambda>(routePath, reason, err). case err of
               Some e \<Rightarrow> and_then (route_not_ready_prog (r_Lib r) route reason (error_text e)) (\<lambda>statusErr. Return (Some e))
             | None \<Rightarrow> route_ready_prog (r_Lib r) (r_Recorder r) route tg routePath)) v"
    by (cases y; (rename_tac z, case_tac z)?) (simp_all only: sum.case bool.case run stop)
qed

lemma gateway_of_route_safe:
  assumes k: "route_known route (at w)" and named: "gateway_named route gk"
    and rest: "\<And>v tg. route_known route (at v) \<Longrightarrow> route_names route tg \<Longrightarrow> route_safe (f tg) v"
  shows "route_safe (and_then (get_prog as_tool_gateway (KToolGateway, gk)) (\<lambda>x. case x of
           Inl e \<Rightarrow>
             if \<not> is_not_found e then Return (Some e)
             else and_then (route_not_ready_prog (r_Lib r) route reasonToolRouteGatewayNotFound
                              (''ToolGateway '' @ fst gk @ ''/'' @ snd gk @ '' not found'')) (\<lambda>statusErr. Return None)
         | Inr tg \<Rightarrow> f tg)) w"
proof (rule meets_get [OF k route_known_stable route_known_inv(1)], assumption)
  fix v
  assume v: "route_known route (at v)"
  let ?g = "get_as as_tool_gateway (r_Client r) (KToolGateway, gk) v"
  have stop: "route_safe (Return (z :: goerror option)) v" for z
    by (rule meets_return [OF v route_known_stable]) (simp add: route_known_inv)
  show "route_safe (case ?g of
           Inl e \<Rightarrow>
             if \<not> is_not_found e then Return (Some e)
             else and_then (route_not_ready_prog (r_Lib r) route reasonToolRouteGatewayNotFound
                              (''ToolGateway '' @ fst gk @ ''/'' @ snd gk @ '' not found'')) (\<lambda>statusErr. Return None)
         | Inr tg \<Rightarrow> f tg) v"
  proof (cases ?g)
    case (Inl e)
    then show ?thesis by (cases "is_not_found e") (simp_all only: sum.case simp_thms if_True if_False stop route_not_ready_safe [OF v])
  next
    case (Inr tg)
    from get_as_some(2) [OF Inr as_tool_gateway_iff] have "meta_key (tg_Meta tg) = gk" by (simp add: key_of_def)
    then have "route_names route tg"
      using named by (auto simp: gateway_named_def route_names_def meta_key_def split: option.splits)
    from rest [OF v this] show ?thesis unfolding Inr sum.case .
  qed
qed

lemma ToolRoute_safe:
  assumes "routes_served (r_Lib r) (at w)"
  shows "route_safe (ToolRoute_Reconcile_prog (r_Lib r) (r_Recorder r) req) w"
  unfolding ToolRoute_Reconcile_prog_def
proof (intro meets_get [OF assms served_stable], goal_cases)
  case (2 v)
  show ?case
  proof (cases "get_as as_tool_route (r_Client r) (KToolRoute, req) v")
    case (Inl e)
    show ?thesis unfolding Inl sum.case by (rule meets_return [OF 2 served_stable]) simp
  next
    case (Inr route)
    from get_as_some(1) [OF Inr as_tool_route_iff] 2 have k: "route_known route (at v)" by (intro known_read)
    show ?thesis
      unfolding Inr sum.case
    proof (rule meets_gateway_key [OF k route_known_stable route_known_inv(1)], assumption, goal_cases)
      case (1 v y)
      have stop: "route_safe (Return (z :: goerror option)) v" for z
        by (rule meets_return [OF 1(1) route_known_stable]) (simp add: route_known_inv)
      show ?case
      proof (cases y)
        case (Inl e)
        show ?thesis
          unfolding Inl sum.case
          by (cases "errors_is e errNoDefaultToolGateway") (simp_all only: if_True if_False stop route_not_ready_safe [OF 1(1)])
      next
        case (Inr gk)
        show ?thesis
          unfolding Inr sum.case
          by (rule gateway_of_route_safe [OF 1(1) 1(2) [OF Inr]]) (rule owned_route_safe; assumption)
      qed
    qed
  qed
qed simp

end

end
