(* ===== verification/Workers.thy ===== *)
theory Workers
  imports GuardInterference GatewayInterference RouteInterference
begin

text \<open>
  The three controllers at work at the same time.  The manager gives each controller one worker;
  a worker makes one API call at a time, and the calls of the three workers and of other clients
  interleave in any order.  A worker that has finished may start a run on any request, and the
  process may be restarted at any moment, which leaves the runs where they are.
\<close>

section \<open>The pool of workers\<close>

datatype worker = GuardWorker | GatewayWorker | RouteWorker

record 'w pool =
  po_World :: 'w
  po_Runs :: "worker \<Rightarrow> goerror option prog"

fun client_of :: "'w reconciler \<Rightarrow> 'w guard_reconciler \<Rightarrow> worker \<Rightarrow> 'w client" where
  "client_of r gr GuardWorker = r_Client gr"
| "client_of r gr GatewayWorker = r_Client r"
| "client_of r gr RouteWorker = r_Client r"

fun run_of :: "'w reconciler \<Rightarrow> 'w guard_reconciler \<Rightarrow> worker \<Rightarrow> nsname \<Rightarrow> goerror option prog" where
  "run_of r gr GuardWorker req = Guard_Reconcile_prog (r_Lib gr) (r_AdapterImage gr) req"
| "run_of r gr GatewayWorker req = ToolGateway_Reconcile_prog (r_Lib r) (r_Recorder r) req"
| "run_of r gr RouteWorker req = ToolRoute_Reconcile_prog (r_Lib r) (r_Recorder r) req"

inductive pool_step ::
  "'w reconciler \<Rightarrow> 'w guard_reconciler \<Rightarrow> ('w \<Rightarrow> 'w \<Rightarrow> bool) \<Rightarrow> 'w pool \<Rightarrow> 'w pool \<Rightarrow> bool" for r gr E where
  call: "\<not> finished (po_Runs p a) \<Longrightarrow> next_call (client_of r gr a) (po_Runs p a) (po_World p) = (q, w) \<Longrightarrow>
    pool_step r gr E p \<lparr>po_World = w, po_Runs = (po_Runs p)(a := q)\<rparr>"
| start: "finished (po_Runs p a) \<Longrightarrow> pool_step r gr E p (p\<lparr>po_Runs := (po_Runs p)(a := run_of r gr a req)\<rparr>)"
| restart: "pool_step r gr E p (p\<lparr>po_Runs := \<lambda>_. Return None\<rparr>)"
| other: "E (po_World p) w \<Longrightarrow> pool_step r gr E p (p\<lparr>po_World := w\<rparr>)"

inductive_cases pool_stepE: "pool_step r gr E p p'"

definition pool_idle :: "'w pool \<Rightarrow> bool" where
  "pool_idle p = (finished (po_Runs p GuardWorker) \<and> finished (po_Runs p GatewayWorker) \<and> finished (po_Runs p RouteWorker))"

lemma idle_all: "pool_idle p \<Longrightarrow> finished (po_Runs p a)"
  by (cases a) (simp_all add: pool_idle_def)

section \<open>Who writes what\<close>

fun worker_area :: "worker \<Rightarrow> okey set" where
  "worker_area GuardWorker = guard_area"
| "worker_area GatewayWorker = gateway_area"
| "worker_area RouteWorker = route_area"

lemma worker_areas_disjoint: "a \<noteq> b \<Longrightarrow> worker_area a \<inter> worker_area b = {}"
  using areas_disjoint by (cases a; cases b) (simp_all add: Int_commute)

text \<open>The kinds that only users write.\<close>

lemma no_inputs: "worker_area b \<inter> {k. fst k = KGuardrailProvider} = {}" "worker_area b \<inter> {k. fst k = KToolServer} = {}"
  by (cases b; auto simp: guard_area_def gateway_area_def route_area_def KParameters_def KPolicy_def KBackend_def)+

lemma run_writes: "writes_in (worker_area a) (run_of r gr a req)"
  by (cases a) (simp_all add: Guard_writes ToolGateway_writes ToolRoute_writes)

lemma finished_writes: "finished p \<Longrightarrow> writes_in K p"
  by (cases p) (simp_all add: finished_def)

definition writes_own :: "'w pool \<Rightarrow> bool" where
  "writes_own p = (\<forall>a. writes_in (worker_area a) (po_Runs p a))"

lemma writes_own_step: "pool_step r gr E p p' \<Longrightarrow> writes_own p \<Longrightarrow> writes_own p'"
proof (induction rule: pool_step.induct)
  case (call p a q w)
  then show ?case using writes_next by (fastforce simp: writes_own_def)
qed (auto simp: writes_own_def run_writes)

lemma writes_own_reachable:
  assumes "(pool_step r gr E)\<^sup>*\<^sup>* p p'" "pool_idle p"
  shows "writes_own p'"
  using assms
proof (induction rule: rtranclp_induct)
  case base
  then show ?case by (simp add: writes_own_def idle_all finished_writes)
qed (simp add: writes_own_step)

section \<open>Uninterrupted runs\<close>

text \<open>The whole runs of the sequential model are among the executions of the pool.\<close>

lemma pool_run:
  "(pool_step r gr E)\<^sup>*\<^sup>* p
     \<lparr>po_World = snd (run (client_of r gr a) (po_Runs p a) (po_World p)),
      po_Runs = (po_Runs p)(a := Return (fst (run (client_of r gr a) (po_Runs p a) (po_World p))))\<rparr>"
  if "within (po_Runs p a) n"
  using that
proof (induction n arbitrary: p)
  case 0
  then obtain x where "po_Runs p a = Return x" by (cases "po_Runs p a") auto
  then show ?case by (cases p) (simp add: fun_upd_idem)
next
  case (Suc n)
  show ?case
  proof (cases "finished (po_Runs p a)")
    case True
    then obtain x where "po_Runs p a = Return x" by (cases "po_Runs p a") (simp_all add: finished_def)
    then show ?thesis by (cases p) (simp add: fun_upd_idem)
  next
    case False
    obtain q w where n: "next_call (client_of r gr a) (po_Runs p a) (po_World p) = (q, w)" by fastforce
    let ?p = "\<lparr>po_World = w, po_Runs = (po_Runs p)(a := q)\<rparr>"
    have "within (po_Runs ?p a) n" using within_next [OF Suc.prems False n] by simp
    from Suc.IH [OF this] call [OF False n] show ?thesis
      unfolding run_next [of "client_of r gr a" "po_Runs p a"] n by (auto intro: converse_rtranclp_into_rtranclp cong: if_cong)
  qed
qed

fun call_bound :: "worker \<Rightarrow> nat" where
  "call_bound GuardWorker = 6"
| "call_bound GatewayWorker = 10"
| "call_bound RouteWorker = 13"

lemma run_of_within: "within (run_of r gr a req) (call_bound a)"
  using guard_within gateway_within route_within by (cases a) simp_all

lemma within_none: "within p 0 = finished p"
  by (cases p) (simp_all add: finished_def)

lemma pool_reconcile:
  assumes "finished (po_Runs p a)" and "run (client_of r gr a) (run_of r gr a req) (po_World p) = (x, w)"
  shows "(pool_step r gr E)\<^sup>*\<^sup>* p \<lparr>po_World = w, po_Runs = (po_Runs p)(a := Return x)\<rparr>"
proof -
  let ?p = "p\<lparr>po_Runs := (po_Runs p)(a := run_of r gr a req)\<rparr>"
  have "(pool_step r gr E)\<^sup>*\<^sup>* ?p \<lparr>po_World = w, po_Runs = (po_Runs p)(a := Return x)\<rparr>"
    using pool_run [of ?p a "call_bound a" r gr E] run_of_within [of r gr a req] assms(2) by simp
  with start [OF assms(1)] show ?thesis by (rule converse_rtranclp_into_rtranclp)
qed

text \<open>The calls of an uninterrupted run.\<close>

lemma makes_run: "\<exists>n. makes cl E n p w (Return (fst (run cl p w))) (snd (run cl p w))"
proof -
  have "makes cl E m p v q w \<Longrightarrow> \<exists>n. makes cl E n p v (Return (fst (run cl q w))) (snd (run cl q w))" for m p v q w
  proof (induction q arbitrary: m w)
    case (Return a)
    then show ?case by auto
  qed (fastforce dest: makes.own simp: finished_def split: prod.splits)+
  from this [OF makes.none] show ?thesis by blast
qed

section \<open>An invariant of one controller holds at every moment\<close>

text \<open>Other clients, as a step of the pool.\<close>

abbreviation users :: "okey set \<Rightarrow> kind \<Rightarrow> ('w \<Rightarrow> okey \<Rightarrow> kobj option) \<Rightarrow> 'w \<Rightarrow> 'w \<Rightarrow> bool" where
  "users K kd at w w' \<equiv> edits K kd (at w) (at w')"

lemmas sat_environment = interference.sat_environment [OF edits_interference]
lemmas sat_invariant = interference.sat_invariant [OF edits_interference]
lemmas sat_own = interference.sat_own [OF edits_interference]

context tool_operator
begin

lemma client_kube: "kube_client (client_of r gr a) at events"
  using kube_client_axioms guards.kube_client_axioms by (cases a) simp_all

text \<open>A call of another worker is no more than an edit of other clients.\<close>

lemma worker_call_edits:
  assumes "writes_own p" "next_call (client_of r gr b) (po_Runs p b) (po_World p) = (q, w)"
    and "worker_area b \<inter> K = {}" "\<And>k. (kd, k) \<notin> worker_area b"
  shows "users K kd at (po_World p) w"
  using unchanged_edits [OF kube_client.next_unchanged [OF client_kube _ assms(2)] assms(3,4)] assms(1) by (simp add: writes_own_def)

lemma worker_invariant_step:
  assumes apart: "\<And>b. b \<noteq> a \<Longrightarrow> worker_area b \<inter> K = {}" "\<And>b k. b \<noteq> a \<Longrightarrow> (kd, k) \<notin> worker_area b"
    and safe: "\<And>req v. I (at v) \<Longrightarrow> meets (client_of r gr a) at K kd I (run_of r gr a req) (\<lambda>_ _. True) v"
    and idle: "\<And>v x. I (at v) \<Longrightarrow> meets (client_of r gr a) at K kd I (Return (x :: goerror option)) (\<lambda>_ _. True) v"
    and step: "pool_step r gr (users K kd at) p p'" and own: "writes_own p"
    and inv: "meets (client_of r gr a) at K kd I (po_Runs p a) (\<lambda>_ _. True) (po_World p)"
  shows "meets (client_of r gr a) at K kd I (po_Runs p' a) (\<lambda>_ _. True) (po_World p')"
  using step
proof (cases rule: pool_stepE [consumes 1, case_names call start restart other])
  case (call b q w)
  show ?thesis
  proof (cases "b = a")
    case True
    with call sat_own [OF inv] show ?thesis by simp
  next
    case False
    with call sat_environment [OF inv worker_call_edits [OF own call(3) apart [OF False]]] show ?thesis by simp
  qed
next
  case (start b req)
  with inv safe [OF sat_invariant [OF inv]] show ?thesis by (cases "b = a") simp_all
next
  case restart
  with idle [OF sat_invariant [OF inv]] show ?thesis by simp
next
  case (other w)
  with sat_environment [OF inv] show ?thesis by simp
qed

lemma worker_invariant:
  assumes apart: "\<And>b. b \<noteq> a \<Longrightarrow> worker_area b \<inter> K = {}" "\<And>b k. b \<noteq> a \<Longrightarrow> (kd, k) \<notin> worker_area b"
    and safe: "\<And>req v. I (at v) \<Longrightarrow> meets (client_of r gr a) at K kd I (run_of r gr a req) (\<lambda>_ _. True) v"
    and stable: "stable K kd I"
    and steps: "(pool_step r gr (users K kd at))\<^sup>*\<^sup>* p p'" and start: "pool_idle p" "I (at (po_World p))"
  shows "I (at (po_World p'))"
proof -
  have idle: "meets (client_of r gr a) at K kd I (Return (x :: goerror option)) (\<lambda>_ _. True) v" if "I (at v)" for v x
    by (rule kube_client.meets_return [OF client_kube that stable]) simp
  have "meets (client_of r gr a) at K kd I (po_Runs p' a) (\<lambda>_ _. True) (po_World p')"
    using steps start
  proof (induction rule: rtranclp_induct)
    case base
    then obtain x where "po_Runs p a = Return x" using idle_all [of p a] by (cases "po_Runs p a") (auto simp: finished_def)
    with idle base(2) show ?case by simp
  next
    case (step q q')
    show ?case
      by (rule worker_invariant_step [OF apart safe idle step.hyps(2) writes_own_reachable [OF step.hyps(1)]]) (use step in blast)+
  qed
  then show ?thesis by (rule sat_invariant)
qed

section \<open>The three controllers\<close>

lemma worker_kinds: "b \<noteq> GuardWorker \<Longrightarrow> (KGuard, k) \<notin> worker_area b"
  "b \<noteq> GatewayWorker \<Longrightarrow> (KToolGateway, k) \<notin> worker_area b" "b \<noteq> RouteWorker \<Longrightarrow> (KToolRoute, k) \<notin> worker_area b"
  by (cases b; simp add: guard_area_def gateway_area_def route_area_def KParameters_def KPolicy_def KBackend_def)+

lemma relies: "guard_rely \<subseteq> worker_area GuardWorker \<union> {k. fst k = KGuardrailProvider}" "gateway_rely \<subseteq> worker_area GatewayWorker"
  "route_rely \<subseteq> worker_area RouteWorker \<union> {k. fst k = KToolServer}"
  by (auto simp: guard_rely_def guard_area_def gateway_rely_def gateway_area_def route_rely_def route_area_def)

lemma others_apart:
  "b \<noteq> GuardWorker \<Longrightarrow> worker_area b \<inter> guard_rely = {}" "b \<noteq> GatewayWorker \<Longrightarrow> worker_area b \<inter> gateway_rely = {}"
  "b \<noteq> RouteWorker \<Longrightarrow> worker_area b \<inter> route_rely = {}"
  using worker_areas_disjoint [of b] no_inputs [of b] relies by blast+

lemma concurrent_adapted:
  assumes "(pool_step r gr (users guard_rely KGuard at))\<^sup>*\<^sup>* p p'" "pool_idle p"
    and "guards_adapted (r_Lib gr) (r_AdapterImage gr) (at (po_World p))"
  shows "guards_adapted (r_Lib gr) (r_AdapterImage gr) (at (po_World p'))"
  by (rule worker_invariant [where a = GuardWorker, OF others_apart(1) worker_kinds(1) _ guards.adapted_stable assms])
    (simp_all add: guards.Guard_safe)

lemma concurrent_configured:
  assumes "(pool_step r gr (users gateway_rely KToolGateway at))\<^sup>*\<^sup>* p p'" "pool_idle p"
    and "gateways_configured (r_Lib r) (at (po_World p))"
  shows "gateways_configured (r_Lib r) (at (po_World p'))"
  by (rule worker_invariant [where a = GatewayWorker, OF others_apart(2) worker_kinds(2) _ configured_stable assms])
    (simp_all add: ToolGateway_safe)

lemma concurrent_served:
  assumes "(pool_step r gr (users route_rely KToolRoute at))\<^sup>*\<^sup>* p p'" "pool_idle p"
    and "routes_served (r_Lib r) (at (po_World p))"
  shows "routes_served (r_Lib r) (at (po_World p'))"
  by (rule worker_invariant [where a = RouteWorker, OF others_apart(3) worker_kinds(3) _ served_stable assms])
    (simp_all add: ToolRoute_safe)

text \<open>No two workers ever change the same object.\<close>

lemma concurrent_apart:
  assumes "(pool_step r gr E)\<^sup>*\<^sup>* p p'" "pool_idle p"
    and "next_call (client_of r gr a) (po_Runs p' a) (po_World p') = (q, w)" "at w k \<noteq> at (po_World p') k"
  shows "k \<in> worker_area a" "b \<noteq> a \<Longrightarrow> k \<notin> worker_area b"
proof -
  have "writes_in (worker_area a) (po_Runs p' a)" using writes_own_reachable [OF assms(1,2)] by (simp add: writes_own_def)
  from unchangedD [OF kube_client.next_unchanged [OF client_kube this assms(3)]] assms(4) show k: "k \<in> worker_area a" by metis
  show "b \<noteq> a \<Longrightarrow> k \<notin> worker_area b" using worker_areas_disjoint [of a b] k by blast
qed

end

end
