(* ===== verification/ConcurrencyProperties.thy ===== *)
theory ConcurrencyProperties
  imports Workers SystemProperties
begin

text \<open>
  The properties of the three controllers at work at the same time, call by call.
\<close>

section \<open>Interleaved executions on the reference cluster\<close>

definition idle_pool :: "'w \<Rightarrow> 'w pool" where
  "idle_pool w = \<lparr>po_World = w, po_Runs = \<lambda>_. Return None\<rparr>"

lemma idle_pool_idle [simp]: "pool_idle (idle_pool w)" "po_World (idle_pool w) = w"
  by (simp_all add: idle_pool_def pool_idle_def finished_def)

lemma run_of_first: "\<exists>q. next_call cl (run_of r gr a req) w = (q, w) \<and> \<not> finished (run_of r gr a req)"
  by (cases a)
    (simp_all add: Guard_Reconcile_prog_def ToolGateway_Reconcile_prog_def ToolRoute_Reconcile_prog_def get_prog_def finished_def)

text \<open>One worker runs to its end while another one is in the middle of its own run.\<close>

lemma interleaved:
  assumes "b \<noteq> a" and run: "run (client_of r gr a) (run_of r gr a req) w = (x, w')"
  obtains p where "(pool_step r gr E)\<^sup>*\<^sup>* (idle_pool w) p" "po_World p = w'" "\<not> finished (run_of r gr b req2)" "po_Runs p a = Return x"
proof -
  obtain q where q: "next_call (client_of r gr b) (run_of r gr b req2) w = (q, w)" "\<not> finished (run_of r gr b req2)"
    using run_of_first by metis
  let ?p1 = "\<lparr>po_World = w, po_Runs = (\<lambda>_. Return None)(b := run_of r gr b req2)\<rparr>"
  let ?p2 = "\<lparr>po_World = w, po_Runs = (\<lambda>_. Return None)(b := q)\<rparr>"
  have "pool_step r gr E (idle_pool w) ?p1"
    using start [of "idle_pool w" b r gr E req2] by (simp add: idle_pool_def finished_def)
  moreover have "pool_step r gr E ?p1 ?p2" using call [of ?p1 b r gr q w E] q by simp
  moreover have "(pool_step r gr E)\<^sup>*\<^sup>* ?p2 \<lparr>po_World = w', po_Runs = (po_Runs ?p2)(a := Return x)\<rparr>"
    by (rule pool_reconcile) (use assms in \<open>simp_all add: finished_def\<close>)
  ultimately have "(pool_step r gr E)\<^sup>*\<^sup>* (idle_pool w) \<lparr>po_World = w', po_Runs = (po_Runs ?p2)(a := Return x)\<rparr>"
    by (meson converse_rtranclp_into_rtranclp)
  with q(2) that show thesis by simp
qed

lemma mem_backed:
  assumes "list_all (\<lambda>ob. kind_of ob = kd \<longrightarrow> conditions_of ob = []) (k_Objects w)"
  shows "backed (r_Lib mem_reconciler) kd P (mem_at w)"
  unfolding backed_def
proof (intro allI impI)
  fix k ob
  assume ob: "mem_at w (kd, k) = Some ob"
  then have "kind_of ob = kd" using mem.at_key [OF ob] by (simp add: key_of_def)
  with assms mem_at_mem [OF ob] have "conditions_of ob = []" by (simp add: list_all_iff)
  then show "observed (r_Lib mem_reconciler) ob \<and> (ready_now (r_Lib mem_reconciler) ob \<longrightarrow> P (mem_at w) ob)"
    by (simp add: observed_def ready_now_def mem_rec.find_nil)
qed

text \<open>A route whose gateway does not exist: two reads, then its status.\<close>

definition lost_world :: cluster where
  "lost_world = mem_cluster [OToolRoute demo_route]"

definition lost_patch :: "goerror option prog" where
  "lost_patch =
     (let after = \<lambda>q. fst (next_call mem_client q lost_world)
      in after (after (ToolRoute_Reconcile_prog ref_lib True route_req)))"

lemma lost_calls:
  "next_call mem_client (ToolRoute_Reconcile_prog ref_lib True route_req) lost_world
     = (fst (next_call mem_client (ToolRoute_Reconcile_prog ref_lib True route_req) lost_world), lost_world)"
  "next_call mem_client (fst (next_call mem_client (ToolRoute_Reconcile_prog ref_lib True route_req) lost_world)) lost_world
     = (lost_patch, lost_world)"
  "\<not> finished (ToolRoute_Reconcile_prog ref_lib True route_req)"
  "\<not> finished (fst (next_call mem_client (ToolRoute_Reconcile_prog ref_lib True route_req) lost_world))"
  "mem_at (snd (next_call mem_client lost_patch lost_world)) (KToolRoute, route_req) \<noteq> mem_at lost_world (KToolRoute, route_req)"
  by (simp_all add: lost_patch_def ToolRoute_Reconcile_prog_def resolveToolGatewayKey_prog_def get_prog_def finished_def Let_def
      lost_world_def route_req_def demo_route_def route_not_ready_prog_def patch_route_prog_def mem_eval route_eval)

section \<open>Properties\<close>

text \<open>
  C3: Ready routes are served at every moment, however the calls interleave.  The three workers
  make their calls in any order, runs start on any request, calls fail, the process is restarted
  in the middle of runs, and between any two calls other clients create and edit routes and do
  anything to objects other than the routes' own objects and the tool servers.  In every state
  that can be reached, a route that is Ready for its current generation has the URL of a gateway
  it names, its backend sends to the upstream it asks for, its HTTPRoute leads there and its
  tool-filter policy is the one of its filter.
\<close>

theorem concurrent_routes_served:
  assumes "tool_operator r gr at events"
    and "(pool_step r gr (users route_rely KToolRoute at))\<^sup>*\<^sup>* p p'" and "pool_idle p"
    and "routes_served (r_Lib r) (at (po_World p))"
    and "at (po_World p') (KToolRoute, req) = Some (OToolRoute route)" and "ready_now (r_Lib r) (OToolRoute route)"
  shows "\<exists>tg up. route_names route tg \<and> tr_Url route = route_url tg (route_path route)
     \<and> upstream_wanted (r_Lib r) route (at (po_World p')) up \<and> route_serves tg route up (at (po_World p'))"
proof -
  have "gateway_operator r at events" using assms(1) by (simp add: tool_operator_def)
  note serves = gateway_operator.route_settled_serves [OF this]
  have "route_backed (r_Lib r) (at (po_World p')) (OToolRoute route)"
    by (rule backedD(2) [OF tool_operator.concurrent_served [OF assms(1-4)] assms(5,6)])
  with serves show ?thesis unfolding route_backed.simps by blast
qed

theorem concurrent_routes_served_witness:
  "\<exists>tg up. tr_Url route_stored = route_url tg (route_path route_stored) \<and> route_serves tg route_stored up (mem_at route_after)"
proof -
  have "run (client_of mem_reconciler (mem_guard_reconciler ''img'') RouteWorker)
      (run_of mem_reconciler (mem_guard_reconciler ''img'') RouteWorker route_req) route_world = (None, route_after)"
    by (simp add: run_ToolRoute route_run_demo(1))
  then obtain p where p: "(pool_step mem_reconciler (mem_guard_reconciler ''img'') (users route_rely KToolRoute mem_at))\<^sup>*\<^sup>*
      (idle_pool route_world) p" "po_World p = route_after"
    by (rule interleaved [where b = GatewayWorker, rotated]) simp_all
  have inv: "routes_served (r_Lib mem_reconciler) (mem_at (po_World (idle_pool route_world)))"
    by (simp only: idle_pool_idle, rule mem_backed)
      (simp add: route_world_def mem_cluster_def demo_route_def demo_tg_def demo_class_def demo_server_def)
  have ready: "ready_now (r_Lib mem_reconciler) (OToolRoute route_stored)"
    using route_ready_facts(1,3)
    by (simp add: ready_now_def) (simp add: route_ready_cond_def route_stored_def demo_route_def new_meta_def)
  show ?thesis
    using concurrent_routes_served [OF mem_tool_operator.tool_operator_axioms p(1) idle_pool_idle(1) inv, unfolded p(2), OF route_run_demo(2) ready]
    by blast
qed

text \<open>
  C4: Ready gateways are configured at every moment, however the calls interleave and whatever
  other clients do between them to anything but the objects of the gateways; they may create
  and edit gateways.  A gateway that is Ready for its current generation has its own URL, its
  Gateway with our class and listener, its parameters with exactly its environment and
  telemetry, and its guardrail: without a guard no policy, with one the policy that sends the
  traffic through its adapter.
\<close>

theorem concurrent_gateways_configured:
  assumes "tool_operator r gr at events"
    and "(pool_step r gr (users gateway_rely KToolGateway at))\<^sup>*\<^sup>* p p'" and "pool_idle p"
    and "gateways_configured (r_Lib r) (at (po_World p))"
    and "at (po_World p') (KToolGateway, req) = Some (OToolGateway tg)" and "ready_now (r_Lib r) (OToolGateway tg)"
  shows "tg_Url tg = gateway_url tg \<and> gateway_configured (r_Lib r) tg (at (po_World p'))"
proof -
  have "gateway_operator r at events" using assms(1) by (simp add: tool_operator_def)
  note configured = gateway_operator.fixed_configured [OF this]
  have "gateway_backed (r_Lib r) (at (po_World p')) (OToolGateway tg)"
    by (rule backedD(2) [OF tool_operator.concurrent_configured [OF assms(1-4)] assms(5,6)])
  with configured show ?thesis by simp
qed

theorem concurrent_gateways_configured_witness:
  "gateway_configured ref_lib tg_stored (mem_at tg_after)"
proof -
  have "run (client_of mem_reconciler (mem_guard_reconciler ''img'') GatewayWorker)
      (run_of mem_reconciler (mem_guard_reconciler ''img'') GatewayWorker tg_req) tg_world = (None, tg_after)"
    by (simp add: run_ToolGateway tg_run_pair)
  then obtain p where p: "(pool_step mem_reconciler (mem_guard_reconciler ''img'') (users gateway_rely KToolGateway mem_at))\<^sup>*\<^sup>*
      (idle_pool tg_world) p" "po_World p = tg_after"
    by (rule interleaved [where b = GuardWorker, rotated]) simp_all
  have inv: "gateways_configured (r_Lib mem_reconciler) (mem_at (po_World (idle_pool tg_world)))"
    by (simp only: idle_pool_idle, rule mem_backed)
      (simp add: tg_world_def mem_cluster_def demo_tg_def demo_class_def guard_with_def)
  have ready: "ready_now (r_Lib mem_reconciler) (OToolGateway tg_stored)"
    using tg_ready_facts(1,3)
    by (simp add: ready_now_def) (simp add: tg_ready_cond_def tg_stored_def demo_tg_def new_meta_def)
  show ?thesis
    using concurrent_gateways_configured [OF mem_tool_operator.tool_operator_axioms p(1) idle_pool_idle(1) inv, unfolded p(2), OF tg_after_at ready]
    by (simp add: mem_reconciler_def)
qed

text \<open>
  C5: Ready guards have their adapter at every moment, however the calls interleave and whatever
  other clients do between them to anything but adapters and providers; they may create and edit
  guards.  For a guard that is Ready for its current generation the provider is stored and the
  guard valid for it, the ConfigMap holds the rendered configuration, the pods run the
  operator's image with the hash of exactly these bytes, and the Service selects them.
\<close>

theorem concurrent_guards_adapted:
  assumes "tool_operator r gr at events"
    and "(pool_step r gr (users guard_rely KGuard at))\<^sup>*\<^sup>* p p'" and "pool_idle p"
    and "guards_adapted (r_Lib gr) (r_AdapterImage gr) (at (po_World p))"
    and "at (po_World p') (KGuard, req) = Some (OGuard g)" and "ready_now (r_Lib gr) (OGuard g)"
  shows "\<exists>prov data. at (po_World p') (KGuardrailProvider, provider_key g) = Some (OGuardrailProvider prov) \<and> valid_guard g prov
     \<and> l_json_to_yaml (r_Lib gr) (guard_static_config g prov) = Inr data
     \<and> adapter_serves (r_AdapterImage gr) g data (at (po_World p'))"
proof -
  have "guard_operator gr at events" using assms(1) by (simp add: tool_operator_def)
  have own: "owner_lib (r_Lib gr)"
    using \<open>guard_operator gr at events\<close> by (simp add: guard_operator_def operator_def)
  have "guard_backed (r_Lib gr) (r_AdapterImage gr) (at (po_World p')) (OGuard g)"
    by (rule backedD(2) [OF tool_operator.concurrent_adapted [OF assms(1-4)] assms(5,6)])
  with owner_lib.settled_serves [OF own] show ?thesis by (auto simp: guard_adapted_def)
qed

theorem concurrent_guards_adapted_witness:
  "\<exists>data. adapter_serves ''img'' (demo_guard\<lparr>g_Conditions := [demo_ready]\<rparr>) data (mem_at demo_after)"
proof -
  have "run (client_of mem_reconciler demo_rec GuardWorker) (run_of mem_reconciler demo_rec GuardWorker demo_req) demo_world
      = (None, demo_after)"
    by (simp add: run_Guard demo_run_pair)
  then obtain p where p: "(pool_step mem_reconciler demo_rec (users guard_rely KGuard mem_at))\<^sup>*\<^sup>* (idle_pool demo_world) p"
      "po_World p = demo_after"
    by (rule interleaved [where b = RouteWorker, rotated]) simp_all
  have inv: "guards_adapted (r_Lib demo_rec) (r_AdapterImage demo_rec) (mem_at (po_World (idle_pool demo_world)))"
    using mem_backed [of KGuard demo_world "guard_backed ref_lib ''img''"]
    by (simp add: demo_world_def mem_cluster_def demo_guard_def demo_provider_def mem_guard_reconciler_def mem_reconciler_def)
  have ready: "ready_now (r_Lib demo_rec) (OGuard (demo_guard\<lparr>g_Conditions := [demo_ready]\<rparr>))"
    by (simp add: ready_now_def mem_guard_reconciler_def ref_find_condition_def readyConditionType_def demo_ready_def demo_guard_def
        ConditionTrue_def new_meta_def)
  show ?thesis
    using concurrent_guards_adapted [OF mem_tool_operator.tool_operator_axioms p(1) idle_pool_idle(1) inv, unfolded p(2),
        OF conjunct2 [OF demo_run] ready]
    by (auto simp: mem_guard_reconciler_def)
qed

text \<open>
  The programs are the reconcilers: run without interruption, the sequence of calls of each
  controller computes the same outcome and the same cluster as its \<open>Reconcile\<close> function, in
  every cluster and whatever the calls answer.
\<close>

theorem programs_are_reconcilers:
  "run (r_Client gr) (Guard_Reconcile_prog (r_Lib gr) (r_AdapterImage gr) req) w = Guard_Reconcile gr req w
   \<and> run (r_Client r) (ToolGateway_Reconcile_prog (r_Lib r) (r_Recorder r) req) v = ToolGateway_Reconcile r req v
   \<and> run (r_Client r) (ToolRoute_Reconcile_prog (r_Lib r) (r_Recorder r) req) v = ToolRoute_Reconcile r req v"
  by (simp add: run_Guard run_ToolGateway run_ToolRoute)

text \<open>
  Every run ends.  Whatever the API server answers and whatever happens between the steps, a
  reconcile has returned after at most six steps for a guard, ten for a gateway and thirteen for a
  route.  A step is a call of the client or an event; a \<open>CreateOrPatch\<close>, which is a read and at
  most one write, counts as one.
\<close>

theorem runs_terminate:
  assumes "makes cl E n (run_of r gr a req) w q v"
  shows "n \<le> call_bound a \<and> (n = call_bound a \<longrightarrow> finished q)"
  using makes_within [OF assms run_of_within] within_none by fastforce

theorem runs_terminate_witness:
  "\<exists>n q. makes mem_client (=) n (run_of mem_reconciler (mem_guard_reconciler ''img'') RouteWorker route_req) route_world q route_after
     \<and> n \<le> 13 \<and> q = Return None"
proof -
  let ?q = "run_of mem_reconciler (mem_guard_reconciler ''img'') RouteWorker route_req"
  have "run mem_client ?q route_world = (None, route_after)"
    using run_ToolRoute [of mem_reconciler route_req route_world] route_run_demo(1) by (simp add: mem_reconciler_def)
  with makes_run [of mem_client "(=)" ?q route_world]
  obtain n where m: "makes mem_client (=) n ?q route_world (Return None) route_after" by auto
  with runs_terminate [OF m] show ?thesis by auto
qed

text \<open>
  C14: The controllers write apart.  In whatever state the three workers are, a call of one
  changes only objects of its own controller's kinds and names, and never an object that
  another of them may write: no write of one controller can undo a write of another.
\<close>

theorem workers_write_apart:
  assumes "tool_operator r gr at events" and "(pool_step r gr E)\<^sup>*\<^sup>* p p'" and "pool_idle p"
    and "next_call (client_of r gr a) (po_Runs p' a) (po_World p') = (q, w)" and "at w k \<noteq> at (po_World p') k"
  shows "k \<in> worker_area a \<and> (\<forall>b. b \<noteq> a \<longrightarrow> k \<notin> worker_area b)"
  using tool_operator.concurrent_apart [OF assms] by blast

theorem workers_write_apart_witness:
  "(KToolRoute, route_req) \<in> worker_area RouteWorker \<and> (KToolRoute, route_req) \<notin> worker_area GuardWorker
    \<and> (KToolRoute, route_req) \<notin> worker_area GatewayWorker"
proof -
  let ?r = mem_reconciler and ?g = "mem_guard_reconciler ''img''"
  let ?q0 = "ToolRoute_Reconcile_prog ref_lib True route_req"
  let ?q1 = "fst (next_call mem_client ?q0 lost_world)"
  let ?pool = "\<lambda>q. \<lparr>po_World = lost_world, po_Runs = (\<lambda>_. Return None)(RouteWorker := q)\<rparr>"
  have "pool_step ?r ?g (=) (idle_pool lost_world) (?pool ?q0)"
    using start [of "idle_pool lost_world" RouteWorker ?r ?g "(=)" route_req]
    by (simp add: idle_pool_def finished_def) (simp add: mem_reconciler_def)
  moreover have "pool_step ?r ?g (=) (?pool ?q0) (?pool ?q1)"
    using call [of "?pool ?q0" RouteWorker ?r ?g ?q1 lost_world "(=)"] lost_calls(1,3) by (simp add: mem_reconciler_def)
  moreover have "pool_step ?r ?g (=) (?pool ?q1) (?pool lost_patch)"
    using call [of "?pool ?q1" RouteWorker ?r ?g lost_patch lost_world "(=)"] lost_calls(2,4) by (simp add: mem_reconciler_def)
  ultimately have steps: "(pool_step ?r ?g (=))\<^sup>*\<^sup>* (idle_pool lost_world) (?pool lost_patch)" by (meson converse_rtranclp_into_rtranclp rtranclp.rtrancl_refl)
  have "next_call (client_of ?r ?g RouteWorker) (po_Runs (?pool lost_patch) RouteWorker) (po_World (?pool lost_patch))
      = (fst (next_call mem_client lost_patch lost_world), snd (next_call mem_client lost_patch lost_world))"
    by (simp add: mem_reconciler_def)
  from workers_write_apart [OF mem_tool_operator.tool_operator_axioms steps idle_pool_idle(1) this] lost_calls(5)
  have "(KToolRoute, route_req) \<in> worker_area RouteWorker
      \<and> (\<forall>b. b \<noteq> RouteWorker \<longrightarrow> (KToolRoute, route_req) \<notin> worker_area b)" by simp
  then show ?thesis by blast
qed

end
