(* ===== verification/WorkQueue.thy ===== *)
theory WorkQueue
  imports Workers
begin

text \<open>
  Watches and work queues.  An event on an object enqueues requests as \<open>SetupWithManager\<close> of each
  controller declares: the object's own name for the controller's kind, the controller owner of
  an owned object, and what a mapping function finds for a watched one.  A request stays queued
  until a run on it returns without an error.  A resource is at rest when its status is up to
  date with the cluster: the claim of this theory and of \<open>Quiescence\<close> is that every resource is
  queued or at rest.
\<close>

section \<open>Delivery of events\<close>

text \<open>
  \<open>enq su w w'\<close> are the requests that the events of the change from \<open>w\<close> to \<open>w'\<close> enqueue for a
  controller that is set up with \<open>su\<close>; controller-runtime promises at least these.
\<close>

locale event_delivery =
  fixes at :: "'w \<Rightarrow> okey \<Rightarrow> kobj option"
    and enq :: "'w controller_setup \<Rightarrow> 'w \<Rightarrow> 'w \<Rightarrow> nsname set"
  assumes enq_own: "at w' (su_For su, k) \<noteq> at w (su_For su, k) \<Longrightarrow> k \<in> enq su w w'"
    and enq_owned: "kd \<in> set (su_Owns su) \<Longrightarrow> at w' (kd, k) \<noteq> at w (kd, k) \<Longrightarrow>
      at w (kd, k) = Some ob \<or> at w' (kd, k) = Some ob \<Longrightarrow>
      controller_of (meta_of ob) = Some (su_For su, n) \<Longrightarrow> (fst k, n) \<in> enq su w w'"
    and enq_watched: "(kd, f) \<in> set (su_Watches su) \<Longrightarrow> at w' (kd, k) \<noteq> at w (kd, k) \<Longrightarrow>
      at w (kd, k) = Some ob \<or> at w' (kd, k) = Some ob \<Longrightarrow> req \<in> set (f ob w') \<Longrightarrow> req \<in> enq su w w'"

text \<open>The same, exactly: the requests of one object, and of a change of the cluster.\<close>

definition object_requests :: "'w controller_setup \<Rightarrow> kobj \<Rightarrow> 'w \<Rightarrow> nsname set" where
  "object_requests su ob w =
     (if kind_of ob = su_For su then {meta_key (meta_of ob)} else {})
     \<union> (if kind_of ob \<in> set (su_Owns su)
        then (case controller_of (meta_of ob) of
                Some (kd, n) \<Rightarrow> if kd = su_For su then {(m_Namespace (meta_of ob), n)} else {}
              | None \<Rightarrow> {})
        else {})
     \<union> (\<Union>(kd, f) \<in> set (su_Watches su). if kd = kind_of ob then set (f ob w) else {})"

definition event_requests ::
  "('w \<Rightarrow> okey \<Rightarrow> kobj option) \<Rightarrow> 'w controller_setup \<Rightarrow> 'w \<Rightarrow> 'w \<Rightarrow> nsname set" where
  "event_requests at su w w' =
     \<Union>{object_requests su ob w' |ob k. at w' k \<noteq> at w k \<and> (at w k = Some ob \<or> at w' k = Some ob)}"

lemma event_requests_same [simp]: "(\<And>k. at w' k = at w k) \<Longrightarrow> event_requests at su w w' = {}"
  by (simp add: event_requests_def)

lemma event_requestsI:
  "at w' k \<noteq> at w k \<Longrightarrow> at w k = Some ob \<or> at w' k = Some ob \<Longrightarrow> req \<in> object_requests su ob w' \<Longrightarrow>
   req \<in> event_requests at su w w'"
  unfolding event_requests_def by blast

context kube_client
begin

lemma event_requests_delivery: "event_delivery at (event_requests at)"
proof (unfold_locales, goal_cases)
  case (1 w' su k w)
  then obtain ob where ob: "at w (su_For su, k) = Some ob \<or> at w' (su_For su, k) = Some ob"
    by (cases "at w (su_For su, k)"; cases "at w' (su_For su, k)") auto
  then have "key_of ob = (su_For su, k)" using at_key by blast
  then have "k \<in> object_requests su ob w'" by (simp add: object_requests_def key_of_def)
  then show ?case by (rule event_requestsI [where at = at, OF 1 ob])
next
  case (2 kd su w' k w ob n)
  then have "key_of ob = (kd, k)" using at_key by blast
  with 2 have "(fst k, n) \<in> object_requests su ob w'" by (auto simp: object_requests_def key_of_def meta_key_def)
  then show ?case by (rule event_requestsI [where at = at, OF 2(2,3)])
next
  case (3 kd f su w' k w ob req)
  then have "key_of ob = (kd, k)" using at_key by blast
  with 3 have "req \<in> object_requests su ob w'" by (fastforce simp: object_requests_def key_of_def)
  then show ?case by (rule event_requestsI [where at = at, OF 3(2,3)])
qed

end

interpretation mem_events: event_delivery mem_at "event_requests mem_at"
  by (rule mem.event_requests_delivery)

section \<open>Queues\<close>

instantiation worker :: enum
begin

definition enum_worker :: "worker list" where "enum_worker = [GuardWorker, GatewayWorker, RouteWorker]"
definition enum_all_worker :: "(worker \<Rightarrow> bool) \<Rightarrow> bool" where
  "enum_all_worker P = (P GuardWorker \<and> P GatewayWorker \<and> P RouteWorker)"
definition enum_ex_worker :: "(worker \<Rightarrow> bool) \<Rightarrow> bool" where
  "enum_ex_worker P = (P GuardWorker \<or> P GatewayWorker \<or> P RouteWorker)"

instance
proof
  have all: "P a" if "P GuardWorker \<and> P GatewayWorker \<and> P RouteWorker" for P and a :: worker
    using that by (cases a) simp_all
  have "a \<in> set enum_class.enum" for a :: worker by (cases a) (simp_all add: enum_worker_def)
  then show "(UNIV :: worker set) = set enum_class.enum" by blast
  show "distinct (enum_class.enum :: worker list)" by (simp add: enum_worker_def)
  show "enum_class.enum_all P = Ball UNIV P" for P :: "worker \<Rightarrow> bool" using all [of P] unfolding enum_all_worker_def by blast
  show "enum_class.enum_ex P = Bex UNIV P" for P :: "worker \<Rightarrow> bool"
    using all [of "\<lambda>a. \<not> P a"] unfolding enum_ex_worker_def by blast
qed

end

fun setup_of :: "'w reconciler \<Rightarrow> 'w guard_reconciler \<Rightarrow> worker \<Rightarrow> 'w controller_setup" where
  "setup_of r gr GuardWorker = Guard_SetupWithManager gr"
| "setup_of r gr GatewayWorker = ToolGateway_SetupWithManager r"
| "setup_of r gr RouteWorker = ToolRoute_SetupWithManager r"

fun reconcile_of ::
  "'w reconciler \<Rightarrow> 'w guard_reconciler \<Rightarrow> worker \<Rightarrow> nsname \<Rightarrow> 'w \<Rightarrow> goerror option \<times> 'w" where
  "reconcile_of r gr GuardWorker = Guard_Reconcile gr"
| "reconcile_of r gr GatewayWorker = ToolGateway_Reconcile r"
| "reconcile_of r gr RouteWorker = ToolRoute_Reconcile r"

record 'w operator_state =
  os_World :: 'w
  os_Queue :: "worker \<Rightarrow> nsname set"

definition idle :: "'w operator_state \<Rightarrow> bool" where
  "idle s = (\<forall>a. os_Queue s a = {})"

text \<open>The resources of a controller's kind that are stored.\<close>

definition stored_requests :: "('w \<Rightarrow> okey \<Rightarrow> kobj option) \<Rightarrow> kind \<Rightarrow> 'w \<Rightarrow> nsname set" where
  "stored_requests at kd w = {k. at w (kd, k) \<noteq> None}"

text \<open>
  A worker takes a request from its queue and runs it; an error puts it back, and the run's
  writes raise events like anybody else's.  A restart of the process lists all resources.
\<close>

inductive operator_step ::
  "'w reconciler \<Rightarrow> 'w guard_reconciler \<Rightarrow> ('w \<Rightarrow> okey \<Rightarrow> kobj option)
     \<Rightarrow> ('w controller_setup \<Rightarrow> 'w \<Rightarrow> 'w \<Rightarrow> nsname set) \<Rightarrow> ('w \<Rightarrow> 'w \<Rightarrow> bool)
     \<Rightarrow> 'w operator_state \<Rightarrow> 'w operator_state \<Rightarrow> bool" for r gr at enq E where
  work: "req \<in> os_Queue s a \<Longrightarrow> reconcile_of r gr a req (os_World s) = (res, w) \<Longrightarrow>
    operator_step r gr at enq E s
      \<lparr>os_World = w,
       os_Queue = (\<lambda>b. os_Queue s b - (if b = a \<and> res = None then {req} else {})
                         \<union> enq (setup_of r gr b) (os_World s) w)\<rparr>"
| others: "E (os_World s) w \<Longrightarrow>
    operator_step r gr at enq E s
      \<lparr>os_World = w, os_Queue = (\<lambda>b. os_Queue s b \<union> enq (setup_of r gr b) (os_World s) w)\<rparr>"
| restart: "operator_step r gr at enq E s
      (s\<lparr>os_Queue := \<lambda>b. stored_requests at (su_For (setup_of r gr b)) (os_World s)\<rparr>)"

inductive_cases operator_stepE: "operator_step r gr at enq E s s'"

section \<open>At rest\<close>

text \<open>The condition says, for the current generation, why the resource is not Ready.\<close>

definition blocked_now :: "klib \<Rightarrow> kobj \<Rightarrow> string \<Rightarrow> bool" where
  "blocked_now lib ob reason =
     (case l_find_condition lib (conditions_of ob) readyConditionType of
        None \<Rightarrow> False
      | Some c \<Rightarrow> cd_Status c = ConditionFalse \<and> cd_Reason c = reason \<and> cd_ObservedGeneration c = m_Generation (meta_of ob))"

text \<open>A guard: Ready with its adapter, or a terminal reason that is true.\<close>

definition guard_blocked :: "string \<Rightarrow> (okey \<Rightarrow> kobj option) \<Rightarrow> guard \<Rightarrow> string \<Rightarrow> bool" where
  "guard_blocked img s g reason =
     (reason = guardReasonAdapterNotConfigured \<and> img = []
      \<or> reason = guardReasonProviderNotFound \<and> s (KGuardrailProvider, provider_key g) = None
      \<or> (\<exists>p. s (KGuardrailProvider, provider_key g) = Some (OGuardrailProvider p)
           \<and> (reason = guardReasonUnsupportedProviderType \<and> gp_Type p \<noteq> providerTypePresidio
              \<or> reason = guardReasonInvalidConfig \<and> gp_Type p = providerTypePresidio \<and> \<not> valid_guard g p)))"

definition guard_at_rest :: "klib \<Rightarrow> string \<Rightarrow> (okey \<Rightarrow> kobj option) \<Rightarrow> guard \<Rightarrow> bool" where
  "guard_at_rest lib img s g =
     (ready_now lib (OGuard g) \<and> guard_adapted lib img s g
      \<or> (\<exists>reason. blocked_now lib (OGuard g) reason \<and> guard_blocked img s g reason))"

text \<open>A gateway: not ours, or Ready with everything in place and its guard Ready.\<close>

definition gateway_at_rest :: "klib \<Rightarrow> ('w \<Rightarrow> okey \<Rightarrow> kobj option) \<Rightarrow> 'w \<Rightarrow> tool_gateway \<Rightarrow> bool" where
  "gateway_at_rest lib at w tg =
     (\<not> (\<exists>c. claims_gateway at w tg c)
      \<or> ready_now lib (OToolGateway tg) \<and> tg_Url tg = gateway_url tg \<and> gateway_settled lib tg (at w))"

text \<open>A route: without a gateway, on a gateway that is not ours, or Ready and served.\<close>

definition route_at_rest :: "klib \<Rightarrow> ('w \<Rightarrow> okey \<Rightarrow> kobj option) \<Rightarrow> 'w \<Rightarrow> tool_route \<Rightarrow> bool" where
  "route_at_rest lib at w route =
     (blocked_now lib (OToolRoute route) reasonToolRouteGatewayNotFound \<and> route_gateway_missing (at w) route
      \<or> (\<exists>tg. route_targets (at w) route tg
           \<and> (\<not> (\<exists>c. claims_gateway at w tg c)
              \<or> ready_now lib (OToolRoute route) \<and> tr_Url route = route_url tg (route_path route)
                \<and> (\<exists>up. upstream_wanted lib route (at w) up \<and> route_settled lib tg route up (at w)))))"

fun at_rest :: "'w reconciler \<Rightarrow> 'w guard_reconciler \<Rightarrow> ('w \<Rightarrow> okey \<Rightarrow> kobj option) \<Rightarrow> 'w \<Rightarrow> worker \<Rightarrow> nsname \<Rightarrow> bool" where
  "at_rest r gr at w GuardWorker req =
     (\<forall>g. at w (KGuard, req) = Some (OGuard g) \<longrightarrow> guard_at_rest (r_Lib gr) (r_AdapterImage gr) (at w) g)"
| "at_rest r gr at w GatewayWorker req =
     (\<forall>tg. at w (KToolGateway, req) = Some (OToolGateway tg) \<longrightarrow> gateway_at_rest (r_Lib r) at w tg)"
| "at_rest r gr at w RouteWorker req =
     (\<forall>route. at w (KToolRoute, req) = Some (OToolRoute route) \<longrightarrow> route_at_rest (r_Lib r) at w route)"

section \<open>What other clients and the API server are relied on for\<close>

text \<open>
  The events that nobody is registered for: other clients do not change an object that a stored
  route controls and does not watch (its backend, its filter policy), do not create policies
  with the operator's names, and leave the operator's classes alone.  Everything else they may
  do, deletions included.
\<close>

definition spares :: "('w \<Rightarrow> okey \<Rightarrow> kobj option) \<Rightarrow> 'w \<Rightarrow> 'w \<Rightarrow> bool" where
  "spares at w w' =
     ((\<forall>kd ns m n ob. kd \<in> {KBackend, KPolicy} \<and> at w (kd, (ns, m)) = Some ob
         \<and> controller_of (meta_of ob) = Some (KToolRoute, n) \<and> at w (KToolRoute, (ns, n)) \<noteq> None
         \<longrightarrow> at w' (kd, (ns, m)) = Some ob)
      \<and> (\<forall>ns m. (ends_with m ''-toolfilter'' \<or> ends_with m ''-guardrail'') \<and> at w (KPolicy, (ns, m)) = None
         \<longrightarrow> at w' (KPolicy, (ns, m)) = None)
      \<and> (\<forall>k c. tgc_Controller c = ToolGatewayAgentgatewayControllerName
         \<longrightarrow> (at w' (KToolGatewayClass, k) = Some (OToolGatewayClass c)) = (at w (KToolGatewayClass, k) = Some (OToolGatewayClass c))))"

text \<open>
  The API server answers lists and status patches; a get, a create, an update or a delete may
  fail at any time.
\<close>

locale answering_client = kube_client cl at events
  for cl :: "'w client" and at :: "'w \<Rightarrow> okey \<Rightarrow> kobj option" and events :: "'w \<Rightarrow> kevent list" +
  fixes answers :: "'w \<Rightarrow> bool"
  assumes answers_list: "answers w \<Longrightarrow> \<exists>obs. c_list cl kd None w = Inr obs"
    and answers_patch: "answers w \<Longrightarrow> at w (key_of n) \<noteq> None \<Longrightarrow> fst (c_patch_status cl b n w) = None"

definition mem_answers :: "cluster \<Rightarrow> bool" where
  "mem_answers w = list_all (\<lambda>(c, _). (case c of CallList _ _ \<Rightarrow> False | CallPatchStatus _ \<Rightarrow> False | _ \<Rightarrow> True)) (k_Faults w)"

interpretation mem_answering: answering_client mem_client mem_at k_Events mem_answers
proof (unfold_locales, goal_cases)
  case (1 w kd)
  then have "fault (CallList kd None) w = None"
    by (fastforce simp: fault_def mem_answers_def list_all_iff dest: map_of_SomeD split: option.splits)
  then show ?case by (simp add: mem_list_def)
next
  case (2 w n b)
  then have "fault (CallPatchStatus (key_of n)) w = None"
    by (fastforce simp: fault_def mem_answers_def list_all_iff dest: map_of_SomeD split: option.splits)
  with 2 show ?case by (auto simp: mem_patch_status_def split: option.splits)
qed

end
