(* ===== verification/RestRuns.thy ===== *)
theory RestRuns
  imports WorkQueue
begin

text \<open>
  A run that returns without an error leaves its resource at rest.
\<close>

text \<open>A stored object is read, or the read fails for another reason than its absence.\<close>

context kube_client
begin

lemma get_as_stored:
  assumes "at w k = Some ob" "dec ob = Inr a"
  obtains "get_as dec cl k w = Inr a" | e where "get_as dec cl k w = Inl e" "\<not> is_not_found e"
proof (cases "c_get cl k w")
  case (Inl e)
  with get_missing [of k w e] assms(1) that(2) show thesis by (auto simp: get_as_def)
next
  case (Inr x)
  with get_some [OF Inr] assms that(1) show thesis by (simp add: get_as_def)
qed

end

section \<open>Guards\<close>

context guard_operator
begin

lemma guard_run_rests:
  assumes run: "Guard_Reconcile r req w = (None, w')" and st: "at w (KGuard, req) = Some (OGuard g)"
    and patch: "\<And>b n. at w (key_of n) \<noteq> None \<Longrightarrow> fst (c_patch_status (r_Client r) b n w) = None"
    and st': "at w' (KGuard, req) = Some (OGuard g')"
  shows "guard_at_rest (r_Lib r) (r_AdapterImage r) (at w') g'"
proof (cases rule: guard_run [OF run st, case_names read ready failed])
  case (ready reason msg w1)
  let ?g = "set_guard_ready (r_Lib r) g ConditionTrue guardReasonReconciled ''Adapter resources reconciled''"
  obtain p data where p: "fetchProvider r g w = Inr p" "valid_guard g p" "l_json_to_yaml (r_Lib r) (guard_static_config g p) = Inr data"
    "adapter_settled (r_Lib r) (r_AdapterImage r) g data (at w1)" by (rule reconcileGuard_ok [OF ready(1)])
  have g': "g' = ?g" using setReady_at(1) [OF ready(4)] ready(2,3) st' by simp
  have same: "at w' k = at w1 k" if "fst k \<noteq> KGuard" for k
    by (rule unchangedD [OF setReady_frame [OF ready(4)]]) (use that in auto)
  have "at w1 (KGuardrailProvider, provider_key g) = Some (OGuardrailProvider p)"
    using unchangedD [OF reconcileGuard_frame [OF ready(1)], of "(KGuardrailProvider, provider_key g)"] fetchProvider_some [OF p(1)]
    by (simp add: adapter_keys_def)
  moreover have "adapter_settled (r_Lib r) (r_AdapterImage r) g data (at w')"
    by (rule adapter_settled_frame [THEN iffD2, OF same p(4)]) (auto simp: adapter_keys_def)
  ultimately have "guard_adapted (r_Lib r) (r_AdapterImage r) (at w') ?g"
    using p(2,3) same by (auto simp: guard_adapted_def conditions_irrelevant)
  moreover have "ready_now (r_Lib r) (OGuard ?g)"
    using find_guard_ready [of g ConditionTrue guardReasonReconciled "''Adapter resources reconciled''"]
    by (auto simp: ready_now_def guardReadyType_def readyConditionType_def set_guard_ready_def)
  ultimately show ?thesis by (simp add: g' guard_at_rest_def)
next
  case (failed reason msg e w1 y)
  let ?g = "set_guard_ready (r_Lib r) g ConditionFalse reason msg"
  have t: "isTerminalReason reason" using failed(5) by (simp split: if_splits)
  note why = reconcileGuard_failed [OF failed(1)]
  have w1: "w1 = w" by (rule why(5) [OF t])
  have "key_of (OGuard ?g) = (KGuard, req)" using failed(2) by (simp add: key_of_def set_guard_ready_def)
  with patch [of "OGuard ?g" "OGuard g"] st have "y = None"
    using failed(4) w1 by (auto simp: setReadyCondition_def split: prod.splits option.splits)
  then have g': "g' = ?g" using setReady_at(1) [OF failed(4)] failed(2,3) st' by simp
  have "at w' (KGuardrailProvider, k) = at w (KGuardrailProvider, k)" for k
    using unchangedD [OF setReady_frame [OF failed(4)], of "(KGuardrailProvider, k)"] w1 by simp
  then have "guard_blocked (r_AdapterImage r) (at w') ?g reason"
    using t why(1-4) unfolding guard_blocked_def conditions_irrelevant by (auto simp: isTerminalReason_def)
  moreover have "blocked_now (r_Lib r) (OGuard ?g) reason"
    using find_guard_ready [of g ConditionFalse reason msg]
    by (auto simp: blocked_now_def guardReadyType_def readyConditionType_def set_guard_ready_def)
  ultimately show ?thesis by (auto simp: g' guard_at_rest_def)
qed simp

end

section \<open>Gateways\<close>

context gateway_operator
begin

lemma gateway_run_none:
  assumes run: "ToolGateway_Reconcile r req w = (None, w')" and st: "at w (KToolGateway, req) = Some (OToolGateway tg)"
    and own: "claims_gateway at w tg c"
  obtains reason w1 where "meta_key (tg_Meta tg) = req"
    "reconcileToolGateway r tg w = ((reason, None), clear_unsupported (r_Lib r) tg, w1)"
    "at w1 (KToolGateway, req) = Some (OToolGateway tg)"
    "updateStatusReady r (clear_unsupported (r_Lib r) tg) w1 = (None, w')"
proof (cases rule: gateway_run [OF run st, case_names idle ready failed])
  case idle
  have g: "get_as as_tool_gateway (r_Client r) (KToolGateway, req) w = Inr tg"
    by (cases rule: get_as_stored [OF st, of as_tool_gateway tg]) (use run in \<open>simp_all add: ToolGateway_Reconcile_def\<close>)
  have "isToolGatewayOwnedByController (r_Client r) tg w = Inr True"
    using owned_iff [of tg w] own run g
    by (cases "isToolGatewayOwnedByController (r_Client r) tg w") (auto simp: ToolGateway_Reconcile_def)
  moreover obtain reason z tg' w1 where rt: "reconcileToolGateway r tg w = ((reason, z), tg', w1)" by (metis prod_cases3 surj_pair)
  ultimately have "z = None" "updateStatusReady r tg' w1 = (None, w')"
    using run g by (cases z; auto simp: ToolGateway_Reconcile_def split: prod.splits)+
  with rt reconcileToolGateway_ok(1) that [of reason w1] unchangedD [OF reconcileToolGateway_frame [OF rt] KGuard_keys(2), of req] st
    at_key [OF st] show thesis by (auto simp: key_of_def)
qed (use that in auto)

lemma gateway_run_rests:
  assumes run: "ToolGateway_Reconcile r req w = (None, w')" and st: "at w (KToolGateway, req) = Some (OToolGateway tg)"
    and st': "at w' (KToolGateway, req) = Some (OToolGateway tg')" and own: "claims_gateway at w tg c"
  shows "ready_now (r_Lib r) (OToolGateway tg') \<and> tg_Url tg' = gateway_url tg' \<and> gateway_settled (r_Lib r) tg' (at w')"
proof -
  obtain reason w1 where key: "meta_key (tg_Meta tg) = req"
    and rt: "reconcileToolGateway r tg w = ((reason, None), clear_unsupported (r_Lib r) tg, w1)"
    and st1: "at w1 (KToolGateway, req) = Some (OToolGateway tg)"
    and up: "updateStatusReady r (clear_unsupported (r_Lib r) tg) w1 = (None, w')"
    by (rule gateway_run_none [OF run st own])
  let ?b = "clear_unsupported (r_Lib r) tg"
  let ?n = "tg_ready (r_Lib r) ?b"
  let ?c = "ready_condition (tg_Meta tg) ConditionTrue reasonReconciled ''Gateway and its backing resources are configured''"
  note p = up [unfolded updateStatusReady_def]
  have m: "tg_Meta ?n = tg_Meta tg" by (simp add: tg_ready_def clear_unsupported_def)
  have tg': "tg' = merged_tg ?b ?n tg" using patch_tg_at(1) [OF p] st1 st' key m by simp
  have fields: "tg_Meta tg' = tg_Meta tg" "tg_Env tg' = tg_Env tg" "tg_EnvFrom tg' = tg_EnvFrom tg" "tg_Guardrails tg' = tg_Guardrails tg"
    by (simp_all add: tg' merged_tg_def)
  have "gateway_settled (r_Lib r) tg (at w1)" by (rule reconcileToolGateway_ok(2) [OF rt])
  moreover have "gateway_settled (r_Lib r) tg (at w') = gateway_settled (r_Lib r) tg (at w1)"
    by (rule store_cong(1)) (use unchangedD [OF patch_tg_frame [OF p]] in \<open>auto simp: split_beta\<close>)
  ultimately have settled: "gateway_settled (r_Lib r) tg' (at w')" using same_tg_mutate(1) [OF fields] by simp
  have "tg_Conditions ?n = l_set_condition (r_Lib r) (tg_Conditions ?b) ?c"
    by (simp add: tg_ready_def clear_unsupported_def)
  moreover obtain d where d: "l_find_condition (r_Lib r) (l_set_condition (r_Lib r) (tg_Conditions ?b) ?c) readyConditionType = Some d"
    "same_condition d ?c" using find_set [of "tg_Conditions ?b" ?c] by auto
  moreover have "l_find_condition (r_Lib r) (tg_Conditions ?b) readyConditionType = l_find_condition (r_Lib r) (tg_Conditions tg) readyConditionType"
    by (simp add: clear_unsupported_def find_remove_other)
  ultimately have "l_find_condition (r_Lib r) (tg_Conditions tg') readyConditionType = Some d"
    by (auto simp: tg' merged_tg_def patch_field_def)
  with same_condition_fields [OF d(2)] have "ready_now (r_Lib r) (OToolGateway tg')"
    by (simp add: ready_now_def ready_condition_def fields)
  moreover have "tg_Url tg' = gateway_url tg'"
    by (simp add: tg' merged_tg_def patch_field_def tg_ready_def clear_unsupported_def gateway_url_def)
  ultimately show ?thesis using settled by blast
qed

section \<open>Routes\<close>

lemma route_run_none:
  assumes run: "ToolRoute_Reconcile r req w = (None, w')" and st: "at w (KToolRoute, req) = Some (OToolRoute route)"
  obtains (missing) msg y where "route_gateway_missing (at w) route" "meta_key (tr_Meta route) = req"
      "route_updateStatusNotReady r route reasonToolRouteGatewayNotFound msg w = (y, w')"
  | (foreign) tg where "w' = w" "route_targets (at w) route tg" "\<not> (\<exists>c. claims_gateway at w tg c)"
  | (ready) tg w1 where "route_targets (at w) route tg" "meta_key (tr_Meta route) = req"
      "reconcileToolRoute r route tg w = ((route_path route, [], None), w1)"
      "at w1 (KToolRoute, req) = Some (OToolRoute route)"
      "route_updateStatusReady r route tg (route_path route) w1 = (None, w')"
proof (cases rule: route_run [OF run st, case_names idle missing ready failed])
  case idle
  have key: "meta_key (tr_Meta route) = req" using at_key [OF st] by (simp add: key_of_def)
  have g: "get_as as_tool_route (r_Client r) (KToolRoute, req) w = Inr route"
    by (cases rule: get_as_stored [OF st, of as_tool_route route]) (use run in \<open>simp_all add: ToolRoute_Reconcile_def\<close>)
  note run' = run [unfolded ToolRoute_Reconcile_def g sum.case]
  show thesis
  proof (cases "resolveToolGatewayKey (r_Client r) route w")
    case (Inl e)
    with run' show thesis using missing [OF resolve_missing(1) [OF Inl] key] by (auto split: if_splits prod.splits)
  next
    case k: (Inr gk)
    show thesis
    proof (cases "get_as as_tool_gateway (r_Client r) (KToolGateway, gk) w")
      case (Inl e)
      with run' k show thesis using missing [OF resolve_missing(2) [OF k Inl] key] by (auto simp: Let_def split: if_splits prod.splits)
    next
      case tg: (Inr tg)
      note t = resolve_targets [OF k tg]
      show thesis
      proof (cases "isToolGatewayOwnedByController (r_Client r) tg w")
        case (Inl e)
        with run' k tg show thesis by simp
      next
        case own: (Inr b)
        show thesis
        proof (cases b)
          case False
          with foreign [OF idle t] owned_iff [OF own] show thesis by simp
        next
          case True
          obtain path reason z w1 where rt: "reconcileToolRoute r route tg w = ((path, reason, z), w1)" by (metis prod_cases3 surj_pair)
          have z: "z = None" using run' k tg own True rt by (cases z) (auto split: prod.splits)
          have "path = route_path route" "reason = []"
            using reconcileToolRoute_ok(1) rt z by (auto simp: reconcileToolRoute_def split: prod.splits option.splits sum.splits)
          moreover have "at w1 (KToolRoute, req) = Some (OToolRoute route)"
            using unchangedD [OF reconcileToolRoute_frame [OF rt] other_kinds(1)] st by simp
          ultimately show thesis using ready [OF t key, of w1] run' k tg own True rt z by simp
        qed
      qed
    qed
  qed
qed (use missing ready in auto)

lemma route_missing_cong:
  assumes "tr_ToolGatewayRef a = tr_ToolGatewayRef b" "tr_Meta a = tr_Meta b" "\<And>k. s (KToolGateway, k) = s' (KToolGateway, k)"
  shows "route_gateway_missing s a = route_gateway_missing s' b"
  using assms by (simp add: route_gateway_missing_def gateway_ref_key_def key_of_def split: option.split)

lemma claims_cong:
  assumes "\<And>k. at w' (KToolGatewayClass, k) = at w (KToolGatewayClass, k)"
  shows "claims_gateway at w' tg c = claims_gateway at w tg c"
  using assms by (simp add: claims_gateway_def key_of_def)

lemma route_run_rests:
  assumes run: "ToolRoute_Reconcile r req w = (None, w')" and st: "at w (KToolRoute, req) = Some (OToolRoute route)"
    and patch: "\<And>b n. at w (key_of n) \<noteq> None \<Longrightarrow> fst (c_patch_status (r_Client r) b n w) = None"
    and st': "at w' (KToolRoute, req) = Some (OToolRoute route')"
  shows "route_at_rest (r_Lib r) at w' route'"
proof (cases rule: route_run_none [OF run st, case_names missing foreign ready])
  case (missing msg y)
  let ?n = "tr_not_ready (r_Lib r) route reasonToolRouteGatewayNotFound msg"
  let ?c = "ready_condition (tr_Meta route) ConditionFalse reasonToolRouteGatewayNotFound msg"
  note p = missing(3) [unfolded route_updateStatusNotReady_def]
  have "key_of (OToolRoute ?n) = (KToolRoute, req)" using missing(2) by (simp add: key_of_def)
  with patch [of "OToolRoute ?n" "OToolRoute route"] st p have "y = None"
    by (auto simp: patch_route_def split: prod.splits option.splits)
  then have r': "route' = merged_tr route ?n route" using patch_route_at(1) [OF p] st st' missing(2) by simp
  obtain d where d: "l_find_condition (r_Lib r) (tr_Conditions ?n) readyConditionType = Some d" "same_condition d ?c"
    using find_set [of "tr_Conditions route" ?c] by (auto simp: tr_not_ready_def)
  then have "l_find_condition (r_Lib r) (tr_Conditions route') readyConditionType = Some d" "tr_Meta route' = tr_Meta route"
    "tr_ToolGatewayRef route' = tr_ToolGatewayRef route"
    by (auto simp: r' merged_tr_def patch_field_def)
  moreover from this have "route_gateway_missing (at w') route'"
    using route_missing_cong [of route' route "at w'" "at w"] missing(1,2) unchangedD [OF patch_route_frame [OF p]] by simp
  ultimately show ?thesis
    using same_condition_fields [OF d(2)] by (auto simp: route_at_rest_def blocked_now_def ready_condition_def)
next
  case (foreign tg)
  with st st' show ?thesis by (auto simp: route_at_rest_def)
next
  case (ready tg w1)
  let ?n = "tr_ready (r_Lib r) route (route_url tg (route_path route))"
  obtain v where p: "patch_route r route ?n w1 = (None, v)" and v: "at w' = at v" by (rule route_ready_patch [OF ready(5)])
  have r': "route' = merged_tr route ?n route" using patch_route_at(1) [OF p] ready(2,4) st' v by simp
  have meta: "tr_Meta route' = tr_Meta route" by (simp add: r' merged_tr_def)
  note fr = reconcileToolRoute_frame [OF ready(3)] ready_frame [OF ready(5,2)]
  obtain up where up: "resolveRouteUpstream (r_Lib r) (r_Client r) route w = Inr up" "route_settled (r_Lib r) tg route up (at w1)"
    using reconcileToolRoute_ok(2) [OF ready(3)] by blast
  have same: "at w' j = at w1 j" if "fst j \<noteq> KToolRoute" for j using unchangedD [OF fr(2), of j] that by (cases j) auto
  have "route_settled (r_Lib r) tg route up (at w')" using up(2) route_store_cong(1) [OF same] by simp
  moreover have "upstream_wanted (r_Lib r) route (at w') up" using resolve_wanted [OF up(1)] wanted_frame [OF fr] by simp
  moreover have "route_targets (at w') route tg"
    using ready(1) by (cases "tr_ToolGatewayRef route") (simp_all add: route_targets_def key_of_def upstream_frame(2) [OF fr])
  moreover have "l_find_condition (r_Lib r) (tr_Conditions route') readyConditionType = l_find_condition (r_Lib r) (tr_Conditions ?n) readyConditionType"
    "tr_Url route' = route_url tg (route_path route)"
    unfolding r' merged_tr_def patch_field_def by (simp_all add: tr_ready_def)
  then have "ready_now (r_Lib r) (OToolRoute route')" "tr_Url route' = route_url tg (route_path route)"
    using same_condition_fields find_set [of "tr_Conditions route"
      "ready_condition (tr_Meta route) ConditionTrue reasonReconciled (''ToolRoute is ready at '' @ route_url tg (route_path route))"]
    by (auto simp: ready_now_def meta tr_ready_def ready_condition_def dest!: same_condition_fields)
  moreover have "tr_ToolGatewayRef route' = tr_ToolGatewayRef route" "tr_ToolServerRef route' = tr_ToolServerRef route"
    "tr_External route' = tr_External route" "tr_ToolFilter route' = tr_ToolFilter route" by (simp_all add: r' merged_tr_def)
  note fields = same_tr [OF meta this]
  ultimately show ?thesis unfolding route_at_rest_def fields by blast
qed

end

end
