(* ===== verification/Quiescence.thy ===== *)
theory Quiescence
  imports RestRuns
begin

text \<open>
  No change is lost: a resource that is at rest stays so unless one of the events of a change
  enqueues it, so at every moment every resource is queued or at rest.
\<close>

section \<open>The operator with its queues\<close>

locale queued_operator =
  tool_operator r gr at events + event_delivery at enq + answering_client "r_Client r" at events answers
    + guard_api: answering_client "r_Client gr" at events answers
  for r :: "'w reconciler" and gr :: "'w guard_reconciler" and at :: "'w \<Rightarrow> okey \<Rightarrow> kobj option"
    and events :: "'w \<Rightarrow> kevent list" and enq :: "'w controller_setup \<Rightarrow> 'w \<Rightarrow> 'w \<Rightarrow> nsname set"
    and answers :: "'w \<Rightarrow> bool"
begin

lemma stored_guard: "at w (KGuard, k) \<noteq> None \<Longrightarrow> \<exists>g. at w (KGuard, k) = Some (OGuard g)"
  using stored_kinds(3) [OF stored_kind] by (cases "at w (KGuard, k)") fastforce+

lemma stored_gateway: "at w (KToolGateway, k) \<noteq> None \<Longrightarrow> \<exists>tg. at w (KToolGateway, k) = Some (OToolGateway tg)"
  using stored_kinds(1) [OF stored_kind] by (cases "at w (KToolGateway, k)") fastforce+

lemma stored_route: "at w (KToolRoute, k) \<noteq> None \<Longrightarrow> \<exists>rt. at w (KToolRoute, k) = Some (OToolRoute rt)"
  using stored_kinds(2) [OF stored_kind] by (cases "at w (KToolRoute, k)") fastforce+

lemma run_rests:
  assumes run: "reconcile_of r gr a req w = (None, w')" and ok: "answers w"
  shows "at_rest r gr at w' a req"
proof (cases a)
  case GuardWorker
  have run: "Guard_Reconcile gr req w = (None, w')" using run GuardWorker by simp
  have "guard_at_rest (r_Lib gr) (r_AdapterImage gr) (at w') g'" if st': "at w' (KGuard, req) = Some (OGuard g')" for g'
  proof -
    obtain g where "at w (KGuard, req) = Some (OGuard g)" using stored_guard absent_guard [OF run] st' by fastforce
    from guards.guard_run_rests [OF run this guard_api.answers_patch [OF ok] st'] show ?thesis .
  qed
  with GuardWorker show ?thesis by simp
next
  case GatewayWorker
  have run: "ToolGateway_Reconcile r req w = (None, w')" using run GatewayWorker by simp
  have "gateway_at_rest (r_Lib r) at w' tg'" if st': "at w' (KToolGateway, req) = Some (OToolGateway tg')" for tg'
  proof (cases "\<exists>c. claims_gateway at w' tg' c")
    case True
    then obtain c where c: "claims_gateway at w' tg' c" by blast
    obtain tg where st: "at w (KToolGateway, req) = Some (OToolGateway tg)" using stored_gateway absent_gateway [OF run] st' by fastforce
    obtain u cs where "tg' = tg\<lparr>tg_Url := u, tg_Conditions := cs\<rparr>" using gateway_spec_kept [OF run st] st' by auto
    with c have "claims_gateway at w' tg c" by (simp add: claims_gateway_def)
    moreover have "at w' (KToolGatewayClass, k) = at w (KToolGatewayClass, k)" for k
      by (rule gateway_kinds [OF run st]) (simp_all add: KParameters_def KPolicy_def)
    ultimately have "claims_gateway at w tg c" using claims_cong by blast
    from gateway_run_rests [OF run st st' this] show ?thesis by (simp add: gateway_at_rest_def)
  qed (simp add: gateway_at_rest_def)
  with GatewayWorker show ?thesis by simp
next
  case RouteWorker
  have run: "ToolRoute_Reconcile r req w = (None, w')" using run RouteWorker by simp
  have "route_at_rest (r_Lib r) at w' rt'" if st': "at w' (KToolRoute, req) = Some (OToolRoute rt')" for rt'
  proof -
    obtain rt where "at w (KToolRoute, req) = Some (OToolRoute rt)" using stored_route absent_route [OF run] st' by fastforce
    from route_run_rests [OF run this answers_patch [OF ok] st'] show ?thesis .
  qed
  with RouteWorker show ?thesis by simp
qed

section \<open>Changes that enqueue nothing\<close>

text \<open>What a controller owns, and what its mapping functions find.\<close>

lemma owned_kept:
  assumes "kd \<in> set (su_Owns su)" "at w (kd, k) = Some ob" "controller_of (meta_of ob) = Some (su_For su, snd req)"
    and "fst k = fst req" "req \<notin> enq su w w'"
  shows "at w' (kd, k) = at w (kd, k)"
  using enq_owned [OF assms(1), of w' k w ob "snd req"] assms(2-5) by (metis prod.collapse)

lemma watched_kept:
  assumes f: "(kd, f) \<in> set (su_Watches su)" "req \<notin> enq su w w'"
    and found: "\<And>ob. at w (kd, k) = Some ob \<or> at w' (kd, k) = Some ob \<Longrightarrow> req \<in> set (f ob w')"
  shows "at w' (kd, k) = at w (kd, k)"
proof (rule ccontr)
  assume ch: "at w' (kd, k) \<noteq> at w (kd, k)"
  then obtain ob where ob: "at w (kd, k) = Some ob \<or> at w' (kd, k) = Some ob"
    by (cases "at w (kd, k)"; cases "at w' (kd, k)") auto
  from enq_watched [OF f(1) ch ob found [OF ob]] f(2) show False by blast
qed

lemma provider_kept:
  assumes ok: "answers w'" and st: "at w' (KGuard, req) = Some (OGuard g)" and q: "req \<notin> enq (Guard_SetupWithManager gr) w w'"
  shows "at w' (KGuardrailProvider, provider_key g) = at w (KGuardrailProvider, provider_key g)"
proof (rule watched_kept [OF _ q])
  show "(KGuardrailProvider, findGuardsForProvider gr) \<in> set (su_Watches (Guard_SetupWithManager gr))"
    by (simp add: Guard_SetupWithManager_def)
  obtain obs where l: "c_list (r_Client gr) KGuard None w' = Inr obs" using guard_api.answers_list [OF ok] by blast
  show "req \<in> set (findGuardsForProvider gr ob w')"
    if "at w (KGuardrailProvider, provider_key g) = Some ob \<or> at w' (KGuardrailProvider, provider_key g) = Some ob" for ob
  proof -
    have "key_of ob = (KGuardrailProvider, provider_key g)" using that at_key by blast
    then obtain p where "ob = OGuardrailProvider p" "provider_key g = meta_key (gp_Meta p)"
      by (cases ob) (auto simp: key_of_def)
    with guards.finds_guards [OF l] st show ?thesis by auto
  qed
qed

lemma guard_ref_kept:
  assumes ok: "answers w'" and st: "at w' (KToolGateway, req) = Some (OToolGateway tg)" and q: "req \<notin> enq (ToolGateway_SetupWithManager r) w w'"
    and ref: "ref \<in> set (tg_Guardrails tg)"
  shows "at w' (KGuard, guard_ref_key tg ref) = at w (KGuard, guard_ref_key tg ref)"
proof (rule watched_kept [OF _ q])
  show "(KGuard, findToolGatewayForGuard r) \<in> set (su_Watches (ToolGateway_SetupWithManager r))"
    by (simp add: ToolGateway_SetupWithManager_def)
  obtain obs where l: "c_list (r_Client r) KToolGateway None w' = Inr obs" using answers_list [OF ok] by blast
  show "req \<in> set (findToolGatewayForGuard r ob w')"
    if "at w (KGuard, guard_ref_key tg ref) = Some ob \<or> at w' (KGuard, guard_ref_key tg ref) = Some ob" for ob
  proof -
    have "key_of ob = (KGuard, guard_ref_key tg ref)" using that at_key by blast
    then obtain g where "ob = OGuard g" "guard_ref_key tg ref = meta_key (g_Meta g)" by (cases ob) (auto simp: key_of_def)
    with finds_gateways [OF l] st ref show ?thesis by force
  qed
qed

lemma gateway_ref_kept:
  assumes ok: "answers w'" and st: "at w' (KToolRoute, req) = Some (OToolRoute route)" and q: "req \<notin> enq (ToolRoute_SetupWithManager r) w w'"
    and names: "case tr_ToolGatewayRef route of Some ref \<Rightarrow> k = gateway_ref_key route ref | None \<Rightarrow> fst k = defaultToolGatewayNamespace"
  shows "at w' (KToolGateway, k) = at w (KToolGateway, k)"
proof (rule watched_kept [OF _ q])
  show "(KToolGateway, findToolRoutesForToolGateway r) \<in> set (su_Watches (ToolRoute_SetupWithManager r))"
    by (simp add: ToolRoute_SetupWithManager_def)
  obtain obs where l: "c_list (r_Client r) KToolRoute None w' = Inr obs" using answers_list [OF ok] by blast
  show "req \<in> set (findToolRoutesForToolGateway r ob w')"
    if "at w (KToolGateway, k) = Some ob \<or> at w' (KToolGateway, k) = Some ob" for ob
  proof -
    have "key_of ob = (KToolGateway, k)" using that at_key by blast
    then obtain tg where "ob = OToolGateway tg" "k = meta_key (tg_Meta tg)" by (cases ob) (auto simp: key_of_def)
    with finds_routes_of_gateway [OF l] st names show ?thesis by (auto simp: meta_key_def split: option.splits)
  qed
qed

lemma server_ref_kept:
  assumes ok: "answers w'" and st: "at w' (KToolRoute, req) = Some (OToolRoute route)" and q: "req \<notin> enq (ToolRoute_SetupWithManager r) w w'"
    and ref: "tr_ToolServerRef route = Some ref"
  shows "at w' (KToolServer, server_ref_key route ref) = at w (KToolServer, server_ref_key route ref)"
proof (rule watched_kept [OF _ q])
  show "(KToolServer, findToolRoutesForToolServer r) \<in> set (su_Watches (ToolRoute_SetupWithManager r))"
    by (simp add: ToolRoute_SetupWithManager_def)
  obtain obs where l: "c_list (r_Client r) KToolRoute None w' = Inr obs" using answers_list [OF ok] by blast
  show "req \<in> set (findToolRoutesForToolServer r ob w')"
    if "at w (KToolServer, server_ref_key route ref) = Some ob \<or> at w' (KToolServer, server_ref_key route ref) = Some ob" for ob
  proof -
    have "key_of ob = (KToolServer, server_ref_key route ref)" using that at_key by blast
    then obtain ts where "ob = OToolServer ts" "server_ref_key route ref = meta_key (ts_Meta ts)" by (cases ob) (auto simp: key_of_def)
    with finds_routes_of_server [OF l] st ref show ?thesis by auto
  qed
qed

section \<open>Rest is kept\<close>

lemma guard_rest_kept:
  assumes rest: "guard_at_rest (r_Lib gr) (r_AdapterImage gr) (at w) g" and ok: "answers w'"
    and st: "at w (KGuard, req) = Some (OGuard g)" and st': "at w' (KGuard, req) = Some (OGuard g)"
    and q: "req \<notin> enq (Guard_SetupWithManager gr) w w'"
  shows "guard_at_rest (r_Lib gr) (r_AdapterImage gr) (at w') g"
proof -
  note p = provider_kept [OF ok st' q]
  have key: "adapter_key g = (fst req, adapterName g)" "m_Name (g_Meta g) = snd req"
    using at_key [OF st] by (auto simp: adapter_key_def key_of_def meta_key_def)
  have su: "su_For (Guard_SetupWithManager gr) = KGuard" by (simp add: Guard_SetupWithManager_def)
  have "at w' k = at w k" if s: "adapter_settled (r_Lib gr) (r_AdapterImage gr) g data (at w)" and k: "k \<in> adapter_keys g" for data k
  proof -
    obtain kd ob where ob: "k = (kd, adapter_key g)" "at w k = Some ob" "controller_of (meta_of ob) = Some (KGuard, m_Name (g_Meta g))"
      "kd \<in> set (su_Owns (Guard_SetupWithManager gr))"
      using k guards.settled_serves [OF s] by (auto simp: adapter_keys_def adapter_serves_def Guard_SetupWithManager_def)
    show ?thesis unfolding ob(1)
      by (rule owned_kept [OF ob(4) ob(2) [unfolded ob(1)] _ _ q]) (simp_all add: ob(3) su key)
  qed
  then have "adapter_settled (r_Lib gr) (r_AdapterImage gr) g data (at w')"
    if "adapter_settled (r_Lib gr) (r_AdapterImage gr) g data (at w)" for data
    using adapter_settled_frame [of g "at w'" "at w"] that by blast
  then have "guard_adapted (r_Lib gr) (r_AdapterImage gr) (at w') g" if "guard_adapted (r_Lib gr) (r_AdapterImage gr) (at w) g"
    using that unfolding guard_adapted_def p by blast
  moreover have "guard_blocked (r_AdapterImage gr) (at w') g reason = guard_blocked (r_AdapterImage gr) (at w) g reason" for reason
    by (simp add: guard_blocked_def p)
  ultimately show ?thesis using rest unfolding guard_at_rest_def by blast
qed

lemma claims_kept:
  assumes "\<And>k c. tgc_Controller c = ToolGatewayAgentgatewayControllerName \<Longrightarrow>
      (at w' (KToolGatewayClass, k) = Some (OToolGatewayClass c)) = (at w (KToolGatewayClass, k) = Some (OToolGatewayClass c))"
  shows "claims_gateway at w' tg c = claims_gateway at w tg c"
  using assms [of c "meta_key (tgc_Meta c)"] unfolding claims_gateway_def key_of_def by auto

lemma gateway_settled_kept:
  assumes "\<And>k. k \<in> gateway_keys tg \<Longrightarrow> s' k = s k"
    and "\<And>ref. ref \<in> set (tg_Guardrails tg) \<Longrightarrow> s' (KGuard, guard_ref_key tg ref) = s (KGuard, guard_ref_key tg ref)"
    and "gateway_settled lib tg s"
  shows "gateway_settled lib tg s'"
proof -
  have e: "s' (KGateway, tg_name_key tg) = s (KGateway, tg_name_key tg)" "s' (KParameters, tg_name_key tg) = s (KParameters, tg_name_key tg)"
    "s' (KPolicy, guardrail_key tg) = s (KPolicy, guardrail_key tg)" by (rule assms(1); simp add: gateway_keys_def)+
  show ?thesis using assms(2,3) unfolding gateway_settled_def e by (cases "tg_Guardrails tg" rule: remdups_adj.cases) auto
qed

lemma gateway_rest_kept:
  assumes rest: "gateway_at_rest (r_Lib r) at w tg" and ok: "answers w'"
    and st: "at w (KToolGateway, req) = Some (OToolGateway tg)" and st': "at w' (KToolGateway, req) = Some (OToolGateway tg)"
    and q: "req \<notin> enq (ToolGateway_SetupWithManager r) w w'"
    and claims: "\<And>c. claims_gateway at w' tg c = claims_gateway at w tg c"
    and policy: "at w (KPolicy, guardrail_key tg) = None \<Longrightarrow> at w' (KPolicy, guardrail_key tg) = None"
  shows "gateway_at_rest (r_Lib r) at w' tg"
proof -
  have key: "tg_name_key tg = req" "guardrail_key tg = (fst req, guardrail_name tg)" "m_Name (tg_Meta tg) = snd req"
    using at_key [OF st] by (auto simp: tg_name_key_def guardrail_key_def key_of_def meta_key_def)
  have su: "su_For (ToolGateway_SetupWithManager r) = KToolGateway" by (simp add: ToolGateway_SetupWithManager_def)
  have owned: "at w' (kd, k) = at w (kd, k)"
    if "kd \<in> {KGateway, KParameters, KPolicy}" "at w (kd, k) = Some ob" "fst k = fst req"
      "controller_of (meta_of ob) = Some (KToolGateway, m_Name (tg_Meta tg))" for kd k ob
    by (rule owned_kept [OF _ that(2) _ that(3) q]) (use that in \<open>simp_all add: key su ToolGateway_SetupWithManager_def\<close>)
  have "gateway_settled (r_Lib r) tg (at w')" if s: "gateway_settled (r_Lib r) tg (at w)"
  proof (rule gateway_settled_kept [OF _ guard_ref_kept [OF ok st' q] s])
    have serves: "gateway_serves (r_Lib r) tg (at w)" by (rule settled_serves [OF s])
    obtain gw u where objs: "at w (KGateway, tg_name_key tg) = Some (OGateway gw)" "controller_of (gw_Meta gw) = Some (KToolGateway, m_Name (tg_Meta tg))"
      "at w (KParameters, tg_name_key tg) = Some (OUnstructured u)" "controller_of (us_Meta u) = Some (KToolGateway, m_Name (tg_Meta tg))"
      using serves unfolding gateway_serves_def by blast
    have g: "at w' (KGateway, tg_name_key tg) = at w (KGateway, tg_name_key tg)"
      by (rule owned [OF _ objs(1)]) (simp_all add: key objs(2))
    have u: "at w' (KParameters, tg_name_key tg) = at w (KParameters, tg_name_key tg)"
      by (rule owned [OF _ objs(3)]) (simp_all add: key objs(4))
    have p: "at w' (KPolicy, guardrail_key tg) = at w (KPolicy, guardrail_key tg)"
    proof (cases "tg_Guardrails tg")
      case Nil
      with serves policy show ?thesis by (auto simp: gateway_serves_def)
    next
      case (Cons ref refs)
      then obtain v where v: "at w (KPolicy, guardrail_key tg) = Some (OUnstructured v)"
        "controller_of (us_Meta v) = Some (KToolGateway, m_Name (tg_Meta tg))"
        using serves by (cases refs) (auto simp: gateway_serves_def)
      show ?thesis by (rule owned [OF _ v(1)]) (simp_all add: key v(2))
    qed
    show "at w' k = at w k" if "k \<in> gateway_keys tg" for k using that g u p unfolding gateway_keys_def by blast
  qed
  with rest show ?thesis by (auto simp: gateway_at_rest_def claims)
qed

lemma route_rest_kept:
  assumes rest: "route_at_rest (r_Lib r) at w route" and ok: "answers w'"
    and st: "at w (KToolRoute, req) = Some (OToolRoute route)" and st': "at w' (KToolRoute, req) = Some (OToolRoute route)"
    and q: "req \<notin> enq (ToolRoute_SetupWithManager r) w w'"
    and claims: "\<And>tg c. claims_gateway at w' tg c = claims_gateway at w tg c"
    and objs: "\<And>tg up. route_names route tg \<Longrightarrow> upstream_wanted (r_Lib r) route (at w) up \<Longrightarrow>
      route_settled (r_Lib r) tg route up (at w) \<Longrightarrow> route_settled (r_Lib r) tg route up (at w')"
  shows "route_at_rest (r_Lib r) at w' route"
proof -
  note gk = gateway_ref_kept [OF ok st' q]
  have missing: "route_gateway_missing (at w') route" if m: "route_gateway_missing (at w) route"
  proof (cases "tr_ToolGatewayRef route")
    case (Some ref)
    with m gk [of "gateway_ref_key route ref"] show ?thesis by (simp add: route_gateway_missing_def)
  next
    case None
    with m gk show ?thesis by (force simp: route_gateway_missing_def key_of_def meta_key_def)
  qed
  have targets: "route_targets (at w') route tg" if t: "route_targets (at w) route tg" for tg
  proof (cases "tr_ToolGatewayRef route")
    case (Some ref)
    with t gk [of "gateway_ref_key route ref"] show ?thesis by (simp add: route_targets_def)
  next
    case None
    with t gk [of "meta_key (tg_Meta tg)"] show ?thesis by (auto simp: route_targets_def key_of_def meta_key_def)
  qed
  have wanted: "upstream_wanted (r_Lib r) route (at w') up" if "upstream_wanted (r_Lib r) route (at w) up" for up
    using that server_ref_kept [OF ok st' q] by (cases "tr_ToolServerRef route") (simp_all add: upstream_wanted_def)
  show ?thesis
    using rest missing targets wanted objs targets_names unfolding route_at_rest_def claims by metis
qed

section \<open>The two kinds of changes\<close>

lemma spares_claims: "spares at w w' \<Longrightarrow> claims_gateway at w' tg c = claims_gateway at w tg c"
  by (rule claims_kept) (unfold spares_def, blast)

lemma spares_policy: "spares at w w' \<Longrightarrow> at w (KPolicy, guardrail_key tg) = None \<Longrightarrow> at w' (KPolicy, guardrail_key tg) = None"
  by (auto simp: spares_def guardrail_key_def guardrail_name_def ends_with_def)

lemma spares_route:
  assumes sp: "spares at w w'" and st: "at w (KToolRoute, req) = Some (OToolRoute route)"
    and q: "req \<notin> enq (ToolRoute_SetupWithManager r) w w'" and s: "route_settled (r_Lib r) tg route up (at w)"
  shows "route_settled (r_Lib r) tg route up (at w')"
proof -
  have req: "req = (m_Namespace (tr_Meta route), m_Name (tr_Meta route))" using at_key [OF st] by (simp add: key_of_def meta_key_def)
  have kept: "at w' (kd, (m_Namespace (tr_Meta route), m)) = at w (kd, (m_Namespace (tr_Meta route), m))"
    if "kd \<in> {KBackend, KPolicy}" "at w (kd, (m_Namespace (tr_Meta route), m)) = Some ob"
      "controller_of (meta_of ob) = Some (KToolRoute, m_Name (tr_Meta route))" for kd m ob
  proof -
    have "at w (KToolRoute, (m_Namespace (tr_Meta route), m_Name (tr_Meta route))) \<noteq> None" using st req by simp
    with conjunct1 [OF sp [unfolded spares_def]] that show ?thesis by (metis (no_types))
  qed
  note serves = route_settled_serves [OF s, unfolded route_serves_def]
  obtain u where u: "at w (KBackend, route_object_key tg route) = Some (OUnstructured u)"
    "controller_of (us_Meta u) = Some (KToolRoute, m_Name (tr_Meta route))" using serves by blast
  have b: "at w' (KBackend, route_object_key tg route) = at w (KBackend, route_object_key tg route)"
    unfolding route_object_key_def by (rule kept [OF _ u(1) [unfolded route_object_key_def]]) (simp_all add: u(2))
  obtain h where h: "at w (KHTTPRoute, route_object_key tg route) = Some (OHTTPRoute h)"
    "controller_of (hr_Meta h) = Some (KToolRoute, m_Name (tr_Meta route))" using serves by blast
  have h: "at w' (KHTTPRoute, route_object_key tg route) = at w (KHTTPRoute, route_object_key tg route)"
    by (rule owned_kept [OF _ h(1) _ _ q]) (simp_all add: ToolRoute_SetupWithManager_def h(2) req route_object_key_def)
  have p: "at w' (KPolicy, filter_policy_key tg route) = at w (KPolicy, filter_policy_key tg route)"
  proof (cases "at w (KPolicy, filter_policy_key tg route)")
    case None
    have "ends_with (filter_policy_name tg route) ''-toolfilter''" by (simp add: ends_with_def filter_policy_suffix)
    with None sp show ?thesis unfolding spares_def filter_policy_key_def by metis
  next
    case (Some ob)
    with serves obtain v where "ob = OUnstructured v" "controller_of (us_Meta v) = Some (KToolRoute, m_Name (tr_Meta route))"
      by (auto simp: policy_in_place_def Let_def split: if_splits)
    with kept Some show ?thesis by (simp add: filter_policy_key_def)
  qed
  show ?thesis by (rule route_settled_frame [THEN iffD2, OF _ s]) (use b h p in \<open>auto simp: route_keys_def\<close>)
qed

lemma reconcile_controller: "reconcile_of r gr b k w = (res, w') \<Longrightarrow> controller_step r gr w w'"
  by (cases b) (auto intro: controller_step.intros)

lemma controller_classes: "controller_step r gr w w' \<Longrightarrow> at w' (KToolGatewayClass, k) = at w (KToolGatewayClass, k)"
proof (elim controller_cases)
  show "Guard_Reconcile gr req w = (res, w') \<Longrightarrow> at w (KGuard, req) = Some (OGuard g) \<Longrightarrow> ?thesis" for req g res
    by (erule (1) guard_kinds) simp_all
  show "ToolGateway_Reconcile r req w = (res, w') \<Longrightarrow> at w (KToolGateway, req) = Some (OToolGateway tg) \<Longrightarrow> ?thesis" for req tg res
    by (erule (1) gateway_kinds) (simp_all add: KParameters_def KPolicy_def)
  show "ToolRoute_Reconcile r req w = (res, w') \<Longrightarrow> at w (KToolRoute, req) = Some (OToolRoute rt) \<Longrightarrow> ?thesis" for req rt res
    by (erule (1) route_kinds) (simp_all add: KBackend_def KPolicy_def)
qed simp

text \<open>Only the run of its own gateway creates a guardrail policy.\<close>

lemma controller_policy:
  assumes run: "reconcile_of r gr b k w = (res, w')" and other: "(b, k) \<noteq> (GatewayWorker, meta_key (tg_Meta tg))"
  shows "at w' (KPolicy, guardrail_key tg) = at w (KPolicy, guardrail_key tg)"
proof (cases b)
  case GuardWorker
  with run have run: "Guard_Reconcile gr k w = (res, w')" by simp
  show ?thesis
    using absent_guard [OF run] stored_guard guard_kinds [OF run, of _ "(KPolicy, guardrail_key tg)"] by (fastforce simp: KPolicy_def)
next
  case GatewayWorker
  with run have run: "ToolGateway_Reconcile r k w = (res, w')" by simp
  show ?thesis
  proof (cases "at w (KToolGateway, k)")
    case None
    with absent_gateway [OF run] show ?thesis by simp
  next
    case (Some ob)
    then obtain t where t: "at w (KToolGateway, k) = Some (OToolGateway t)" using stored_gateway by fastforce
    then have "meta_key (tg_Meta t) = k" using at_key by (fastforce simp: key_of_def)
    then have "(KPolicy, guardrail_key tg) \<notin> gateway_keys t"
      using other GatewayWorker gateway_keys_meet [of "(KPolicy, guardrail_key tg)" tg t] by (auto simp: gateway_keys_def)
    moreover have "(KPolicy, guardrail_key tg) \<noteq> (KToolGateway, k)" by (simp add: KPolicy_def)
    ultimately show ?thesis using gateway_frame [OF run t] by blast
  qed
next
  case RouteWorker
  with run have run: "ToolRoute_Reconcile r k w = (res, w')" by simp
  show ?thesis
  proof (cases "at w (KToolRoute, k)")
    case None
    with absent_route [OF run] show ?thesis by simp
  next
    case (Some ob)
    then obtain rt where rt: "at w (KToolRoute, k) = Some (OToolRoute rt)" using stored_route by fastforce
    have "(KPolicy, guardrail_key tg) \<notin> route_keys t rt" for t
      using filter_not_guardrail [of t rt tg] by (auto simp: route_keys_def guardrail_key_def filter_policy_key_def KPolicy_def KBackend_def)
    moreover have "(KPolicy, guardrail_key tg) \<noteq> (KToolRoute, k)" by (simp add: KPolicy_def)
    ultimately show ?thesis using route_frame [OF run rt] by blast
  qed
qed

text \<open>A change by other clients, or by a run on something else.\<close>

definition apart :: "worker \<Rightarrow> nsname \<Rightarrow> 'w \<Rightarrow> 'w \<Rightarrow> bool" where
  "apart a req w w' = (spares at w w' \<or> (\<exists>b k res. (b, k) \<noteq> (a, req) \<and> reconcile_of r gr b k w = (res, w')))"

lemma apart_claims: "apart a req w w' \<Longrightarrow> claims_gateway at w' tg c = claims_gateway at w tg c"
  unfolding apart_def using spares_claims claims_cong controller_classes [OF reconcile_controller] by blast

lemma rest_kept:
  assumes rest: "at_rest r gr at w a req" and ap: "apart a req w w'" and ok: "answers w'" and q: "req \<notin> enq (setup_of r gr a) w w'"
  shows "at_rest r gr at w' a req"
proof -
  have own: "at w' (su_For (setup_of r gr a), req) = at w (su_For (setup_of r gr a), req)" using enq_own q by blast
  show ?thesis
  proof (cases a)
    case GuardWorker
    with own have same: "at w' (KGuard, req) = at w (KGuard, req)" by (simp add: Guard_SetupWithManager_def)
    have "guard_at_rest (r_Lib gr) (r_AdapterImage gr) (at w') g" if g: "at w (KGuard, req) = Some (OGuard g)" for g
      by (rule guard_rest_kept [OF _ ok g]) (use rest q g same GuardWorker in simp_all)
    with GuardWorker same show ?thesis by simp
  next
    case GatewayWorker
    with own have same: "at w' (KToolGateway, req) = at w (KToolGateway, req)" by (simp add: ToolGateway_SetupWithManager_def)
    have "gateway_at_rest (r_Lib r) at w' tg" if tg: "at w (KToolGateway, req) = Some (OToolGateway tg)" for tg
    proof (rule gateway_rest_kept [OF _ ok tg _ _ apart_claims [OF ap]])
      have "req = meta_key (tg_Meta tg)" using at_key [OF tg] by (simp add: key_of_def)
      with ap GatewayWorker spares_policy [of w w' tg] controller_policy [of _ _ w _ w' tg]
      show "at w (KPolicy, guardrail_key tg) = None \<Longrightarrow> at w' (KPolicy, guardrail_key tg) = None" unfolding apart_def by metis
    qed (use rest q tg same GatewayWorker in simp_all)
    with GatewayWorker same show ?thesis by simp
  next
    case RouteWorker
    with own have same: "at w' (KToolRoute, req) = at w (KToolRoute, req)" by (simp add: ToolRoute_SetupWithManager_def)
    have "route_at_rest (r_Lib r) at w' route" if rt: "at w (KToolRoute, req) = Some (OToolRoute route)" for route
    proof (rule route_rest_kept [OF _ ok rt _ _ apart_claims [OF ap]])
      fix tg up
      assume names: "route_names route tg" and up: "upstream_wanted (r_Lib r) route (at w) up" "route_settled (r_Lib r) tg route up (at w)"
      have "route = route\<lparr>tr_Url := tr_Url route, tr_Conditions := tr_Conditions route\<rparr>" by simp
      with rt up have place: "route_in_place (r_Lib r) req tg route up (at w)" unfolding route_in_place_def by metis
      from ap show "route_settled (r_Lib r) tg route up (at w')"
        unfolding apart_def
      proof
        assume "spares at w w'"
        from spares_route [OF this rt _ up(2)] q RouteWorker show ?thesis by simp
      next
        assume "\<exists>b k res. (b, k) \<noteq> (a, req) \<and> reconcile_of r gr b k w = (res, w')"
        then have "controller_step r gr w w'" using reconcile_controller by blast
        from controller_keeps_route [OF this place names] show ?thesis by (simp add: route_in_place_def)
      qed
    qed (use rest q rt same RouteWorker in simp_all)
    with RouteWorker same show ?thesis by simp
  qed
qed

section \<open>Everything is queued or at rest\<close>

definition covered :: "'w operator_state \<Rightarrow> bool" where
  "covered s = (\<forall>a req. req \<in> os_Queue s a \<or> at_rest r gr at (os_World s) a req)"

lemma covered_stored:
  assumes "\<And>a. stored_requests at (su_For (setup_of r gr a)) (os_World s) \<subseteq> os_Queue s a"
  shows "covered s"
proof -
  have "at_rest r gr at (os_World s) a req" if "req \<notin> os_Queue s a" for a req
  proof -
    have "at (os_World s) (su_For (setup_of r gr a), req) = None" using assms [of a] that by (auto simp: stored_requests_def)
    then show ?thesis
      by (cases a) (simp_all add: Guard_SetupWithManager_def ToolGateway_SetupWithManager_def ToolRoute_SetupWithManager_def)
  qed
  then show ?thesis unfolding covered_def by blast
qed

lemma covered_step:
  assumes "operator_step r gr at enq (spares at) s s'" and inv: "covered s" and ok: "answers (os_World s)" "answers (os_World s')"
  shows "covered s'"
  using assms(1)
proof (cases rule: operator_stepE [consumes 1, case_names work others restart])
  case (work k b res w)
  have w: "os_World s' = w" using work(1) by simp
  have "req \<in> os_Queue s' a \<or> at_rest r gr at (os_World s') a req" for a req
  proof (cases "(b, k) = (a, req)")
    case True
    with work run_rests [OF _ ok(1), of b k] show ?thesis by (cases res) simp_all
  next
    case False
    with work(3) have ap: "apart a req (os_World s) w" unfolding apart_def by blast
    have "at_rest r gr at w a req" if "req \<notin> os_Queue s' a"
    proof (rule rest_kept [OF _ ap])
      show "req \<notin> enq (setup_of r gr a) (os_World s) w" using that by (simp add: work(1))
      have "req \<notin> os_Queue s a" using that False by (auto simp: work(1) split: if_splits)
      with inv show "at_rest r gr at (os_World s) a req" unfolding covered_def by blast
    qed (use ok(2) w in simp)
    with w show ?thesis by blast
  qed
  then show ?thesis unfolding covered_def by blast
next
  case (others w)
  then have "apart a req (os_World s) w" for a req unfolding apart_def by blast
  note kept = rest_kept [OF _ this]
  show ?thesis
    unfolding covered_def
  proof (intro allI disjCI)
    fix a req
    assume "\<not> at_rest r gr at (os_World s') a req"
    moreover have "req \<in> os_Queue s a \<or> at_rest r gr at (os_World s) a req" using inv unfolding covered_def by blast
    ultimately show "req \<in> os_Queue s' a" using kept [of a req] ok(2) by (auto simp: others(1))
  qed
next
  case restart
  show ?thesis by (rule covered_stored) (simp add: restart)
qed

lemma covered_reachable:
  assumes "(\<lambda>s s'. operator_step r gr at enq (spares at) s s' \<and> answers (os_World s'))\<^sup>*\<^sup>* s s'"
    and "covered s" "answers (os_World s)"
  shows "covered s' \<and> answers (os_World s')"
  using assms by (induction rule: rtranclp_induct) (blast intro: covered_step)+

lemma reached_rests:
  assumes "(\<lambda>s s'. operator_step r gr at enq (spares at) s s' \<and> answers (os_World s'))\<^sup>*\<^sup>* s s'"
    and "\<And>a. stored_requests at (su_For (setup_of r gr a)) (os_World s) \<subseteq> os_Queue s a" and "answers (os_World s)"
    and "req \<notin> os_Queue s' a"
  shows "at_rest r gr at (os_World s') a req"
  using covered_reachable [OF assms(1) covered_stored [OF assms(2)] assms(3)] assms(4) unfolding covered_def by blast

section \<open>A route at rest is served\<close>

lemma resting_route_served:
  assumes "route_at_rest (r_Lib r) at w route" and "tr_ToolGatewayRef route \<noteq> None"
    and "route_targets (at w) route tg" "claims_gateway at w tg c"
  obtains up where "ready_now (r_Lib r) (OToolRoute route)" "tr_Url route = route_url tg (route_path route)"
    "upstream_wanted (r_Lib r) route (at w) up" "route_serves tg route up (at w)"
proof -
  have "\<not> route_gateway_missing (at w) route"
    using assms(2,3) by (auto simp: route_gateway_missing_def route_targets_def split: option.splits)
  with assms(1) obtain t where t: "route_targets (at w) route t"
    "(\<exists>c. claims_gateway at w t c) \<longrightarrow> ready_now (r_Lib r) (OToolRoute route) \<and> tr_Url route = route_url t (route_path route)
       \<and> (\<exists>up. upstream_wanted (r_Lib r) route (at w) up \<and> route_settled (r_Lib r) t route up (at w))"
    unfolding route_at_rest_def by blast
  have "t = tg" by (rule targets_unique_ref [OF assms(2) t(1) assms(3)])
  with t(2) assms(4) route_settled_serves that show thesis by blast
qed

lemma resting_gateway_serves:
  assumes "gateway_at_rest (r_Lib r) at w tg" and "claims_gateway at w tg c"
  shows "ready_now (r_Lib r) (OToolGateway tg)" "tg_Url tg = gateway_url tg" "gateway_serves (r_Lib r) tg (at w)"
  using assms settled_serves unfolding gateway_at_rest_def by blast+

lemma resting_guard_adapts:
  assumes "\<And>g. at w (KGuard, k) = Some (OGuard g) \<Longrightarrow> guard_at_rest (r_Lib gr) img (at w) g" and "guard_is_ready (r_Lib r) (at w (KGuard, k))"
  obtains g p data where "at w (KGuard, k) = Some (OGuard g)" "ready_now (r_Lib r) (OGuard g)"
    "at w (KGuardrailProvider, provider_key g) = Some (OGuardrailProvider p)"
    "l_json_to_yaml (r_Lib r) (guard_static_config g p) = Inr data" "adapter_serves img g data (at w)"
proof -
  obtain g c where g: "at w (KGuard, k) = Some (OGuard g)"
    and c: "l_find_condition (r_Lib r) (g_Conditions g) ''Ready'' = Some c" "cd_Status c = ConditionTrue"
    using assms(2) by (auto simp: guard_is_ready_def)
  have "\<not> blocked_now (r_Lib r) (OGuard g) reason" for reason
    using c by (auto simp: blocked_now_def readyConditionType_def ConditionTrue_def ConditionFalse_def)
  with assms(1) [OF g] have "ready_now (r_Lib r) (OGuard g)" "guard_adapted (r_Lib r) img (at w) g"
    by (auto simp: guard_at_rest_def shared_lib)
  then show thesis using that [OF g] guards.settled_serves [unfolded shared_lib] unfolding guard_adapted_def by blast
qed

lemma reached_served:
  assumes "(\<lambda>s s'. operator_step r gr at enq (spares at) s s' \<and> answers (os_World s'))\<^sup>*\<^sup>* s s'"
    and "\<And>a. stored_requests at (su_For (setup_of r gr a)) (os_World s) \<subseteq> os_Queue s a" and "answers (os_World s)"
    and st: "at (os_World s') (KToolRoute, rk) = Some (OToolRoute route)" and ref: "tr_ToolGatewayRef route \<noteq> None"
    and tg: "route_targets (at (os_World s')) route tg" "claims_gateway at (os_World s') tg c"
    and rq: "rk \<notin> os_Queue s' RouteWorker" and gq: "meta_key (tg_Meta tg) \<notin> os_Queue s' GatewayWorker"
    and pq: "\<And>ref. ref \<in> set (tg_Guardrails tg) \<Longrightarrow> guard_ref_key tg ref \<notin> os_Queue s' GuardWorker"
  shows "ready_now (r_Lib r) (OToolRoute route) \<and> tr_Url route = route_url tg (route_path route)
     \<and> (\<exists>up. upstream_wanted (r_Lib r) route (at (os_World s')) up \<and> route_serves tg route up (at (os_World s')))
     \<and> ready_now (r_Lib r) (OToolGateway tg) \<and> gateway_serves (r_Lib r) tg (at (os_World s'))
     \<and> list_all (\<lambda>ref. \<exists>g p data. at (os_World s') (KGuard, guard_ref_key tg ref) = Some (OGuard g)
          \<and> ready_now (r_Lib r) (OGuard g)
          \<and> at (os_World s') (KGuardrailProvider, provider_key g) = Some (OGuardrailProvider p)
          \<and> l_json_to_yaml (r_Lib r) (guard_static_config g p) = Inr data
          \<and> adapter_serves (r_AdapterImage gr) g data (at (os_World s'))) (tg_Guardrails tg)"
proof -
  note rests = reached_rests [OF assms(1-3)]
  have "route_at_rest (r_Lib r) at (os_World s') route" using rests [OF rq] st by simp
  then obtain up where route: "ready_now (r_Lib r) (OToolRoute route)" "tr_Url route = route_url tg (route_path route)"
    "upstream_wanted (r_Lib r) route (at (os_World s')) up" "route_serves tg route up (at (os_World s'))"
    by (rule resting_route_served [OF _ ref tg])
  obtain x where "tr_ToolGatewayRef route = Some x" using ref by blast
  with tg(1) have k: "at (os_World s') (KToolGateway, gateway_ref_key route x) = Some (OToolGateway tg)"
    by (simp add: route_targets_def)
  then have "gateway_ref_key route x = meta_key (tg_Meta tg)" using at_key by (fastforce simp: key_of_def)
  then have "gateway_at_rest (r_Lib r) at (os_World s') tg" using rests [OF gq] k by simp
  note gateway = resting_gateway_serves [OF this tg(2)]
  have guard: "\<exists>g p data. at (os_World s') (KGuard, guard_ref_key tg ref) = Some (OGuard g) \<and> ready_now (r_Lib r) (OGuard g)
          \<and> at (os_World s') (KGuardrailProvider, provider_key g) = Some (OGuardrailProvider p)
          \<and> l_json_to_yaml (r_Lib r) (guard_static_config g p) = Inr data
          \<and> adapter_serves (r_AdapterImage gr) g data (at (os_World s'))" if m: "ref \<in> set (tg_Guardrails tg)" for ref
  proof -
    have "guard_is_ready (r_Lib r) (at (os_World s') (KGuard, guard_ref_key tg ref))"
      using gateway(3) m by (auto simp: gateway_serves_def split: list.splits)
    with rests [OF pq [OF m]] show ?thesis by (simp) (metis resting_guard_adapts)
  qed
  show ?thesis unfolding list_all_iff using route gateway(1,3) guard by blast
qed

end

end
