(* ===== verification/Drains.thy ===== *)
theory Drains
  imports Quiescence Liveness
begin

text \<open>
  Runs on what is in place already: in a healthy world they return without an error and change
  nothing, so the queues drain.
\<close>

section \<open>Runs that have nothing to do\<close>

context healthy_world
begin

lemma cop_again:
  assumes "healthy w" "at w (key_of ob) = Some st" "f st = Inr st"
  obtains w' where "c_create_or_patch (r_Client r) ob f w = (Inr OpNone, w')" "healthy w'" "at w' = at w"
proof -
  obtain op w' where w': "c_create_or_patch (r_Client r) ob f w = (Inr op, w')" "healthy w'"
    using healthy_cop [OF assms(1), of f ob st] assms(2,3) at_key [OF assms(2)] by auto
  note settled = cop_fixpoint [OF assms(2,3) w'(1)]
  have "at w' = at w" by (rule ext) (rule settled(2))
  with that w' settled(1) show thesis by simp
qed

end

context healthy_guard
begin

lemma guard_again:
  assumes w: "healthy w" and st: "at w (KGuard, req) = Some (OGuard g)" and img: "r_AdapterImage r \<noteq> []"
    and p: "at w (KGuardrailProvider, provider_key g) = Some (OGuardrailProvider p)" and valid: "valid_guard g p"
    and yaml: "l_json_to_yaml (r_Lib r) (guard_static_config g p) = Inr data"
    and settled: "adapter_settled (r_Lib r) (r_AdapterImage r) g data (at w)"
    and status: "set_guard_ready (r_Lib r) g ConditionTrue guardReasonReconciled ''Adapter resources reconciled'' = g"
  obtains w' where "Guard_Reconcile r req w = (None, w')" "healthy w'" "at w' = at w"
proof -
  have req: "meta_key (g_Meta g) = req" using at_key [OF st] by (simp add: key_of_def)
  let ?h = "hex_encode (sum256 data)"
  obtain cm dep svc where o: "at w (KConfigMap, adapter_key g) = Some (OConfigMap cm)" "config_map_mutate (r_Lib r) g data cm = Inr cm"
    "at w (KDeployment, adapter_key g) = Some (ODeployment dep)" "deployment_mutate (r_Lib r) (r_AdapterImage r) g ?h dep = Inr dep"
    "at w (KService, adapter_key g) = Some (OService svc)" "service_mutate (r_Lib r) g svc = Inr svc"
    using settled unfolding adapter_settled_def by blast
  have k: "adapter_key g = (m_Namespace (g_Meta g), adapterName g)" by (simp add: adapter_key_def)
  obtain w1 where w1: "ensureConfigMap r g data w = (None, w1)" "healthy w1" "at w1 = at w"
    by (rule cop_again [OF w, of "OConfigMap \<lparr>cm_Meta = new_meta (adapterName g) (m_Namespace (g_Meta g)), cm_Data = None\<rparr>"
          "OConfigMap cm" "on_config_map (config_map_mutate (r_Lib r) g data)"])
      (use o k in \<open>simp_all add: ensureConfigMap_def on_config_map_def key_of_def\<close>)
  obtain w2 where w2: "ensureDeployment r g ?h w1 = (None, w2)" "healthy w2" "at w2 = at w1"
    by (rule cop_again [OF w1(2), of "ODeployment \<lparr>dp_Meta = new_meta (adapterName g) (m_Namespace (g_Meta g)), dp_Replicas = None,
          dp_Selector = None, dp_TemplateLabels = None, dp_TemplateAnnotations = None, dp_PodSpec = empty_pod_spec\<rparr>"
          "ODeployment dep" "on_deployment (deployment_mutate (r_Lib r) (r_AdapterImage r) g ?h)"])
      (use o k w1 in \<open>simp_all add: ensureDeployment_def on_deployment_def key_of_def\<close>)
  obtain w3 where w3: "ensureService r g w2 = (None, w3)" "healthy w3" "at w3 = at w2"
    by (rule cop_again [OF w2(2), of "OService \<lparr>sv_Meta = new_meta (adapterName g) (m_Namespace (g_Meta g)), sv_Selector = None, sv_Ports = []\<rparr>"
          "OService svc" "on_service (service_mutate (r_Lib r) g)"])
      (use o k w1 w2 in \<open>simp_all add: ensureService_def on_service_def key_of_def\<close>)
  have "fetchProvider r g w = Inr p" using healthy_get_as [OF w p, of as_provider p] by (simp add: fetchProvider_def)
  then have rg: "reconcileGuard r g w = (([], [], None), w3)"
    using img render_valid [OF valid, of "r_Lib r"] yaml by (simp add: reconcileGuard_def w1 w2 w3)
  have st3: "at w3 (KGuard, meta_key (g_Meta g)) = Some (OGuard g)" using st req w1 w2 w3 by simp
  have "at w3 (key_of (OGuard g)) \<noteq> None" using st3 by (simp add: key_of_def)
  from healthy_patch [OF w3(2) this, of "OGuard g"] obtain w4 where
    w4: "setReadyCondition r g ConditionTrue guardReasonReconciled ''Adapter resources reconciled'' w3 = (None, w4)" "healthy w4"
    by (auto simp: setReadyCondition_def status)
  have "at w4 j = at w3 j" for j
    using setReady_at(1) [OF w4(1) st3] st3 unchangedD [OF setReady_frame [OF w4(1)], of j] status
    by (cases "j = (KGuard, meta_key (g_Meta g))") auto
  then have "at w4 = at w" using w1(3) w2(3) w3(3) by auto
  moreover have "Guard_Reconcile r req w = (None, w4)"
    using healthy_get_as [OF w st, of as_guard g] rg w4(1) by (simp add: Guard_Reconcile_def)
  ultimately show thesis using that w4(2) by blast
qed

end

context healthy_gateway
begin

lemma guardrails_again:
  assumes w: "healthy w" and pol: "policy_settled tg (at w)"
  obtains w' where "ensureGuardrails r tg w = (None, clear_unsupported (r_Lib r) tg, w')" "healthy w'"
proof (cases "tg_Guardrails tg")
  case Nil
  let ?k = "key_of (OUnstructured (newAgentgatewayPolicy (guardrail_name tg) (m_Namespace (tg_Meta tg))))"
  obtain x w' where "c_delete (r_Client r) ?k w = (x, w')" "healthy w'" "\<forall>e. x = Some e \<longrightarrow> is_not_found e"
    using healthy_delete [OF w] by blast
  with Nil that show thesis by (cases x) (auto simp: ensureGuardrails_def)
next
  case (Cons ref refs)
  then obtain v where ref: "tg_Guardrails tg = [ref]" and ready: "guard_is_ready (r_Lib r) (at w (KGuard, guard_ref_key tg ref))"
    and v: "at w (KPolicy, guardrail_key tg) = Some (OUnstructured v)" "guardrail_mutate (r_Lib r) tg (guard_ref_key tg ref) v = Inr v"
    using pol by (auto simp: policy_settled_def split: list.splits)
  note check = guard_check_live [OF w ready]
  let ?u = "newAgentgatewayPolicy (guardrail_name tg) (m_Namespace (tg_Meta tg))"
  let ?f = "on_unstructured (guardrail_mutate (r_Lib r) tg (guard_ref_key tg ref))"
  have "at w (key_of (OUnstructured ?u)) = Some (OUnstructured v)" using v(1) by (simp add: guardrail_key_def)
  moreover have "?f (OUnstructured v) = Inr (OUnstructured v)" using v(2) by (simp add: on_unstructured_def)
  ultimately obtain w' where "c_create_or_patch (r_Client r) (OUnstructured ?u) ?f w = (Inr OpNone, w')" "healthy w'"
    by (rule cop_again [OF w])
  with ref check that show thesis by (simp add: ensureGuardrails_def Let_def)
qed

lemma gateway_again:
  assumes w: "healthy w" and st: "at w (KToolGateway, req) = Some (OToolGateway tg)" and own: "claims_gateway at w tg cls"
    and settled: "gateway_settled (r_Lib r) tg (at w)"
    and status: "merged_tg (clear_unsupported (r_Lib r) tg) (tg_ready (r_Lib r) (clear_unsupported (r_Lib r) tg)) tg = tg"
  obtains w' where "ToolGateway_Reconcile r req w = (None, w')" "healthy w'" "at w' = at w"
proof -
  have req: "meta_key (tg_Meta tg) = req" using at_key [OF st] by (simp add: key_of_def)
  let ?b = "clear_unsupported (r_Lib r) tg"
  let ?n = "tg_ready (r_Lib r) ?b"
  obtain gw u where o: "at w (KGateway, tg_name_key tg) = Some (OGateway gw)" "gateway_mutate (r_Lib r) tg gw = Inr gw"
    "at w (KParameters, tg_name_key tg) = Some (OUnstructured u)" "params_mutate (r_Lib r) tg u = Inr u"
    and pol: "policy_settled tg (at w)" using settled unfolding gateway_settled_alt by blast
  have k: "tg_name_key tg = (m_Namespace (tg_Meta tg), m_Name (tg_Meta tg))" by (simp add: tg_name_key_def meta_key_def)
  obtain w1 where w1: "ensureAgentgatewayParameters r tg w = (None, w1)" "healthy w1" "at w1 = at w"
    by (rule cop_again [OF w, of "OUnstructured (newAgentgatewayParameters (m_Name (tg_Meta tg)) (m_Namespace (tg_Meta tg)))"
          "OUnstructured u" "on_unstructured (params_mutate (r_Lib r) tg)"])
      (use o k in \<open>simp_all add: ensureAgentgatewayParameters_def on_unstructured_def\<close>)
  obtain w2 where w2: "ensureGateway r tg w1 = (None, w2)" "healthy w2" "at w2 = at w1"
    by (rule cop_again [OF w1(2), of "OGateway \<lparr>gw_Meta = new_meta (m_Name (tg_Meta tg)) (m_Namespace (tg_Meta tg)), gw_Spec = empty_gateway_spec\<rparr>"
          "OGateway gw" "on_gateway (gateway_mutate (r_Lib r) tg)"])
      (use o k w1 in \<open>simp_all add: ensureGateway_def on_gateway_def key_simps new_meta_def\<close>)
  obtain w3 where w3: "ensureGuardrails r tg w2 = (None, ?b, w3)" "healthy w3"
    by (rule guardrails_again [OF w2(2)]) (use pol w1(3) w2(3) in simp)
  have rt: "reconcileToolGateway r tg w = (([], None), ?b, w3)" by (simp add: reconcileToolGateway_def w1 w2 w3)
  note same = conjunct1 [OF reconcileToolGateway_fix [OF rt settled]]
  have st3: "at w3 (KToolGateway, meta_key (tg_Meta ?n)) = Some (OToolGateway tg)"
    using st req by (simp add: same tg_ready_def clear_unsupported_def)
  have "at w3 (key_of (OToolGateway ?n)) \<noteq> None" using st3 by (simp add: key_of_def)
  from healthy_patch [OF w3(2) this, of "OToolGateway ?b"] obtain w4 where
    w4: "patch_tg r ?b ?n w3 = (None, w4)" "healthy w4" by (auto simp: patch_tg_def)
  have "at w4 j = at w3 j" for j
    using patch_tg_at(1) [OF w4(1) st3] st3 status unchangedD [OF patch_tg_frame [OF w4(1)], of j]
    by (cases "j = (KToolGateway, meta_key (tg_Meta ?n))") auto
  then have "at w4 = at w" using same by auto
  moreover have "ToolGateway_Reconcile r req w = (None, w4)"
    using healthy_get_as [OF w st, of as_tool_gateway tg] healthy_owned [OF w own] rt w4(1)
    by (simp add: ToolGateway_Reconcile_def updateStatusReady_def)
  ultimately show thesis using that w4(2) by blast
qed

lemma policy_again:
  assumes w: "healthy w" and pol: "policy_fixed (r_Lib r) tg route (at w)"
  obtains w' where "ensurePolicy r route tg w = (None, w')" "healthy w'"
proof (cases "buildMcpAuthorizationRules (tr_ToolFilter route) = []")
  case True
  obtain x w' where "c_delete (r_Client r) (KPolicy, filter_policy_key tg route) w = (x, w')" "healthy w'" "\<forall>e. x = Some e \<longrightarrow> is_not_found e"
    using healthy_delete [OF w] by blast
  with True that show thesis by (cases x) (auto simp: ensurePolicy_def filter_policy_key_def)
next
  case False
  let ?u = "newAgentgatewayPolicy (filter_policy_name tg route) (m_Namespace (tr_Meta route))"
  let ?f = "on_unstructured (filter_policy_mutate (r_Lib r) route tg (buildMcpAuthorizationRules (tr_ToolFilter route)))"
  obtain v where v: "at w (KPolicy, filter_policy_key tg route) = Some (OUnstructured v)"
    "?f (OUnstructured v) = Inr (OUnstructured v)" using pol False by (auto simp: policy_fixed_def Let_def on_unstructured_def)
  have "at w (key_of (OUnstructured ?u)) = Some (OUnstructured v)" using v(1) by (simp add: filter_policy_key_def)
  then obtain w' where "c_create_or_patch (r_Client r) (OUnstructured ?u) ?f w = (Inr OpNone, w')" "healthy w'"
    using v(2) by (rule cop_again [OF w])
  with False that show thesis by (simp add: ensurePolicy_def)
qed

lemma route_again:
  assumes w: "healthy w" and st: "at w (KToolRoute, req) = Some (OToolRoute route)"
    and ref: "tr_ToolGatewayRef route = Some ref" and tg: "at w (KToolGateway, gateway_ref_key route ref) = Some (OToolGateway tg)"
    and own: "claims_gateway at w tg cls" and up: "upstream_wanted (r_Lib r) route (at w) up"
    and settled: "route_settled (r_Lib r) tg route up (at w)"
    and status: "merged_tr route (tr_ready (r_Lib r) route (route_url tg (route_path route))) route = route"
  obtains w' where "ToolRoute_Reconcile r req w = (None, w')" "healthy w'" "at w' = at w"
proof -
  have req: "meta_key (tr_Meta route) = req" using at_key [OF st] by (simp add: key_of_def)
  let ?n = "tr_ready (r_Lib r) route (route_url tg (route_path route))"
  obtain b h where o: "at w (KBackend, route_object_key tg route) = Some (OUnstructured b)" "backend_mutate (r_Lib r) route up b = Inr b"
    "at w (KHTTPRoute, route_object_key tg route) = Some (OHTTPRoute h)" "http_route_mutate (r_Lib r) route tg (route_path route) h = Inr h"
    and pol: "policy_fixed (r_Lib r) tg route (at w)" using settled unfolding route_settled_def by blast
  obtain w1 where w1: "ensureBackend r route tg up w = (None, w1)" "healthy w1" "at w1 = at w"
    by (rule cop_again [OF w, of "OUnstructured (newAgentgatewayBackend (route_object_name tg route) (m_Namespace (tr_Meta route)))"
          "OUnstructured b" "on_unstructured (backend_mutate (r_Lib r) route up)"])
      (use o in \<open>simp_all add: ensureBackend_def on_unstructured_def route_object_key_def\<close>)
  obtain w2 where w2: "ensureHTTPRoute r route tg (route_path route) w1 = (None, w2)" "healthy w2" "at w2 = at w1"
    by (rule cop_again [OF w1(2), of "OHTTPRoute \<lparr>hr_Meta = new_meta (route_object_name tg route) (m_Namespace (tr_Meta route)), hr_Spec = empty_http_route_spec\<rparr>"
          "OHTTPRoute h" "on_http_route (http_route_mutate (r_Lib r) route tg (route_path route))"])
      (use o w1 in \<open>simp_all add: ensureHTTPRoute_def on_http_route_def route_object_key_def key_simps new_meta_def\<close>)
  obtain w3 where w3: "ensurePolicy r route tg w2 = (None, w3)" "healthy w3"
    by (rule policy_again [OF w2(2)]) (use pol w1(3) w2(3) in simp)
  have up': "resolveRouteUpstream (r_Lib r) (r_Client r) route w = Inr up" by (rule resolve_live [OF w up])
  then have rt: "reconcileToolRoute r route tg w = ((route_path route, [], None), w3)"
    by (simp add: reconcileToolRoute_def w1 w2 w3)
  have same: "at w3 = at w" using reconcileToolRoute_fix [OF rt up' settled] by simp
  have st3: "at w3 (KToolRoute, meta_key (tr_Meta ?n)) = Some (OToolRoute route)" using st req same by simp
  obtain w4 where w4: "patch_route r route ?n w3 = (None, w4)" "healthy w4" by (rule patch_route_live [OF w3(2) st3])
  have "at w4 j = at w3 j" for j
    using patch_route_at(1) [OF w4(1) st3] st3 status unchangedD [OF patch_route_frame [OF w4(1)], of j]
    by (cases "j = (KToolRoute, meta_key (tr_Meta ?n))") auto
  then have "at w4 = at w" using same by auto
  moreover obtain w5 where w5: "route_updateStatusReady r route tg (route_path route) w3 = (None, w5)" "at w5 = at w4" "healthy w5"
    using w4 by (simp add: route_updateStatusReady_def Let_def)
  moreover have "ToolRoute_Reconcile r req w = (None, w5)"
    using healthy_get_as [OF w st, of as_tool_route route] healthy_get_as [OF w tg, of as_tool_gateway tg]
      healthy_owned [OF w own] rt w5(1)
    by (simp add: ToolRoute_Reconcile_def resolve_ref [OF ref])
  ultimately show thesis using that by simp
qed

end

section \<open>The status is written once\<close>

context gateway_operator
begin

lemma tg_ready_again:
  defines "up \<equiv> \<lambda>tg. merged_tg (clear_unsupported (r_Lib r) tg) (tg_ready (r_Lib r) (clear_unsupported (r_Lib r) tg)) tg"
  shows "up (up tg) = up tg"
proof -
  let ?c = "ready_condition (tg_Meta tg) ConditionTrue reasonReconciled ''Gateway and its backing resources are configured''"
  let ?rem = "\<lambda>cs. l_remove_condition (r_Lib r) cs guardrailsUnsupported"
  let ?set = "\<lambda>cs. l_set_condition (r_Lib r) cs ?c"
  have u: "up x = x\<lparr>tg_Url := gateway_url x, tg_Conditions := if ?rem (tg_Conditions x) = ?set (?rem (tg_Conditions x)) then tg_Conditions x
      else ?set (?rem (tg_Conditions x))\<rparr>" if "tg_Meta x = tg_Meta tg" for x
    using that by (simp add: up_def merged_tg_def patch_field_def tg_ready_def clear_unsupported_def gateway_url_def)
  have "l_find_condition (r_Lib r) (?set (?rem (tg_Conditions tg))) guardrailsUnsupported = None"
    using find_set_other [of guardrailsUnsupported ?c] find_remove
    by (simp add: ready_condition_def guardrailsUnsupported_def readyConditionType_def)
  then have "?rem (?set (?rem (tg_Conditions tg))) = ?set (?rem (tg_Conditions tg))" by (rule remove_none)
  moreover have "tg_Meta (up tg) = tg_Meta tg" by (simp add: up_def merged_tg_def)
  ultimately show ?thesis using u [of tg] u [of "up tg"] by (auto simp: set_set gateway_url_def)
qed

lemma tr_ready_again:
  "merged_tr (merged_tr rt (tr_ready (r_Lib r) rt u) rt) (tr_ready (r_Lib r) (merged_tr rt (tr_ready (r_Lib r) rt u) rt) u)
     (merged_tr rt (tr_ready (r_Lib r) rt u) rt) = merged_tr rt (tr_ready (r_Lib r) rt u) rt"
  by (auto simp: merged_tr_def patch_field_def tr_ready_def set_set)

end

section \<open>The queues drain\<close>

locale draining_operator =
  healthy_tool_operator r gr at events healthy + queued_operator r gr at events "event_requests at" answers
  for r :: "'w reconciler" and gr :: "'w guard_reconciler" and at :: "'w \<Rightarrow> okey \<Rightarrow> kobj option"
    and events :: "'w \<Rightarrow> kevent list" and answers :: "'w \<Rightarrow> bool" and healthy :: "'w \<Rightarrow> bool" +
  assumes healthy_answers: "healthy w \<Longrightarrow> answers w"
begin

abbreviation answered :: "('w \<Rightarrow> 'w \<Rightarrow> bool) \<Rightarrow> 'w operator_state \<Rightarrow> 'w operator_state \<Rightarrow> bool" where
  "answered E \<equiv> \<lambda>s s'. operator_step r gr at (event_requests at) E s s' \<and> answers (os_World s')"

text \<open>A Ready guard, a gateway that it protects and a route on it, as the runs leave them.\<close>

definition all_in_place ::
  "'w \<Rightarrow> guard \<Rightarrow> tool_gateway \<Rightarrow> tool_route \<Rightarrow> bool" where
  "all_in_place w g tg rt =
     (at w (KGuard, meta_key (g_Meta g)) = Some (OGuard g)
      \<and> set_guard_ready (r_Lib r) g ConditionTrue guardReasonReconciled ''Adapter resources reconciled'' = g
      \<and> (\<exists>p data. at w (KGuardrailProvider, provider_key g) = Some (OGuardrailProvider p) \<and> valid_guard g p
           \<and> l_json_to_yaml (r_Lib r) (guard_static_config g p) = Inr data \<and> adapter_settled (r_Lib r) (r_AdapterImage gr) g data (at w))
      \<and> at w (KToolGateway, meta_key (tg_Meta tg)) = Some (OToolGateway tg)
      \<and> merged_tg (clear_unsupported (r_Lib r) tg) (tg_ready (r_Lib r) (clear_unsupported (r_Lib r) tg)) tg = tg
      \<and> (\<exists>c. claims_gateway at w tg c) \<and> gateway_settled (r_Lib r) tg (at w)
      \<and> at w (KToolRoute, meta_key (tr_Meta rt)) = Some (OToolRoute rt)
      \<and> merged_tr rt (tr_ready (r_Lib r) rt (route_url tg (route_path rt))) rt = rt
      \<and> (\<exists>ref. tr_ToolGatewayRef rt = Some ref \<and> gateway_ref_key rt ref = meta_key (tg_Meta tg))
      \<and> (\<exists>up. upstream_wanted (r_Lib r) rt (at w) up \<and> route_settled (r_Lib r) tg rt up (at w)))"

lemma all_in_place_cong: "at v = at w \<Longrightarrow> all_in_place v g tg rt = all_in_place w g tg rt"
  by (simp only: all_in_place_def claims_gateway_def)

text \<open>The three first runs put everything in place.\<close>

lemma converges_in_place:
  assumes w: "healthy w" and img: "r_AdapterImage gr \<noteq> []" and a: "applied (r_Lib r) at w g tg rt up"
  obtains w1 w2 w3 g' tg' rt' where "reconcile_of r gr GuardWorker (meta_key (g_Meta g)) w = (None, w1)"
    "reconcile_of r gr GatewayWorker (meta_key (tg_Meta tg)) w1 = (None, w2)"
    "reconcile_of r gr RouteWorker (meta_key (tr_Meta rt)) w2 = (None, w3)"
    "healthy w1" "healthy w2" "healthy w3" "all_in_place w3 g' tg' rt'"
    "g' = g\<lparr>g_Conditions := g_Conditions g'\<rparr>" "guard_is_ready (r_Lib r) (Some (OGuard g'))"
    "tg' = tg\<lparr>tg_Url := tg_Url tg', tg_Conditions := tg_Conditions tg'\<rparr>"
    "is_condition_true (r_Lib r) (tg_Conditions tg') readyConditionType"
    "rt' = rt\<lparr>tr_Url := tr_Url rt', tr_Conditions := tr_Conditions rt'\<rparr>"
    "is_condition_true (r_Lib r) (tr_Conditions rt') readyConditionType"
proof -
  let ?gk = "meta_key (g_Meta g)" and ?tk = "meta_key (tg_Meta tg)" and ?rk = "meta_key (tr_Meta rt)"
  obtain w1 w2 w3 p data g' tg' rt' where run: "Guard_Reconcile gr ?gk w = (None, w1)"
      "ToolGateway_Reconcile r ?tk w1 = (None, w2)" "ToolRoute_Reconcile r ?rk w2 = (None, w3)"
    and ok: "healthy w1" "healthy w2" "healthy w3"
    and same: "\<forall>k. at w3 (KGuardrailProvider, k) = at w (KGuardrailProvider, k)"
      "\<forall>k. at w3 (KToolServer, k) = at w (KToolServer, k)"
      "\<forall>k. at w3 (KToolGatewayClass, k) = at w (KToolGatewayClass, k)"
    and p: "at w (KGuardrailProvider, provider_key g) = Some (OGuardrailProvider p)" "valid_guard g p"
      "l_json_to_yaml (r_Lib r) (guard_static_config g p) = Inr data"
    and g': "at w3 (KGuard, ?gk) = Some (OGuard g')"
      "g' = set_guard_ready (r_Lib r) g ConditionTrue guardReasonReconciled ''Adapter resources reconciled''"
    and ready: "guard_is_ready (r_Lib r) (at w3 (KGuard, ?gk))" and ad: "adapter_settled (r_Lib r) (r_AdapterImage gr) g data (at w3)"
    and tg': "at w3 (KToolGateway, ?tk) = Some (OToolGateway tg')"
      "tg' = merged_tg (clear_unsupported (r_Lib r) tg) (tg_ready (r_Lib r) (clear_unsupported (r_Lib r) tg)) tg"
      "is_condition_true (r_Lib r) (tg_Conditions tg') readyConditionType" and gs: "gateway_settled (r_Lib r) tg (at w3)"
    and rt': "at w3 (KToolRoute, ?rk) = Some (OToolRoute rt')"
      "rt' = merged_tr rt (tr_ready (r_Lib r) rt (route_url tg (route_path rt))) rt"
      "is_condition_true (r_Lib r) (tr_Conditions rt') readyConditionType" and rs: "route_settled (r_Lib r) tg rt up (at w3)"
    by (rule converges [OF w img a])
  obtain cls tref where cls: "claims_gateway at w tg cls" and tref: "tr_ToolGatewayRef rt = Some tref" "gateway_ref_key rt tref = ?tk"
    and up: "upstream_wanted (r_Lib r) rt (at w) up" using a unfolding applied_def by blast
  have g: "g_Meta g' = g_Meta g" "g' = g\<lparr>g_Conditions := g_Conditions g'\<rparr>" by (simp_all add: g'(2) set_guard_ready_def)
  have pk: "provider_key g' = provider_key g" by (simp add: g'(2) guards.conditions_irrelevant)
  have guard: "set_guard_ready (r_Lib r) g' ConditionTrue guardReasonReconciled ''Adapter resources reconciled'' = g'"
    "at w3 (KGuardrailProvider, provider_key g') = Some (OGuardrailProvider p) \<and> valid_guard g' p
     \<and> l_json_to_yaml (r_Lib r) (guard_static_config g' p) = Inr data \<and> adapter_settled (r_Lib r) (r_AdapterImage gr) g' data (at w3)"
    unfolding pk same(1) [THEN spec]
    using p ad guards.set_guard_ready_twice [unfolded shared_lib] by (simp_all add: g'(2) guards.conditions_irrelevant)
  have t: "tg_Meta tg' = tg_Meta tg" "tg_Env tg' = tg_Env tg" "tg_EnvFrom tg' = tg_EnvFrom tg" "tg_Guardrails tg' = tg_Guardrails tg"
    "tg_ClassName tg' = tg_ClassName tg" by (simp_all add: tg'(2) merged_tg_def)
  have m: "tr_Meta rt' = tr_Meta rt" "tr_ToolGatewayRef rt' = tr_ToolGatewayRef rt" "tr_ToolServerRef rt' = tr_ToolServerRef rt"
    "tr_External rt' = tr_External rt" "tr_ToolFilter rt' = tr_ToolFilter rt" by (simp_all add: rt'(2) merged_tr_def)
  have path: "route_path rt' = route_path rt" "route_url tg' x = route_url tg x" for x
    using same_tr(2) [OF m] by (simp_all add: route_url_def t(1))
  have gateway: "gateway_settled (r_Lib r) tg' (at w3)" "claims_gateway at w3 tg' cls"
    "merged_tg (clear_unsupported (r_Lib r) tg') (tg_ready (r_Lib r) (clear_unsupported (r_Lib r) tg')) tg' = tg'"
    using gs same_tg_mutate(1) [OF t(1-4)] cls same(3) [rule_format, of "meta_key (tgc_Meta cls)"] tg_ready_again [of tg]
    by (simp_all add: claims_gateway_def key_of_def t(5) tg'(2) [symmetric])
  have wanted: "upstream_wanted (r_Lib r) rt' (at w3) up"
    using up unfolding same_tr(4) [OF m] unfolding upstream_wanted_def same(2) [THEN spec] .
  have rk: "gateway_ref_key rt' tref = ?tk" using tref(2) m(1) by (simp only: gateway_ref_key_def)
  have route: "merged_tr rt' (tr_ready (r_Lib r) rt' (route_url tg' (route_path rt'))) rt' = rt'" "route_settled (r_Lib r) tg' rt' up (at w3)"
    using tr_ready_again [of rt "route_url tg (route_path rt)", folded rt'(2)] rs same_tr(1) [OF m] route_settled_name [of tg' tg] t(1) by (simp_all add: path)
  have all: "all_in_place w3 g' tg' rt'"
    unfolding all_in_place_def g(1) t(1) m(1) using g'(1) guard tg'(1) gateway rt'(1) route wanted rk tref(1) m(2) by metis
  have same: "tg' = tg\<lparr>tg_Url := tg_Url tg', tg_Conditions := tg_Conditions tg'\<rparr>" "rt' = rt\<lparr>tr_Url := tr_Url rt', tr_Conditions := tr_Conditions rt'\<rparr>"
    using t m by simp_all
  have "guard_is_ready (r_Lib r) (Some (OGuard g'))" using ready g'(1) by simp
  from run that [OF _ _ _ ok all g(2) this same(1) tg'(3) same(2) rt'(3)] show thesis by simp
qed

lemma work_once:
  assumes "req \<in> os_Queue s a" "reconcile_of r gr a req (os_World s) = (None, w)" "healthy w"
  obtains s' where "answered E s s'" "os_World s' = w"
    "\<forall>b. os_Queue s' b = os_Queue s b - (if b = a then {req} else {}) \<union> event_requests at (setup_of r gr b) (os_World s) w"
proof -
  have "operator_step r gr at (event_requests at) E s
      \<lparr>os_World = w, os_Queue = (\<lambda>b. os_Queue s b - (if b = a \<and> (None :: goerror option) = None then {req} else {})
         \<union> event_requests at (setup_of r gr b) (os_World s) w)\<rparr>" by (rule work [OF assms(1,2)])
  with healthy_answers [OF assms(3)] that show thesis by simp
qed

text \<open>A run that changes nothing leaves its request, and enqueues none.\<close>

lemma work_again:
  assumes "healthy (os_World s)" "reconcile_of r gr a req (os_World s) = (None, w)" "healthy w" "at w = at (os_World s)"
  obtains s' where "(answered E)\<^sup>*\<^sup>* s s'" "req \<notin> os_Queue s' a" "at (os_World s') = at (os_World s)" "healthy (os_World s')"
    "\<forall>b. os_Queue s' b \<subseteq> os_Queue s b"
proof (cases "req \<in> os_Queue s a")
  case True
  then obtain s' where s': "answered E s s'" "os_World s' = w"
    "\<forall>b. os_Queue s' b = os_Queue s b - (if b = a then {req} else {}) \<union> event_requests at (setup_of r gr b) (os_World s) w"
    using assms(2,3) by (rule work_once [where E = E])
  then have "\<And>b. os_Queue s' b = os_Queue s b - (if b = a then {req} else {})" using assms(4) by simp
  with s'(1,2) assms(3,4) show thesis by (intro that [of s'] r_into_rtranclp) auto
qed (use assms that [of s] in auto)

text \<open>The request of the worker \<open>a\<close> on the three resources, and its run when all is in place.\<close>

fun request_of :: "guard \<Rightarrow> tool_gateway \<Rightarrow> tool_route \<Rightarrow> worker \<Rightarrow> nsname" where
  "request_of g tg rt GuardWorker = meta_key (g_Meta g)"
| "request_of g tg rt GatewayWorker = meta_key (tg_Meta tg)"
| "request_of g tg rt RouteWorker = meta_key (tr_Meta rt)"

lemma in_place_again:
  assumes w: "healthy w" and img: "r_AdapterImage gr \<noteq> []" and a: "all_in_place w g tg rt"
  obtains w' where "reconcile_of r gr a (request_of g tg rt a) w = (None, w')" "healthy w'" "at w' = at w"
proof (cases a)
  case GuardWorker
  obtain p data where "at w (KGuardrailProvider, provider_key g) = Some (OGuardrailProvider p)" "valid_guard g p"
    "l_json_to_yaml (r_Lib r) (guard_static_config g p) = Inr data" "adapter_settled (r_Lib r) (r_AdapterImage gr) g data (at w)"
    using a unfolding all_in_place_def by blast
  note p = this
  have "at w (KGuard, meta_key (g_Meta g)) = Some (OGuard g)"
    "set_guard_ready (r_Lib r) g ConditionTrue guardReasonReconciled ''Adapter resources reconciled'' = g"
    using a unfolding all_in_place_def by blast+
  then obtain w' where "Guard_Reconcile gr (meta_key (g_Meta g)) w = (None, w')" "healthy w'" "at w' = at w"
    by (rule guards.guard_again [unfolded shared_lib, OF w _ img p])
  with GuardWorker that show thesis by simp
next
  case GatewayWorker
  obtain c where "at w (KToolGateway, meta_key (tg_Meta tg)) = Some (OToolGateway tg)" "claims_gateway at w tg c" "gateway_settled (r_Lib r) tg (at w)"
    "merged_tg (clear_unsupported (r_Lib r) tg) (tg_ready (r_Lib r) (clear_unsupported (r_Lib r) tg)) tg = tg"
    using a unfolding all_in_place_def by blast
  then obtain w' where "ToolGateway_Reconcile r (meta_key (tg_Meta tg)) w = (None, w')" "healthy w'" "at w' = at w"
    by (rule gateway_again [OF w])
  with GatewayWorker that show thesis by simp
next
  case RouteWorker
  obtain c ref up where ref: "tr_ToolGatewayRef rt = Some ref" "gateway_ref_key rt ref = meta_key (tg_Meta tg)"
    and r: "at w (KToolRoute, meta_key (tr_Meta rt)) = Some (OToolRoute rt)" "at w (KToolGateway, meta_key (tg_Meta tg)) = Some (OToolGateway tg)"
      "claims_gateway at w tg c" "upstream_wanted (r_Lib r) rt (at w) up" "route_settled (r_Lib r) tg rt up (at w)"
      "merged_tr rt (tr_ready (r_Lib r) rt (route_url tg (route_path rt))) rt = rt"
    using a unfolding all_in_place_def by blast
  obtain w' where "ToolRoute_Reconcile r (meta_key (tr_Meta rt)) w = (None, w')" "healthy w'" "at w' = at w"
    by (rule route_again [OF w r(1) ref(1) _ r(3-6)]) (use r(2) ref(2) in simp)
  with RouteWorker that show thesis by simp
qed

lemma drain_one:
  assumes "healthy (os_World s)" "r_AdapterImage gr \<noteq> []" "all_in_place (os_World s) g tg rt"
  obtains s' where "(answered E)\<^sup>*\<^sup>* s s'" "request_of g tg rt a \<notin> os_Queue s' a" "healthy (os_World s')"
    "all_in_place (os_World s') g tg rt" "\<forall>b. os_Queue s' b \<subseteq> os_Queue s b"
proof -
  obtain w where w: "reconcile_of r gr a (request_of g tg rt a) (os_World s) = (None, w)" "healthy w" "at w = at (os_World s)"
    by (rule in_place_again [OF assms])
  obtain s' where s': "(answered E)\<^sup>*\<^sup>* s s'" "request_of g tg rt a \<notin> os_Queue s' a" "at (os_World s') = at (os_World s)" "healthy (os_World s')"
    "\<forall>b. os_Queue s' b \<subseteq> os_Queue s b" by (rule work_again [where E = E, OF assms(1) w])
  show thesis by (rule that [OF s'(1,2,4) _ s'(5)]) (use assms(3) all_in_place_cong [OF s'(3)] in simp)
qed

lemma drain_all:
  assumes "healthy (os_World s)" "r_AdapterImage gr \<noteq> []" "all_in_place (os_World s) g tg rt"
  obtains s' where "(answered E)\<^sup>*\<^sup>* s s'" "\<forall>a \<in> set as. request_of g tg rt a \<notin> os_Queue s' a" "healthy (os_World s')"
    "all_in_place (os_World s') g tg rt" "\<forall>b. os_Queue s' b \<subseteq> os_Queue s b"
proof (induction as arbitrary: thesis)
  case Nil
  show thesis by (rule Nil [of s]) (use assms in auto)
next
  case (Cons a as)
  obtain s1 where s1: "(answered E)\<^sup>*\<^sup>* s s1" "\<forall>a \<in> set as. request_of g tg rt a \<notin> os_Queue s1 a" "healthy (os_World s1)"
    "all_in_place (os_World s1) g tg rt" "\<forall>b. os_Queue s1 b \<subseteq> os_Queue s b"
    by (rule Cons.IH)
  obtain s2 where s2: "(answered E)\<^sup>*\<^sup>* s1 s2" "request_of g tg rt a \<notin> os_Queue s2 a" "healthy (os_World s2)"
    "all_in_place (os_World s2) g tg rt" "\<forall>b. os_Queue s2 b \<subseteq> os_Queue s1 b"
    by (rule drain_one [OF s1(3) assms(2) s1(4)])
  show thesis
    by (rule Cons.prems [OF rtranclp_trans [OF s1(1) s2(1)] _ s2(3,4)]) (use s1(2,5) s2(2,5) in \<open>simp, blast\<close>, use s1(5) s2(5) in blast)
qed

lemma drains:
  assumes w: "healthy (os_World s)" and img: "r_AdapterImage gr \<noteq> []" and a: "applied (r_Lib r) at (os_World s) g tg rt up"
    and q: "\<And>b. request_of g tg rt b \<in> os_Queue s b"
  obtains s' g' tg' rt' where "(answered E)\<^sup>*\<^sup>* s s'" "\<forall>b. request_of g tg rt b \<notin> os_Queue s' b" "healthy (os_World s')"
    "all_in_place (os_World s') g' tg' rt'"
    "g' = g\<lparr>g_Conditions := g_Conditions g'\<rparr>" "guard_is_ready (r_Lib r) (Some (OGuard g'))"
    "tg' = tg\<lparr>tg_Url := tg_Url tg', tg_Conditions := tg_Conditions tg'\<rparr>"
    "is_condition_true (r_Lib r) (tg_Conditions tg') readyConditionType"
    "rt' = rt\<lparr>tr_Url := tr_Url rt', tr_Conditions := tr_Conditions rt'\<rparr>"
    "is_condition_true (r_Lib r) (tr_Conditions rt') readyConditionType"
proof -
  obtain w1 w2 w3 g' tg' rt' where run: "reconcile_of r gr GuardWorker (meta_key (g_Meta g)) (os_World s) = (None, w1)"
    "reconcile_of r gr GatewayWorker (meta_key (tg_Meta tg)) w1 = (None, w2)"
    "reconcile_of r gr RouteWorker (meta_key (tr_Meta rt)) w2 = (None, w3)"
    and ok: "healthy w1" "healthy w2" "healthy w3" and all: "all_in_place w3 g' tg' rt'"
    and new: "g' = g\<lparr>g_Conditions := g_Conditions g'\<rparr>" "guard_is_ready (r_Lib r) (Some (OGuard g'))"
    "tg' = tg\<lparr>tg_Url := tg_Url tg', tg_Conditions := tg_Conditions tg'\<rparr>"
    "is_condition_true (r_Lib r) (tg_Conditions tg') readyConditionType"
    "rt' = rt\<lparr>tr_Url := tr_Url rt', tr_Conditions := tr_Conditions rt'\<rparr>"
    "is_condition_true (r_Lib r) (tr_Conditions rt') readyConditionType"
    by (rule converges_in_place [OF w img a])
  obtain s1 where s1: "answered E s s1" "os_World s1 = w1"
    "\<forall>b. os_Queue s1 b = os_Queue s b - (if b = GuardWorker then {meta_key (g_Meta g)} else {}) \<union> event_requests at (setup_of r gr b) (os_World s) w1"
    by (rule work_once [where E = E, OF q [of GuardWorker, simplified] run(1) ok(1)])
  have q1: "meta_key (tg_Meta tg) \<in> os_Queue s1 GatewayWorker" using q [of GatewayWorker] s1(3) by simp
  obtain s2 where s2: "answered E s1 s2" "os_World s2 = w2"
    "\<forall>b. os_Queue s2 b = os_Queue s1 b - (if b = GatewayWorker then {meta_key (tg_Meta tg)} else {}) \<union> event_requests at (setup_of r gr b) (os_World s1) w2"
    by (rule work_once [where E = E, OF q1 run(2) [folded s1(2)] ok(2)])
  have q2: "meta_key (tr_Meta rt) \<in> os_Queue s2 RouteWorker" using q [of RouteWorker] s1(3) s2(3) by simp
  obtain s3 where s3: "answered E s2 s3" "os_World s3 = w3"
    by (rule work_once [where E = E, OF q2 run(3) [folded s2(2)] ok(3)])
  obtain s4 where s4: "(answered E)\<^sup>*\<^sup>* s3 s4" "\<forall>a \<in> set [GuardWorker, GatewayWorker, RouteWorker]. request_of g' tg' rt' a \<notin> os_Queue s4 a"
    "healthy (os_World s4)" "all_in_place (os_World s4) g' tg' rt'" "\<forall>b. os_Queue s4 b \<subseteq> os_Queue s3 b"
    by (rule drain_all [where E = E, OF ok(3) [folded s3(2)] img all [folded s3(2)]])
  have meta: "g_Meta g' = g_Meta g" "tg_Meta tg' = tg_Meta tg" "tr_Meta rt' = tr_Meta rt"
    using new(1,3,5) by (metis guard.surjective guard.update_convs guard.select_convs(1), metis tool_gateway.surjective tool_gateway.update_convs tool_gateway.select_convs(1),
      metis tool_route.surjective tool_route.update_convs tool_route.select_convs(1))
  have "request_of g tg rt b \<notin> os_Queue s4 b" for b using s4(2) meta by (cases b) simp_all
  moreover note one = r_into_rtranclp [of "answered E"]
  have "(answered E)\<^sup>*\<^sup>* s s4" by (rule rtranclp_trans [OF rtranclp_trans [OF rtranclp_trans [OF one one] one]]) (fact s1(1) s2(1) s3(1) s4(1))+
  ultimately show thesis by (intro that [OF _ _ s4(3,4) new]) auto
qed

text \<open>What is in place serves.\<close>

lemma in_place_serves:
  assumes "all_in_place w g tg rt"
  obtains data up where "at w (KGuard, meta_key (g_Meta g)) = Some (OGuard g)"
    "at w (KToolGateway, meta_key (tg_Meta tg)) = Some (OToolGateway tg)" "\<exists>c. claims_gateway at w tg c"
    "at w (KToolRoute, meta_key (tr_Meta rt)) = Some (OToolRoute rt)" "route_targets (at w) rt tg"
    "adapter_serves (r_AdapterImage gr) g data (at w)" "gateway_serves (r_Lib r) tg (at w)"
    "upstream_wanted (r_Lib r) rt (at w) up" "route_serves tg rt up (at w)"
proof -
  obtain data up where s: "adapter_settled (r_Lib gr) (r_AdapterImage gr) g data (at w)" "gateway_settled (r_Lib r) tg (at w)"
    "upstream_wanted (r_Lib r) rt (at w) up" "route_settled (r_Lib r) tg rt up (at w)"
    using assms unfolding all_in_place_def shared_lib by blast
  obtain ref where "tr_ToolGatewayRef rt = Some ref" "gateway_ref_key rt ref = meta_key (tg_Meta tg)"
    using assms unfolding all_in_place_def by blast
  then have "route_targets (at w) rt tg" using assms unfolding all_in_place_def by (simp add: route_targets_def)
  from assms [unfolded all_in_place_def] this that s(3) guards.settled_serves [OF s(1)] settled_serves [OF s(2)] route_settled_serves [OF s(4)]
  show thesis by blast
qed

lemma drains_serving:
  assumes w: "healthy (os_World s)" and img: "r_AdapterImage gr \<noteq> []" and a: "applied (r_Lib r) at (os_World s) g tg rt up"
    and q: "meta_key (g_Meta g) \<in> os_Queue s GuardWorker" "meta_key (tg_Meta tg) \<in> os_Queue s GatewayWorker"
      "meta_key (tr_Meta rt) \<in> os_Queue s RouteWorker"
  shows "\<exists>s' g' tg' rt' data up'. (answered E)\<^sup>*\<^sup>* s s'
     \<and> meta_key (g_Meta g) \<notin> os_Queue s' GuardWorker \<and> meta_key (tg_Meta tg) \<notin> os_Queue s' GatewayWorker
     \<and> meta_key (tr_Meta rt) \<notin> os_Queue s' RouteWorker
     \<and> at (os_World s') (KGuard, meta_key (g_Meta g)) = Some (OGuard g') \<and> g' = g\<lparr>g_Conditions := g_Conditions g'\<rparr>
     \<and> guard_is_ready (r_Lib r) (Some (OGuard g')) \<and> adapter_serves (r_AdapterImage gr) g' data (at (os_World s'))
     \<and> at (os_World s') (KToolGateway, meta_key (tg_Meta tg)) = Some (OToolGateway tg')
     \<and> tg' = tg\<lparr>tg_Url := tg_Url tg', tg_Conditions := tg_Conditions tg'\<rparr> \<and> (\<exists>c. claims_gateway at (os_World s') tg' c)
     \<and> is_condition_true (r_Lib r) (tg_Conditions tg') readyConditionType \<and> gateway_serves (r_Lib r) tg' (at (os_World s'))
     \<and> at (os_World s') (KToolRoute, meta_key (tr_Meta rt)) = Some (OToolRoute rt')
     \<and> rt' = rt\<lparr>tr_Url := tr_Url rt', tr_Conditions := tr_Conditions rt'\<rparr> \<and> route_targets (at (os_World s')) rt' tg'
     \<and> is_condition_true (r_Lib r) (tr_Conditions rt') readyConditionType
     \<and> upstream_wanted (r_Lib r) rt' (at (os_World s')) up' \<and> route_serves tg' rt' up' (at (os_World s'))"
proof -
  have "request_of g tg rt b \<in> os_Queue s b" for b using q by (cases b) simp_all
  then obtain s' g' tg' rt' where s': "(answered E)\<^sup>*\<^sup>* s s'" "\<forall>b. request_of g tg rt b \<notin> os_Queue s' b"
    "all_in_place (os_World s') g' tg' rt'" and new: "g' = g\<lparr>g_Conditions := g_Conditions g'\<rparr>" "guard_is_ready (r_Lib r) (Some (OGuard g'))"
    "tg' = tg\<lparr>tg_Url := tg_Url tg', tg_Conditions := tg_Conditions tg'\<rparr>" "is_condition_true (r_Lib r) (tg_Conditions tg') readyConditionType"
    "rt' = rt\<lparr>tr_Url := tr_Url rt', tr_Conditions := tr_Conditions rt'\<rparr>" "is_condition_true (r_Lib r) (tr_Conditions rt') readyConditionType"
    by (rule drains [OF w img a])
  have meta: "meta_key (g_Meta g') = meta_key (g_Meta g)" "meta_key (tg_Meta tg') = meta_key (tg_Meta tg)" "meta_key (tr_Meta rt') = meta_key (tr_Meta rt)"
    using arg_cong [OF new(1), of g_Meta] arg_cong [OF new(3), of tg_Meta] arg_cong [OF new(5), of tr_Meta] by simp_all
  have q': "meta_key (g_Meta g) \<notin> os_Queue s' GuardWorker" "meta_key (tg_Meta tg) \<notin> os_Queue s' GatewayWorker"
    "meta_key (tr_Meta rt) \<notin> os_Queue s' RouteWorker"
    using s'(2) [rule_format, of GuardWorker] s'(2) [rule_format, of GatewayWorker] s'(2) [rule_format, of RouteWorker] by simp_all
  obtain data up' where "at (os_World s') (KGuard, meta_key (g_Meta g)) = Some (OGuard g')"
    "at (os_World s') (KToolGateway, meta_key (tg_Meta tg)) = Some (OToolGateway tg')" "\<exists>c. claims_gateway at (os_World s') tg' c"
    "at (os_World s') (KToolRoute, meta_key (tr_Meta rt)) = Some (OToolRoute rt')" "route_targets (at (os_World s')) rt' tg'"
    "adapter_serves (r_AdapterImage gr) g' data (at (os_World s'))" "gateway_serves (r_Lib r) tg' (at (os_World s'))"
    "upstream_wanted (r_Lib r) rt' (at (os_World s')) up'" "route_serves tg' rt' up' (at (os_World s'))"
    by (rule in_place_serves [OF s'(3), unfolded meta])
  with s'(1) q' new show ?thesis by blast
qed

end

end
