(* ===== verification/QuiescenceProperties.thy ===== *)
theory QuiescenceProperties
  imports Drains SystemProperties
begin

text \<open>
  The properties of the operator with its watches and queues: nothing is lost, what is reached
  when the queues have drained, and the changes that nobody is registered for.
\<close>

section \<open>The reference cluster with its queues\<close>

interpretation mem_queued: queued_operator mem_reconciler "mem_guard_reconciler img" mem_at k_Events "event_requests mem_at" mem_answers
  for img
  unfolding queued_operator_def
  using mem_tool_operator.tool_operator_axioms mem_events.event_delivery_axioms mem_answering.answering_client_axioms
  by (simp add: mem_reconciler_def mem_guard_reconciler_def)

interpretation mem_draining:
  draining_operator mem_reconciler "mem_guard_reconciler img" mem_at k_Events mem_answers "\<lambda>w. k_Faults w = []" for img
  unfolding draining_operator_def draining_operator_axioms_def
  using mem_healthy_operator.healthy_tool_operator_axioms mem_queued.queued_operator_axioms by (simp add: mem_answers_def)

definition started :: "cluster \<Rightarrow> cluster operator_state" where
  "started w = \<lparr>os_World = w, os_Queue = (\<lambda>a. stored_requests mem_at (su_For (setup_of mem_reconciler demo_rec a)) w)\<rparr>"

abbreviation mem_step :: "(cluster \<Rightarrow> cluster \<Rightarrow> bool) \<Rightarrow> cluster operator_state \<Rightarrow> cluster operator_state \<Rightarrow> bool" where
  "mem_step E \<equiv> operator_step mem_reconciler demo_rec mem_at (event_requests mem_at) E"

abbreviation mem_reconcile :: "worker \<Rightarrow> nsname \<Rightarrow> cluster \<Rightarrow> goerror option \<times> cluster" where
  "mem_reconcile \<equiv> reconcile_of mem_reconciler demo_rec"

lemma setup_kinds [simp]:
  "su_For (Guard_SetupWithManager gr) = KGuard" "su_For (ToolGateway_SetupWithManager r) = KToolGateway"
  "su_For (ToolRoute_SetupWithManager r) = KToolRoute"
  by (simp_all add: Guard_SetupWithManager_def ToolGateway_SetupWithManager_def ToolRoute_SetupWithManager_def)

text \<open>A successful run, and one that finds nothing to do.\<close>

definition worked :: "worker \<Rightarrow> nsname \<Rightarrow> cluster \<Rightarrow> cluster operator_state \<Rightarrow> cluster operator_state" where
  "worked a k w s = \<lparr>os_World = w,
     os_Queue = (\<lambda>b. os_Queue s b - (if b = a then {k} else {}) \<union> event_requests mem_at (setup_of mem_reconciler demo_rec b) (os_World s) w)\<rparr>"

lemma worked_step:
  assumes "k \<in> os_Queue s a" "mem_reconcile a k (os_World s) = (None, w)"
  shows "mem_step E s (worked a k w s)"
proof -
  have "mem_step E s \<lparr>os_World = w,
       os_Queue = (\<lambda>b. os_Queue s b - (if b = a \<and> (None :: goerror option) = None then {k} else {})
                         \<union> event_requests mem_at (setup_of mem_reconciler demo_rec b) (os_World s) w)\<rparr>"
    by (rule work [OF assms])
  then show ?thesis by (simp add: worked_def)
qed

lemma worked_world [simp]: "os_World (worked a k w s) = w"
  by (simp add: worked_def)

lemma worked_same: "(\<And>j. mem_at w j = mem_at (os_World s) j) \<Longrightarrow> os_Queue (worked a k w s) b = os_Queue s b - (if b = a then {k} else {})"
  by (simp add: worked_def)

text \<open>A run that changes its own resource is repeated.\<close>

lemma worked_again:
  assumes "mem_at w (su_For (setup_of mem_reconciler demo_rec a), k) \<noteq> mem_at (os_World s) (su_For (setup_of mem_reconciler demo_rec a), k)"
  shows "k \<in> os_Queue (worked a k w s) a"
  using mem_events.enq_own [OF assms] by (simp add: worked_def)

text \<open>Two runs, the second of which changes nothing, while the API server answers.\<close>

abbreviation answered_step :: "(cluster \<Rightarrow> cluster \<Rightarrow> bool) \<Rightarrow> cluster operator_state \<Rightarrow> cluster operator_state \<Rightarrow> bool" where
  "answered_step E \<equiv> \<lambda>s s'. mem_step E s s' \<and> mem_answers (os_World s')"

lemma worked_twice:
  assumes "k \<in> os_Queue s a" "mem_reconcile a k (os_World s) = (None, w1)" "mem_reconcile a k w1 = (None, w2)"
    and "mem_at w1 (su_For (setup_of mem_reconciler demo_rec a), k) \<noteq> mem_at (os_World s) (su_For (setup_of mem_reconciler demo_rec a), k)"
    and "\<And>j. mem_at w2 j = mem_at w1 j" "mem_answers w1" "mem_answers w2"
  shows "(answered_step E)\<^sup>*\<^sup>* s (worked a k w2 (worked a k w1 s))" and "k \<notin> os_Queue (worked a k w2 (worked a k w1 s)) a"
proof -
  have "answered_step E s (worked a k w1 s)" using worked_step [OF assms(1,2)] assms(6) by simp
  moreover have "mem_step E (worked a k w1 s) (worked a k w2 (worked a k w1 s))"
    by (rule worked_step) (use worked_again [of w1 a k s] assms(3,4) in simp_all)
  then have "answered_step E (worked a k w1 s) (worked a k w2 (worked a k w1 s))" using assms(7) by simp
  ultimately show "(answered_step E)\<^sup>*\<^sup>* s (worked a k w2 (worked a k w1 s))" by (rule converse_rtranclp_into_rtranclp [OF _ r_into_rtranclp])
  show "k \<notin> os_Queue (worked a k w2 (worked a k w1 s)) a" using worked_same [of w2 "worked a k w1 s"] assms(5) by simp
qed

text \<open>Changes of kinds that a controller is not registered for enqueue nothing.\<close>

lemma unregistered:
  assumes "\<And>k. mem_at w' k \<noteq> mem_at w k \<Longrightarrow> fst k \<noteq> su_For su \<and> fst k \<notin> set (su_Owns su) \<and> fst k \<notin> fst ` set (su_Watches su)"
  shows "event_requests mem_at su w w' = {}"
proof -
  have "object_requests su ob w' = {}" if ch: "mem_at w' k \<noteq> mem_at w k" and ob: "mem_at w k = Some ob \<or> mem_at w' k = Some ob" for ob k
  proof -
    have "kind_of ob = fst k" using ob mem_at_key by (fastforce simp: key_of_def)
    with assms [OF ch] have k: "kind_of ob \<noteq> su_For su" "kind_of ob \<notin> set (su_Owns su)" "\<And>f. (kind_of ob, f) \<notin> set (su_Watches su)"
      by force+
    then have "(\<Union>(kd, f) \<in> set (su_Watches su). if kd = kind_of ob then set (f ob w') else {}) = {}"
      by (auto split: if_splits)
    with k show ?thesis by (simp add: object_requests_def)
  qed
  then show ?thesis unfolding event_requests_def by blast
qed

lemma started_queue: "mem_at w (su_For (setup_of mem_reconciler demo_rec a), k) \<noteq> None \<Longrightarrow> k \<in> os_Queue (started w) a"
  by (simp add: started_def stored_requests_def)

lemma started_world [simp]: "os_World (started w) = w"
  by (simp add: started_def)

section \<open>Properties\<close>

text \<open>
  C7: No change is lost.  Start the operator with all resources queued, and let it run while other
  clients change the cluster at any time in any way except to objects that nobody is registered
  for (\<open>spares\<close>), while gets, creates, updates and deletes may fail and the process may restart.
  At every moment a guard, gateway or route that is not queued is at rest: its status is for
  its current generation and true, and if it says Ready, everything it needs is in place as the
  cluster is now.
\<close>

theorem queue_loses_nothing:
  assumes "queued_operator r gr at events enq answers"
    and "(\<lambda>s s'. operator_step r gr at enq (spares at) s s' \<and> answers (os_World s'))\<^sup>*\<^sup>* s s'"
    and "\<And>a. stored_requests at (su_For (setup_of r gr a)) (os_World s) \<subseteq> os_Queue s a" and "answers (os_World s)"
    and "req \<notin> os_Queue s' a"
  shows "at_rest r gr at (os_World s') a req"
  by (rule queued_operator.reached_rests [OF assms])

definition demo_again :: cluster where "demo_again = snd (Guard_Reconcile demo_rec demo_req demo_after)"

lemma demo_second_run:
  "Guard_Reconcile demo_rec demo_req demo_after = (None, demo_again)" "mem_at demo_again k = mem_at demo_after k"
proof -
  show r: "Guard_Reconcile demo_rec demo_req demo_after = (None, demo_again)"
    using demo_run2 by (simp add: demo_again_def prod_eq_iff)
  show "mem_at demo_again k = mem_at demo_after k"
    by (rule guard_operator.second_run [OF mem_guard.guard_operator_axioms demo_guard_at demo_run_pair conjunct2 [OF demo_run] demo_ready_facts r])
qed

lemma demo_answers: "mem_answers demo_world" "mem_answers demo_after" "mem_answers demo_again"
  by (simp_all add: mem_answers_def demo_again_def demo_after_def demo_req_def demo_world_def demo_guard_def demo_provider_def
      mem_eval guard_eval)

lemma demo_changed: "mem_at demo_after (KGuard, demo_req) \<noteq> mem_at demo_world (KGuard, demo_req)"
  using demo_guard_at conjunct2 [OF demo_run] by (simp add: demo_guard_def)

definition demo_rested :: "cluster operator_state" where
  "demo_rested = worked GuardWorker demo_req demo_again (worked GuardWorker demo_req demo_after (started demo_world))"

lemma demo_rested_steps: "(answered_step E)\<^sup>*\<^sup>* (started demo_world) demo_rested" "demo_req \<notin> os_Queue demo_rested GuardWorker"
proof -
  have q: "demo_req \<in> os_Queue (started demo_world) GuardWorker" by (rule started_queue) (simp add: demo_guard_at)
  show "(answered_step E)\<^sup>*\<^sup>* (started demo_world) demo_rested" "demo_req \<notin> os_Queue demo_rested GuardWorker"
    unfolding demo_rested_def
    by (rule worked_twice [OF q]; simp add: demo_run_pair demo_second_run demo_answers demo_changed)+
qed

theorem queue_loses_nothing_witness:
  "guard_at_rest ref_lib ''img'' (mem_at demo_again) (demo_guard\<lparr>g_Conditions := [demo_ready]\<rparr>)"
proof -
  have "at_rest mem_reconciler demo_rec mem_at (os_World demo_rested) GuardWorker demo_req"
    by (rule queue_loses_nothing [OF mem_queued.queued_operator_axioms demo_rested_steps(1) _ _ demo_rested_steps(2)])
      (simp_all add: demo_answers started_def)
  then show ?thesis
    using conjunct2 [OF demo_run] demo_second_run(2) by (simp add: demo_rested_def mem_guard_reconciler_def)
qed

lemma applied_started:
  "meta_key (g_Meta demo_guard) \<in> os_Queue (started applied_world) GuardWorker"
  "meta_key (tg_Meta demo_tg) \<in> os_Queue (started applied_world) GatewayWorker"
  "meta_key (tr_Meta demo_route) \<in> os_Queue (started applied_world) RouteWorker"
  by (rule started_queue; simp add: applied_at; simp add: demo_guard_def demo_tg_def demo_route_def new_meta_def meta_key_def)+

lemma applied_facts:
  "k_Faults (os_World (started applied_world)) = []" "r_AdapterImage demo_rec \<noteq> []"
  "applied (r_Lib mem_reconciler) mem_at (os_World (started applied_world)) demo_guard demo_tg demo_route
     (''search.apps.svc.cluster.local'', 8080, ''/mcp'')"
  using applied_demo by (simp_all add: applied_world_def mem_cluster_def mem_reconciler_def mem_guard_reconciler_def)

lemmas applied_drains = mem_draining.drains_serving [where img = "''img''" and s = "started applied_world", OF applied_facts applied_started]

text \<open>
  C9: The queues drain.  In a cluster whose API server answers, with a valid guard, its provider,
  a gateway of our class and a route as a user applies them, all queued, the operator reaches by
  running requests alone, whatever else is queued or stored, a state in which none of the three
  is queued, all three are Ready with their specs untouched, and the adapter, the gateway with
  its guardrail and the route with its filter are in place: the last run of each finds nothing
  left to write, so it neither repeats itself nor wakes the others.
\<close>

theorem operator_drains:
  assumes "draining_operator r gr at events answers healthy" and "healthy (os_World s)" and "r_AdapterImage gr \<noteq> []"
    and "applied (r_Lib r) at (os_World s) g tg rt up"
    and "meta_key (g_Meta g) \<in> os_Queue s GuardWorker" "meta_key (tg_Meta tg) \<in> os_Queue s GatewayWorker"
      "meta_key (tr_Meta rt) \<in> os_Queue s RouteWorker"
  shows "\<exists>s' g' tg' rt' data up'.
     (\<lambda>s s'. operator_step r gr at (event_requests at) E s s' \<and> answers (os_World s'))\<^sup>*\<^sup>* s s'
     \<and> meta_key (g_Meta g) \<notin> os_Queue s' GuardWorker \<and> meta_key (tg_Meta tg) \<notin> os_Queue s' GatewayWorker
     \<and> meta_key (tr_Meta rt) \<notin> os_Queue s' RouteWorker
     \<and> at (os_World s') (KGuard, meta_key (g_Meta g)) = Some (OGuard g') \<and> g' = g\<lparr>g_Conditions := g_Conditions g'\<rparr>
     \<and> guard_is_ready (r_Lib r) (Some (OGuard g')) \<and> adapter_serves (r_AdapterImage gr) g' data (at (os_World s'))
     \<and> at (os_World s') (KToolGateway, meta_key (tg_Meta tg)) = Some (OToolGateway tg')
     \<and> tg' = tg\<lparr>tg_Url := tg_Url tg', tg_Conditions := tg_Conditions tg'\<rparr> \<and> (\<exists>c. claims_gateway at (os_World s') tg' c)
     \<and> is_condition_true (r_Lib r) (tg_Conditions tg') readyConditionType \<and> gateway_serves (r_Lib r) tg' (at (os_World s'))
     \<and> at (os_World s') (KToolRoute, meta_key (tr_Meta rt)) = Some (OToolRoute rt')
     \<and> rt' = rt\<lparr>tr_Url := tr_Url rt', tr_Conditions := tr_Conditions rt'\<rparr> \<and> route_targets (at (os_World s')) rt' tg'
     \<and> is_condition_true (r_Lib r) (tr_Conditions rt') readyConditionType
     \<and> upstream_wanted (r_Lib r) rt' (at (os_World s')) up' \<and> route_serves tg' rt' up' (at (os_World s'))"
  by (rule draining_operator.drains_serving [OF assms])

theorem operator_drains_witness:
  "\<exists>s g data. (answered_step (\<lambda>_ _. False))\<^sup>*\<^sup>* (started applied_world) s
     \<and> meta_key (tr_Meta demo_route) \<notin> os_Queue s RouteWorker \<and> adapter_serves ''img'' g data (mem_at (os_World s))"
  using operator_drains [OF mem_draining.draining_operator_axioms [of "''img''"] applied_facts applied_started, of "\<lambda>_ _. False"]
  by (auto simp: mem_guard_reconciler_def)

text \<open>
  C8: A drained queue means a served route.  In every state that the operator reaches as above, take a
  route that names its gateway, with the gateway of our class.  Once the route, the gateway and
  the guards of the gateway are not queued, the route and the gateway are Ready for what they
  ask for now, the route is served with its upstream and its filter, the gateway runs with its
  guardrail in place, and the guard it names is stored, Ready, and has its adapter with the
  configuration of the guard and its provider as they are now.  So a gateway whose guard does
  not exist, or a route whose server does not, is never dropped from its queue.
\<close>

theorem quiescent_served:
  assumes "queued_operator r gr at events enq answers"
    and "(\<lambda>s s'. operator_step r gr at enq (spares at) s s' \<and> answers (os_World s'))\<^sup>*\<^sup>* s s'"
    and "\<And>a. stored_requests at (su_For (setup_of r gr a)) (os_World s) \<subseteq> os_Queue s a" and "answers (os_World s)"
    and "at (os_World s') (KToolRoute, rk) = Some (OToolRoute route)" and "tr_ToolGatewayRef route \<noteq> None"
    and "route_targets (at (os_World s')) route tg" "claims_gateway at (os_World s') tg c"
    and "rk \<notin> os_Queue s' RouteWorker" and "meta_key (tg_Meta tg) \<notin> os_Queue s' GatewayWorker"
    and "\<And>ref. ref \<in> set (tg_Guardrails tg) \<Longrightarrow> guard_ref_key tg ref \<notin> os_Queue s' GuardWorker"
  shows "ready_now (r_Lib r) (OToolRoute route) \<and> tr_Url route = route_url tg (route_path route)
     \<and> (\<exists>up. upstream_wanted (r_Lib r) route (at (os_World s')) up \<and> route_serves tg route up (at (os_World s')))
     \<and> ready_now (r_Lib r) (OToolGateway tg) \<and> gateway_serves (r_Lib r) tg (at (os_World s'))
     \<and> list_all (\<lambda>ref. \<exists>g p data. at (os_World s') (KGuard, guard_ref_key tg ref) = Some (OGuard g)
          \<and> ready_now (r_Lib r) (OGuard g)
          \<and> at (os_World s') (KGuardrailProvider, provider_key g) = Some (OGuardrailProvider p)
          \<and> l_json_to_yaml (r_Lib r) (guard_static_config g p) = Inr data
          \<and> adapter_serves (r_AdapterImage gr) g data (at (os_World s'))) (tg_Guardrails tg)"
  by (rule queued_operator.reached_served [OF assms])

theorem quiescent_served_witness:
  "\<exists>w tg rt up. tr_ToolFilter rt = Some demo_filter \<and> ready_now ref_lib (OToolRoute rt) \<and> route_serves tg rt up (mem_at w)
     \<and> gateway_serves ref_lib tg (mem_at w)
     \<and> (\<exists>ref g data. tg_Guardrails tg = [ref] \<and> mem_at w (KGuard, guard_ref_key tg ref) = Some (OGuard g)
          \<and> adapter_serves ''img'' g data (mem_at w))"
proof -
  obtain s g tg rt where s: "(answered_step (spares mem_at))\<^sup>*\<^sup>* (started applied_world) s"
    "meta_key (g_Meta demo_guard) \<notin> os_Queue s GuardWorker" "meta_key (tg_Meta demo_tg) \<notin> os_Queue s GatewayWorker"
    "meta_key (tr_Meta demo_route) \<notin> os_Queue s RouteWorker"
    and tg: "tg = demo_tg\<lparr>tg_Url := tg_Url tg, tg_Conditions := tg_Conditions tg\<rparr>" "\<exists>c. claims_gateway mem_at (os_World s) tg c"
    and rt: "mem_at (os_World s) (KToolRoute, meta_key (tr_Meta demo_route)) = Some (OToolRoute rt)"
      "rt = demo_route\<lparr>tr_Url := tr_Url rt, tr_Conditions := tr_Conditions rt\<rparr>" "route_targets (mem_at (os_World s)) rt tg"
    using applied_drains [of "spares mem_at"] by auto
  have meta: "tg_Meta tg = tg_Meta demo_tg" "tg_Guardrails tg = tg_Guardrails demo_tg" "tr_ToolGatewayRef rt = tr_ToolGatewayRef demo_route"
    "tr_ToolFilter rt = tr_ToolFilter demo_route"
    using arg_cong [OF tg(1), of tg_Meta] arg_cong [OF tg(1), of tg_Guardrails] arg_cong [OF rt(2), of tr_ToolGatewayRef]
      arg_cong [OF rt(2), of tr_ToolFilter] by simp_all
  have ref: "tg_Guardrails tg = [\<lparr>ref_Name = ''pii'', ref_Namespace = []\<rparr>]" using meta(2) by (simp add: demo_tg_def)
  have key: "guard_ref_key tg \<lparr>ref_Name = ''pii'', ref_Namespace = []\<rparr> = meta_key (g_Meta demo_guard)"
    by (simp add: guard_ref_key_def meta(1)) (simp add: demo_tg_def demo_guard_def new_meta_def meta_key_def)
  obtain c where c: "claims_gateway mem_at (os_World s) tg c" using tg(2) by blast
  have "tr_ToolGatewayRef rt \<noteq> None" using meta(3) by (simp add: demo_route_def)
  moreover have "mem_answers (os_World (started applied_world))" using applied_facts(1) by (simp add: mem_answers_def)
  moreover have "meta_key (tg_Meta tg) \<notin> os_Queue s GatewayWorker" "guard_ref_key tg rf \<notin> os_Queue s GuardWorker" if "rf \<in> set (tg_Guardrails tg)" for rf
    using s(2,3) meta(1) ref key that by simp_all
  moreover have lib: "r_Lib mem_reconciler = ref_lib" "r_AdapterImage demo_rec = ''img''" by (simp_all add: mem_reconciler_def mem_guard_reconciler_def)
  ultimately have "ready_now ref_lib (OToolRoute rt) \<and> tr_Url rt = route_url tg (route_path rt)
     \<and> (\<exists>up. upstream_wanted ref_lib rt (mem_at (os_World s)) up \<and> route_serves tg rt up (mem_at (os_World s)))
     \<and> ready_now ref_lib (OToolGateway tg) \<and> gateway_serves ref_lib tg (mem_at (os_World s))
     \<and> list_all (\<lambda>ref. \<exists>g p data. mem_at (os_World s) (KGuard, guard_ref_key tg ref) = Some (OGuard g)
          \<and> ready_now ref_lib (OGuard g)
          \<and> mem_at (os_World s) (KGuardrailProvider, provider_key g) = Some (OGuardrailProvider p)
          \<and> l_json_to_yaml ref_lib (guard_static_config g p) = Inr data
          \<and> adapter_serves ''img'' g data (mem_at (os_World s))) (tg_Guardrails tg)"
    by (intro quiescent_served [OF mem_queued.queued_operator_axioms s(1) _ _ rt(1) _ rt(3) c s(4), unfolded lib])
      (simp_all add: started_def ref)
  moreover have "tr_ToolFilter rt = Some demo_filter" using meta(4) by (simp add: demo_route_def)
  ultimately show ?thesis using ref unfolding list_all_iff by fastforce
qed

end
