(* ===== verification/MissedEvents.thy ===== *)
theory MissedEvents
  imports QuiescenceProperties
begin

text \<open>
  The changes that no event delivers: what \<open>spares\<close> and \<open>answers\<close> of the previous theories rule
  out, shown by runs of the operator on the reference cluster.
\<close>

abbreviation follows :: "(cluster \<Rightarrow> cluster) \<Rightarrow> cluster \<Rightarrow> cluster \<Rightarrow> bool" where
  "follows f \<equiv> \<lambda>w w'. w' = f w"

text \<open>Another client makes its change.\<close>

definition notified :: "cluster \<Rightarrow> cluster operator_state \<Rightarrow> cluster operator_state" where
  "notified w s = \<lparr>os_World = w,
     os_Queue = (\<lambda>b. os_Queue s b \<union> event_requests mem_at (setup_of mem_reconciler demo_rec b) (os_World s) w)\<rparr>"

lemma notified_step: "E (os_World s) w \<Longrightarrow> mem_step E s (notified w s)"
  unfolding notified_def by (rule others)

lemma notified_world [simp]: "os_World (notified w s) = w"
  by (simp add: notified_def)

section \<open>A class that arrives late\<close>

definition lone_world :: cluster where "lone_world = mem_cluster [OToolGateway demo_tg]"

abbreviation with_class :: "cluster \<Rightarrow> cluster" where "with_class \<equiv> put_obj (OToolGatewayClass demo_class)"

lemma lone_at: "mem_at lone_world k = (if k = (KToolGateway, tg_req) then Some (OToolGateway demo_tg) else None)"
  by (simp add: lone_world_def mem_cluster_def mem_at_def key_of_def tg_req_def) (auto simp: demo_tg_def new_meta_def meta_key_def)

lemma lone_run: "ToolGateway_Reconcile mem_reconciler tg_req lone_world = (None, lone_world)"
  by (simp add: lone_world_def tg_req_def demo_tg_def mem_eval gateway_eval)

text \<open>
  C35: A class is not watched.  A gateway that is reconciled before its ToolGatewayClass exists is
  skipped as not ours; when the class is created afterwards, no event enqueues the gateway.  The
  operator then has nothing to do, while a class of ours claims a gateway that is not Ready.
\<close>

theorem class_change_unnoticed:
  "\<exists>s. (mem_step (follows with_class))\<^sup>*\<^sup>* (started lone_world) s \<and> idle s
     \<and> mem_at (os_World s) (KToolGateway, tg_req) = Some (OToolGateway demo_tg)
     \<and> claims_gateway mem_at (os_World s) demo_tg demo_class \<and> \<not> ready_now ref_lib (OToolGateway demo_tg)"
proof -
  let ?s1 = "worked GatewayWorker tg_req lone_world (started lone_world)"
  let ?s2 = "notified (with_class lone_world) ?s1"
  have "tg_req \<in> os_Queue (started lone_world) GatewayWorker" by (rule started_queue) (simp add: lone_at)
  then have "mem_step (follows with_class) (started lone_world) ?s1" by (rule worked_step) (simp add: lone_run)
  moreover have "mem_step (follows with_class) ?s1 ?s2" by (rule notified_step) simp
  ultimately have steps: "(mem_step (follows with_class))\<^sup>*\<^sup>* (started lone_world) ?s2" by simp
  have at: "mem_at (with_class lone_world) k = (if k = key_of (OToolGatewayClass demo_class) then Some (OToolGatewayClass demo_class) else mem_at lone_world k)" for k
    by (rule mem_at_put)
  have "event_requests mem_at (setup_of mem_reconciler demo_rec b) lone_world (with_class lone_world) = {}" for b
    by (rule unregistered, cases b)
      (auto simp: at key_of_def Guard_SetupWithManager_def ToolGateway_SetupWithManager_def ToolRoute_SetupWithManager_def
        KParameters_def KPolicy_def split: if_splits)
  moreover have "os_Queue ?s1 b = {}" for b
    by (cases b) (auto simp: worked_same started_def stored_requests_def lone_at split: if_splits)
  ultimately have "idle ?s2" by (simp add: idle_def notified_def)
  moreover have "claims_gateway mem_at (os_World ?s2) demo_tg demo_class"
    by (simp add: claims_gateway_def at) (simp add: demo_class_def demo_tg_def new_meta_def)
  moreover have "mem_at (os_World ?s2) (KToolGateway, tg_req) = Some (OToolGateway demo_tg)" by (simp add: at key_of_def lone_at)
  moreover have "\<not> ready_now ref_lib (OToolGateway demo_tg)" by (simp add: ready_now_def demo_tg_def ref_find_condition_def)
  ultimately show ?thesis using steps by blast
qed

section \<open>A filter policy that is deleted\<close>

definition route_again_world :: cluster where
  "route_again_world = snd (ToolRoute_Reconcile mem_reconciler route_req route_after)"

lemma route_again_run:
  "ToolRoute_Reconcile mem_reconciler route_req route_after = (None, route_again_world)" "mem_at route_again_world k = mem_at route_after k"
proof -
  show r: "ToolRoute_Reconcile mem_reconciler route_req route_after = (None, route_again_world)"
    using route_run_again unfolding route_again_world_def .
  have ref: "tr_ToolGatewayRef demo_route \<noteq> None" by (simp add: demo_route_def)
  show "mem_at route_again_world k = mem_at route_after k"
    using gateway_operator.route_second_run [OF mem_gateway.gateway_operator_axioms route_run_demo(1) route_at ref route_run_demo(2) route_ready_facts r]
    by blast
qed

lemma route_answers: "mem_answers route_after" "mem_answers route_again_world"
  by (simp_all add: mem_answers_def route_again_world_def route_after_def route_req_def route_world_def demo_route_def demo_tg_def
      demo_class_def demo_server_def mem_eval route_eval)

abbreviation filter_key :: okey where "filter_key \<equiv> (KPolicy, filter_policy_key demo_tg demo_route)"

text \<open>
  C36: A deleted filter policy is not restored.  Once a route is Ready and off its queue, deleting
  the policy that enforces its filter enqueues nothing for it: the route says Ready for what it
  asks for, while an engine that reads the stored policies admits a tool that the filter denies.
\<close>

theorem filter_removal_unnoticed:
  "\<exists>s. (mem_step (follows (del_obj filter_key)))\<^sup>*\<^sup>* (started route_world) s \<and> route_req \<notin> os_Queue s RouteWorker
     \<and> mem_at (os_World s) (KToolRoute, route_req) = Some (OToolRoute route_stored) \<and> ready_now ref_lib (OToolRoute route_stored)
     \<and> rules_admit accepts (stored_rules (mem_at (os_World s)) filter_key) ''gxx''
     \<and> \<not> tool_allowed (tr_ToolFilter route_stored) ''gxx''"
proof -
  let ?s = "worked RouteWorker route_req route_again_world (worked RouteWorker route_req route_after (started route_world))"
  let ?w = "del_obj filter_key route_again_world"
  have q: "route_req \<in> os_Queue (started route_world) RouteWorker" by (rule started_queue) (simp add: route_at)
  have ch: "mem_at route_after (KToolRoute, route_req) \<noteq> mem_at route_world (KToolRoute, route_req)"
    unfolding route_at route_run_demo(2) by (simp add: route_stored_def) (simp add: demo_route_def)
  have twice: "(answered_step E)\<^sup>*\<^sup>* (started route_world) ?s" "route_req \<notin> os_Queue ?s RouteWorker" for E
    by (rule worked_twice [OF q]; simp add: route_run_demo(1) route_again_run route_answers ch)+
  have "(mem_step E)\<^sup>*\<^sup>* (started route_world) ?s" for E by (rule rtranclp_mono [THEN predicate2D, OF _ twice(1) [of E]]) blast
  moreover have "mem_step (follows (del_obj filter_key)) ?s (notified ?w ?s)" by (rule notified_step) simp
  ultimately have steps: "(mem_step (follows (del_obj filter_key)))\<^sup>*\<^sup>* (started route_world) (notified ?w ?s)"
    by (rule rtranclp.rtrancl_into_rtrancl)
  have at: "mem_at ?w k = (if k = filter_key then None else mem_at route_again_world k)" for k by (rule mem_at_del)
  have "event_requests mem_at (setup_of mem_reconciler demo_rec RouteWorker) route_again_world ?w = {}"
    by (rule unregistered) (auto simp: mem_at_del ToolRoute_SetupWithManager_def KPolicy_def split: if_splits)
  then have "route_req \<notin> os_Queue (notified ?w ?s) RouteWorker" using twice(2) by (simp add: notified_def)
  moreover have "mem_at (os_World (notified ?w ?s)) (KToolRoute, route_req) = Some (OToolRoute route_stored)"
    using route_run_demo(2) by (simp add: mem_at_del route_again_run(2) KPolicy_def)
  moreover have "ready_now ref_lib (OToolRoute route_stored)"
    using route_ready_facts(1,3) by (simp add: ready_now_def mem_reconciler_def route_ready_cond_def route_stored_def demo_route_def new_meta_def)
  moreover have "stored_rules (mem_at (os_World (notified ?w ?s))) filter_key = []" by (simp add: stored_rules_def at)
  moreover have "\<not> tool_allowed (tr_ToolFilter route_stored) ''gxx''" by (simp add: route_stored_def demo_route_def demo_filter_def ascii_eval)
  ultimately show ?thesis using steps by (auto simp: rules_admit_def)
qed

section \<open>A status patch that is lost\<close>

definition lose_provider :: "cluster \<Rightarrow> cluster" where
  "lose_provider w = (del_obj (KGuardrailProvider, (''ns'', ''presidio'')) w)\<lparr>k_Faults := [(CallPatchStatus (KGuard, demo_req), Conflict, ''busy'')]\<rparr>"

lemma lost_provider_run:
  "Guard_Reconcile demo_rec demo_req (lose_provider demo_after) = (None, lose_provider demo_after)"
  by (simp add: lose_provider_def demo_after_def demo_req_def demo_world_def demo_guard_def demo_provider_def mem_eval guard_eval)

text \<open>
  C37: A lost status patch is not repeated.  When the provider of a Ready guard is deleted and the
  patch that should say so is rejected, the reconcile returns no error: the request leaves the
  queue, and the guard stays Ready for its current generation without a provider.
\<close>

theorem guard_status_stale:
  "\<exists>s. (mem_step (follows lose_provider))\<^sup>*\<^sup>* (started demo_world) s \<and> demo_req \<notin> os_Queue s GuardWorker
     \<and> mem_at (os_World s) (KGuard, demo_req) = Some (OGuard (demo_guard\<lparr>g_Conditions := [demo_ready]\<rparr>))
     \<and> ready_now ref_lib (OGuard (demo_guard\<lparr>g_Conditions := [demo_ready]\<rparr>))
     \<and> mem_at (os_World s) (KGuardrailProvider, provider_key demo_guard) = None"
proof -
  let ?E = "follows lose_provider" and ?w = "lose_provider demo_after"
  let ?s1 = "worked GuardWorker demo_req demo_after (started demo_world)"
  let ?s2 = "notified ?w ?s1"
  let ?s3 = "worked GuardWorker demo_req ?w ?s2"
  have "demo_req \<in> os_Queue (started demo_world) GuardWorker" by (rule started_queue) (simp add: demo_guard_at)
  then have 1: "mem_step ?E (started demo_world) ?s1" by (rule worked_step) (simp add: demo_run_pair)
  have 2: "mem_step ?E ?s1 ?s2" by (rule notified_step) simp
  have "demo_req \<in> os_Queue ?s1 GuardWorker" by (rule worked_again) (simp add: demo_changed)
  then have "demo_req \<in> os_Queue ?s2 GuardWorker" by (simp add: notified_def)
  then have 3: "mem_step ?E ?s2 ?s3" by (rule worked_step) (simp add: lost_provider_run)
  have at: "mem_at ?w k = (if k = (KGuardrailProvider, (''ns'', ''presidio'')) then None else mem_at demo_after k)" for k
    using mem_at_del [of "(KGuardrailProvider, (''ns'', ''presidio''))" demo_after k] by (simp add: lose_provider_def mem_at_def)
  have "demo_req \<notin> os_Queue ?s3 GuardWorker" using worked_same [of ?w ?s2] by simp
  moreover have "mem_at (os_World ?s3) (KGuard, demo_req) = Some (OGuard (demo_guard\<lparr>g_Conditions := [demo_ready]\<rparr>))"
    using demo_run by (simp add: at)
  moreover have "ready_now ref_lib (OGuard (demo_guard\<lparr>g_Conditions := [demo_ready]\<rparr>))"
    using demo_ready_facts by (simp add: ready_now_def mem_guard_reconciler_def guardReadyType_def readyConditionType_def demo_ready_def demo_guard_def new_meta_def)
  moreover have "mem_at (os_World ?s3) (KGuardrailProvider, provider_key demo_guard) = None"
    by (simp add: at) (simp add: provider_key_def demo_guard_def new_meta_def)
  ultimately show ?thesis using 1 2 3 by (meson rtranclp.rtrancl_into_rtrancl rtranclp.rtrancl_refl)
qed

end
