(* ===== verification/Spec2Isabelle.thy ===== *)
theory Spec2Isabelle
  imports GuardProperties GatewayProperties ComponentProperties RouteProperties SystemProperties ManagerProperties
    ConcurrencyProperties MissedEvents
begin

text \<open>
  The tool gateway operator, verified.

  The program.  A Kubernetes operator (package \<open>internal/controller\<close>, started by \<open>cmd/main.go\<close>)
  with three controllers.  A \<open>Guard\<close> becomes an adapter: a ConfigMap with a rendered
  configuration, a Deployment whose pod template carries its hash, and a Service.  A \<open>ToolGateway\<close>
  becomes a Gateway with its \<open>AgentgatewayParameters\<close> and, when it names a guard, an
  \<open>AgentgatewayPolicy\<close> that sends the gateway's traffic through the guard's adapter.  A
  \<open>ToolRoute\<close> becomes an \<open>AgentgatewayBackend\<close> for its upstream, an HTTPRoute on its gateway
  and, when it has a tool filter, an \<open>AgentgatewayPolicy\<close> with the filter as CEL rules.  The
  controllers share no memory: they interact through the objects in the cluster (a route reads
  its gateway and the classes, a gateway the Ready condition of its guard), and watches with
  mapping functions enqueue what an event concerns.

  How it is modelled.  A run of a controller is a function from the request and the world to the
  returned error and the new world; every return of the Go function is a branch of it.  The
  world, the client and the helper packages are parameters: \<open>KubeClient\<close> has them as records of
  functions (\<open>client\<close>, \<open>klib\<close>), and its locales state what is relied on (\<open>kube_client\<close>: a call
  touches only its own key, what a write stores is what the mutate function gave up to the fields
  the server sets, a failed call may or may not have been applied; \<open>condition_lib\<close>, \<open>owner_lib\<close>,
  \<open>nested_lib\<close>).  \<open>KubeMemory\<close> is a cluster in memory, with faults that can be injected, that
  satisfies all of them and on which every witness runs.  The Go standard library is modelled
  where the code uses it, not assumed: \<open>GoStd\<close> (errors, strings, \<open>strconv\<close>, \<open>regexp.QuoteMeta\<close>),
  \<open>GoUtf8\<close>, \<open>GoJson\<close>, \<open>GoUrl\<close>, \<open>Sha256\<close>, and \<open>flag\<close>, slices and \<open>filepath.Join\<close> in \<open>Manager\<close>.

  The theories, by source file.
  \<^item> \<open>guard_static_config.go\<close>: \<open>GuardConfig\<close>.  \<open>guard_reconciler.go\<close>: \<open>GuardReconciler\<close>,
    properties in \<open>GuardProperties\<close>.
  \<^item> \<open>class_ownership.go\<close>: \<open>ClassOwnership\<close>.  \<open>otel.go\<close>: \<open>Otel\<close>.  \<open>resources.go\<close>: \<open>Resources\<close>.
    \<open>toolroute_authz.go\<close>: \<open>ToolAuthz\<close>, and \<open>CelReading\<close> for what its rules mean.  Their
    properties are in \<open>ComponentProperties\<close>.
  \<^item> \<open>toolgateway_reconciler.go\<close>: \<open>ToolGatewayReconciler\<close>, properties in \<open>GatewayProperties\<close>.
  \<^item> \<open>toolroute_reconciler.go\<close>: \<open>ToolRouteReconciler\<close>, external URLs in \<open>Upstream\<close>, whole runs in
    \<open>RouteRuns\<close>, properties in \<open>RouteProperties\<close>.
  \<^item> \<open>main.go\<close>: \<open>Manager\<close>, properties in \<open>ManagerProperties\<close>.
  \<^item> The controllers together: \<open>OperatorSystem\<close> (steps, reachable states), \<open>RouteStability\<close> (no
    interference), \<open>Liveness\<close> (what is reached when the API server answers), properties in
    \<open>SystemProperties\<close>.
  \<^item> The controllers at the same time, call by call: \<open>ApiPrograms\<close> (runs as programs of API calls,
    correctness under interference), \<open>ReconcilePrograms\<close> (the three reconcilers as programs),
    \<open>Interference\<close> and \<open>ReadyStatus\<close> (writes and Ready conditions while others act),
    \<open>GuardInterference\<close>, \<open>GatewayInterference\<close>, \<open>RouteInterference\<close> (each controller among the
    others), \<open>Workers\<close> (the pool of workers), properties in \<open>ConcurrencyProperties\<close>.
  \<^item> The watches and the work queues: \<open>WorkQueue\<close> (delivery of events, queues, what it means that a
    resource is at rest), \<open>RestRuns\<close> (what a run leaves), \<open>Quiescence\<close> (every resource is queued or
    at rest), \<open>Drains\<close> (runs with nothing left to do), properties in \<open>QuiescenceProperties\<close>, and
    \<open>MissedEvents\<close> for the changes that nobody is told of.

  Two views of a run.  In \<open>GuardReconciler\<close>, \<open>ToolGatewayReconciler\<close> and \<open>ToolRouteReconciler\<close> a
  run is one function on the world; the properties of single runs and of their sequences are
  stated there.  In \<open>ReconcilePrograms\<close> the same code is a tree of API calls (\<open>X_prog\<close> for the
  function \<open>X\<close>), so that runs can be interleaved; \<open>programs_are_reconcilers\<close> shows that a program
  run without interruption is the function.  A step of the pool of \<open>Workers\<close> is one call of one
  worker (each controller has one, the default of controller-runtime, which \<open>main.go\<close> does not
  change), the start of a run on any request, a restart of the process in the middle of its
  runs, or an action of other clients.  What these may do is part of each property: they leave
  the objects a controller writes and the inputs it reads by name (providers, tool servers)
  alone, create and edit the controller's own resources (\<open>edits\<close>: an edit keeps the status and
  moves the generation on), and do what they like to everything else.  The proofs are
  rely-guarantee: \<open>sat\<close> is an invariant of a program that holds between any two calls whatever
  the environment does, and the calls of the other workers are such an environment because the
  areas the controllers write are disjoint.

  Watches and queues.  \<open>operator_step\<close> of \<open>WorkQueue\<close> adds to a run of a controller what decides
  whether it happens: the queue of each controller, the requests that an event enqueues as the
  three \<open>SetupWithManager\<close> declare it (the resource itself, the controller owner of an owned
  object, what the mapping functions find), the retry after an error, and a restart that lists
  all resources.  A run is one step there, and an event is delivered before the next step; the
  delivery may enqueue more than it must (\<open>event_delivery\<close>), except where draining is shown.  The
  invariant is that a resource which is not queued is at rest (\<open>at_rest\<close>): its status is for its
  current generation, and what it says is so in the cluster as it is now.  It needs two things
  of the world, both of which the code relies on without saying so.  Other clients leave alone
  what nobody is registered for (\<open>spares\<close>): the backend and the filter policy of a route, the
  operator's classes, and policies created under the operator's names.  And lists and status
  patches are answered (\<open>answers\<close>): a mapping function that cannot list drops its event, and some
  failed status patches are only logged.  \<open>MissedEvents\<close> shows that neither can be dropped.  The
  periodic resync of the informers (ten hours by default), which in the end repairs some of
  these, is not modelled.

  Definitions have the names of the functions they model; the mutate function that an \<open>ensureX\<close>
  passes to \<open>CreateOrPatch\<close> is \<open>x_mutate\<close>, the status it writes \<open>tg_ready\<close>, \<open>tr_ready\<close>,
  \<open>set_guard_ready\<close> and so on.  The structs of the API objects are the records of \<open>KubeObjects\<close>.

  What is shown.
  \<^item> Each controller: what is in place when it writes Ready (\<open>gateway_serves\<close>, \<open>route_serves\<close>,
    \<open>adapter_serves\<close>), that a Ready=False condition names the phase that failed
    (\<open>failed_phase\<close>, \<open>route_failed_phase\<close>) and what the phases before it left, which objects a
    run may touch, that objects of other controllers are not overwritten, and that the watches
    enqueue exactly what an event concerns.  A second run changes nothing on a server that stores
    what it is sent; \<open>guardrail_rewritten\<close> shows what a server that fills in fields does to that.
  \<^item> Each component: the rules of a tool filter admit exactly the tools the filter allows, read by
    any CEL engine that follows the language on the fragment used; the telemetry, the
    parameters and the adapter's configuration are what \<open>documented_tracing\<close>,
    \<open>documented_telemetry\<close> and \<open>documented_adapter\<close> say, which are written from the documentation
    and share nothing with the builders; header lists, upstream URLs and the command line round-trip; an external upstream
    has a port from 1 to 65535.
  \<^item> The operator: the statuses stay well formed in all reachable states; a route that is Ready keeps its
    objects whatever the controllers do next, even when the names of two routes collide; and from
    a valid set of user objects a run of each controller makes all of them Ready.
  \<^item> Concurrency: with all calls of the three workers and of other clients interleaved, a guard, a
    gateway or a route that is Ready for its current generation is backed by its objects at every
    moment; a worker only writes objects no other worker writes; and every run ends after at most
    6, 10 or 13 steps (a \<open>CreateOrPatch\<close> is one of them, so these are not numbers of requests).
  \<^item> Startup: when \<open>main\<close> starts the manager, exactly the controllers, certificate watchers and
    health checks that are to run have been added to it, once each (\<open>main_counts\<close>, \<open>main_order\<close>),
    and the two servers have the TLS options, certificates and access filter of the flags.
  \<^item> The watches together: no change is lost, so a route that is not queued, on a gateway that is
    not queued with guards that are not queued, is served as the cluster asks now; and the queues
    do drain: runs on what is in place succeed, write nothing and enqueue nothing.

  Bounds and fuel.  Ports are 32-bit words.  The JSON parser of \<open>GoJson\<close> and the CEL parser of
  \<open>CelReading\<close> take fuel.  JSON is read with more than the length of the input, which is always
  enough (\<open>parse_value_fuel\<close>); CEL with four times the number of tokens and eight more, which is
  enough for every rule the operator writes (\<open>cel_parse_allow\<close>, \<open>cel_parse_deny\<close>,
  \<open>cel_parse_both\<close>).  Nothing else is bounded.

  What is not modelled.  The registration of the API types in \<open>init\<close> of \<open>main.go\<close>, log lines, the
  RBAC markers, and the helpers of the test suite.  Times in conditions are constant.  The API
  server is taken to store what it is sent: no finalizers, and no defaulting by the server, although
  the schemas in the repository do default some fields that the operator leaves unset (\<open>group\<close> and
  \<open>kind\<close> of the references in HTTPRoutes and guardrail policies).  A server that does reports an
  update at every run, as \<open>guardrail_rewritten\<close> shows; what is said of contents is then to be read
  of what the operator sends.  Reads see
  the cluster as it is when the call is made: the lag of the informer cache is not modelled.  A
  \<open>CreateOrPatch\<close> is one step, although it is a read and a write of one object; in the executions
  considered here nobody else writes that object in between.  Other clients
  do not delete a resource and create it again under the same name in the middle of a run on it: a
  status patch carries no precondition, so it would reach the new resource.
\<close>

end
